(* ===== verification/Tardus_Prelude.thy ===== *)
theory Tardus_Prelude
  imports Main "HOL-Library.Word"
begin

text \<open>
  Shared vocabulary of the development: the machine integers and byte strings of the Rust
  sources, the outcome of a fallible Rust function (\<open>Ok\<close>, \<open>Err\<close>, or a panic), the integer
  operations of the standard library that the sources call by name (\<open>checked_add\<close>,
  \<open>saturating_add\<close>, \<open>saturating_sub\<close>, \<open>to_le_bytes\<close>, \<open>from_le_bytes\<close>), and the reader
  interface that the hand-written and derived Borsh decoders are written against.

  The locale \<open>codec\<close> is the contract between every encoder and its decoder: reading an encoded
  value back consumes exactly its bytes and leaves the rest of the input alone. Its consequences
  (injectivity, prefix freedom, strict decoding) are proved once here and interpreted for every
  format of the program.
\<close>

unbundle bit_operations_syntax

section \<open>Machine integers and byte strings\<close>

type_synonym u8 = "8 word"
type_synonym u16 = "16 word"
type_synonym u32 = "32 word"
type_synonym u64 = "64 word"
type_synonym u128 = "128 word"
type_synonym bytes = "u8 list"

text \<open>ASCII literals such as \<open>b"tardus"\<close> are written as HOL strings and read as bytes.\<close>

definition ascii :: "string \<Rightarrow> bytes" where
  "ascii s = map (\<lambda>c. word_of_nat (of_char c)) s"

section \<open>Outcomes of Rust functions\<close>

datatype ('a, 'e) result = Ok 'a | Err 'e | Panic

text \<open>
  The \<open>?\<close> operator: continue with the value, or return the error. A panic aborts everything.
\<close>

fun rbind :: "('a, 'e) result \<Rightarrow> ('a \<Rightarrow> ('b, 'e) result) \<Rightarrow> ('b, 'e) result" where
  "rbind (Ok x) f = f x"
| "rbind (Err e) f = Err e"
| "rbind Panic f = Panic"

text \<open>The same in a handler that owns state: stop with the error and the state as it is.\<close>

fun or_return :: "('a, 'e) result \<Rightarrow> 'st \<Rightarrow> ('a \<Rightarrow> ('b, 'e) result \<times> 'st) \<Rightarrow> ('b, 'e) result \<times> 'st" where
  "or_return (Ok x) st f = f x"
| "or_return (Err e) st f = (Err e, st)"
| "or_return Panic st f = (Panic, st)"

fun map_err :: "('e \<Rightarrow> 'd) \<Rightarrow> ('a, 'e) result \<Rightarrow> ('a, 'd) result" where
  "map_err g (Ok x) = Ok x"
| "map_err g (Err e) = Err (g e)"
| "map_err g Panic = Panic"

fun ok_or :: "'e \<Rightarrow> 'a option \<Rightarrow> ('a, 'e) result" where
  "ok_or e None = Err e"
| "ok_or e (Some x) = Ok x"

text \<open>\<open>expect\<close> on an option: a panic when there is no value.\<close>

fun expect_some :: "'a option \<Rightarrow> ('a, 'e) result" where
  "expect_some None = Panic"
| "expect_some (Some x) = Ok x"

text \<open>\<open>expect\<close> on a result: an error becomes a panic.\<close>

fun expect_ok :: "('a, 'e) result \<Rightarrow> ('a, 'd) result" where
  "expect_ok (Ok x) = Ok x"
| "expect_ok (Err e) = Panic"
| "expect_ok Panic = Panic"

text \<open>Indexing a slice panics out of bounds.\<close>

definition index_at :: "'a list \<Rightarrow> nat \<Rightarrow> ('a, 'e) result" where
  "index_at xs i = (if i < length xs then Ok (xs ! i) else Panic)"

section \<open>Standard-library integer operations\<close>

definition checked_add :: "'a::len word \<Rightarrow> 'a word \<Rightarrow> 'a word option" where
  "checked_add a b = (if unat a + unat b < 2 ^ LENGTH('a) then Some (a + b) else None)"

definition saturating_add :: "'a::len word \<Rightarrow> 'a word \<Rightarrow> 'a word" where
  "saturating_add a b = (if unat a + unat b < 2 ^ LENGTH('a) then a + b else - 1)"

definition saturating_sub :: "'a::len word \<Rightarrow> 'a word \<Rightarrow> 'a word" where
  "saturating_sub a b = (if b \<le> a then a - b else 0)"

text \<open>Little-endian encoding of a word in \<open>n\<close> bytes, and its inverse.\<close>

definition to_le_bytes :: "nat \<Rightarrow> 'a::len word \<Rightarrow> bytes" where
  "to_le_bytes n w = map (\<lambda>i. ucast (drop_bit (8 * i) w)) [0..<n]"

fun from_le_bytes :: "bytes \<Rightarrow> 'a::len word" where
  "from_le_bytes [] = 0"
| "from_le_bytes (b # bs) = ucast b OR push_bit 8 (from_le_bytes bs)"

section \<open>Readers\<close>

text \<open>
  A decoder reads a prefix of its input and returns the value with the remaining bytes; every
  failure of a decoder is an I/O error that its callers do not tell apart, so it is \<open>None\<close>.
\<close>

type_synonym 'a reader = "bytes \<Rightarrow> ('a \<times> bytes) option"

definition read_exact :: "nat \<Rightarrow> bytes reader" where
  "read_exact n bs = (if n \<le> length bs then Some (take n bs, drop n bs) else None)"

definition rd_bind :: "'a reader \<Rightarrow> ('a \<Rightarrow> 'b reader) \<Rightarrow> 'b reader" where
  "rd_bind r f bs = (case r bs of None \<Rightarrow> None | Some (x, rest) \<Rightarrow> f x rest)"

definition rd_return :: "'a \<Rightarrow> 'a reader" where
  "rd_return x bs = Some (x, bs)"

definition rd_fail :: "'a reader" where
  "rd_fail bs = None"

definition rd_word :: "nat \<Rightarrow> 'a::len word reader" where
  "rd_word n = rd_bind (read_exact n) (\<lambda>bs. rd_return (from_le_bytes bs))"

fun rd_many :: "nat \<Rightarrow> 'a reader \<Rightarrow> 'a list reader" where
  "rd_many 0 r = rd_return []"
| "rd_many (Suc n) r = rd_bind r (\<lambda>x. rd_bind (rd_many n r) (\<lambda>xs. rd_return (x # xs)))"

text \<open>Borsh's \<open>try_from_slice\<close>: decode, and reject input with bytes left over.\<close>

definition try_from_slice :: "'a reader \<Rightarrow> bytes \<Rightarrow> 'a option" where
  "try_from_slice r bs = (case r bs of Some (x, []) \<Rightarrow> Some x | _ \<Rightarrow> None)"

text \<open>
  Borsh's layout of a sequence: a \<open>u32\<close> length followed by the elements. Serialisation fails when
  the length does not fit, which the well-formedness predicates exclude.
\<close>

definition ser_seq :: "('a \<Rightarrow> bytes) \<Rightarrow> 'a list \<Rightarrow> bytes" where
  "ser_seq f xs = to_le_bytes 4 (word_of_nat (length xs) :: u32) @ concat (map f xs)"

definition de_seq :: "'a reader \<Rightarrow> 'a list reader" where
  "de_seq r = rd_bind (rd_word 4) (\<lambda>n :: u32. rd_many (unat n) r)"

definition rd_byte :: "u8 reader" where
  "rd_byte = rd_bind (read_exact 1) (\<lambda>bs. rd_return (hd bs))"

section \<open>Automation shared by the components\<close>

named_theorems codec_simps \<open>reading back what an encoder wrote\<close>
named_theorems len_simps \<open>lengths of encodings\<close>

subsection \<open>Outcomes\<close>

lemma rbind_eq_Ok [simp]: "rbind r f = Ok y \<longleftrightarrow> (\<exists>x. r = Ok x \<and> f x = Ok y)"
  by (cases r) auto

lemma or_return_Ok [simp]: "or_return r st f = (Ok y, st') \<longleftrightarrow> (\<exists>x. r = Ok x \<and> f x = (Ok y, st'))"
  by (cases r) auto

lemma or_return_frame:
  assumes "P st" and "\<And>x. r = Ok x \<Longrightarrow> P (snd (f x))"
  shows "P (snd (or_return r st f))"
  using assms by (cases r) auto

lemma or_return_rule:
  assumes "\<And>e. r = Err e \<Longrightarrow> Q (Err e, st)" and "r = Panic \<Longrightarrow> Q (Panic, st)" and "\<And>x. r = Ok x \<Longrightarrow> Q (f x)"
  shows "Q (or_return r st f)"
  using assms by (cases r) auto

lemma rbind_eq_Err: "rbind r f = Err e \<longleftrightarrow> r = Err e \<or> (\<exists>x. r = Ok x \<and> f x = Err e)"
  by (cases r) auto

lemma rbind_eq_Panic: "rbind r f = Panic \<longleftrightarrow> r = Panic \<or> (\<exists>x. r = Ok x \<and> f x = Panic)"
  by (cases r) auto

lemma rbind_assoc: "rbind (rbind r f) g = rbind r (\<lambda>x. rbind (f x) g)"
  by (cases r) auto

lemma map_err_eq_Ok [simp]: "map_err g r = Ok x \<longleftrightarrow> r = Ok x"
  by (cases r) auto

lemma map_err_eq_Err: "map_err g r = Err d \<longleftrightarrow> (\<exists>e. r = Err e \<and> d = g e)"
  by (cases r) auto

lemma map_err_eq_Panic [simp]: "map_err g r = Panic \<longleftrightarrow> r = Panic"
  by (cases r) auto

lemma ok_or_eq_Ok [simp]: "ok_or e r = Ok x \<longleftrightarrow> r = Some x"
  by (cases r) auto

lemma ok_or_eq_Err: "ok_or e r = Err d \<longleftrightarrow> r = None \<and> d = e"
  by (cases r) auto

lemma ok_or_not_Panic [simp]: "ok_or e r \<noteq> Panic"
  by (cases r) auto

lemma expect_some_eq_Ok [simp]: "expect_some r = Ok x \<longleftrightarrow> r = Some x"
  by (cases r) auto

lemma expect_ok_eq_Ok [simp]: "expect_ok r = Ok x \<longleftrightarrow> r = Ok x"
  by (cases r) auto

lemma index_at_eq_Ok [simp]: "index_at xs i = Ok x \<longleftrightarrow> i < length xs \<and> x = xs ! i"
  by (auto simp: index_at_def)

lemma index_at_in [simp]: "i < length xs \<Longrightarrow> index_at xs i = Ok (xs ! i)"
  by (simp add: index_at_def)

subsection \<open>Integer operations\<close>

lemma checked_add_Some:
  "checked_add a b = Some c \<longleftrightarrow> unat a + unat b < 2 ^ LENGTH('a) \<and> c = a + (b :: 'a::len word)"
  by (auto simp: checked_add_def)

lemma unat_add_no_overflow:
  "unat a + unat b < 2 ^ LENGTH('a) \<Longrightarrow> unat (a + b :: 'a::len word) = unat a + unat b"
  by (simp add: unat_word_ariths)

lemma unat_less: "unat (w :: 'a::len word) < 2 ^ LENGTH('a)"
  by (rule unsigned_less)

lemma unat_word_of_nat: "n < 2 ^ LENGTH('a) \<Longrightarrow> unat (word_of_nat n :: 'a::len word) = n"
  by (simp add: unat_of_nat)

lemma unat_ucast_up:
  assumes "LENGTH('a) \<le> LENGTH('b)"
  shows "unat (ucast (w :: 'a::len word) :: 'b::len word) = unat w"
proof -
  have "unat w < 2 ^ LENGTH('b)"
    using unat_less [of w] assms by (meson less_le_trans one_le_numeral power_increasing)
  then show ?thesis by (simp add: unsigned_ucast_eq take_bit_nat_eq_self)
qed

lemma unat_minus_one_word_eq: "unat (- 1 :: 'a::len word) = 2 ^ LENGTH('a) - 1"
  by (simp add: unsigned_minus_1_eq_mask mask_eq_exp_minus_1)

lemma unat_saturating_add:
  "unat (saturating_add a b :: 'a::len word) = min (unat a + unat b) (2 ^ LENGTH('a) - 1)"
  by (auto simp: saturating_add_def unat_word_ariths unat_minus_one_word_eq min_def)

lemma unat_saturating_sub: "unat (saturating_sub a b) = unat a - unat b"
  by (auto simp: saturating_sub_def unat_sub word_le_nat_alt)

subsection \<open>Little-endian words\<close>

lemma length_to_le_bytes [simp, len_simps]: "length (to_le_bytes n w) = n"
  by (simp add: to_le_bytes_def)

lemma bit_from_le_bytes:
  "bit (from_le_bytes bs :: 'a::len word) k \<longleftrightarrow>
     k < LENGTH('a) \<and> k div 8 < length bs \<and> bit (bs ! (k div 8)) (k mod 8)"
proof (induction bs arbitrary: k)
  case Nil
  then show ?case by simp
next
  case (Cons b bs)
  show ?case
  proof (cases "k < 8")
    case True
    then show ?thesis by (auto simp: bit_simps)
  next
    case False
    then obtain j where k: "k = j + 8" by (metis add.commute le_Suc_ex not_less)
    have "\<not> bit b k" using False by (auto dest: bit_imp_le_length)
    moreover have "k div 8 = Suc (j div 8)" "k mod 8 = j mod 8" using k by simp_all
    ultimately show ?thesis using k by (auto simp: bit_simps Cons.IH)
  qed
qed

lemma from_to_le_bytes [simp, codec_simps]:
  assumes "LENGTH('a) = 8 * n"
  shows "from_le_bytes (to_le_bytes n w) = (w :: 'a::len word)"
proof (rule bit_word_eqI)
  fix k assume k: "k < LENGTH('a)"
  then have "k div 8 < n" using assms by auto
  then show "bit (from_le_bytes (to_le_bytes n w) :: 'a word) k \<longleftrightarrow> bit w k"
    using k by (simp add: bit_from_le_bytes) (simp add: to_le_bytes_def bit_simps)
qed

lemma to_from_le_bytes:
  assumes "LENGTH('a) = 8 * n" and "length bs = n"
  shows "to_le_bytes n (from_le_bytes bs :: 'a::len word) = bs"
proof (rule nth_equalityI)
  show "length (to_le_bytes n (from_le_bytes bs :: 'a word)) = length bs" using assms by simp
next
  fix i assume "i < length (to_le_bytes n (from_le_bytes bs :: 'a word))"
  then have i: "i < n" by simp
  show "to_le_bytes n (from_le_bytes bs :: 'a word) ! i = bs ! i"
  proof (rule bit_word_eqI)
    fix k assume k: "k < LENGTH(8)"
    then have "8 * i + k < LENGTH('a)" using assms(1) i by simp
    moreover have "(8 * i + k) div 8 = i" "(8 * i + k) mod 8 = k" using k by simp_all
    ultimately show "bit (to_le_bytes n (from_le_bytes bs :: 'a word) ! i) k \<longleftrightarrow> bit (bs ! i) k"
      using i k assms by (simp add: to_le_bytes_def bit_simps bit_from_le_bytes)
  qed
qed

lemma to_le_bytes_inj:
  assumes "LENGTH('a) = 8 * n" and "to_le_bytes n v = to_le_bytes n (w :: 'a::len word)"
  shows "v = w"
  using assms by (metis from_to_le_bytes)

lemma to_le_bytes_zero: "to_le_bytes n 0 = replicate n 0"
  by (simp add: to_le_bytes_def map_replicate_trivial)

lemma to_le_bytes_all_zero:
  assumes "LENGTH('a) = 8 * n" and "list_all (\<lambda>b. b = 0) (to_le_bytes n (w :: 'a::len word))"
  shows "w = 0"
proof -
  have "to_le_bytes n w = replicate n 0"
    using assms(2) by (intro nth_equalityI) (simp_all add: list_all_length)
  then show ?thesis using to_le_bytes_inj [OF assms(1), of w 0] by (simp add: to_le_bytes_zero)
qed

subsection \<open>Readers\<close>

lemma read_exact_append [simp, codec_simps]:
  "length xs = n \<Longrightarrow> read_exact n (xs @ rest) = Some (xs, rest)"
  by (simp add: read_exact_def)

lemma read_exact_Some: "read_exact n bs = Some (x, rest) \<longleftrightarrow> bs = x @ rest \<and> length x = n"
  by (auto simp: read_exact_def)

lemma rd_word_append [simp, codec_simps]:
  "LENGTH('a) = 8 * n \<Longrightarrow> rd_word n (to_le_bytes n w @ rest) = Some (w :: 'a::len word, rest)"
  by (simp add: rd_word_def rd_bind_def rd_return_def)

lemma rd_byte_Cons [simp, codec_simps]: "rd_byte (b # rest) = Some (b, rest)"
  by (simp add: rd_byte_def rd_bind_def rd_return_def read_exact_def)

lemma rd_bind_step [codec_simps]: "r bs = Some (x, rest) \<Longrightarrow> rd_bind r f bs = f x rest"
  by (simp add: rd_bind_def)

lemma rd_bind_Some:
  "rd_bind r f bs = Some (y, rest) \<longleftrightarrow> (\<exists>x mid. r bs = Some (x, mid) \<and> f x mid = Some (y, rest))"
  by (auto simp: rd_bind_def split: option.splits)

lemma rd_return_apply [simp, codec_simps]: "rd_return x bs = Some (x, bs)"
  by (simp add: rd_return_def)

lemma rd_fail_apply [simp]: "rd_fail bs = None"
  by (simp add: rd_fail_def)

lemma try_from_slice_Some: "try_from_slice r bs = Some x \<longleftrightarrow> r bs = Some (x, [])"
  by (auto simp: try_from_slice_def split: option.splits list.splits)

section \<open>The contract between an encoder and its decoder\<close>

locale codec =
  fixes ser :: "'a \<Rightarrow> bytes" and de :: "'a reader" and ok :: "'a \<Rightarrow> bool"
  assumes de_ser: "ok x \<Longrightarrow> de (ser x @ rest) = Some (x, rest)"
begin

lemma try_from_slice_ser: "ok x \<Longrightarrow> try_from_slice de (ser x) = Some x"
  using de_ser [of x "[]"] by (simp add: try_from_slice_Some)

lemma ser_prefix_free:
  assumes "ok x" and "ok y" and "ser x @ r = ser y @ s"
  shows "x = y \<and> r = s"
proof -
  have "de (ser x @ r) = Some (x, r)" using assms(1) by (rule de_ser)
  moreover have "de (ser y @ s) = Some (y, s)" using assms(2) by (rule de_ser)
  ultimately have "Some (x, r) = Some (y, s)" using assms(3) by metis
  then show ?thesis by simp
qed

lemma ser_injective: "ok x \<Longrightarrow> ok y \<Longrightarrow> ser x = ser y \<Longrightarrow> x = y"
  using ser_prefix_free [of x y "[]" "[]"] by (metis append_Nil2)

lemma rd_many_ser:
  "list_all ok xs \<Longrightarrow> rd_many (length xs) de (concat (map ser xs) @ rest) = Some (xs, rest)"
  by (induction xs) (simp_all add: rd_bind_def de_ser)

lemma de_seq_ser_seq:
  assumes "list_all ok xs" and "length xs < 2 ^ 32"
  shows "de_seq de (ser_seq ser xs @ rest) = Some (xs, rest)"
proof -
  have "unat (word_of_nat (length xs) :: u32) = length xs"
    using assms(2) by (simp add: unat_of_nat)
  then show ?thesis
    using rd_many_ser [OF assms(1), of rest]
    by (simp add: de_seq_def ser_seq_def rd_bind_def)
qed

end

text \<open>Sequences of a codec form a codec.\<close>

lemma codec_seq:
  assumes "codec ser de ok"
  shows "codec (ser_seq ser) (de_seq de) (\<lambda>xs. list_all ok xs \<and> length xs < 2 ^ 32)"
  by (rule codec.intro) (simp add: codec.de_seq_ser_seq [OF assms])

text \<open>Byte arrays of fixed length, single bytes and little-endian words.\<close>

interpretation arr: codec "\<lambda>bs. bs" "read_exact n" "\<lambda>bs. length bs = n" for n
  by unfold_locales simp

interpretation byte_codec: codec "\<lambda>b. [b]" rd_byte "\<lambda>_. True"
  by unfold_locales simp

interpretation u16_codec: codec "to_le_bytes 2 :: u16 \<Rightarrow> bytes" "rd_word 2" "\<lambda>_. True"
  by unfold_locales simp

interpretation u64_codec: codec "to_le_bytes 8 :: u64 \<Rightarrow> bytes" "rd_word 8" "\<lambda>_. True"
  by unfold_locales simp

interpretation bytes_codec: codec "ser_seq (\<lambda>b. [b])" "de_seq rd_byte"
    "\<lambda>xs. list_all (\<lambda>_. True) xs \<and> length xs < 2 ^ 32"
  by (rule codec_seq) (rule byte_codec.codec_axioms)

end
