(* ===== verification/Curve.thy ===== *)
theory Curve
  imports Tardus_Prelude
begin

text \<open>
  The third-party primitives the crates are written against, as parameters of the model.

  \<^item> \<open>curve25519-dalek\<close>: the scalar field is a type \<open>'s\<close> of class \<open>field\<close> (\<open>Scalar\<close> is an element
    of the integers modulo the prime \<open>l\<close>; \<open>Scalar::ZERO\<close>, \<open>Scalar::ONE\<close>, \<open>+\<close>, \<open>-\<close>, \<open>*\<close> and
    \<open>invert\<close> are the operations of the class, \<open>Scalar::from(u64)\<close> is \<open>of_nat\<close>), and the points of the full curve are a type \<open>'p\<close>
    of class \<open>ab_group_add\<close> (\<open>EdwardsPoint::default()\<close> is \<open>0\<close>). Everything else the sources call is
    a field of the record \<open>crypto\<close>.
  \<^item> \<open>sha2\<close> and \<open>hkdf\<close>: fields of the same record.
  \<^item> \<open>rand_core\<close>: the record \<open>rng\<close> over an abstract generator state \<open>'r\<close>, threaded through every
    function that takes \<open>&mut R\<close>.

  \<open>curve_ok\<close> names what the crates rely on: scalar multiplication is linear on the prime-order
  subgroup only (the curve also has points of small order, which \<open>decompress\<close> may return), the
  base point generates a group of order \<open>l\<close>, and the two encodings decode what they encode.
\<close>

section \<open>The primitives\<close>

record ('s, 'p) crypto =
  ED25519_BASEPOINT_POINT :: 'p
  point_mul :: "'s \<Rightarrow> 'p \<Rightarrow> 'p"
  compress :: "'p \<Rightarrow> bytes"
  decompress :: "bytes \<Rightarrow> 'p option"
  is_torsion_free :: "'p \<Rightarrow> bool"
  mul_by_cofactor :: "'p \<Rightarrow> 'p"
  scalar_to_bytes :: "'s \<Rightarrow> bytes"
  from_canonical_bytes :: "bytes \<Rightarrow> 's option"
  from_bytes_mod_order_wide :: "bytes \<Rightarrow> 's"
  Sha512 :: "bytes \<Rightarrow> bytes"
  Sha256 :: "bytes \<Rightarrow> bytes"
  hkdf_sha512 :: "bytes \<Rightarrow> bytes \<Rightarrow> bytes \<Rightarrow> nat \<Rightarrow> bytes" \<comment> \<open>salt, key material, info, length\<close>

record ('r, 's) rng =
  random_scalar :: "'r \<Rightarrow> 's \<times> 'r"
  fill_bytes :: "nat \<Rightarrow> 'r \<Rightarrow> bytes \<times> 'r"

text \<open>Drawing \<open>n\<close> scalars one after the other, as the sampling loops of the sources do.\<close>

fun random_scalars :: "('r, 's) rng \<Rightarrow> nat \<Rightarrow> 'r \<Rightarrow> 's list \<times> 'r" where
  "random_scalars R 0 r = ([], r)"
| "random_scalars R (Suc n) r =
     (let (x, r1) = random_scalar R r; (xs, r2) = random_scalars R n r1 in (x # xs, r2))"

text \<open>A generator that replays a tape of scalars; it makes a chosen run of a protocol explicit.\<close>

definition tape_rng :: "('s list, 's::zero) rng" where
  "tape_rng = \<lparr>random_scalar = (\<lambda>t. case t of [] \<Rightarrow> (0, []) | x # xs \<Rightarrow> (x, xs)),
               fill_bytes = (\<lambda>n t. (replicate n 0, t))\<rparr>"

abbreviation mulG :: "('s, 'p) crypto \<Rightarrow> 's \<Rightarrow> 'p" where
  "mulG C a \<equiv> point_mul C a (ED25519_BASEPOINT_POINT C)"

section \<open>What the crates rely on\<close>

definition curve_ok :: "('s::field, 'p::ab_group_add) crypto \<Rightarrow> bool" where
  "curve_ok C \<longleftrightarrow>
     is_torsion_free C (ED25519_BASEPOINT_POINT C) \<and>
     (\<forall>P Q. is_torsion_free C P \<longrightarrow> is_torsion_free C Q \<longrightarrow> is_torsion_free C (P + Q)) \<and>
     (\<forall>a P. is_torsion_free C P \<longrightarrow> is_torsion_free C (point_mul C a P)) \<and>
     (\<forall>P. is_torsion_free C (mul_by_cofactor C P)) \<and>
     (\<forall>a b P. is_torsion_free C P \<longrightarrow> point_mul C (a + b) P = point_mul C a P + point_mul C b P) \<and>
     (\<forall>a P Q. is_torsion_free C P \<longrightarrow> is_torsion_free C Q \<longrightarrow>
        point_mul C a (P + Q) = point_mul C a P + point_mul C a Q) \<and>
     (\<forall>a b P. is_torsion_free C P \<longrightarrow> point_mul C (a * b) P = point_mul C a (point_mul C b P)) \<and>
     (\<forall>P. is_torsion_free C P \<longrightarrow> point_mul C 1 P = P) \<and>
     (\<forall>a. mulG C a = 0 \<longrightarrow> a = 0) \<and>
     (\<forall>P. decompress C (compress C P) = Some P) \<and>
     (\<forall>P. length (compress C P) = 32) \<and>
     (\<forall>a. from_canonical_bytes C (scalar_to_bytes C a) = Some a) \<and>
     (\<forall>a. length (scalar_to_bytes C a) = 32) \<and>
     (\<forall>bs a. from_canonical_bytes C bs = Some a \<longrightarrow> scalar_to_bytes C a = bs)"

text \<open>
  The field is large: the sixteen-bit participant indices are distinct scalars
  (the group order is about \<open>2 ^ 252\<close>).
\<close>

definition scalar_from :: "'a::len word \<Rightarrow> 's::field" where
  "scalar_from i = of_nat (unat i)"

definition large_field :: "'s::field itself \<Rightarrow> bool" where
  "large_field _ \<longleftrightarrow> inj_on (of_nat :: nat \<Rightarrow> 's) {..< 2 ^ 16}"

text \<open>Digest lengths.\<close>

definition hash_ok :: "('s, 'p) crypto \<Rightarrow> bool" where
  "hash_ok C \<longleftrightarrow> (\<forall>bs. length (Sha512 C bs) = 64) \<and> (\<forall>bs. length (Sha256 C bs) = 32)"

section \<open>Consequences\<close>

lemma curve_ok_laws:
  assumes "curve_ok C"
  shows "is_torsion_free C (ED25519_BASEPOINT_POINT C)"
    and "\<forall>P Q. is_torsion_free C P \<longrightarrow> is_torsion_free C Q \<longrightarrow> is_torsion_free C (P + Q)"
    and "\<forall>a P. is_torsion_free C P \<longrightarrow> is_torsion_free C (point_mul C a P)"
    and "\<forall>P. is_torsion_free C (mul_by_cofactor C P)"
    and "\<forall>a b P. is_torsion_free C P \<longrightarrow> point_mul C (a + b) P = point_mul C a P + point_mul C b P"
    and "\<forall>a P Q. is_torsion_free C P \<longrightarrow> is_torsion_free C Q \<longrightarrow>
           point_mul C a (P + Q) = point_mul C a P + point_mul C a Q"
    and "\<forall>a b P. is_torsion_free C P \<longrightarrow> point_mul C (a * b) P = point_mul C a (point_mul C b P)"
    and "\<forall>P. is_torsion_free C P \<longrightarrow> point_mul C 1 P = P"
    and "\<forall>a. mulG C a = 0 \<longrightarrow> a = 0"
    and "\<forall>P. decompress C (compress C P) = Some P"
    and "\<forall>P. length (compress C P) = 32"
    and "\<forall>a. from_canonical_bytes C (scalar_to_bytes C a) = Some a"
    and "\<forall>a. length (scalar_to_bytes C a) = 32"
    and "\<forall>bs a. from_canonical_bytes C bs = Some a \<longrightarrow> scalar_to_bytes C a = bs"
  using assms unfolding curve_ok_def by - (elim conjE, assumption)+

lemma tf_base [simp, intro]: "curve_ok C \<Longrightarrow> is_torsion_free C (ED25519_BASEPOINT_POINT C)"
  by (rule curve_ok_laws)

lemma tf_add [simp, intro]:
  "curve_ok C \<Longrightarrow> is_torsion_free C P \<Longrightarrow> is_torsion_free C Q \<Longrightarrow> is_torsion_free C (P + Q)"
  by (rule curve_ok_laws(2) [rule_format])

lemma tf_mul [simp, intro]:
  "curve_ok C \<Longrightarrow> is_torsion_free C P \<Longrightarrow> is_torsion_free C (point_mul C a P)"
  by (rule curve_ok_laws(3) [rule_format])

lemma tf_cofactor [simp]: "curve_ok C \<Longrightarrow> is_torsion_free C (mul_by_cofactor C P)"
  by (rule curve_ok_laws(4) [rule_format])

lemmas point_mul_add = curve_ok_laws(5) [rule_format]
lemmas point_mul_distrib = curve_ok_laws(6) [rule_format]
lemmas point_mul_mul = curve_ok_laws(7) [rule_format]
lemmas point_mul_one [simp] = curve_ok_laws(8) [rule_format]
lemmas mulG_zeroD = curve_ok_laws(9) [rule_format]
lemmas decompress_compress [simp] = curve_ok_laws(10) [rule_format]
lemmas length_compress [simp] = curve_ok_laws(11) [rule_format]
lemmas canonical_to_bytes [simp] = curve_ok_laws(12) [rule_format]
lemmas length_scalar_bytes [simp] = curve_ok_laws(13) [rule_format]
lemmas canonical_unique = curve_ok_laws(14) [rule_format]

lemma compress_inj: "curve_ok C \<Longrightarrow> compress C P = compress C Q \<longleftrightarrow> P = Q"
  by (metis decompress_compress option.inject)

lemma scalar_bytes_inj: "curve_ok C \<Longrightarrow> scalar_to_bytes C a = scalar_to_bytes C b \<longleftrightarrow> a = b"
  by (metis canonical_to_bytes option.inject)

lemma point_mul_zero [simp]:
  assumes "curve_ok C" and "is_torsion_free C P"
  shows "point_mul C 0 P = 0"
  using point_mul_add [OF assms, of 0 0] by simp

lemma tf_zero [simp]: "curve_ok C \<Longrightarrow> is_torsion_free C 0"
  using tf_mul [of C "ED25519_BASEPOINT_POINT C" 0] by simp

lemma point_mul_point_zero [simp]:
  assumes "curve_ok C"
  shows "point_mul C a 0 = 0"
  using point_mul_distrib [OF assms tf_zero tf_zero, of a] assms by simp

lemma point_mul_neg:
  assumes "curve_ok C" and "is_torsion_free C P"
  shows "point_mul C (- a) P = - point_mul C a P"
  using point_mul_add [OF assms, of a "- a"] assms by (simp add: eq_neg_iff_add_eq_0 add.commute)

lemma tf_neg [simp]:
  assumes "curve_ok C" and "is_torsion_free C P"
  shows "is_torsion_free C (- P)"
  using tf_mul [OF assms, of "- 1"] point_mul_neg [OF assms, of 1] assms by simp

lemma point_mul_minus:
  assumes "curve_ok C" and "is_torsion_free C P"
  shows "point_mul C (a - b) P = point_mul C a P - point_mul C b P"
  using point_mul_add [OF assms, of a "- b"] point_mul_neg [OF assms, of b] by simp

text \<open>The base point: multiples add, compose and are told apart.\<close>

lemma mulG_add: "curve_ok C \<Longrightarrow> mulG C a + mulG C b = mulG C (a + b)"
  by (simp add: point_mul_add)

lemma mulG_diff: "curve_ok C \<Longrightarrow> mulG C a - mulG C b = mulG C (a - b)"
  by (simp add: point_mul_minus)

lemma mulG_mul: "curve_ok C \<Longrightarrow> point_mul C a (mulG C b) = mulG C (a * b)"
  by (simp add: point_mul_mul)

lemma mulG_eq_0: "curve_ok C \<Longrightarrow> mulG C a = 0 \<longleftrightarrow> a = 0"
  using mulG_zeroD [of C a] by auto

lemma mulG_inject: "curve_ok C \<Longrightarrow> mulG C a = mulG C b \<longleftrightarrow> a = b"
  using mulG_eq_0 [of C "a - b"] by (simp add: mulG_diff [symmetric])

lemma mulG_sum_list:
  "curve_ok C \<Longrightarrow> sum_list (map (\<lambda>x. mulG C (f x)) xs) = mulG C (sum_list (map f xs))"
  by (induction xs) (simp_all add: mulG_add)

lemma tf_sum_list:
  "curve_ok C \<Longrightarrow> list_all (is_torsion_free C) Ps \<Longrightarrow> is_torsion_free C (sum_list Ps)"
  by (induction Ps) simp_all

lemmas mulG_simps = mulG_add mulG_mul mulG_diff mulG_inject mulG_eq_0

text \<open>Small indices are distinct scalars.\<close>

lemma scalar_from_inject:
  assumes "large_field TYPE('s::field)"
  shows "(scalar_from (i :: u16) :: 's) = scalar_from j \<longleftrightarrow> i = j"
proof -
  have "unat i < 2 ^ 16" and "unat j < 2 ^ 16"
    using unsigned_less [of i] unsigned_less [of j] by simp_all
  moreover have "inj_on (of_nat :: nat \<Rightarrow> 's) {..< 2 ^ 16}"
    using assms by (simp only: large_field_def)
  ultimately have "(of_nat (unat i) :: 's) = of_nat (unat j) \<longleftrightarrow> unat i = unat j"
    by (simp only: inj_on_eq_iff lessThan_iff)
  then show ?thesis by (simp only: scalar_from_def unsigned_word_eqI word_unat_eq_iff)
qed

lemma scalar_from_zero [simp]: "scalar_from 0 = 0"
  by (simp add: scalar_from_def)

lemma scalar_from_eq_zero:
  "large_field TYPE('s::field) \<Longrightarrow> (scalar_from (i :: u16) :: 's) = 0 \<longleftrightarrow> i = 0"
  using scalar_from_inject [of i 0] by (simp only: scalar_from_zero)

lemma length_random_scalars [simp]: "length (fst (random_scalars R n r)) = n"
  by (induction n arbitrary: r) (simp_all add: Let_def split: prod.splits, metis fst_conv)

end
