(* ===== verification/Curve_Instance.thy ===== *)
theory Curve_Instance
  imports Curve
begin

text \<open>
  A concrete instance of the primitives' contract: the prime field with 65537 elements, acting on
  itself. It shows that \<open>curve_ok\<close>, \<open>large_field\<close> and \<open>hash_ok\<close> hold together, and it is the
  instance at which the hypotheses of the protocol theorems are discharged in their witnesses.
  Nothing of the model refers to it.
\<close>

section \<open>The field with 65537 elements\<close>

typedef gf = "{0..<65537 :: int}"
  by auto

setup_lifting type_definition_gf

lemma no_small_divisor: "\<forall>d \<in> set [2..256]. 65537 mod d \<noteq> (0 :: int)"
  by code_simp

lemma no_small_factor:
  assumes "(65537 :: nat) = d * e" and "1 < d" and "d < 257"
  shows False
proof -
  have "(65537 :: int) = int d * int e" using assms(1) by (metis of_nat_mult of_nat_numeral)
  then have "65537 mod int d = 0" by (metis mod_mult_self1_is_0)
  moreover have "int d \<in> set [2..256]" using assms(2,3) by (simp only: set_upto atLeastAtMost_iff) simp
  ultimately show False using bspec [OF no_small_divisor, of "int d"] by simp
qed

lemma coprime_65537:
  assumes "0 < a" and "a < (65537 :: nat)"
  shows "coprime a 65537"
proof (rule coprimeI)
  fix d :: nat assume "d dvd a" and d: "d dvd 65537"
  then have "d \<le> a" using assms(1) by (auto dest: dvd_imp_le)
  obtain e where e: "65537 = d * e" using d by blast
  show "is_unit d"
  proof (rule ccontr)
    assume "\<not> is_unit d"
    then have "1 < d" using e by (cases d) auto
    moreover have "1 < e" using e \<open>d \<le> a\<close> assms(2) by (cases "e \<le> 1") (auto simp: le_Suc_eq)
    moreover have "d < 257 \<or> e < 257"
    proof (rule ccontr)
      assume "\<not> (d < 257 \<or> e < 257)"
      then have "257 * 257 \<le> d * e" by (intro mult_le_mono) auto
      then show False using e by simp
    qed
    ultimately show False
      using no_small_factor [of d e] no_small_factor [of e d] e by (auto simp: mult.commute)
  qed
qed

lemma inverse_mod_65537:
  assumes "0 < a" and "a < (65537 :: int)"
  shows "(fst (bezw (nat a) 65537) mod 65537) * a mod 65537 = 1"
proof -
  have "coprime (nat a) 65537" using assms by (intro coprime_65537) auto
  then have "gcd (nat a) 65537 = 1" by (rule coprime_imp_gcd_eq_1)
  then have "fst (bezw (nat a) 65537) * a + snd (bezw (nat a) 65537) * 65537 = 1"
    using bezw_aux [of "nat a" 65537] assms by simp
  then have "fst (bezw (nat a) 65537) * a mod 65537 = 1 mod 65537"
    by (metis mod_mult_self3 mult.commute add.commute mod_mult_self1)
  then show ?thesis by (simp add: mod_mult_left_eq)
qed

instantiation gf :: field
begin

lift_definition zero_gf :: gf is 0 by simp
lift_definition one_gf :: gf is 1 by simp
lift_definition uminus_gf :: "gf \<Rightarrow> gf" is "\<lambda>x. (- x) mod 65537" by simp
lift_definition plus_gf :: "gf \<Rightarrow> gf \<Rightarrow> gf" is "\<lambda>x y. (x + y) mod 65537" by simp
lift_definition minus_gf :: "gf \<Rightarrow> gf \<Rightarrow> gf" is "\<lambda>x y. (x - y) mod 65537" by simp
lift_definition times_gf :: "gf \<Rightarrow> gf \<Rightarrow> gf" is "\<lambda>x y. (x * y) mod 65537" by simp
lift_definition inverse_gf :: "gf \<Rightarrow> gf" is
  "\<lambda>x. if x = 0 then 0 else fst (bezw (nat x) 65537) mod 65537" by simp

definition divide_gf :: "gf \<Rightarrow> gf \<Rightarrow> gf" where
  "divide_gf x y = x * inverse y"

instance
proof
  fix a b c :: gf
  show "a * b * c = a * (b * c)" by transfer (simp add: mod_simps mult.assoc)
  show "a * b = b * a" by transfer (simp add: mult.commute)
  show "1 * a = a" by transfer simp
  show "a + b + c = a + (b + c)" by transfer (simp add: mod_simps add.assoc)
  show "a + b = b + a" by transfer (simp add: add.commute)
  show "0 + a = a" by transfer simp
  show "- a + a = 0" by transfer (simp add: mod_simps)
  show "a - b = a + - b" by transfer (simp add: mod_simps)
  show "(a + b) * c = a * c + b * c" by transfer (simp add: mod_simps distrib_right)
  show "(0 :: gf) \<noteq> 1" by transfer simp
  show "inverse (0 :: gf) = 0" by transfer simp
  show "a div b = a * inverse b" by (simp add: divide_gf_def)
  show "a \<noteq> 0 \<Longrightarrow> inverse a * a = 1"
    by transfer (use inverse_mod_65537 in force)
qed

end

lemma of_nat_gf: "Rep_gf (of_nat n) = int n mod 65537"
  by (induction n) (simp_all add: zero_gf.rep_eq plus_gf.rep_eq one_gf.rep_eq mod_simps add.commute)

lemma large_field_gf: "large_field TYPE(gf)"
  unfolding large_field_def
proof (rule inj_onI)
  fix x y :: nat assume xy: "x \<in> {..<2 ^ 16}" "y \<in> {..<2 ^ 16}" and eq: "(of_nat x :: gf) = of_nat y"
  have "int x mod 65537 = int y mod 65537" using eq by (metis of_nat_gf)
  moreover have "x < 65537" and "y < 65537" using xy by simp_all
  ultimately show "x = y" by simp
qed

section \<open>Encodings and digests\<close>

definition gf_bytes :: "gf \<Rightarrow> bytes" where
  "gf_bytes x = to_le_bytes 32 (word_of_int (Rep_gf x) :: 256 word)"

definition gf_of_bytes :: "bytes \<Rightarrow> gf option" where
  "gf_of_bytes bs =
     (if length bs = 32 \<and> uint (from_le_bytes bs :: 256 word) < 65537
      then Some (of_nat (unat (from_le_bytes bs :: 256 word))) else None)"

definition gf_curve :: "(gf, gf) crypto" where
  "gf_curve =
     \<lparr>ED25519_BASEPOINT_POINT = 1, point_mul = (*), compress = gf_bytes, decompress = gf_of_bytes,
      is_torsion_free = (\<lambda>_. True), mul_by_cofactor = (\<lambda>p. of_nat 8 * p), scalar_to_bytes = gf_bytes,
      from_canonical_bytes = gf_of_bytes,
      from_bytes_mod_order_wide = (\<lambda>bs. of_nat (unat (from_le_bytes bs :: 512 word))),
      Sha512 = (\<lambda>bs. take 64 (bs @ replicate 64 0)), Sha256 = (\<lambda>bs. take 32 (rev bs @ replicate 32 0)),
      hkdf_sha512 = (\<lambda>salt ikm info n. take n (ikm @ replicate n 0))\<rparr>"

lemma gf_word: "uint (word_of_int (Rep_gf x) :: 256 word) = Rep_gf x"
  using Rep_gf [of x] by (simp add: uint_word_of_int)

lemma gf_of_bytes_bytes: "gf_of_bytes (gf_bytes x) = Some x"
proof -
  have "Rep_gf (of_nat (nat (Rep_gf x))) = Rep_gf x"
    using Rep_gf [of x] by (simp only: of_nat_gf) auto
  then have "of_nat (nat (Rep_gf x)) = x" by (simp only: Rep_gf_inject)
  moreover have "unat (word_of_int (Rep_gf x) :: 256 word) = nat (Rep_gf x)"
    by (metis gf_word nat_uint_eq)
  ultimately show ?thesis
    using Rep_gf [of x] gf_word [of x] by (simp add: gf_of_bytes_def gf_bytes_def del: of_nat_unat)
qed

lemma gf_bytes_of_bytes:
  assumes "gf_of_bytes bs = Some x"
  shows "gf_bytes x = bs"
proof -
  let ?w = "from_le_bytes bs :: 256 word"
  have l: "length bs = 32" and w: "uint ?w < 65537" and x: "x = of_nat (unat ?w)"
    using assms by (auto simp: gf_of_bytes_def simp del: of_nat_unat split: if_splits)
  have "Rep_gf x = uint ?w" using w by (simp only: x of_nat_gf) simp
  then show ?thesis using l by (simp add: gf_bytes_def to_from_le_bytes)
qed

lemma curve_ok_gf: "curve_ok gf_curve"
  unfolding curve_ok_def gf_curve_def
  by (simp add: gf_of_bytes_bytes gf_bytes_of_bytes algebra_simps) (simp add: gf_bytes_def)

lemma hash_ok_gf: "hash_ok gf_curve"
  by (auto simp: hash_ok_def gf_curve_def min_def)

lemma gf_curve_simps [simp]:
  "is_torsion_free gf_curve P" "ED25519_BASEPOINT_POINT gf_curve = 1" "point_mul gf_curve a P = a * P"
  "compress gf_curve = gf_bytes" "scalar_to_bytes gf_curve = gf_bytes"
  "decompress gf_curve = gf_of_bytes" "from_canonical_bytes gf_curve = gf_of_bytes"
  by (simp_all add: gf_curve_def)

declare gf_of_bytes_bytes [simp]

lemma gf_bytes_0: "gf_bytes 0 = to_le_bytes 32 (0 :: 256 word)"
  by (simp add: gf_bytes_def zero_gf.rep_eq)

lemma gf_bytes_1: "gf_bytes 1 = to_le_bytes 32 (1 :: 256 word)"
  by (simp add: gf_bytes_def one_gf.rep_eq)

lemma gf_of_nat_neq: "a < 2 ^ 16 \<Longrightarrow> b < 2 ^ 16 \<Longrightarrow> a \<noteq> b \<Longrightarrow> (of_nat a :: gf) \<noteq> of_nat b"
  using inj_onD [OF large_field_gf [unfolded large_field_def], of a b] by auto

end
