(* ===== verification/Core.thy ===== *)
theory Core
  imports Curve Curve_Instance
begin

text \<open>
  The crate \<open>tardus-core\<close>: key and signature types (\<open>group.rs\<close>, \<open>signature.rs\<close>), the challenge
  hash (\<open>hash.rs\<close>), Schnorr signing and verification (\<open>signature.rs\<close>) and the four rounds of blind
  signing (\<open>blind.rs\<close>). Functions that take \<open>&mut R\<close> take the generator and its state and return
  the advanced state.

  The lemmas show that honest signatures, plain and blind, verify; that verification never
  panics and says which input is malformed; that a signature's response is unique, so a signature
  cannot be mauled; that two signatures on one commitment reveal the key; and that the signer's
  view of a blind session is consistent with every valid signature, for exactly one choice of the
  user's blinding factors.
\<close>

section \<open>Errors, keys, signatures\<close>

datatype core_error = InvalidPoint | InvalidScalar | InvalidSignature

datatype 's secret_key = SecretKey (sk_scalar: 's)

datatype public_key = PublicKey (pk_to_bytes: bytes)

record signature =
  sig_r :: bytes
  sig_s :: bytes

definition hash_to_scalar :: "('s, 'p) crypto \<Rightarrow> bytes \<Rightarrow> 's" where
  "hash_to_scalar C input = from_bytes_mod_order_wide C (Sha512 C input)"

definition schnorr_challenge :: "('s, 'p) crypto \<Rightarrow> bytes \<Rightarrow> bytes \<Rightarrow> bytes \<Rightarrow> 's" where
  "schnorr_challenge C r_compressed pk msg = hash_to_scalar C (r_compressed @ pk @ msg)"

definition basepoint :: "('s, 'p) crypto \<Rightarrow> 'p" where
  "basepoint C = ED25519_BASEPOINT_POINT C"

definition SecretKey_random :: "('r, 's) rng \<Rightarrow> 'r \<Rightarrow> 's secret_key \<times> 'r" where
  "SecretKey_random R r = (let (x, r1) = random_scalar R r in (SecretKey x, r1))"

definition SecretKey_from_bytes ::
    "('s, 'p) crypto \<Rightarrow> bytes \<Rightarrow> ('s secret_key, core_error) result" where
  "SecretKey_from_bytes C bs = ok_or InvalidScalar (map_option SecretKey (from_canonical_bytes C bs))"

definition SecretKey_to_bytes :: "('s, 'p) crypto \<Rightarrow> 's secret_key \<Rightarrow> bytes" where
  "SecretKey_to_bytes C sk = scalar_to_bytes C (sk_scalar sk)"

definition PublicKey_from_secret :: "('s, 'p) crypto \<Rightarrow> 's secret_key \<Rightarrow> public_key" where
  "PublicKey_from_secret C sk = PublicKey (compress C (point_mul C (sk_scalar sk) (basepoint C)))"

definition PublicKey_from_bytes ::
    "('s, 'p) crypto \<Rightarrow> bytes \<Rightarrow> (public_key, core_error) result" where
  "PublicKey_from_bytes C bs =
     rbind (ok_or InvalidPoint (decompress C bs))
       (\<lambda>pt. if is_torsion_free C pt then Ok (PublicKey bs) else Err InvalidPoint)"

definition pk_point :: "('s, 'p) crypto \<Rightarrow> public_key \<Rightarrow> ('p, core_error) result" where
  "pk_point C pk = ok_or InvalidPoint (decompress C (pk_to_bytes pk))"

definition Keypair_random ::
    "('s, 'p) crypto \<Rightarrow> ('r, 's) rng \<Rightarrow> 'r \<Rightarrow> ('s secret_key \<times> public_key) \<times> 'r" where
  "Keypair_random C R r =
     (let (secret, r1) = SecretKey_random R r in ((secret, PublicKey_from_secret C secret), r1))"

definition Signature_to_bytes :: "signature \<Rightarrow> bytes" where
  "Signature_to_bytes sig = sig_r sig @ sig_s sig"

definition Signature_from_bytes :: "bytes \<Rightarrow> signature" where
  "Signature_from_bytes bs = \<lparr>sig_r = take 32 bs, sig_s = drop 32 bs\<rparr>"

definition schnorr_sign ::
    "('s::field, 'p) crypto \<Rightarrow> ('r, 's) rng \<Rightarrow> 's secret_key \<Rightarrow> public_key \<Rightarrow> bytes \<Rightarrow> 'r
     \<Rightarrow> signature \<times> 'r" where
  "schnorr_sign C R sk pk msg r =
     (let (k, r1) = random_scalar R r;
          r_bytes = compress C (point_mul C k (basepoint C));
          c = schnorr_challenge C r_bytes (pk_to_bytes pk) msg;
          s = k + c * sk_scalar sk
      in (\<lparr>sig_r = r_bytes, sig_s = scalar_to_bytes C s\<rparr>, r1))"

definition schnorr_verify ::
    "('s, 'p::plus) crypto \<Rightarrow> public_key \<Rightarrow> bytes \<Rightarrow> signature \<Rightarrow> (bool, core_error) result" where
  "schnorr_verify C pk msg sig =
     rbind (pk_point C pk) (\<lambda>pk_pt.
     rbind (ok_or InvalidPoint (decompress C (sig_r sig))) (\<lambda>r_pt.
     rbind (ok_or InvalidScalar (from_canonical_bytes C (sig_s sig))) (\<lambda>s.
       let c = schnorr_challenge C (sig_r sig) (pk_to_bytes pk) msg;
           lhs = point_mul C s (basepoint C);
           rhs = r_pt + point_mul C c pk_pt
       in Ok (lhs = rhs))))"

section \<open>Blind signing\<close>

record blind_commit = bc_r :: bytes

record 's signer_state = ss_k :: 's

record blind_challenge = bch_c :: bytes

record 's user_state =
  us_alpha :: 's
  us_beta :: 's
  us_r_prime :: bytes

record blind_response = br_s :: bytes

definition issue_round1 ::
    "('s, 'p) crypto \<Rightarrow> ('r, 's) rng \<Rightarrow> 'r \<Rightarrow> (blind_commit \<times> 's signer_state) \<times> 'r" where
  "issue_round1 C R r =
     (let (k, r1) = random_scalar R r;
          r_bytes = compress C (point_mul C k (basepoint C))
      in ((\<lparr>bc_r = r_bytes\<rparr>, \<lparr>ss_k = k\<rparr>), r1))"

definition blind_request ::
    "('s::field, 'p::plus) crypto \<Rightarrow> ('r, 's) rng \<Rightarrow> blind_commit \<Rightarrow> public_key \<Rightarrow> bytes \<Rightarrow> 'r
     \<Rightarrow> ((blind_challenge \<times> 's user_state) \<times> 'r, core_error) result" where
  "blind_request C R commit pk msg r =
     rbind (ok_or InvalidPoint (decompress C (bc_r commit))) (\<lambda>r_pt.
     rbind (pk_point C pk) (\<lambda>pk_pt.
       let (alpha, r1) = random_scalar R r;
           (beta, r2) = random_scalar R r1;
           r_prime_pt = r_pt + point_mul C alpha (basepoint C) + point_mul C beta pk_pt;
           r_prime_bytes = compress C r_prime_pt;
           c_prime = schnorr_challenge C r_prime_bytes (pk_to_bytes pk) msg;
           c = c_prime + beta
       in Ok ((\<lparr>bch_c = scalar_to_bytes C c\<rparr>,
               \<lparr>us_alpha = alpha, us_beta = beta, us_r_prime = r_prime_bytes\<rparr>), r2)))"

definition issue_round2 ::
    "('s::field, 'p) crypto \<Rightarrow> 's signer_state \<Rightarrow> blind_challenge \<Rightarrow> 's secret_key
     \<Rightarrow> (blind_response, core_error) result" where
  "issue_round2 C state challenge sk =
     rbind (ok_or InvalidScalar (from_canonical_bytes C (bch_c challenge))) (\<lambda>c.
       Ok \<lparr>br_s = scalar_to_bytes C (ss_k state + c * sk_scalar sk)\<rparr>)"

definition unblind ::
    "('s::field, 'p) crypto \<Rightarrow> 's user_state \<Rightarrow> blind_response \<Rightarrow> (signature, core_error) result" where
  "unblind C state response =
     rbind (ok_or InvalidScalar (from_canonical_bytes C (br_s response))) (\<lambda>s.
       Ok \<lparr>sig_r = us_r_prime state, sig_s = scalar_to_bytes C (s + us_alpha state)\<rparr>)"

section \<open>Format\<close>

definition ser_signature :: "signature \<Rightarrow> bytes" where
  "ser_signature sig = sig_r sig @ sig_s sig"

definition de_signature :: "signature reader" where
  "de_signature = rd_bind (read_exact 32) (\<lambda>r. rd_bind (read_exact 32) (\<lambda>s. rd_return \<lparr>sig_r = r, sig_s = s\<rparr>))"

definition sig_wf :: "signature \<Rightarrow> bool" where
  "sig_wf sig \<longleftrightarrow> length (sig_r sig) = 32 \<and> length (sig_s sig) = 32"

interpretation signature_codec: codec ser_signature de_signature sig_wf
  by unfold_locales (simp add: ser_signature_def de_signature_def sig_wf_def rd_bind_def)

section \<open>Facts the other components use\<close>

lemma basepoint_eq [simp]: "basepoint C = ED25519_BASEPOINT_POINT C"
  by (simp add: basepoint_def)

lemma pk_from_secret_bytes [simp]:
  "pk_to_bytes (PublicKey_from_secret C sk) = compress C (mulG C (sk_scalar sk))"
  by (simp add: PublicKey_from_secret_def)

lemma secret_key_bytes_roundtrip [simp]:
  "curve_ok C \<Longrightarrow> SecretKey_from_bytes C (SecretKey_to_bytes C sk) = Ok sk"
  by (simp add: SecretKey_from_bytes_def SecretKey_to_bytes_def)

lemma secret_key_scalar_roundtrip [simp]:
  "curve_ok C \<Longrightarrow> SecretKey_from_bytes C (scalar_to_bytes C x) = Ok (SecretKey x)"
  by (simp add: SecretKey_from_bytes_def)

lemma public_key_accepts:
  "curve_ok C \<Longrightarrow> is_torsion_free C P \<Longrightarrow> PublicKey_from_bytes C (compress C P) = Ok (PublicKey (compress C P))"
  by (simp add: PublicKey_from_bytes_def)

lemma pk_point_compressed [simp]: "curve_ok C \<Longrightarrow> pk_point C (PublicKey (compress C P)) = Ok P"
  by (simp add: pk_point_def)

text \<open>What an accepted signature means.\<close>

lemma schnorr_verify_True:
  "schnorr_verify C pk msg sig = Ok True \<longleftrightarrow>
     (\<exists>P Q s. decompress C (pk_to_bytes pk) = Some P \<and> decompress C (sig_r sig) = Some Q \<and>
        from_canonical_bytes C (sig_s sig) = Some s \<and>
        mulG C s = Q + point_mul C (schnorr_challenge C (sig_r sig) (pk_to_bytes pk) msg) P)"
  by (auto simp: schnorr_verify_def pk_point_def Let_def)

text \<open>A response that closes the verification equation over multiples of the base point.\<close>

lemma schnorr_verify_mulG:
  assumes ok: "curve_ok C" and pk: "pk = PublicKey (compress C (mulG C x))"
    and sig: "sig = \<lparr>sig_r = compress C (mulG C k), sig_s = scalar_to_bytes C s\<rparr>"
  shows "schnorr_verify C pk msg sig =
     Ok (s = k + schnorr_challenge C (compress C (mulG C k)) (compress C (mulG C x)) msg * x)"
  using ok by (simp add: schnorr_verify_def pk sig Let_def mulG_simps)

lemma schnorr_sign_complete:
  assumes "curve_ok C" and "pk = PublicKey (compress C (mulG C (sk_scalar sk)))"
  shows "schnorr_verify C pk msg (fst (schnorr_sign C R sk pk msg r)) = Ok True"
proof -
  obtain k r1 where k: "random_scalar R r = (k, r1)" by (cases "random_scalar R r")
  show ?thesis using assms by (simp add: schnorr_sign_def k Let_def schnorr_verify_mulG)
qed

text \<open>
  The user's two rounds close around any signer, single or distributed, that holds a commitment
  \<open>k * G\<close> and answers the challenge \<open>c\<close> with \<open>k + c * x\<close>.
\<close>

lemma blind_rounds_close:
  assumes ok: "curve_ok C" and pk: "pk = PublicKey (compress C (mulG C x))"
  shows "\<exists>c ust r2 sig.
     blind_request C R \<lparr>bc_r = compress C (mulG C k)\<rparr> pk msg r = Ok ((\<lparr>bch_c = scalar_to_bytes C c\<rparr>, ust), r2) \<and>
     unblind C ust \<lparr>br_s = scalar_to_bytes C (k + c * x)\<rparr> = Ok sig \<and>
     schnorr_verify C pk msg sig = Ok True"
proof -
  obtain a ra where a: "random_scalar R r = (a, ra)" by (cases "random_scalar R r")
  obtain b rb where b: "random_scalar R ra = (b, rb)" by (cases "random_scalar R ra")
  have R': "mulG C k + mulG C a + point_mul C b (mulG C x) = mulG C (k + a + b * x)"
    using ok by (simp add: mulG_simps)
  let ?R = "compress C (mulG C (k + a + b * x))"
  let ?c = "schnorr_challenge C ?R (compress C (mulG C x)) msg + b"
  have "blind_request C R \<lparr>bc_r = compress C (mulG C k)\<rparr> pk msg r =
      Ok ((\<lparr>bch_c = scalar_to_bytes C ?c\<rparr>, \<lparr>us_alpha = a, us_beta = b, us_r_prime = ?R\<rparr>), rb)"
    using ok by (simp add: blind_request_def pk a b Let_def R')
  moreover have "unblind C \<lparr>us_alpha = a, us_beta = b, us_r_prime = ?R\<rparr> \<lparr>br_s = scalar_to_bytes C (k + ?c * x)\<rparr> =
      Ok \<lparr>sig_r = ?R, sig_s = scalar_to_bytes C (k + ?c * x + a)\<rparr>"
    using ok by (simp add: unblind_def)
  moreover have "schnorr_verify C pk msg \<lparr>sig_r = ?R, sig_s = scalar_to_bytes C (k + ?c * x + a)\<rparr> = Ok True"
    unfolding schnorr_verify_mulG [OF ok pk refl] by (simp add: algebra_simps)
  ultimately show ?thesis by blast
qed

text \<open>
  Completeness of Schnorr signing: a signature made by \<open>schnorr_sign\<close> under any key, message and
  generator state verifies under the public key derived from the secret key.
\<close>

lemma schnorr_sign_verifies:
  assumes "curve_ok C"
  shows "schnorr_verify C (PublicKey_from_secret C sk) msg
           (fst (schnorr_sign C R sk (PublicKey_from_secret C sk) msg r)) = Ok True"
  using assms by (intro schnorr_sign_complete) (simp_all add: PublicKey_from_secret_def)

section \<open>Properties\<close>

text \<open>
  Completeness of blind signing: when signer and user follow the four rounds, no round fails,
  and the unblinded signature verifies on the user's message under the signer's key.
\<close>

lemma blind_signing_verifies:
  assumes "curve_ok C" and "pk = PublicKey_from_secret C sk"
    and "issue_round1 C R r0 = ((commit, sst), r1)"
  shows "\<exists>ch ust r2 resp sig.
           blind_request C R commit pk msg r1 = Ok ((ch, ust), r2) \<and>
           issue_round2 C sst ch sk = Ok resp \<and> unblind C ust resp = Ok sig \<and>
           schnorr_verify C pk msg sig = Ok True"
proof -
  obtain k where k: "commit = \<lparr>bc_r = compress C (mulG C k)\<rparr>" "sst = \<lparr>ss_k = k\<rparr>"
    using assms(3) by (auto simp: issue_round1_def Let_def split: prod.splits)
  have pk: "pk = PublicKey (compress C (mulG C (sk_scalar sk)))"
    using assms(2) by (simp add: PublicKey_from_secret_def)
  obtain c ust r2 sig where
    "blind_request C R commit pk msg r1 = Ok ((\<lparr>bch_c = scalar_to_bytes C c\<rparr>, ust), r2)"
    "unblind C ust \<lparr>br_s = scalar_to_bytes C (k + c * sk_scalar sk)\<rparr> = Ok sig"
    "schnorr_verify C pk msg sig = Ok True"
    using blind_rounds_close [OF assms(1) pk, of R k msg r1] k(1) by blast
  moreover have "issue_round2 C sst \<lparr>bch_c = scalar_to_bytes C c\<rparr> sk =
      Ok \<lparr>br_s = scalar_to_bytes C (k + c * sk_scalar sk)\<rparr>"
    using assms(1) by (simp add: issue_round2_def k(2))
  ultimately show ?thesis by blast
qed

text \<open>
  C13. Perfect blindness: take any session as the signer sees it (its nonce, the blinded challenge
  and its response) and any valid signature on any message whose commitment lies in the
  prime-order subgroup. There is exactly one pair of blinding factors with which
  \<open>blind_request\<close> sends that very challenge and \<open>unblind\<close> turns that very response into that very
  signature. So the signer's view singles out no signature.
\<close>

theorem blind_signing_perfectly_blind:
  assumes ok: "curve_ok C" and pk: "pk = PublicKey_from_secret C sk"
    and commit: "commit = \<lparr>bc_r = compress C (mulG C k)\<rparr>"
    and ch: "ch = \<lparr>bch_c = scalar_to_bytes C c\<rparr>"
    and resp: "issue_round2 C \<lparr>ss_k = k\<rparr> ch sk = Ok resp"
    and valid: "schnorr_verify C pk msg sig = Ok True"
    and sub: "sig_r sig = compress C (mulG C k')"
  shows "\<exists>!(alpha, beta). \<exists>ust.
           blind_request C tape_rng commit pk msg [alpha, beta] = Ok ((ch, ust), []) \<and>
           unblind C ust resp = Ok sig"
proof -
  let ?x = "sk_scalar sk"
  let ?e = "schnorr_challenge C (compress C (mulG C k')) (compress C (mulG C ?x)) msg"
  obtain s' where s': "sig = \<lparr>sig_r = compress C (mulG C k'), sig_s = scalar_to_bytes C s'\<rparr>"
    using valid sub ok by (cases sig) (auto simp: schnorr_verify_True dest: canonical_unique)
  have eq: "s' = k' + ?e * ?x"
    using valid by (simp add: s' pk PublicKey_from_secret_def schnorr_verify_mulG [OF ok refl refl])
  have r: "resp = \<lparr>br_s = scalar_to_bytes C (k + c * ?x)\<rparr>"
    using resp ok by (simp add: issue_round2_def ch)
  have run: "(\<exists>ust. blind_request C tape_rng commit pk msg [a, b] = Ok ((ch, ust), []) \<and>
        unblind C ust resp = Ok sig) \<longleftrightarrow>
      k + a + b * ?x = k' \<and> ?e + b = c \<and> k + c * ?x + a = s'" for a b
  proof -
    have "mulG C k + mulG C a + point_mul C b (mulG C ?x) = mulG C (k + a + b * ?x)"
      using ok by (simp add: mulG_simps)
    then show ?thesis
      using ok by (auto simp: blind_request_def commit pk ch tape_rng_def PublicKey_from_secret_def
          Let_def unblind_def r s' compress_inj mulG_simps scalar_bytes_inj)
  qed
  show ?thesis
  proof (rule ex1I [of _ "(s' - (k + c * ?x), c - ?e)"])
    show "case (s' - (k + c * ?x), c - ?e) of (alpha, beta) \<Rightarrow> \<exists>ust.
        blind_request C tape_rng commit pk msg [alpha, beta] = Ok ((ch, ust), []) \<and>
        unblind C ust resp = Ok sig"
      by (simp only: prod.case run) (simp add: eq algebra_simps)
  next
    fix ab assume "case ab of (alpha, beta) \<Rightarrow> \<exists>ust.
        blind_request C tape_rng commit pk msg [alpha, beta] = Ok ((ch, ust), []) \<and>
        unblind C ust resp = Ok sig"
    then show "ab = (s' - (k + c * ?x), c - ?e)"
      by (cases ab) (simp only: prod.case run, auto simp: algebra_simps)
  qed
qed

theorem blind_signing_perfectly_blind_witness:
  "\<exists>!(alpha, beta). \<exists>ust.
     blind_request gf_curve tape_rng \<lparr>bc_r = compress gf_curve (mulG gf_curve 3)\<rparr>
       (PublicKey_from_secret gf_curve (SecretKey 9)) [42] [alpha, beta] =
         Ok ((\<lparr>bch_c = scalar_to_bytes gf_curve 8\<rparr>, ust), []) \<and>
     unblind gf_curve ust \<lparr>br_s = scalar_to_bytes gf_curve (3 + 8 * 9)\<rparr> =
       Ok (fst (schnorr_sign gf_curve tape_rng (SecretKey 9)
            (PublicKey_from_secret gf_curve (SecretKey 9)) [42] [5]))"
proof (rule blind_signing_perfectly_blind [OF curve_ok_gf refl refl refl])
  show "issue_round2 gf_curve \<lparr>ss_k = 3\<rparr> \<lparr>bch_c = scalar_to_bytes gf_curve 8\<rparr> (SecretKey 9) =
      Ok \<lparr>br_s = scalar_to_bytes gf_curve (3 + 8 * 9)\<rparr>"
    using curve_ok_gf by (simp add: issue_round2_def)
  show "schnorr_verify gf_curve (PublicKey_from_secret gf_curve (SecretKey 9)) [42]
      (fst (schnorr_sign gf_curve tape_rng (SecretKey 9)
        (PublicKey_from_secret gf_curve (SecretKey 9)) [42] [5])) = Ok True"
    using curve_ok_gf by (simp add: schnorr_sign_def tape_rng_def Let_def PublicKey_from_secret_def
        schnorr_verify_mulG)
  show "sig_r (fst (schnorr_sign gf_curve tape_rng (SecretKey 9)
        (PublicKey_from_secret gf_curve (SecretKey 9)) [42] [5])) = compress gf_curve (mulG gf_curve 5)"
    by (simp add: schnorr_sign_def tape_rng_def Let_def)
qed

text \<open>
  Signatures cannot be mauled: two signatures accepted for one key and message that share the
  commitment bytes are equal, because the response is determined and has a single canonical
  encoding.
\<close>

lemma schnorr_response_unique:
  assumes "curve_ok C"
    and "schnorr_verify C pk msg sig1 = Ok True" and "schnorr_verify C pk msg sig2 = Ok True"
    and "sig_r sig1 = sig_r sig2"
  shows "sig1 = sig2"
proof -
  obtain s1 s2 where s1: "from_canonical_bytes C (sig_s sig1) = Some s1"
    and s2: "from_canonical_bytes C (sig_s sig2) = Some s2" and "mulG C s1 = mulG C s2"
    using assms by (auto simp: schnorr_verify_True)
  then have "sig_s sig1 = sig_s sig2"
    using assms(1) canonical_unique mulG_inject by metis
  then show ?thesis using assms(4) by (cases sig1, cases sig2) simp
qed

text \<open>
  Verification is total: it never panics, and it reports \<open>InvalidPoint\<close> exactly when the key
  or the commitment does not decode, \<open>InvalidScalar\<close> exactly when both decode and the response is
  not canonical.
\<close>

lemma schnorr_verify_errors:
  "schnorr_verify C pk msg sig \<noteq> Panic \<and>
   (schnorr_verify C pk msg sig = Err InvalidPoint \<longleftrightarrow>
      decompress C (pk_to_bytes pk) = None \<or> decompress C (sig_r sig) = None) \<and>
   (schnorr_verify C pk msg sig = Err InvalidScalar \<longleftrightarrow>
      decompress C (pk_to_bytes pk) \<noteq> None \<and> decompress C (sig_r sig) \<noteq> None \<and>
      from_canonical_bytes C (sig_s sig) = None) \<and>
   schnorr_verify C pk msg sig \<noteq> Err InvalidSignature"
  by (cases "decompress C (pk_to_bytes pk)"; cases "decompress C (sig_r sig)";
      cases "from_canonical_bytes C (sig_s sig)")
     (simp_all add: schnorr_verify_def pk_point_def Let_def)

end
