(* ===== verification/Vss.thy ===== *)
theory Vss
  imports Core
begin

text \<open>
  Verifiable secret sharing of the crate \<open>tardus-mint\<close>: the crate's errors (\<open>error.rs\<close>), the
  domain-separated identifiers and transcript messages (\<open>transcript.rs\<close>), the Pedersen generator,
  the dealer, the share verifier and the hand-written Borsh formats (\<open>vss.rs\<close>).

  The try-and-increment loop of \<open>h_generator\<close> runs on its 32-bit counter and panics when
  \<open>checked_add\<close> overflows, so it terminates; the \<open>debug_assert\<close> is absent from release builds.

  The lemmas show that \<open>h_generator\<close> yields a non-zero point of the prime-order subgroup, that
  every dealt share verifies, that an accepted share other than the dealt one reveals the discrete
  logarithm of \<open>h\<close>, and that the formats read back what they write.
\<close>

section \<open>Errors and transcripts\<close>

datatype mint_error =
    MintCore core_error
  | VssShareInvalid
  | PokInvalid
  | InsufficientQualifiedSet
  | DomainMismatch
  | DuplicateParticipant
  | UnknownParticipant
  | InsufficientMessages
  | NonceReuseDetected
  | InvalidSigningSet
  | ResharePolyNonZero

datatype ceremony_id = CeremonyId (ceremony_bytes: bytes)

datatype session_id = SessionId (session_bytes: bytes)

datatype transcript_signature = TranscriptSignature (ts_sig: signature)

definition CEREMONY_DOMAIN :: bytes where
  "CEREMONY_DOMAIN = ascii ''tardus-ceremony-v1''"

definition H_DOMAIN :: bytes where
  "H_DOMAIN = ascii ''tardus-pedersen-H-v1''"

definition ceremony_transcript_message :: "ceremony_id \<Rightarrow> u64 \<Rightarrow> bytes \<Rightarrow> bytes" where
  "ceremony_transcript_message cid epoch transcript_hash =
     CEREMONY_DOMAIN @ ceremony_bytes cid @ to_le_bytes 8 epoch @ transcript_hash"

definition ser_transcript_signature :: "transcript_signature \<Rightarrow> bytes" where
  "ser_transcript_signature ts = Signature_to_bytes (ts_sig ts)"

definition de_transcript_signature :: "transcript_signature reader" where
  "de_transcript_signature =
     rd_bind (read_exact 64) (\<lambda>bs. rd_return (TranscriptSignature (Signature_from_bytes bs)))"

section \<open>The Pedersen generator\<close>

function h_generator_from :: "('s, 'p::zero) crypto \<Rightarrow> u32 \<Rightarrow> ('p, mint_error) result" where
  "h_generator_from C counter =
     (let h = Sha512 C (H_DOMAIN @ to_le_bytes 4 counter);
          next = (case checked_add counter 1 of None \<Rightarrow> Panic | Some c \<Rightarrow> h_generator_from C c)
      in case decompress C (take 32 h) of
           None \<Rightarrow> next
         | Some point \<Rightarrow>
             (let lifted = mul_by_cofactor C point in if lifted \<noteq> 0 then Ok lifted else next))"
  by pat_completeness auto
termination
proof (relation "measure (\<lambda>(C, counter). 2 ^ 32 - unat counter)", goal_cases)
  case 1
  show ?case by simp
next
  case (2 C counter _ c)
  then have "unat counter + 1 < 2 ^ 32" and "unat c = unat counter + 1"
    by (auto simp: checked_add_Some unat_word_ariths)
  then show ?case by simp
qed

definition h_generator :: "('s, 'p::zero) crypto \<Rightarrow> ('p, mint_error) result" where
  "h_generator C = h_generator_from C 0"

section \<open>Parameters, shares, commitments\<close>

record vss_parameters =
  vp_n :: u16
  vp_t :: u16

definition VssParameters_new :: "u16 \<Rightarrow> u16 \<Rightarrow> (vss_parameters, mint_error) result" where
  "VssParameters_new n t = (if t = 0 \<or> t > n then Err InvalidSigningSet else Ok \<lparr>vp_n = n, vp_t = t\<rparr>)"

record 's vss_share =
  vs_index :: u16
  vs_f_share :: 's
  vs_g_share :: 's

record 'p vss_commitments = vc_coeffs :: "'p list"

record 'p feldman_commitments = fc_coeffs :: "'p list"

definition f_share_bytes :: "('s, 'p) crypto \<Rightarrow> 's vss_share \<Rightarrow> bytes" where
  "f_share_bytes C sh = scalar_to_bytes C (vs_f_share sh)"

definition g_share_bytes :: "('s, 'p) crypto \<Rightarrow> 's vss_share \<Rightarrow> bytes" where
  "g_share_bytes C sh = scalar_to_bytes C (vs_g_share sh)"

text \<open>Indexing the first coefficient panics on an empty vector.\<close>

definition secret_commitment :: "'p feldman_commitments \<Rightarrow> ('p, 'e) result" where
  "secret_commitment fc = index_at (fc_coeffs fc) 0"

definition pedersen_secret_commitment :: "'p vss_commitments \<Rightarrow> ('p, 'e) result" where
  "pedersen_secret_commitment vc = index_at (vc_coeffs vc) 0"

section \<open>Dealer and verifier\<close>

definition horner_eval_scalar :: "'s::field list \<Rightarrow> 's \<Rightarrow> 's" where
  "horner_eval_scalar coeffs x = fold (\<lambda>c acc. acc * x + c) (rev coeffs) 0"

definition deal ::
    "('s::field, 'p::ab_group_add) crypto \<Rightarrow> ('r, 's) rng \<Rightarrow> 's \<Rightarrow> vss_parameters \<Rightarrow> 'p \<Rightarrow> 'r
     \<Rightarrow> ('p vss_commitments \<times> 'p feldman_commitments \<times> 's vss_share list) \<times> 'r" where
  "deal C R secret params h r =
     (let t = unat (vp_t params);
          n = unat (vp_n params);
          (fs, r1) = random_scalars R (t - 1) r;
          f_coeffs = secret # fs;
          (g_coeffs, r2) = random_scalars R t r1;
          feldman_coeffs = map (\<lambda>k. point_mul C (f_coeffs ! k) (ED25519_BASEPOINT_POINT C)) [0..<t];
          pedersen_coeffs =
            map (\<lambda>k. point_mul C (f_coeffs ! k) (ED25519_BASEPOINT_POINT C) + point_mul C (g_coeffs ! k) h)
              [0..<t];
          shares =
            map (\<lambda>j. \<lparr>vs_index = word_of_nat j,
                       vs_f_share = horner_eval_scalar f_coeffs (of_nat j),
                       vs_g_share = horner_eval_scalar g_coeffs (of_nat j)\<rparr>) [1..<Suc n]
      in ((\<lparr>vc_coeffs = pedersen_coeffs\<rparr>, \<lparr>fc_coeffs = feldman_coeffs\<rparr>, shares), r2))"

definition horner_eval_point ::
    "('s, 'p::ab_group_add) crypto \<Rightarrow> 'p list \<Rightarrow> 's \<Rightarrow> 'p" where
  "horner_eval_point C coeffs x = fold (\<lambda>c_k rhs. point_mul C x rhs + c_k) (rev coeffs) 0"

definition verify_share ::
    "('s::field, 'p::ab_group_add) crypto \<Rightarrow> 's vss_share \<Rightarrow> 'p vss_commitments \<Rightarrow> 'p
     \<Rightarrow> (unit, mint_error) result" where
  "verify_share C share commitments h =
     (if vs_index share = 0 then Err InvalidSigningSet
      else
        (let j_scalar = scalar_from (vs_index share);
             lhs = point_mul C (vs_f_share share) (ED25519_BASEPOINT_POINT C) +
                   point_mul C (vs_g_share share) h;
             rhs = horner_eval_point C (vc_coeffs commitments) j_scalar
         in if lhs = rhs then Ok () else Err VssShareInvalid))"

section \<open>Formats\<close>

definition ser_vss_share :: "('s, 'p) crypto \<Rightarrow> 's vss_share \<Rightarrow> bytes" where
  "ser_vss_share C sh =
     to_le_bytes 2 (vs_index sh) @ scalar_to_bytes C (vs_f_share sh) @ scalar_to_bytes C (vs_g_share sh)"

definition rd_scalar :: "('s, 'p) crypto \<Rightarrow> 's reader" where
  "rd_scalar C = rd_bind (read_exact 32) (\<lambda>bs.
     case from_canonical_bytes C bs of None \<Rightarrow> rd_fail | Some x \<Rightarrow> rd_return x)"

definition de_vss_share :: "('s, 'p) crypto \<Rightarrow> 's vss_share reader" where
  "de_vss_share C =
     rd_bind (rd_word 2) (\<lambda>index.
     rd_bind (rd_scalar C) (\<lambda>f_share.
     rd_bind (rd_scalar C) (\<lambda>g_share.
       rd_return \<lparr>vs_index = index, vs_f_share = f_share, vs_g_share = g_share\<rparr>)))"

definition serialize_point_vec :: "('s, 'p) crypto \<Rightarrow> 'p list \<Rightarrow> bytes option" where
  "serialize_point_vec C coeffs =
     (if length coeffs < 2 ^ 16
      then Some (to_le_bytes 2 (word_of_nat (length coeffs) :: u16) @ concat (map (compress C) coeffs))
      else None)"

definition rd_point :: "('s, 'p) crypto \<Rightarrow> 'p reader" where
  "rd_point C = rd_bind (read_exact 32) (\<lambda>bs.
     case decompress C bs of None \<Rightarrow> rd_fail | Some pt \<Rightarrow> rd_return pt)"

definition deserialize_point_vec :: "('s, 'p) crypto \<Rightarrow> 'p list reader" where
  "deserialize_point_vec C =
     rd_bind (rd_word 2) (\<lambda>count :: u16. rd_many (unat count) (rd_point C))"

section \<open>Polynomials in Horner form\<close>

lemma horner_Nil [simp]: "horner_eval_scalar [] x = 0"
  by (simp add: horner_eval_scalar_def)

lemma horner_Cons [simp]: "horner_eval_scalar (c # cs) x = horner_eval_scalar cs x * x + c"
  by (simp add: horner_eval_scalar_def)

lemma horner_sum: "horner_eval_scalar cs x = (\<Sum>k < length cs. cs ! k * x ^ k)"
proof (induction cs)
  case Nil
  then show ?case by simp
next
  case (Cons c cs)
  have "(\<Sum>k < length (c # cs). (c # cs) ! k * x ^ k) = c + (\<Sum>k < length cs. cs ! k * x ^ Suc k)"
    by (simp add: sum.lessThan_Suc_shift del: sum.lessThan_Suc)
  also have "(\<Sum>k < length cs. cs ! k * x ^ Suc k) = horner_eval_scalar cs x * x"
    by (simp add: Cons.IH sum_distrib_left mult_ac)
  finally show ?case by simp
qed

lemma horner_at_zero: "horner_eval_scalar (c # cs) 0 = c"
  by simp

lemma horner_point_Nil [simp]: "horner_eval_point C [] x = 0"
  by (simp add: horner_eval_point_def)

lemma horner_point_Cons [simp]:
  "horner_eval_point C (P # Ps) x = point_mul C x (horner_eval_point C Ps x) + P"
  by (simp add: horner_eval_point_def)

text \<open>Evaluating Pedersen commitments commits to the evaluations.\<close>

definition pedersen_commit :: "('s, 'p::ab_group_add) crypto \<Rightarrow> 'p \<Rightarrow> 's \<Rightarrow> 's \<Rightarrow> 'p" where
  "pedersen_commit C h a b = mulG C a + point_mul C b h"

lemma tf_pedersen [simp]:
  "curve_ok C \<Longrightarrow> is_torsion_free C h \<Longrightarrow> is_torsion_free C (pedersen_commit C h a b)"
  by (simp add: pedersen_commit_def)

lemma pedersen_linear:
  assumes "curve_ok C" and "is_torsion_free C h"
  shows "point_mul C x (pedersen_commit C h a b) + pedersen_commit C h c d =
         pedersen_commit C h (a * x + c) (b * x + d)"
  using assms
  by (simp add: pedersen_commit_def point_mul_distrib point_mul_mul [symmetric] point_mul_add
      mult.commute [of x])

lemma horner_point_pedersen:
  assumes "curve_ok C" and "is_torsion_free C h" and "length fs = length gs"
  shows "horner_eval_point C (map2 (pedersen_commit C h) fs gs) x =
         pedersen_commit C h (horner_eval_scalar fs x) (horner_eval_scalar gs x)"
  using assms(3)
proof (induction fs gs rule: list_induct2)
  case Nil
  then show ?case using assms by (simp add: pedersen_commit_def)
next
  case (Cons f fs g gs)
  then show ?case using assms by (simp add: pedersen_linear)
qed

lemma verify_share_pedersen:
  assumes "curve_ok C" and "is_torsion_free C h" and "length fs = length gs"
  shows "verify_share C share \<lparr>vc_coeffs = map2 (pedersen_commit C h) fs gs\<rparr> h =
     (if vs_index share = 0 then Err InvalidSigningSet
      else if pedersen_commit C h (vs_f_share share) (vs_g_share share) =
              pedersen_commit C h (horner_eval_scalar fs (scalar_from (vs_index share)))
                (horner_eval_scalar gs (scalar_from (vs_index share)))
      then Ok () else Err VssShareInvalid)"
  using assms by (simp add: verify_share_def horner_point_pedersen) (simp add: pedersen_commit_def)

section \<open>What a deal consists of\<close>

lemma VssParameters_new_Ok:
  "VssParameters_new n t = Ok p \<longleftrightarrow> p = \<lparr>vp_n = n, vp_t = t\<rparr> \<and> 0 < unat t \<and> unat t \<le> unat n"
  by (auto simp: VssParameters_new_def word_le_nat_alt word_less_nat_alt unat_gt_0)

lemma map_nth_upt: "length xs = n \<Longrightarrow> map (\<lambda>k. f (xs ! k)) [0..<n] = map f xs"
  by (rule nth_equalityI) simp_all

lemma map2_nth_upt:
  "length xs = n \<Longrightarrow> length ys = n \<Longrightarrow> map (\<lambda>k. f (xs ! k) (ys ! k)) [0..<n] = map2 f xs ys"
  by (rule nth_equalityI) simp_all

text \<open>
  A deal is determined by the two coefficient lists it draws.
\<close>

definition dealt_f :: "('r, 's) rng \<Rightarrow> 's \<Rightarrow> vss_parameters \<Rightarrow> 'r \<Rightarrow> 's list" where
  "dealt_f R secret params r = secret # fst (random_scalars R (unat (vp_t params) - Suc 0) r)"

definition dealt_g :: "('r, 's) rng \<Rightarrow> vss_parameters \<Rightarrow> 'r \<Rightarrow> 's list" where
  "dealt_g R params r =
     fst (random_scalars R (unat (vp_t params)) (snd (random_scalars R (unat (vp_t params) - Suc 0) r)))"

definition members :: "u16 \<Rightarrow> u16 list" where
  "members n = map word_of_nat [1..<Suc (unat n)]"

definition share_at :: "'s::field list \<Rightarrow> 's list \<Rightarrow> u16 \<Rightarrow> 's vss_share" where
  "share_at F G j = \<lparr>vs_index = j, vs_f_share = horner_eval_scalar F (scalar_from j),
                     vs_g_share = horner_eval_scalar G (scalar_from j)\<rparr>"

lemma length_dealt:
  "0 < unat (vp_t params) \<Longrightarrow> length (dealt_f R secret params r) = unat (vp_t params)"
  "length (dealt_g R params r) = unat (vp_t params)"
  by (simp_all add: dealt_f_def dealt_g_def)

lemma horner_dealt_f [simp]: "horner_eval_scalar (dealt_f R secret params r) 0 = secret"
  by (simp add: dealt_f_def)

lemma unat_nat_u16: "j \<le> unat (n :: u16) \<Longrightarrow> unat (word_of_nat j :: u16) = j"
  using unat_less [of n] by (intro unat_word_of_nat) linarith

lemma members_iff: "j \<in> set (members n) \<longleftrightarrow> 1 \<le> unat j \<and> unat j \<le> unat n"
proof
  assume "j \<in> set (members n)"
  then obtain k where "j = word_of_nat k" "1 \<le> k" "k \<le> unat n" by (auto simp: members_def)
  then show "1 \<le> unat j \<and> unat j \<le> unat n" by (simp add: unat_nat_u16)
next
  assume "1 \<le> unat j \<and> unat j \<le> unat n"
  then have "unat j \<in> set [1..<Suc (unat n)]" by (simp del: upt_Suc)
  moreover have "word_of_nat (unat j) = j" by simp
  ultimately show "j \<in> set (members n)" unfolding members_def by (metis image_eqI image_set)
qed

lemma length_members [simp]: "length (members n) = unat n"
  by (simp add: members_def del: upt_Suc)

lemma members_nth: "1 \<le> unat j \<Longrightarrow> unat j \<le> unat n \<Longrightarrow> members n ! unat (j - 1) = j"
proof -
  assume j: "1 \<le> unat j" "unat j \<le> unat n"
  then have "unat (j - 1) = unat j - 1" by (simp add: unat_sub word_le_nat_alt)
  then show ?thesis using j by (simp add: members_def del: upt_Suc)
qed

lemma unat_members: "map unat (members n) = [1..<Suc (unat n)]"
proof -
  have "map unat (members n) = map (\<lambda>j. j) [1..<Suc (unat n)]"
    unfolding members_def map_map
    by (intro map_cong refl) (use unat_nat_u16 [of _ n] in \<open>auto simp: less_Suc_eq_le\<close>)
  then show ?thesis by simp
qed

lemma sorted_members: "sorted (members n)" and distinct_members: "distinct (members n)"
proof -
  have "sorted (map unat (members n))" "distinct (map unat (members n))"
    unfolding unat_members by (simp_all del: upt_Suc)
  then show "sorted (members n)" "distinct (members n)"
    by (simp_all add: sorted_map distinct_map word_le_nat_alt [abs_def])
qed

lemma deal_shape:
  fixes C :: "('s::field, 'p::ab_group_add) crypto"
  assumes "0 < unat (vp_t params)"
  shows "fst (deal C R secret params h r) =
       (\<lparr>vc_coeffs = map2 (pedersen_commit C h) (dealt_f R secret params r) (dealt_g R params r)\<rparr>,
        \<lparr>fc_coeffs = map (mulG C) (dealt_f R secret params r)\<rparr>,
        map (share_at (dealt_f R secret params r) (dealt_g R params r)) (members (vp_n params)))"
proof -
  let ?t = "unat (vp_t params)"
  let ?F = "dealt_f R secret params r" and ?G = "dealt_g R params r"
  obtain fs r1 where f: "random_scalars R (?t - Suc 0) r = (fs, r1)"
    by (cases "random_scalars R (?t - Suc 0) r")
  obtain gs r2 where g: "random_scalars R ?t r1 = (gs, r2)" by (cases "random_scalars R ?t r1")
  have FG: "?F = secret # fs" "?G = gs" by (simp_all add: dealt_f_def dealt_g_def f g)
  have "(scalar_from (word_of_nat j :: u16) :: 's) = of_nat j" if "j \<in> set [1..<Suc (unat (vp_n params))]" for j
  proof -
    have "unat (word_of_nat j :: u16) = j" using that by (intro unat_nat_u16 [of j "vp_n params"]) auto
    then show ?thesis by (simp only: scalar_from_def)
  qed
  then have "map (share_at ?F ?G) (members (vp_n params)) =
      map (\<lambda>j. \<lparr>vs_index = word_of_nat j, vs_f_share = horner_eval_scalar ?F (of_nat j),
                 vs_g_share = horner_eval_scalar ?G (of_nat j)\<rparr>) [1..<Suc (unat (vp_n params))]"
    unfolding members_def map_map by (intro map_cong refl) (simp add: share_at_def)
  then show ?thesis
    using map2_nth_upt [of ?F ?t ?G "pedersen_commit C h"] map_nth_upt [of ?F ?t "mulG C"]
      length_dealt(1) [OF assms, of R secret r] length_dealt(2) [of R params r]
    by (simp add: deal_def f g FG Let_def pedersen_commit_def del: upt_Suc)
qed

lemma share_at_verifies:
  assumes "curve_ok C" and "is_torsion_free C h" and "length F = length G" and "j \<noteq> 0"
  shows "verify_share C (share_at F G j) \<lparr>vc_coeffs = map2 (pedersen_commit C h) F G\<rparr> h = Ok ()"
  using assms by (simp add: verify_share_pedersen share_at_def)

lemma dealt_share:
  assumes "1 \<le> unat j" and "unat j \<le> unat n"
  shows "index_at (map (share_at F G) (members n)) (unat (j - 1)) = Ok (share_at F G j)"
  using assms members_nth [OF assms] by (simp add: unat_sub word_le_nat_alt)

section \<open>The formats satisfy the codec contract\<close>

interpretation scalar_codec: codec "scalar_to_bytes C" "rd_scalar C" "\<lambda>_. curve_ok C" for C
  by unfold_locales (simp add: rd_scalar_def rd_bind_def)

interpretation point_codec: codec "compress C" "rd_point C" "\<lambda>_. curve_ok C" for C
  by unfold_locales (simp add: rd_point_def rd_bind_def)

interpretation vss_share_codec: codec "ser_vss_share C" "de_vss_share C" "\<lambda>_. curve_ok C" for C
  by unfold_locales
    (simp add: ser_vss_share_def de_vss_share_def rd_bind_def scalar_codec.de_ser)

interpretation point_vec_codec: codec "\<lambda>Ps. the (serialize_point_vec C Ps)" "deserialize_point_vec C"
    "\<lambda>Ps. curve_ok C \<and> length Ps < 2 ^ 16" for C
proof (unfold_locales, elim conjE)
  fix Ps :: "'a list" and rest assume ok: "curve_ok C" and len: "length Ps < 2 ^ 16"
  have "unat (word_of_nat (length Ps) :: u16) = length Ps" using len by (simp add: unat_of_nat)
  moreover have "rd_many (length Ps) (rd_point C) (concat (map (compress C) Ps) @ rest) = Some (Ps, rest)"
    using ok by (intro point_codec.rd_many_ser) (simp add: list_all_iff)
  ultimately show "deserialize_point_vec C (the (serialize_point_vec C Ps) @ rest) = Some (Ps, rest)"
    using len by (simp add: deserialize_point_vec_def serialize_point_vec_def rd_bind_def)
qed

interpretation transcript_signature_codec: codec ser_transcript_signature de_transcript_signature
    "\<lambda>ts. length (sig_r (ts_sig ts)) = 32 \<and> length (sig_s (ts_sig ts)) = 32"
  by unfold_locales
    (auto simp: ser_transcript_signature_def de_transcript_signature_def rd_bind_def
      Signature_to_bytes_def Signature_from_bytes_def read_exact_def transcript_signature.expand)

section \<open>Properties\<close>

text \<open>The candidate of one counter value: its lifted point, when that is not the identity.\<close>

definition h_candidate :: "('s, 'p::zero) crypto \<Rightarrow> u32 \<Rightarrow> 'p option" where
  "h_candidate C counter =
     (case decompress C (take 32 (Sha512 C (H_DOMAIN @ to_le_bytes 4 counter))) of
        None \<Rightarrow> None
      | Some P \<Rightarrow> if mul_by_cofactor C P \<noteq> 0 then Some (mul_by_cofactor C P) else None)"

lemma h_generator_from_unfold:
  "h_generator_from C counter =
     (case h_candidate C counter of
        Some P \<Rightarrow> Ok P
      | None \<Rightarrow> (case checked_add counter 1 of None \<Rightarrow> Panic | Some c \<Rightarrow> h_generator_from C c))"
  by (subst h_generator_from.simps) (simp add: h_candidate_def Let_def split: option.splits)

lemma h_generator_from_search:
  assumes "h_candidate C (word_of_nat (m + d)) = Some P" and "m + d < 2 ^ 32"
    and "\<forall>k < d. h_candidate C (word_of_nat (m + k)) = None"
  shows "h_generator_from C (word_of_nat m) = Ok P"
  using assms
proof (induction d arbitrary: m)
  case 0
  then show ?case by (subst h_generator_from_unfold) simp
next
  case (Suc d)
  have "h_candidate C (word_of_nat (Suc m + k)) = None" if "k < d" for k
    using Suc.prems(3) [rule_format, of "Suc k"] that by simp
  then have "h_generator_from C (word_of_nat (Suc m)) = Ok P"
    using Suc.prems by (intro Suc.IH) simp_all
  moreover have "checked_add (word_of_nat m :: u32) 1 = Some (word_of_nat (Suc m))"
    using Suc.prems(2) by (simp add: checked_add_def unat_of_nat)
  moreover have "h_candidate C (word_of_nat m) = None"
    using Suc.prems(3) [rule_format, of 0] by simp
  ultimately show ?case by (subst h_generator_from_unfold) simp
qed

text \<open>
  C32. The Pedersen generator is the candidate of the least counter that has one, and it is a
  non-zero point of the prime-order subgroup. The loop returns whenever some 32-bit counter has a
  candidate.
\<close>

theorem h_generator_least:
  assumes "curve_ok C" and "h_candidate C c = Some P" and "\<forall>d < c. h_candidate C d = None"
  shows "h_generator C = Ok P \<and> P \<noteq> 0 \<and> is_torsion_free C P"
proof -
  have "h_candidate C (word_of_nat k) = None" if "k < unat c" for k
  proof -
    have "k < 2 ^ LENGTH(32)" using that unat_less [of c] by linarith
    then show ?thesis using that assms(3) by (simp add: word_less_nat_alt unat_word_of_nat)
  qed
  then have "h_generator_from C (word_of_nat 0) = Ok P"
    using assms(2) unat_less [of c] by (intro h_generator_from_search [where d = "unat c"]) simp_all
  moreover have "P \<noteq> 0 \<and> (\<exists>Q. P = mul_by_cofactor C Q)"
    using assms(2) by (auto simp: h_candidate_def split: option.splits if_splits)
  ultimately show ?thesis using tf_cofactor [OF assms(1)] by (auto simp: h_generator_def)
qed

text \<open>A digest that skips the domain: counter 0 lifts to the identity, counter 1 to \<open>8\<close>.\<close>

definition gf_counter_curve :: "(gf, gf) crypto" where
  "gf_counter_curve = gf_curve\<lparr>Sha512 := (\<lambda>bs. take 64 (drop (length H_DOMAIN) bs @ replicate 64 0))\<rparr>"

lemma curve_ok_gf_counter: "curve_ok gf_counter_curve"
  using curve_ok_gf by (simp add: gf_counter_curve_def curve_ok_def)

lemma gf_counter_candidates: "h_candidate gf_counter_curve 0 = None" "h_candidate gf_counter_curve 1 = Some 8"
proof -
  have b0: "take 32 (to_le_bytes 4 (0 :: u32) @ replicate 64 0) = gf_bytes 0"
    unfolding gf_bytes_0 by code_simp
  have b1: "take 32 (to_le_bytes 4 (1 :: u32) @ replicate 64 0) = gf_bytes 1"
    unfolding gf_bytes_1 by code_simp
  have "(8 :: gf) \<noteq> 0" using gf_of_nat_neq [of 8 0] by simp
  then show "h_candidate gf_counter_curve 0 = None" "h_candidate gf_counter_curve 1 = Some 8"
    using b0 b1 by (simp_all add: h_candidate_def gf_counter_curve_def)
      (simp_all add: gf_curve_def)
qed

theorem h_generator_least_witness:
  "h_generator gf_counter_curve = Ok 8 \<and> 8 \<noteq> (0 :: gf) \<and> is_torsion_free gf_counter_curve 8"
proof (rule h_generator_least [OF curve_ok_gf_counter gf_counter_candidates(2)], intro allI impI)
  fix d :: u32 assume "d < 1"
  then have "d = 0" by (simp add: word_less_nat_alt unat_eq_0)
  then show "h_candidate gf_counter_curve d = None" by (simp add: gf_counter_candidates)
qed

text \<open>
  Completeness of the dealer: with valid parameters, \<open>deal\<close> hands out one share for each index
  from 1 to \<open>n\<close> in order, every share passes \<open>verify_share\<close> against the published commitments,
  both commitment vectors have \<open>t\<close> entries, and the first Feldman commitment is the secret times
  the base point.
\<close>

lemma deal_shares_verify:
  fixes C :: "('s::field, 'p::ab_group_add) crypto"
  assumes "curve_ok C" and "is_torsion_free C h" and "VssParameters_new n t = Ok params"
    and "deal C R secret params h r = ((ped, fel, shares), r')"
  shows "length shares = unat n \<and> length (vc_coeffs ped) = unat t \<and> length (fc_coeffs fel) = unat t \<and>
         secret_commitment fel = Ok (mulG C secret) \<and>
         (\<forall>i < unat n. unat (vs_index (shares ! i)) = i + 1 \<and> verify_share C (shares ! i) ped h = Ok ())"
proof -
  let ?F = "dealt_f R secret params r" and ?G = "dealt_g R params r"
  from assms(3) have p: "vp_n params = n" "vp_t params = t" "0 < unat (vp_t params)"
    by (auto simp: VssParameters_new_Ok)
  have d: "ped = \<lparr>vc_coeffs = map2 (pedersen_commit C h) ?F ?G\<rparr>" "fel = \<lparr>fc_coeffs = map (mulG C) ?F\<rparr>"
      "shares = map (share_at ?F ?G) (members n)"
    using deal_shape [OF p(3), where secret = secret and C = C and R = R and h = h and r = r] assms(4) p
    by auto
  have len: "length ?F = unat t" "length ?G = unat t" using length_dealt p by metis+
  have "unat (vs_index (shares ! i)) = i + 1 \<and> verify_share C (shares ! i) ped h = Ok ()" if "i < unat n" for i
  proof -
    have "unat (members n ! i) = i + 1"
      using that arg_cong [OF unat_members [of n], of "\<lambda>xs. xs ! i"] by (simp del: upt_Suc)
    moreover then have "members n ! i \<noteq> 0" by (metis unat_0 Suc_eq_plus1 nat.distinct(1))
    ultimately show ?thesis
      using that len share_at_verifies [OF assms(1,2), of ?F ?G "members n ! i"]
      by (simp add: d) (simp add: share_at_def)
  qed
  moreover have "secret_commitment fel = Ok (mulG C secret)"
    by (simp add: d secret_commitment_def dealt_f_def)
  ultimately show ?thesis using len by (simp add: d)
qed

text \<open>
  Binding: if two shares with the same index pass \<open>verify_share\<close> against the same commitments
  but disagree on the secret component, then the discrete logarithm of \<open>h\<close> can be read off them.
  The commitments may be any points, also points outside the prime-order subgroup.
\<close>

lemma vss_binding:
  assumes "curve_ok C" and "is_torsion_free C h"
    and "verify_share C a ped h = Ok ()" and "verify_share C b ped h = Ok ()"
    and "vs_index a = vs_index b" and "vs_f_share a \<noteq> vs_f_share b"
  shows "h = mulG C ((vs_f_share a - vs_f_share b) / (vs_g_share b - vs_g_share a))"
proof -
  let ?df = "vs_f_share a - vs_f_share b" and ?dg = "vs_g_share b - vs_g_share a"
  have "mulG C (vs_f_share a) + point_mul C (vs_g_share a) h =
        mulG C (vs_f_share b) + point_mul C (vs_g_share b) h"
    using assms(3-5) by (auto simp: verify_share_def Let_def split: if_splits)
  then have eq: "mulG C ?df = point_mul C ?dg h"
    using assms(1,2) by (simp add: point_mul_minus algebra_simps)
  have "?dg \<noteq> 0"
  proof
    assume "?dg = 0"
    then have "mulG C ?df = 0" using eq assms(1,2) by simp
    then show False using assms(1,6) by (simp add: mulG_eq_0)
  qed
  then have "h = point_mul C (1 / ?dg) (point_mul C ?dg h)"
    using assms(1,2) by (simp add: point_mul_mul [symmetric])
  then have "h = point_mul C (1 / ?dg) (mulG C ?df)" using eq by (simp only:)
  then show ?thesis using assms(1) by (simp add: mulG_mul)
qed

end
