(* ===== verification/Interpolation.thy ===== *)
theory Interpolation
  imports Vss
begin

text \<open>
  Lagrange interpolation over a field, for polynomials given by their coefficient lists and
  evaluated with \<open>horner_eval_scalar\<close> as in \<open>vss.rs\<close>. The protocol theories use the value at zero
  (\<open>lagrange_zero\<close>), the uniqueness of the interpolating polynomial, and the coefficient-wise sum of
  several polynomials (\<open>poly_sum\<close>), which is what adding up shares computes.
\<close>

section \<open>The Lagrange basis\<close>

definition lagrange_basis :: "'s::field set \<Rightarrow> 's \<Rightarrow> 's \<Rightarrow> 's" where
  "lagrange_basis X x i = (\<Prod>k \<in> X - {i}. (x - k) / (i - k))"

lemma lagrange_remove:
  assumes "finite X" and "a \<in> X" and "i \<noteq> a"
  shows "lagrange_basis X x i * (i - a) = lagrange_basis (X - {a}) x i * (x - a)"
proof -
  have "X - {i} = insert a (X - {a} - {i})" using assms by auto
  then have "lagrange_basis X x i = (x - a) / (i - a) * lagrange_basis (X - {a}) x i"
    using assms by (simp add: lagrange_basis_def)
  then show ?thesis using assms(3) by simp
qed

lemma lagrange_factor:
  assumes "finite X" and "a \<in> X"
  shows "(\<Sum>i \<in> X. lagrange_basis X x i * ((i - a) * q i)) =
         (x - a) * (\<Sum>i \<in> X - {a}. lagrange_basis (X - {a}) x i * q i)"
proof -
  have "(\<Sum>i \<in> X. lagrange_basis X x i * ((i - a) * q i)) =
        (\<Sum>i \<in> X - {a}. lagrange_basis X x i * ((i - a) * q i))"
    using assms by (simp add: sum.remove [of X a])
  also have "\<dots> = (\<Sum>i \<in> X - {a}. (x - a) * (lagrange_basis (X - {a}) x i * q i))"
  proof (rule sum.cong [OF refl])
    fix i assume "i \<in> X - {a}"
    then have "lagrange_basis X x i * (i - a) = lagrange_basis (X - {a}) x i * (x - a)"
      using assms by (intro lagrange_remove) auto
    then show "lagrange_basis X x i * ((i - a) * q i) = (x - a) * (lagrange_basis (X - {a}) x i * q i)"
      by (metis mult.assoc mult.commute)
  qed
  finally show ?thesis by (simp add: sum_distrib_left)
qed

text \<open>The basis is a partition of unity.\<close>

lemma lagrange_sum_one:
  assumes "finite X" and "X \<noteq> {}"
  shows "(\<Sum>i \<in> X. lagrange_basis X x i) = 1"
  using assms
proof (induction "card X" arbitrary: X)
  case 0
  then show ?case by simp
next
  case (Suc n)
  show ?case
  proof (cases "n = 0")
    case True
    then obtain a where "X = {a}" using Suc.hyps(2) by (metis One_nat_def card_1_singletonE)
    then show ?thesis by (simp add: lagrange_basis_def)
  next
    case False
    then have "\<not> card X \<le> Suc 0" using Suc.hyps(2) by simp
    then obtain a b where ab: "a \<in> X" "b \<in> X" "a \<noteq> b"
      using card_le_Suc0_iff_eq [OF Suc.prems(1)] by blast
    have one: "(\<Sum>i \<in> X. lagrange_basis X x i * (i - c)) = x - c" if "c \<in> X" for c
    proof -
      have "(\<Sum>i \<in> X - {c}. lagrange_basis (X - {c}) x i) = 1"
      proof (rule Suc.hyps(1))
        show n: "n = card (X - {c})" using that Suc.hyps(2) Suc.prems(1) by simp
        show "X - {c} \<noteq> {}" using n False by (metis card.empty)
      qed (use Suc.prems in simp)
      then show ?thesis using lagrange_factor [OF Suc.prems(1) that, of x "\<lambda>_. 1"] by simp
    qed
    have "(b - a) * (\<Sum>i \<in> X. lagrange_basis X x i) =
          (\<Sum>i \<in> X. lagrange_basis X x i * (i - a)) - (\<Sum>i \<in> X. lagrange_basis X x i * (i - b))"
      by (simp add: sum_distrib_left sum_subtractf [symmetric] algebra_simps)
    also have "\<dots> = b - a" using one ab by simp
    finally show ?thesis using ab(3) by simp
  qed
qed

section \<open>Interpolating a coefficient list\<close>

text \<open>Dividing by \<open>x - a\<close>, from the leading coefficient down.\<close>

fun synthetic_division :: "'s::field list \<Rightarrow> 's \<Rightarrow> 's list" where
  "synthetic_division [] a = []"
| "synthetic_division (c # cs) a =
     (if cs = [] then [] else horner_eval_scalar cs a # synthetic_division cs a)"

lemma length_synthetic_division [simp]: "length (synthetic_division cs a) = length cs - 1"
  by (induction cs a rule: synthetic_division.induct) (auto simp: Suc_diff_le length_greater_0_conv)

lemma synthetic_division_eq:
  "horner_eval_scalar cs x = horner_eval_scalar cs a + (x - a) * horner_eval_scalar (synthetic_division cs a) x"
proof (induction cs a rule: synthetic_division.induct)
  case (1 a)
  then show ?case by simp
next
  case (2 c cs a)
  show ?case
  proof (cases "cs = []")
    case False
    then show ?thesis by (simp add: 2 [OF False]) (simp add: algebra_simps)
  qed simp
qed

theorem lagrange_interpolation:
  assumes "finite X" and "length cs \<le> card X"
  shows "(\<Sum>i \<in> X. lagrange_basis X x i * horner_eval_scalar cs i) = horner_eval_scalar cs x"
  using assms
proof (induction "card X" arbitrary: X cs)
  case 0
  then show ?case by simp
next
  case (Suc n)
  then obtain a where a: "a \<in> X" by (metis card.empty ex_in_conv nat.distinct(1))
  let ?q = "synthetic_division cs a"
  have q: "(\<Sum>i \<in> X - {a}. lagrange_basis (X - {a}) x i * horner_eval_scalar ?q i) = horner_eval_scalar ?q x"
    using Suc a by (intro Suc.hyps(1)) auto
  have "(\<Sum>i \<in> X. lagrange_basis X x i * horner_eval_scalar cs i) =
        horner_eval_scalar cs a * (\<Sum>i \<in> X. lagrange_basis X x i) +
        (\<Sum>i \<in> X. lagrange_basis X x i * ((i - a) * horner_eval_scalar ?q i))"
    by (subst synthetic_division_eq [of cs _ a])
      (simp add: sum_distrib_left sum.distrib [symmetric] algebra_simps)
  also have "\<dots> = horner_eval_scalar cs x"
    using lagrange_sum_one [OF Suc.prems(1), of x] lagrange_factor [OF Suc.prems(1) a] a q
    by (auto simp: synthetic_division_eq [of cs x a])
  finally show ?case .
qed

lemma interpolation_unique:
  assumes "finite X" and "length p \<le> card X" and "length q \<le> card X"
    and "\<forall>i \<in> X. horner_eval_scalar p i = horner_eval_scalar q i"
  shows "horner_eval_scalar p x = horner_eval_scalar q x"
proof -
  have "horner_eval_scalar p x = (\<Sum>i \<in> X. lagrange_basis X x i * horner_eval_scalar p i)"
    using assms by (intro lagrange_interpolation [symmetric])
  also have "\<dots> = (\<Sum>i \<in> X. lagrange_basis X x i * horner_eval_scalar q i)"
    using assms(4) by (intro sum.cong) simp_all
  also have "\<dots> = horner_eval_scalar q x" using assms by (intro lagrange_interpolation)
  finally show ?thesis .
qed

section \<open>Adding polynomials\<close>

definition poly_sum :: "nat \<Rightarrow> 's::field list list \<Rightarrow> 's list" where
  "poly_sum t ps = map (\<lambda>k. sum_list (map (\<lambda>p. p ! k) ps)) [0..<t]"

lemma length_poly_sum [simp]: "length (poly_sum t ps) = t"
  by (simp add: poly_sum_def)

lemma horner_poly_sum:
  assumes "\<forall>p \<in> set ps. length p = t"
  shows "horner_eval_scalar (poly_sum t ps) x = sum_list (map (\<lambda>p. horner_eval_scalar p x) ps)"
proof -
  have "horner_eval_scalar (poly_sum t ps) x = (\<Sum>k < t. sum_list (map (\<lambda>p. p ! k) ps) * x ^ k)"
    by (simp add: horner_sum poly_sum_def)
  also have "\<dots> = sum_list (map (\<lambda>p. \<Sum>k < t. p ! k * x ^ k) ps)"
    by (induction ps) (simp_all add: algebra_simps sum.distrib)
  also have "\<dots> = sum_list (map (\<lambda>p. horner_eval_scalar p x) ps)"
    using assms by (simp add: horner_sum cong: map_cong)
  finally show ?thesis .
qed

end
