(* ===== verification/Sign.thy ===== *)
theory Sign
  imports Interpolation
begin

text \<open>
  Threshold blind signing of the crate \<open>tardus-mint\<close> (\<open>sign.rs\<close>): the validators' rounds 1 and 3,
  the two aggregators and the Lagrange coefficient. The user's rounds are those of \<open>Core\<close>.

  The lemmas show that any signing set of at least threshold size produces a valid signature under
  the joint key, that an aggregator accepts exactly one message of every member of the set, that a
  nonce used for two challenges reveals the validator's share, and which inputs each function
  rejects.
\<close>

section \<open>Messages\<close>

record 's validator_r1_state =
  r1s_session_id :: session_id
  r1s_my_index :: u16
  r1s_k_i :: 's

record validator_r1_output =
  r1o_from_index :: u16
  r1o_session_id :: session_id
  r1o_r_i :: bytes

record validator_r3_output =
  r3o_from_index :: u16
  r3o_session_id :: session_id
  r3o_s_i :: bytes

section \<open>Rounds and aggregation\<close>

definition validator_round1 ::
    "('s, 'p) crypto \<Rightarrow> ('r, 's) rng \<Rightarrow> session_id \<Rightarrow> u16 \<Rightarrow> 'r
     \<Rightarrow> (validator_r1_output \<times> 's validator_r1_state) \<times> 'r" where
  "validator_round1 C R session_id my_index r =
     (let (k_i, r1) = random_scalar R r;
          r_i_bytes = compress C (point_mul C k_i (ED25519_BASEPOINT_POINT C))
      in ((\<lparr>r1o_from_index = my_index, r1o_session_id = session_id, r1o_r_i = r_i_bytes\<rparr>,
           \<lparr>r1s_session_id = session_id, r1s_my_index = my_index, r1s_k_i = k_i\<rparr>), r1))"

text \<open>The loop over the outputs, with the running sum and the indices seen so far.\<close>

fun aggregate_commitments_loop ::
    "('s, 'p::ab_group_add) crypto \<Rightarrow> session_id \<Rightarrow> u16 list \<Rightarrow> 'p \<Rightarrow> u16 list \<Rightarrow> validator_r1_output list
     \<Rightarrow> ('p, mint_error) result" where
  "aggregate_commitments_loop C sid S r_agg seen [] = Ok r_agg"
| "aggregate_commitments_loop C sid S r_agg seen (out # outs) =
     (if r1o_session_id out \<noteq> sid then Err DomainMismatch
      else if r1o_from_index out \<notin> set S then Err UnknownParticipant
      else if r1o_from_index out \<in> set seen then Err DuplicateParticipant
      else rbind (ok_or (MintCore InvalidPoint) (decompress C (r1o_r_i out))) (\<lambda>r_i.
        aggregate_commitments_loop C sid S (r_agg + r_i) (seen @ [r1o_from_index out]) outs))"

definition aggregate_commitments ::
    "('s, 'p::ab_group_add) crypto \<Rightarrow> session_id \<Rightarrow> u16 list \<Rightarrow> validator_r1_output list
     \<Rightarrow> (blind_commit, mint_error) result" where
  "aggregate_commitments C sid signing_set outputs =
     (if length outputs \<noteq> length signing_set then Err InsufficientMessages
      else rbind (aggregate_commitments_loop C sid signing_set 0 [] outputs) (\<lambda>r_agg.
        Ok \<lparr>bc_r = compress C r_agg\<rparr>))"

fun lagrange_loop ::
    "u16 \<Rightarrow> 's::field \<Rightarrow> 's \<Rightarrow> 's \<Rightarrow> u16 list \<Rightarrow> ('s \<times> 's, mint_error) result" where
  "lagrange_loop i i_scalar num den [] = Ok (num, den)"
| "lagrange_loop i i_scalar num den (k # ks) =
     (if k = i then lagrange_loop i i_scalar num den ks
      else
        (let k_scalar = scalar_from k;
             num' = num * (- k_scalar);
             diff = i_scalar - k_scalar
         in if diff = 0 then Err InvalidSigningSet
            else lagrange_loop i i_scalar num' (den * diff) ks))"

definition lagrange_coefficient_at_zero :: "u16 list \<Rightarrow> u16 \<Rightarrow> ('s::field, mint_error) result" where
  "lagrange_coefficient_at_zero signing_set i =
     (if i \<notin> set signing_set then Err UnknownParticipant
      else if 0 \<in> set signing_set then Err InvalidSigningSet
      else rbind (lagrange_loop i (scalar_from i) 1 1 signing_set) (\<lambda>(num, den).
        Ok (num * inverse den)))"

definition partial_sign ::
    "('s::field, 'p) crypto \<Rightarrow> 's validator_r1_state \<Rightarrow> blind_challenge \<Rightarrow> 's secret_key \<Rightarrow> u16 list
     \<Rightarrow> (validator_r3_output, mint_error) result" where
  "partial_sign C state challenge my_share signing_set =
     rbind (ok_or (MintCore InvalidScalar) (from_canonical_bytes C (bch_c challenge))) (\<lambda>c.
     rbind (lagrange_coefficient_at_zero signing_set (r1s_my_index state)) (\<lambda>lambda.
     rbind (expect_some (from_canonical_bytes C (SecretKey_to_bytes C my_share))) (\<lambda>sk_i.
       Ok \<lparr>r3o_from_index = r1s_my_index state,
           r3o_session_id = r1s_session_id state,
           r3o_s_i = scalar_to_bytes C (r1s_k_i state + c * lambda * sk_i)\<rparr>)))"

fun aggregate_responses_loop ::
    "('s::field, 'p) crypto \<Rightarrow> session_id \<Rightarrow> u16 list \<Rightarrow> 's \<Rightarrow> u16 list \<Rightarrow> validator_r3_output list
     \<Rightarrow> ('s, mint_error) result" where
  "aggregate_responses_loop C sid S s_agg seen [] = Ok s_agg"
| "aggregate_responses_loop C sid S s_agg seen (out # outs) =
     (if r3o_session_id out \<noteq> sid then Err DomainMismatch
      else if r3o_from_index out \<notin> set S then Err UnknownParticipant
      else if r3o_from_index out \<in> set seen then Err DuplicateParticipant
      else rbind (ok_or (MintCore InvalidScalar) (from_canonical_bytes C (r3o_s_i out))) (\<lambda>s_i.
        aggregate_responses_loop C sid S (s_agg + s_i) (seen @ [r3o_from_index out]) outs))"

definition aggregate_responses ::
    "('s::field, 'p) crypto \<Rightarrow> session_id \<Rightarrow> u16 list \<Rightarrow> validator_r3_output list
     \<Rightarrow> (blind_response, mint_error) result" where
  "aggregate_responses C sid signing_set outputs =
     (if length outputs \<noteq> length signing_set then Err InsufficientMessages
      else rbind (aggregate_responses_loop C sid signing_set 0 [] outputs) (\<lambda>s_agg.
        Ok \<lparr>br_s = scalar_to_bytes C s_agg\<rparr>))"

section \<open>The Lagrange coefficient\<close>

lemma lagrange_loop_prod:
  assumes "large_field TYPE('s::field)"
  shows "lagrange_loop i (scalar_from i) num den ks =
     Ok (num * (\<Prod>k \<leftarrow> filter (\<lambda>k. k \<noteq> i) ks. - scalar_from k),
         den * (\<Prod>k \<leftarrow> filter (\<lambda>k. k \<noteq> i) ks. scalar_from i - scalar_from k) :: 's)"
  by (induction ks arbitrary: num den)
    (auto simp: Let_def scalar_from_inject [OF assms] mult.assoc)

lemma inj_scalar_from:
  assumes "large_field TYPE('s::field)"
  shows "inj_on (scalar_from :: u16 \<Rightarrow> 's) A"
  using assms by (auto intro!: inj_onI simp: scalar_from_inject)

text \<open>
  On a set without zero and duplicates the coefficient is the Lagrange basis at zero.
\<close>

lemma lagrange_coefficient_basis:
  assumes big: "large_field TYPE('s::field)" and "distinct S" and "0 \<notin> set S" and "i \<in> set S"
  shows "lagrange_coefficient_at_zero S i =
         Ok (lagrange_basis (scalar_from ` set S) 0 (scalar_from i) :: 's)"
proof -
  let ?f = "scalar_from :: u16 \<Rightarrow> 's"
  let ?ks = "filter (\<lambda>k. k \<noteq> i) S"
  have ks: "distinct ?ks" "set ?ks = set S - {i}" using assms(2) by auto
  have "?f ` set S - {?f i} = ?f ` (set S - {i})"
    by (auto simp: scalar_from_inject [OF big])
  then have "lagrange_basis (?f ` set S) 0 (?f i) = (\<Prod>k \<in> set S - {i}. (0 - ?f k) / (?f i - ?f k))"
    unfolding lagrange_basis_def by (simp add: prod.reindex [OF inj_scalar_from [OF big]])
  also have "\<dots> = (\<Prod>k \<in> set ?ks. - ?f k) / (\<Prod>k \<in> set ?ks. ?f i - ?f k)"
    by (simp only: ks(2) prod_dividef diff_0)
  also have "\<dots> = (\<Prod>k \<leftarrow> ?ks. - ?f k) * inverse (\<Prod>k \<leftarrow> ?ks. ?f i - ?f k)"
    using ks(1) by (simp only: prod.distinct_set_conv_list divide_inverse)
  finally show ?thesis
    using assms by (simp add: lagrange_coefficient_at_zero_def lagrange_loop_prod [OF big])
qed

lemma lagrange_basis_zero_nonzero:
  assumes "finite X" and "0 \<notin> X"
  shows "lagrange_basis X 0 i \<noteq> 0"
proof -
  have "(0 - k) / (i - k) \<noteq> 0" if "k \<in> X - {i}" for k using that assms(2) by auto
  then show ?thesis using assms(1) by (simp add: lagrange_basis_def)
qed

lemma lagrange_combines_shares:
  fixes S :: "u16 list"
  assumes big: "large_field TYPE('s::field)" and "distinct S" and "length F \<le> length S"
  shows "(\<Sum>i \<leftarrow> S. lagrange_basis (scalar_from ` set S) 0 (scalar_from i) *
           horner_eval_scalar F (scalar_from i :: 's)) = horner_eval_scalar F 0"
proof -
  let ?X = "(scalar_from :: u16 \<Rightarrow> 's) ` set S"
  have "card ?X = length S"
    using assms(2) by (simp add: card_image [OF inj_scalar_from [OF big]] distinct_card)
  then have "(\<Sum>x \<in> ?X. lagrange_basis ?X 0 x * horner_eval_scalar F x) = horner_eval_scalar F 0"
    using assms(3) by (intro lagrange_interpolation) auto
  then show ?thesis
    using assms(2)
    by (simp add: sum.reindex [OF inj_scalar_from [OF big]] sum.distinct_set_conv_list)
qed

section \<open>The aggregators\<close>

lemma aggregate_commitments_loop_Ok:
  assumes "\<forall>out \<in> set outs. r1o_session_id out = sid \<and> r1o_from_index out \<in> set S"
    and "distinct (seen @ map r1o_from_index outs)"
    and "\<forall>out \<in> set outs. decompress C (r1o_r_i out) = Some (P out)"
  shows "aggregate_commitments_loop C sid S acc seen outs = Ok (acc + (\<Sum>out \<leftarrow> outs. P out))"
  using assms by (induction outs arbitrary: acc seen) (simp_all add: add.assoc)

lemma aggregate_responses_loop_Ok:
  assumes "\<forall>out \<in> set outs. r3o_session_id out = sid \<and> r3o_from_index out \<in> set S"
    and "distinct (seen @ map r3o_from_index outs)"
    and "\<forall>out \<in> set outs. from_canonical_bytes C (r3o_s_i out) = Some (s out)"
  shows "aggregate_responses_loop C sid S acc seen outs = Ok (acc + (\<Sum>out \<leftarrow> outs. s out))"
  using assms by (induction outs arbitrary: acc seen) (simp_all add: add.assoc)

lemma aggregate_commitments_loop_accepts:
  assumes "aggregate_commitments_loop C sid S acc seen outs = Ok P" and "distinct seen"
  shows "distinct (seen @ map r1o_from_index outs) \<and> set (map r1o_from_index outs) \<subseteq> set S \<and>
         (\<forall>out \<in> set outs. r1o_session_id out = sid \<and> decompress C (r1o_r_i out) \<noteq> None)"
  using assms by (induction outs arbitrary: acc seen) (fastforce split: if_splits)+

lemma aggregate_responses_loop_accepts:
  assumes "aggregate_responses_loop C sid S acc seen outs = Ok s" and "distinct seen"
  shows "distinct (seen @ map r3o_from_index outs) \<and> set (map r3o_from_index outs) \<subseteq> set S \<and>
         (\<forall>out \<in> set outs. r3o_session_id out = sid \<and> from_canonical_bytes C (r3o_s_i out) \<noteq> None)"
  using assms by (induction outs arbitrary: acc seen) (fastforce split: if_splits)+

text \<open>As many distinct members of a list as it has entries: the list has no duplicates.\<close>

lemma distinct_cover:
  assumes "distinct xs" and "set xs \<subseteq> set S" and "length xs = length S"
  shows "set xs = set S \<and> distinct S"
proof -
  have "card (set xs) = length S" using assms(1,3) by (simp add: distinct_card)
  moreover have "card (set xs) \<le> card (set S)" using assms(2) by (intro card_mono) auto
  ultimately have "card (set S) = length S" using card_length [of S] by simp
  moreover then have "set xs = set S"
    using assms(2) \<open>card (set xs) = length S\<close> by (intro card_subset_eq) auto
  ultimately show ?thesis by (simp add: card_distinct)
qed


section \<open>A session run by the members of the set\<close>

lemma validator_round1_fst:
  "fst (validator_round1 C R sid i r) =
     (\<lparr>r1o_from_index = i, r1o_session_id = sid,
       r1o_r_i = compress C (mulG C (fst (random_scalar R r)))\<rparr>,
      \<lparr>r1s_session_id = sid, r1s_my_index = i, r1s_k_i = fst (random_scalar R r)\<rparr>)"
  by (simp add: validator_round1_def Let_def split: prod.splits)

lemma same_set_sum:
  fixes g :: "'a \<Rightarrow> 'b::comm_monoid_add"
  assumes "distinct S" and "distinct T" and "set T = set S"
  shows "length T = length S" and "sum_list (map g T) = sum_list (map g S)"
proof -
  show "length T = length S" using assms by (metis distinct_card)
  show "sum_list (map g T) = sum_list (map g S)" using assms by (metis sum.distinct_set_conv_list)
qed

lemma aggregate_commitments_honest:
  assumes "curve_ok C" and "distinct S" and "distinct T" and "set T = set S"
  shows "aggregate_commitments C sid S (map (\<lambda>i. fst (fst (validator_round1 C R sid i (rs i)))) T) =
         Ok \<lparr>bc_r = compress C (mulG C (\<Sum>i \<leftarrow> S. fst (random_scalar R (rs i))))\<rparr>"
proof -
  let ?k = "\<lambda>i. fst (random_scalar R (rs i))"
  let ?outs = "map (\<lambda>i. fst (fst (validator_round1 C R sid i (rs i)))) T"
  have "aggregate_commitments_loop C sid S 0 [] ?outs = Ok (0 + (\<Sum>out \<leftarrow> ?outs. mulG C (?k (r1o_from_index out))))"
    using assms by (intro aggregate_commitments_loop_Ok) (auto simp: validator_round1_fst comp_def)
  then show ?thesis
    using same_set_sum(1) [OF assms(2-4)] same_set_sum(2) [OF assms(2-4), of ?k] assms(1)
    by (simp add: aggregate_commitments_def validator_round1_fst comp_def mulG_sum_list)
qed

lemma partial_sign_honest:
  fixes C :: "('s::field, 'p::ab_group_add) crypto"
  assumes "curve_ok C" and "large_field TYPE('s)" and "distinct S" and "0 \<notin> set S" and "i \<in> set S"
  shows "partial_sign C (snd (fst (validator_round1 C R sid i r))) \<lparr>bch_c = scalar_to_bytes C c\<rparr> (SecretKey x) S =
     Ok \<lparr>r3o_from_index = i, r3o_session_id = sid, r3o_s_i = scalar_to_bytes C
       (fst (random_scalar R r) + c * lagrange_basis (scalar_from ` set S) 0 (scalar_from i) * x)\<rparr>"
  using assms
  by (simp add: partial_sign_def validator_round1_fst SecretKey_to_bytes_def lagrange_coefficient_basis)

lemma aggregate_responses_honest:
  fixes C :: "('s::field, 'p::ab_group_add) crypto"
  assumes ok: "curve_ok C" and big: "large_field TYPE('s)" and S: "distinct S" "length F \<le> length S"
    and U: "distinct U" "set U = set S"
    and r3: "\<forall>i \<in> set S. r3 i = \<lparr>r3o_from_index = i, r3o_session_id = sid, r3o_s_i = scalar_to_bytes C
       (k i + c * lagrange_basis (scalar_from ` set S) 0 (scalar_from i) * horner_eval_scalar F (scalar_from i))\<rparr>"
  shows "aggregate_responses C sid S (map r3 U) =
         Ok \<lparr>br_s = scalar_to_bytes C ((\<Sum>i \<leftarrow> S. k i) + c * horner_eval_scalar F 0)\<rparr>"
proof -
  let ?v = "\<lambda>i. lagrange_basis (scalar_from ` set S) 0 (scalar_from i) * horner_eval_scalar F (scalar_from i)"
  have "map r3o_from_index (map r3 U) = U" using r3 U by (auto intro!: map_idI)
  then have "aggregate_responses_loop C sid S 0 [] (map r3 U) =
      Ok (0 + (\<Sum>out \<leftarrow> map r3 U. k (r3o_from_index out) + c * ?v (r3o_from_index out)))"
    using r3 U ok by (intro aggregate_responses_loop_Ok) (auto simp: mult.assoc)
  moreover have "(\<Sum>out \<leftarrow> map r3 U. k (r3o_from_index out) + c * ?v (r3o_from_index out)) =
      (\<Sum>i \<leftarrow> U. k i + c * ?v i)"
    unfolding map_map comp_def using r3 U by (intro arg_cong [where f = sum_list] map_cong) auto
  moreover have "(\<Sum>i \<leftarrow> U. k i + c * ?v i) = (\<Sum>i \<leftarrow> S. k i) + c * (\<Sum>i \<leftarrow> S. ?v i)"
    by (simp only: sum_list_addf sum_list_const_mult same_set_sum(2) [OF S(1) U, of k]
        same_set_sum(2) [OF S(1) U, of ?v])
  ultimately show ?thesis
    using same_set_sum(1) [OF S(1) U] lagrange_combines_shares [OF big S]
    by (simp add: aggregate_responses_def)
qed

section \<open>A complete signing session\<close>

lemma threshold_signing:
  fixes C :: "('s::field, 'p::ab_group_add) crypto"
  assumes ok: "curve_ok C" and big: "large_field TYPE('s)"
    and S: "distinct S" "0 \<notin> set S" "length F \<le> length S"
    and order: "distinct T" "set T = set S" "distinct U" "set U = set S"
    and pk: "pk = PublicKey (compress C (mulG C (horner_eval_scalar F 0)))"
  shows "\<exists>commit ch ust r2 resp sig r3.
     aggregate_commitments C sid S (map (\<lambda>i. fst (fst (validator_round1 C R sid i (rs i)))) T) = Ok commit \<and>
     blind_request C R commit pk msg r = Ok ((ch, ust), r2) \<and>
     (\<forall>i \<in> set S. partial_sign C (snd (fst (validator_round1 C R sid i (rs i)))) ch
        (SecretKey (horner_eval_scalar F (scalar_from i))) S = Ok (r3 i)) \<and>
     aggregate_responses C sid S (map r3 U) = Ok resp \<and>
     unblind C ust resp = Ok sig \<and>
     schnorr_verify C pk msg sig = Ok True"
proof -
  let ?K = "\<Sum>i \<leftarrow> S. fst (random_scalar R (rs i))"
  let ?r3 = "\<lambda>c i. \<lparr>r3o_from_index = i, r3o_session_id = sid, r3o_s_i = scalar_to_bytes C
     (fst (random_scalar R (rs i)) + c * lagrange_basis (scalar_from ` set S) 0 (scalar_from i) *
      horner_eval_scalar F (scalar_from i))\<rparr>"
  obtain c ust r2 sig where user:
    "blind_request C R \<lparr>bc_r = compress C (mulG C ?K)\<rparr> pk msg r = Ok ((\<lparr>bch_c = scalar_to_bytes C c\<rparr>, ust), r2)"
    "unblind C ust \<lparr>br_s = scalar_to_bytes C (?K + c * horner_eval_scalar F 0)\<rparr> = Ok sig"
    "schnorr_verify C pk msg sig = Ok True"
    using blind_rounds_close [OF ok pk, of R ?K msg r] by blast
  moreover have "aggregate_responses C sid S (map (?r3 c) U) =
      Ok \<lparr>br_s = scalar_to_bytes C (?K + c * horner_eval_scalar F 0)\<rparr>"
    by (rule aggregate_responses_honest [OF ok big S(1,3) order(3,4)]) simp
  moreover have "\<forall>i \<in> set S. partial_sign C (snd (fst (validator_round1 C R sid i (rs i))))
      \<lparr>bch_c = scalar_to_bytes C c\<rparr> (SecretKey (horner_eval_scalar F (scalar_from i))) S = Ok (?r3 c i)"
    by (intro ballI partial_sign_honest ok big S(1,2))
  ultimately show ?thesis
    using aggregate_commitments_honest [OF ok S(1) order(1,2), of sid R rs]
    by (intro exI conjI) assumption+
qed

section \<open>Properties\<close>

text \<open>
  C8. Threshold blind signing: let the shares be the values of a polynomial \<open>F\<close> at the members of
  a signing set without zero and duplicates, with no more coefficients than members. When every
  member runs rounds 1 and 3 and the user runs the blind-signature rounds, no step fails, whatever
  the order in which messages reach the aggregators, and the result is a valid signature on the
  user's message under the joint key \<open>F(0) * G\<close>.
\<close>

theorem threshold_blind_signing:
  fixes C :: "('s::field, 'p::ab_group_add) crypto"
  assumes ok: "curve_ok C" and big: "large_field TYPE('s)"
    and S: "distinct S" "0 \<notin> set S" "length F \<le> length S"
    and order: "distinct T" "set T = set S" "distinct U" "set U = set S"
    and pk: "pk = PublicKey (compress C (mulG C (horner_eval_scalar F 0)))"
  shows "\<exists>commit ch ust r2 resp sig r3.
     aggregate_commitments C sid S (map (\<lambda>i. fst (fst (validator_round1 C R sid i (rs i)))) T) = Ok commit \<and>
     blind_request C R commit pk msg r = Ok ((ch, ust), r2) \<and>
     (\<forall>i \<in> set S. partial_sign C (snd (fst (validator_round1 C R sid i (rs i)))) ch
        (SecretKey (horner_eval_scalar F (scalar_from i))) S = Ok (r3 i)) \<and>
     aggregate_responses C sid S (map r3 U) = Ok resp \<and>
     unblind C ust resp = Ok sig \<and>
     schnorr_verify C pk msg sig = Ok True"
  using assms by (rule threshold_signing)


text \<open>Interpolation at the witness instance: shares of \<open>5 + 3x\<close> held by validators 3 and 1.\<close>

theorem threshold_blind_signing_witness:
  "\<exists>commit ch ust r2 resp sig r3.
     aggregate_commitments gf_curve (SessionId []) [3, 1]
       (map (\<lambda>i. fst (fst (validator_round1 gf_curve tape_rng (SessionId []) i [scalar_from i + 7]))) [1, 3]) = Ok commit \<and>
     blind_request gf_curve tape_rng commit
       (PublicKey (compress gf_curve (mulG gf_curve (horner_eval_scalar [5, 3] 0)))) [9] [2, 4] = Ok ((ch, ust), r2) \<and>
     (\<forall>i \<in> set [3, 1]. partial_sign gf_curve
        (snd (fst (validator_round1 gf_curve tape_rng (SessionId []) i [scalar_from i + 7]))) ch
        (SecretKey (horner_eval_scalar [5, 3] (scalar_from i))) [3, 1] = Ok (r3 i)) \<and>
     aggregate_responses gf_curve (SessionId []) [3, 1] (map r3 [3, 1]) = Ok resp \<and>
     unblind gf_curve ust resp = Ok sig \<and>
     schnorr_verify gf_curve (PublicKey (compress gf_curve (mulG gf_curve (horner_eval_scalar [5, 3] 0)))) [9] sig = Ok True"
  by (rule threshold_blind_signing [OF curve_ok_gf large_field_gf _ _ _ _ _ _ _ refl]) auto

text \<open>
  What an aggregation of commitments accepts: the messages carry the session's identifier,
  come from the members of the signing set, exactly one from each, and the set itself has no
  duplicates.
\<close>

lemma aggregate_commitments_accepts:
  assumes "aggregate_commitments C sid S outs = Ok commit"
  shows "distinct S \<and> distinct (map r1o_from_index outs) \<and> set (map r1o_from_index outs) = set S \<and>
         (\<forall>out \<in> set outs. r1o_session_id out = sid)"
proof -
  obtain P where "aggregate_commitments_loop C sid S 0 [] outs = Ok P" and len: "length outs = length S"
    using assms by (auto simp: aggregate_commitments_def split: if_splits)
  then have acc: "distinct (map r1o_from_index outs)" "set (map r1o_from_index outs) \<subseteq> set S"
      "\<forall>out \<in> set outs. r1o_session_id out = sid"
    using aggregate_commitments_loop_accepts [of C sid S 0 "[]" outs P] by auto
  then show ?thesis using distinct_cover [OF acc(1,2)] len by simp
qed

text \<open>
  Nonce reuse reveals the share: a validator that answers two different challenges from the
  same round-1 state has given its share away as a quotient of public values.
\<close>

lemma nonce_reuse_reveals_share:
  fixes C :: "('s::field, 'p::ab_group_add) crypto"
  assumes ok: "curve_ok C" and big: "large_field TYPE('s)" and S: "distinct S"
    and p1: "partial_sign C st ch1 sk S = Ok o1" and p2: "partial_sign C st ch2 sk S = Ok o2"
    and c1: "from_canonical_bytes C (bch_c ch1) = Some c1" and c2: "from_canonical_bytes C (bch_c ch2) = Some c2"
    and s1: "from_canonical_bytes C (r3o_s_i o1) = Some s1" and s2: "from_canonical_bytes C (r3o_s_i o2) = Some s2"
    and neq: "c1 \<noteq> c2"
  shows "\<exists>l. lagrange_coefficient_at_zero S (r1s_my_index st) = Ok l \<and>
             sk_scalar sk = (s1 - s2) / ((c1 - c2) * l)"
proof -
  let ?i = "r1s_my_index st"
  have S': "?i \<in> set S" "0 \<notin> set S"
    using p1 by (auto simp: partial_sign_def lagrange_coefficient_at_zero_def split: if_splits)
  let ?l = "lagrange_basis (scalar_from ` set S) 0 (scalar_from ?i) :: 's"
  note l = lagrange_coefficient_basis [OF big S S'(2,1)]
  have "s1 = r1s_k_i st + c1 * ?l * sk_scalar sk" "s2 = r1s_k_i st + c2 * ?l * sk_scalar sk"
    using p1 p2 c1 c2 s1 s2 ok by (auto simp: partial_sign_def l SecretKey_to_bytes_def)
  then have "s1 - s2 = (c1 - c2) * ?l * sk_scalar sk" by (simp add: algebra_simps)
  moreover have "?l \<noteq> 0"
    using S' by (intro lagrange_basis_zero_nonzero) (auto simp: scalar_from_eq_zero [OF big])
  ultimately show ?thesis using l neq by simp
qed

text \<open>
  Which sets the Lagrange coefficient rejects: an index outside the set and a set that
  contains zero, and nothing else. In particular a set with duplicates is not rejected; the
  duplicated members are counted twice.
\<close>

lemma lagrange_coefficient_errors:
  assumes "large_field TYPE('s::field)"
  shows "((lagrange_coefficient_at_zero S i :: ('s, mint_error) result) = Err UnknownParticipant \<longleftrightarrow> i \<notin> set S) \<and>
         ((lagrange_coefficient_at_zero S i :: ('s, mint_error) result) = Err InvalidSigningSet \<longleftrightarrow>
            i \<in> set S \<and> 0 \<in> set S) \<and>
         (i \<in> set S \<and> 0 \<notin> set S \<longrightarrow> (\<exists>l :: 's. lagrange_coefficient_at_zero S i = Ok l))"
  using assms by (auto simp: lagrange_coefficient_at_zero_def lagrange_loop_prod)

end
