(* ===== verification/Dkg.thy ===== *)
theory Dkg
  imports Sign
begin

text \<open>
  Distributed key generation of the crate \<open>tardus-mint\<close> (\<open>dkg.rs\<close>): the round-1 dealing with its
  proof of knowledge, and the finalisation that checks every peer and adds up the shares, together
  with the derived Borsh formats of the two messages validators exchange.

  The lemmas show that an honest ceremony never fails and leaves all validators with the same
  joint key and with shares of one polynomial whose value at zero is the joint secret, and what a
  successful finalisation guarantees when the peers are arbitrary.
\<close>

section \<open>Messages\<close>

definition POK_DOMAIN_INFIX :: bytes where
  "POK_DOMAIN_INFIX = ascii '':dkg-pok:''"

definition build_pok_msg :: "ceremony_id \<Rightarrow> u16 \<Rightarrow> bytes" where
  "build_pok_msg cid from_index =
     CEREMONY_DOMAIN @ POK_DOMAIN_INFIX @ ceremony_bytes cid @ to_le_bytes 2 from_index"

record 'p dkg_round1_broadcast =
  db_ceremony_id :: ceremony_id
  db_from_index :: u16
  db_pedersen :: "'p vss_commitments"
  db_feldman :: "'p feldman_commitments"
  db_pok :: signature

record 's dkg_round1_private =
  dp_ceremony_id :: ceremony_id
  dp_my_index :: u16
  dp_params :: vss_parameters
  dp_my_secret :: 's

record ('s, 'p) dkg_round1_output =
  do_broadcast :: "'p dkg_round1_broadcast"
  do_private :: "'s dkg_round1_private"
  do_shares :: "'s vss_share list"

record ('s, 'p) peer_contribution =
  pc_broadcast :: "'p dkg_round1_broadcast"
  pc_share_for_me :: "'s vss_share"

record 's dkg_finalised =
  df_my_index :: u16
  df_joint_pk :: public_key
  df_my_share :: "'s secret_key"
  df_qual :: "u16 list"

section \<open>The ceremony\<close>

definition dkg_start ::
    "('s::field, 'p::ab_group_add) crypto \<Rightarrow> ('r, 's) rng \<Rightarrow> ceremony_id \<Rightarrow> u16 \<Rightarrow> vss_parameters \<Rightarrow> 'p \<Rightarrow> 'r
     \<Rightarrow> (('s, 'p) dkg_round1_output \<times> 'r, mint_error) result" where
  "dkg_start C R ceremony_id my_index params h_gen r =
     (if my_index = 0 \<or> my_index > vp_n params then Err UnknownParticipant
      else
        (let (my_secret, r1) = random_scalar R r;
             ((pedersen, feldman, shares), r2) = deal C R my_secret params h_gen r1
         in rbind (expect_ok (SecretKey_from_bytes C (scalar_to_bytes C my_secret))) (\<lambda>sk.
            rbind (secret_commitment feldman) (\<lambda>a_0.
            rbind (expect_ok (PublicKey_from_bytes C (compress C a_0))) (\<lambda>pk.
              let msg = build_pok_msg ceremony_id my_index;
                  (pok, r3) = schnorr_sign C R sk pk msg r2
              in Ok (\<lparr>do_broadcast = \<lparr>db_ceremony_id = ceremony_id, db_from_index = my_index,
                                     db_pedersen = pedersen, db_feldman = feldman, db_pok = pok\<rparr>,
                      do_private = \<lparr>dp_ceremony_id = ceremony_id, dp_my_index = my_index,
                                    dp_params = params, dp_my_secret = my_secret\<rparr>,
                      do_shares = shares\<rparr>, r3))))))"

definition verify_round1_pok ::
    "('s, 'p::ab_group_add) crypto \<Rightarrow> 'p dkg_round1_broadcast \<Rightarrow> (unit, mint_error) result" where
  "verify_round1_pok C broadcast =
     rbind (secret_commitment (db_feldman broadcast)) (\<lambda>a_0.
     rbind (map_err MintCore (PublicKey_from_bytes C (compress C a_0))) (\<lambda>pk.
     let msg = build_pok_msg (db_ceremony_id broadcast) (db_from_index broadcast)
     in rbind (map_err MintCore (schnorr_verify C pk msg (db_pok broadcast))) (\<lambda>ok.
          if ok then Ok () else Err PokInvalid)))"

text \<open>The checking loop over the received contributions; it returns the indices seen.\<close>

fun dkg_check_peers ::
    "('s::field, 'p::ab_group_add) crypto \<Rightarrow> ceremony_id \<Rightarrow> u16 \<Rightarrow> 'p \<Rightarrow> u16 list
     \<Rightarrow> ('s, 'p) peer_contribution list \<Rightarrow> (u16 list, mint_error) result" where
  "dkg_check_peers C cid my_index h_gen seen [] = Ok seen"
| "dkg_check_peers C cid my_index h_gen seen (peer # peers) =
     (let from_index = db_from_index (pc_broadcast peer)
      in if from_index = my_index then Err DomainMismatch
         else if from_index \<in> set seen then Err DuplicateParticipant
         else if vs_index (pc_share_for_me peer) \<noteq> my_index then Err DomainMismatch
         else if db_ceremony_id (pc_broadcast peer) \<noteq> cid then Err DomainMismatch
         else rbind (verify_round1_pok C (pc_broadcast peer)) (\<lambda>_.
              rbind (verify_share C (pc_share_for_me peer) (db_pedersen (pc_broadcast peer)) h_gen) (\<lambda>_.
                dkg_check_peers C cid my_index h_gen (seen @ [from_index]) peers)))"

fun sum_secret_commitments ::
    "'p::ab_group_add \<Rightarrow> 'p feldman_commitments list \<Rightarrow> ('p, mint_error) result" where
  "sum_secret_commitments acc [] = Ok acc"
| "sum_secret_commitments acc (fc # fcs) =
     rbind (secret_commitment fc) (\<lambda>a_0. sum_secret_commitments (acc + a_0) fcs)"

fun sum_f_shares ::
    "('s::field, 'p) crypto \<Rightarrow> 's \<Rightarrow> 's vss_share list \<Rightarrow> ('s, mint_error) result" where
  "sum_f_shares C acc [] = Ok acc"
| "sum_f_shares C acc (sh # shs) =
     rbind (ok_or VssShareInvalid (from_canonical_bytes C (f_share_bytes C sh))) (\<lambda>f_i.
       sum_f_shares C (acc + f_i) shs)"

definition dkg_finalize ::
    "('s::field, 'p::ab_group_add) crypto \<Rightarrow> ('s, 'p) dkg_round1_output \<Rightarrow> ('s, 'p) peer_contribution list \<Rightarrow> 'p
     \<Rightarrow> ('s dkg_finalised, mint_error) result" where
  "dkg_finalize C own received h_gen =
     (let my_index = dp_my_index (do_private own);
          expected_received = ucast (vp_n (dp_params (do_private own))) - 1 :: u64
      in if length received \<noteq> unat expected_received then Err InsufficientMessages
         else
           rbind (verify_round1_pok C (do_broadcast own)) (\<lambda>_.
           rbind (dkg_check_peers C (dp_ceremony_id (do_private own)) my_index h_gen [my_index] received) (\<lambda>seen_indices.
           rbind (secret_commitment (db_feldman (do_broadcast own))) (\<lambda>own_a_0.
           rbind (sum_secret_commitments own_a_0 (map (db_feldman \<circ> pc_broadcast) received)) (\<lambda>joint_pk_pt.
           rbind (map_err MintCore (PublicKey_from_bytes C (compress C joint_pk_pt))) (\<lambda>joint_pk.
           rbind (index_at (do_shares own) (unat (my_index - 1))) (\<lambda>self_share.
           rbind (ok_or VssShareInvalid (from_canonical_bytes C (f_share_bytes C self_share))) (\<lambda>self_f.
           rbind (sum_f_shares C self_f (map pc_share_for_me received)) (\<lambda>sum_f.
           rbind (expect_ok (SecretKey_from_bytes C (scalar_to_bytes C sum_f))) (\<lambda>my_share.
             Ok \<lparr>df_my_index = my_index, df_joint_pk = joint_pk, df_my_share = my_share,
                 df_qual = sort seen_indices\<rparr>))))))))))"

section \<open>Formats\<close>

definition ser_dkg_broadcast :: "('s, 'p) crypto \<Rightarrow> 'p dkg_round1_broadcast \<Rightarrow> bytes" where
  "ser_dkg_broadcast C b =
     ceremony_bytes (db_ceremony_id b) @ to_le_bytes 2 (db_from_index b) @
     the (serialize_point_vec C (vc_coeffs (db_pedersen b))) @
     the (serialize_point_vec C (fc_coeffs (db_feldman b))) @ ser_signature (db_pok b)"

definition de_dkg_broadcast :: "('s, 'p) crypto \<Rightarrow> 'p dkg_round1_broadcast reader" where
  "de_dkg_broadcast C =
     rd_bind (read_exact 16) (\<lambda>cid.
     rd_bind (rd_word 2) (\<lambda>from_index.
     rd_bind (deserialize_point_vec C) (\<lambda>pedersen.
     rd_bind (deserialize_point_vec C) (\<lambda>feldman.
     rd_bind de_signature (\<lambda>pok.
       rd_return \<lparr>db_ceremony_id = CeremonyId cid, db_from_index = from_index,
                  db_pedersen = \<lparr>vc_coeffs = pedersen\<rparr>, db_feldman = \<lparr>fc_coeffs = feldman\<rparr>, db_pok = pok\<rparr>)))))"

definition ser_peer_contribution :: "('s, 'p) crypto \<Rightarrow> ('s, 'p) peer_contribution \<Rightarrow> bytes" where
  "ser_peer_contribution C pc = ser_dkg_broadcast C (pc_broadcast pc) @ ser_vss_share C (pc_share_for_me pc)"

definition de_peer_contribution :: "('s, 'p) crypto \<Rightarrow> ('s, 'p) peer_contribution reader" where
  "de_peer_contribution C =
     rd_bind (de_dkg_broadcast C) (\<lambda>b. rd_bind (de_vss_share C) (\<lambda>sh.
       rd_return \<lparr>pc_broadcast = b, pc_share_for_me = sh\<rparr>))"

definition dkg_broadcast_wf :: "('s::field, 'p::ab_group_add) crypto \<Rightarrow> 'p dkg_round1_broadcast \<Rightarrow> bool" where
  "dkg_broadcast_wf C b \<longleftrightarrow> curve_ok C \<and> length (ceremony_bytes (db_ceremony_id b)) = 16 \<and>
     length (vc_coeffs (db_pedersen b)) < 2 ^ 16 \<and> length (fc_coeffs (db_feldman b)) < 2 ^ 16 \<and> sig_wf (db_pok b)"

interpretation dkg_broadcast_codec: codec "ser_dkg_broadcast C" "de_dkg_broadcast C" "dkg_broadcast_wf C" for C
  by unfold_locales
    (simp add: ser_dkg_broadcast_def de_dkg_broadcast_def dkg_broadcast_wf_def rd_bind_def
      point_vec_codec.de_ser signature_codec.de_ser)

interpretation peer_contribution_codec: codec "ser_peer_contribution C" "de_peer_contribution C"
    "\<lambda>pc. dkg_broadcast_wf C (pc_broadcast pc)" for C
proof unfold_locales
  fix pc :: "('a, 'b) peer_contribution" and rest
  assume wf: "dkg_broadcast_wf C (pc_broadcast pc)"
  then have "curve_ok C" by (simp add: dkg_broadcast_wf_def)
  then show "de_peer_contribution C (ser_peer_contribution C pc @ rest) = Some (pc, rest)"
    by (simp add: ser_peer_contribution_def de_peer_contribution_def rd_bind_def
        dkg_broadcast_codec.de_ser [OF wf] vss_share_codec.de_ser)
qed


section \<open>Honest dealings\<close>

definition dkg_f :: "('r, 's) rng \<Rightarrow> vss_parameters \<Rightarrow> 'r \<Rightarrow> 's list" where
  "dkg_f R params r = (case random_scalar R r of (s, r1) \<Rightarrow> dealt_f R s params r1)"

definition dkg_g :: "('r, 's) rng \<Rightarrow> vss_parameters \<Rightarrow> 'r \<Rightarrow> 's list" where
  "dkg_g R params r = (case random_scalar R r of (s, r1) \<Rightarrow> dealt_g R params r1)"

lemma length_dkg_fg:
  "0 < unat (vp_t params) \<Longrightarrow> length (dkg_f R params r) = unat (vp_t params)"
  "length (dkg_g R params r) = unat (vp_t params)"
  by (simp_all add: dkg_f_def dkg_g_def length_dealt split: prod.splits)

lemma dkg_start_Ok:
  assumes ok: "curve_ok C" and t: "0 < unat (vp_t params)" and i: "i \<in> set (members (vp_n params))"
  shows "\<exists>pok s r'.
     dkg_start C R cid i params h r =
       Ok (\<lparr>do_broadcast = \<lparr>db_ceremony_id = cid, db_from_index = i,
              db_pedersen = \<lparr>vc_coeffs = map2 (pedersen_commit C h) (dkg_f R params r) (dkg_g R params r)\<rparr>,
              db_feldman = \<lparr>fc_coeffs = map (mulG C) (dkg_f R params r)\<rparr>, db_pok = pok\<rparr>,
            do_private = \<lparr>dp_ceremony_id = cid, dp_my_index = i, dp_params = params, dp_my_secret = s\<rparr>,
            do_shares = map (share_at (dkg_f R params r) (dkg_g R params r)) (members (vp_n params))\<rparr>, r') \<and>
     verify_round1_pok C \<lparr>db_ceremony_id = cid, db_from_index = i,
              db_pedersen = \<lparr>vc_coeffs = map2 (pedersen_commit C h) (dkg_f R params r) (dkg_g R params r)\<rparr>,
              db_feldman = \<lparr>fc_coeffs = map (mulG C) (dkg_f R params r)\<rparr>, db_pok = pok\<rparr> = Ok ()"
proof -
  obtain s r1 where s: "random_scalar R r = (s, r1)" by (cases "random_scalar R r")
  obtain ped fel shs r2 where d: "deal C R s params h r1 = ((ped, fel, shs), r2)" by (metis prod.exhaust)
  let ?pk = "PublicKey (compress C (mulG C s))" and ?msg = "build_pok_msg cid i"
  obtain pok r3 where pok: "schnorr_sign C R (SecretKey s) ?pk ?msg r2 = (pok, r3)"
    by (cases "schnorr_sign C R (SecretKey s) ?pk ?msg r2")
  have "i \<noteq> 0" "\<not> i > vp_n params" using i by (auto simp: members_iff word_less_nat_alt)
  moreover have FG: "dkg_f R params r = dealt_f R s params r1" "dkg_g R params r = dealt_g R params r1"
    by (simp_all add: dkg_f_def dkg_g_def s)
  moreover have "schnorr_verify C ?pk ?msg pok = Ok True"
    using schnorr_sign_complete [OF ok, of ?pk "SecretKey s" ?msg R r2] by (simp add: pok)
  moreover have a0: "secret_commitment \<lparr>fc_coeffs = map (mulG C) (dealt_f R s params r1)\<rparr> =
      (Ok (mulG C s) :: ('b, mint_error) result)"
    by (simp add: secret_commitment_def dealt_f_def)
  ultimately show ?thesis
    using deal_shape [OF t, where secret = s and C = C and R = R and h = h and r = r1] ok
    by (auto simp: dkg_start_def s d a0 public_key_accepts pok verify_round1_pok_def Let_def)
qed

section \<open>The loops of the finalisation\<close>

lemma dkg_check_peers_Ok:
  assumes "\<forall>p \<in> set peers. vs_index (pc_share_for_me p) = me \<and> db_ceremony_id (pc_broadcast p) = cid \<and>
             verify_round1_pok C (pc_broadcast p) = Ok () \<and>
             verify_share C (pc_share_for_me p) (db_pedersen (pc_broadcast p)) h = Ok ()"
    and "distinct (seen @ map (db_from_index \<circ> pc_broadcast) peers)" and "me \<in> set seen"
  shows "dkg_check_peers C cid me h seen peers = Ok (seen @ map (db_from_index \<circ> pc_broadcast) peers)"
  using assms by (induction peers arbitrary: seen) (auto simp: Let_def)

lemma dkg_check_peers_accepts:
  assumes "dkg_check_peers C cid me h seen peers = Ok seen'" and "distinct seen" and "me \<in> set seen"
  shows "seen' = seen @ map (db_from_index \<circ> pc_broadcast) peers \<and> distinct seen' \<and>
         (\<forall>p \<in> set peers. vs_index (pc_share_for_me p) = me \<and> db_ceremony_id (pc_broadcast p) = cid \<and>
             verify_round1_pok C (pc_broadcast p) = Ok () \<and>
             verify_share C (pc_share_for_me p) (db_pedersen (pc_broadcast p)) h = Ok ())"
  using assms
proof (induction peers arbitrary: seen)
  case Nil
  then show ?case by simp
next
  case (Cons p peers)
  let ?i = "db_from_index (pc_broadcast p)"
  have p: "?i \<noteq> me" "?i \<notin> set seen" "vs_index (pc_share_for_me p) = me" "db_ceremony_id (pc_broadcast p) = cid"
    "verify_round1_pok C (pc_broadcast p) = Ok ()"
    "verify_share C (pc_share_for_me p) (db_pedersen (pc_broadcast p)) h = Ok ()"
    "dkg_check_peers C cid me h (seen @ [?i]) peers = Ok seen'"
    using Cons.prems(1) by (auto simp: Let_def split: if_splits)
  have "distinct (seen @ [?i])" "me \<in> set (seen @ [?i])" using Cons.prems(2,3) p(2) by simp_all
  note ih = Cons.IH [OF p(7) this]
  show ?case
  proof (intro conjI)
    show "seen' = seen @ map (db_from_index \<circ> pc_broadcast) (p # peers)" using ih by simp
    show "distinct seen'" using ih by blast
  qed (use ih p in simp)
qed

lemma sum_secret_commitments_Ok:
  "\<forall>fc \<in> set fcs. secret_commitment fc = (Ok (A fc) :: ('p::ab_group_add, mint_error) result) \<Longrightarrow>
   sum_secret_commitments acc fcs = Ok (acc + (\<Sum>fc \<leftarrow> fcs. A fc))"
  by (induction fcs arbitrary: acc) (simp_all add: add.assoc)

lemma sum_f_shares_Ok:
  "curve_ok C \<Longrightarrow> sum_f_shares C acc shs = Ok (acc + (\<Sum>sh \<leftarrow> shs. vs_f_share sh))"
  by (induction shs arbitrary: acc) (simp_all add: f_share_bytes_def add.assoc)

lemma expected_peers:
  "0 < unat (n :: u16) \<Longrightarrow> unat (ucast n - 1 :: u64) = unat n - 1"
proof -
  assume n: "0 < unat n"
  have "unat (ucast n :: u64) = unat n" by (simp add: unat_ucast_up)
  then show ?thesis using n by (simp add: unat_sub word_le_nat_alt)
qed

text \<open>The indices seen by the end of a complete ceremony are the members in order.\<close>

lemma sort_members:
  assumes "j \<in> set (members n)" and "distinct Q" and "set Q = set (members n) - {j}"
  shows "sort (j # Q) = members n"
proof (rule sorted_distinct_set_unique [OF _ _ sorted_members distinct_members])
  show "sorted (sort (j # Q))" by (rule sorted_sort)
  show "distinct (sort (j # Q))" using assms(2,3) by (simp only: distinct_sort) simp
  show "set (sort (j # Q)) = set (members n)"
    by (simp only: set_sort list.set assms(3) insert_Diff [OF assms(1)])
qed

lemma members_sum:
  fixes g :: "u16 \<Rightarrow> 'b::comm_monoid_add"
  assumes "j \<in> set (members n)" and "distinct Q" and "set Q = set (members n) - {j}"
  shows "g j + (\<Sum>i \<leftarrow> Q. g i) = (\<Sum>i \<leftarrow> members n. g i)"
proof -
  have "distinct (j # Q)" "set (j # Q) = set (members n)" using assms by auto
  then have "sum_list (map g (j # Q)) = sum_list (map g (members n))"
    by (rule same_set_sum(2) [OF distinct_members])
  then show ?thesis by simp
qed

lemma members_others:
  assumes "j \<in> set (members n)" and "distinct Q" and "set Q = set (members n) - {j}"
  shows "length Q = unat (ucast n - 1 :: u64)"
proof -
  have "length (j # Q) = length (members n)"
    using assms distinct_members [of n] by (intro same_set_sum(1)) auto
  then show ?thesis using assms(1) by (simp add: expected_peers members_iff)
qed

lemma dkg_finalize_honest:
  fixes C :: "('s::field, 'p::ab_group_add) crypto"
  assumes ok: "curve_ok C" and h: "is_torsion_free C h" and j: "j \<in> set (members n)"
    and Q: "distinct Q" "set Q = set (members n) - {j}"
    and FG: "\<forall>i. length (F i) = T \<and> length (G i) = T" "0 < T"
    and bc: "\<forall>i \<in> set (members n). db_ceremony_id (bc i) = cid \<and> db_from_index (bc i) = i \<and>
        db_pedersen (bc i) = \<lparr>vc_coeffs = map2 (pedersen_commit C h) (F i) (G i)\<rparr> \<and>
        db_feldman (bc i) = \<lparr>fc_coeffs = map (mulG C) (F i)\<rparr> \<and> verify_round1_pok C (bc i) = Ok ()"
    and own: "do_broadcast own = bc j" "dp_my_index (do_private own) = j"
      "dp_ceremony_id (do_private own) = cid" "vp_n (dp_params (do_private own)) = n"
      "do_shares own = map (share_at (F j) (G j)) (members n)"
  shows "dkg_finalize C own (map (\<lambda>i. \<lparr>pc_broadcast = bc i, pc_share_for_me = share_at (F i) (G i) j\<rparr>) Q) h =
     Ok \<lparr>df_my_index = j,
         df_joint_pk = PublicKey (compress C (mulG C (horner_eval_scalar (poly_sum T (map F (members n))) 0))),
         df_my_share = SecretKey (horner_eval_scalar (poly_sum T (map F (members n))) (scalar_from j)),
         df_qual = members n\<rparr>"
proof -
  define peers where "peers = map (\<lambda>i. \<lparr>pc_broadcast = bc i, pc_share_for_me = share_at (F i) (G i) j\<rparr>) Q"
  let ?S = "poly_sum T (map F (members n))"
  have j': "1 \<le> unat j" "unat j \<le> unat n" "j \<noteq> 0" using j by (auto simp: members_iff)
  have QM: "i \<in> set (members n)" if "i \<in> set Q" for i using that Q(2) by auto
  have S: "horner_eval_scalar (F j) x + (\<Sum>i \<leftarrow> Q. horner_eval_scalar (F i) x) = horner_eval_scalar ?S x" for x
    using members_sum [OF j Q, of "\<lambda>i. horner_eval_scalar (F i) x"] FG(1)
    by (subst horner_poly_sum) (auto simp: comp_def)
  have idx: "map (db_from_index \<circ> pc_broadcast) peers = Q"
    unfolding peers_def using bc QM by (auto intro!: map_idI)
  have chk: "dkg_check_peers C cid j h [j] peers = Ok ([j] @ map (db_from_index \<circ> pc_broadcast) peers)"
  proof (rule dkg_check_peers_Ok)
    show "distinct ([j] @ map (db_from_index \<circ> pc_broadcast) peers)" unfolding idx using Q by auto
    show "\<forall>p \<in> set peers. vs_index (pc_share_for_me p) = j \<and> db_ceremony_id (pc_broadcast p) = cid \<and>
             verify_round1_pok C (pc_broadcast p) = Ok () \<and>
             verify_share C (pc_share_for_me p) (db_pedersen (pc_broadcast p)) h = Ok ()"
      unfolding peers_def using bc QM FG(1) share_at_verifies [OF ok h _ j'(3)] by (auto simp: share_at_def)
  qed simp
  have hd0: "secret_commitment (db_feldman (bc i)) = (Ok (mulG C (horner_eval_scalar (F i) 0)) :: ('p, mint_error) result)"
    if "i \<in> set (members n)" for i
    using FG(2) FG(1) [rule_format, of i] bc that by (cases "F i") (auto simp: secret_commitment_def)
  have "sum_secret_commitments acc (map (db_feldman \<circ> pc_broadcast) peers) =
      Ok (acc + (\<Sum>i \<leftarrow> Q. mulG C (horner_eval_scalar (F i) 0)))" for acc
    unfolding peers_def using QM by (induction Q arbitrary: acc) (simp_all add: hd0 add.assoc)
  then have fel: "sum_secret_commitments (mulG C (horner_eval_scalar (F j) 0)) (map (db_feldman \<circ> pc_broadcast) peers) =
      Ok (mulG C (horner_eval_scalar ?S 0))"
    using ok by (simp add: mulG_sum_list mulG_add S)
  have "(\<Sum>sh \<leftarrow> map pc_share_for_me peers. vs_f_share sh) = (\<Sum>i \<leftarrow> Q. horner_eval_scalar (F i) (scalar_from j))"
    by (simp add: peers_def share_at_def comp_def)
  then have shs: "sum_f_shares C (horner_eval_scalar (F j) (scalar_from j)) (map pc_share_for_me peers) =
      Ok (horner_eval_scalar ?S (scalar_from j))"
    using ok S by (simp add: sum_f_shares_Ok)
  have len: "length peers = unat (ucast n - 1 :: u64)" using members_others [OF j Q] by (simp add: peers_def)
  have self: "from_canonical_bytes C (f_share_bytes C (share_at (F j) (G j) j)) = Some (horner_eval_scalar (F j) (scalar_from j))"
    using ok by (simp add: f_share_bytes_def share_at_def)
  have "verify_round1_pok C (bc j) = Ok ()" using bc j by blast
  then have "dkg_finalize C own peers h = Ok \<lparr>df_my_index = j,
         df_joint_pk = PublicKey (compress C (mulG C (horner_eval_scalar ?S 0))),
         df_my_share = SecretKey (horner_eval_scalar ?S (scalar_from j)), df_qual = sort (j # Q)\<rparr>"
    using ok by (simp only: dkg_finalize_def own Let_def len chk idx hd0 [OF j] fel dealt_share [OF j'(1,2)]
        self shs rbind.simps ok_or.simps public_key_accepts tf_mul tf_base map_err.simps
        secret_key_scalar_roundtrip expect_ok.simps) simp
  then show ?thesis unfolding peers_def sort_members [OF j Q] .
qed


section \<open>A complete ceremony\<close>

lemma dkg_ceremony:
  fixes C :: "('s::field, 'p::ab_group_add) crypto"
  assumes ok: "curve_ok C" and h: "is_torsion_free C h" and params: "VssParameters_new n t = Ok params"
  shows "\<exists>out rs' F. length F = unat t \<and>
     (\<forall>i \<in> set (members n). dkg_start C R cid i params h (rs i) = Ok (out i, rs' i)) \<and>
     (\<forall>j \<in> set (members n). \<forall>Q. distinct Q \<and> set Q = set (members n) - {j} \<longrightarrow>
        dkg_finalize C (out j)
          (map (\<lambda>i. \<lparr>pc_broadcast = do_broadcast (out i), pc_share_for_me = do_shares (out i) ! unat (j - 1)\<rparr>) Q) h =
        Ok \<lparr>df_my_index = j, df_joint_pk = PublicKey (compress C (mulG C (horner_eval_scalar F 0))),
            df_my_share = SecretKey (horner_eval_scalar F (scalar_from j)), df_qual = members n\<rparr>)"
proof -
  from params have p: "vp_n params = n" "vp_t params = t" "0 < unat (vp_t params)"
    by (auto simp: VssParameters_new_Ok)
  define F where "F i = dkg_f R params (rs i)" for i
  define G where "G i = dkg_g R params (rs i)" for i
  define out where "out i = (case dkg_start C R cid i params h (rs i) of Ok (o', r') \<Rightarrow> o')" for i
  define rs' where "rs' i = (case dkg_start C R cid i params h (rs i) of Ok (o', r') \<Rightarrow> r')" for i
  have FG: "length (F i) = unat t \<and> length (G i) = unat t" for i
    using length_dkg_fg p by (metis F_def G_def)
  have started: "dkg_start C R cid i params h (rs i) = Ok (out i, rs' i) \<and>
      db_ceremony_id (do_broadcast (out i)) = cid \<and> db_from_index (do_broadcast (out i)) = i \<and>
      db_pedersen (do_broadcast (out i)) = \<lparr>vc_coeffs = map2 (pedersen_commit C h) (F i) (G i)\<rparr> \<and>
      db_feldman (do_broadcast (out i)) = \<lparr>fc_coeffs = map (mulG C) (F i)\<rparr> \<and>
      verify_round1_pok C (do_broadcast (out i)) = Ok () \<and>
      dp_my_index (do_private (out i)) = i \<and> dp_ceremony_id (do_private (out i)) = cid \<and>
      vp_n (dp_params (do_private (out i))) = n \<and> do_shares (out i) = map (share_at (F i) (G i)) (members n)"
    if "i \<in> set (members n)" for i
    using dkg_start_Ok [OF ok p(3), of i R cid h "rs i"] that p(1)
    by (auto simp: out_def rs'_def F_def G_def)
  let ?S = "poly_sum (unat t) (map F (members n))"
  have "dkg_finalize C (out j)
      (map (\<lambda>i. \<lparr>pc_broadcast = do_broadcast (out i), pc_share_for_me = do_shares (out i) ! unat (j - 1)\<rparr>) Q) h =
      Ok \<lparr>df_my_index = j, df_joint_pk = PublicKey (compress C (mulG C (horner_eval_scalar ?S 0))),
          df_my_share = SecretKey (horner_eval_scalar ?S (scalar_from j)), df_qual = members n\<rparr>"
    if j: "j \<in> set (members n)" and Q: "distinct Q" "set Q = set (members n) - {j}" for j Q
  proof -
    have "do_shares (out i) ! unat (j - 1) = share_at (F i) (G i) j" if "i \<in> set (members n)" for i
      using started [OF that] j dealt_share [of j n "F i" "G i"] by (auto simp: members_iff)
    then have "map (\<lambda>i. \<lparr>pc_broadcast = do_broadcast (out i), pc_share_for_me = do_shares (out i) ! unat (j - 1)\<rparr>) Q =
        map (\<lambda>i. \<lparr>pc_broadcast = do_broadcast (out i), pc_share_for_me = share_at (F i) (G i) j\<rparr>) Q"
      using Q(2) by auto
    moreover have "dkg_finalize C (out j)
        (map (\<lambda>i. \<lparr>pc_broadcast = do_broadcast (out i), pc_share_for_me = share_at (F i) (G i) j\<rparr>) Q) h =
      Ok \<lparr>df_my_index = j, df_joint_pk = PublicKey (compress C (mulG C (horner_eval_scalar ?S 0))),
          df_my_share = SecretKey (horner_eval_scalar ?S (scalar_from j)), df_qual = members n\<rparr>"
      using started FG p(2,3) j by (intro dkg_finalize_honest [OF ok h j Q]) auto
    ultimately show ?thesis by (simp only:)
  qed
  then show ?thesis using started
    by (intro exI [of _ out] exI [of _ rs'] exI [of _ ?S]) auto
qed

section \<open>Properties\<close>

text \<open>
  C15. An honest key generation: with valid parameters every member's \<open>dkg_start\<close> succeeds, and when
  each member is handed the broadcasts and its shares from all others, in any order, its
  \<open>dkg_finalize\<close> succeeds. All members end with the same joint key and the same qualified set, and
  there is one polynomial \<open>F\<close> with \<open>t\<close> coefficients whose values at the indices are the members'
  shares and whose value at zero is the joint secret.
\<close>

theorem dkg_honest_ceremony:
  fixes C :: "('s::field, 'p::ab_group_add) crypto"
  assumes ok: "curve_ok C" and h: "is_torsion_free C h" and params: "VssParameters_new n t = Ok params"
  shows "\<exists>out rs' F. length F = unat t \<and>
     (\<forall>i \<in> set (members n). dkg_start C R cid i params h (rs i) = Ok (out i, rs' i)) \<and>
     (\<forall>j \<in> set (members n). \<forall>Q. distinct Q \<and> set Q = set (members n) - {j} \<longrightarrow>
        dkg_finalize C (out j)
          (map (\<lambda>i. \<lparr>pc_broadcast = do_broadcast (out i), pc_share_for_me = do_shares (out i) ! unat (j - 1)\<rparr>) Q) h =
        Ok \<lparr>df_my_index = j, df_joint_pk = PublicKey (compress C (mulG C (horner_eval_scalar F 0))),
            df_my_share = SecretKey (horner_eval_scalar F (scalar_from j)), df_qual = members n\<rparr>)"
  using assms by (rule dkg_ceremony)

theorem dkg_honest_ceremony_witness:
  "\<exists>out rs' F. length F = unat (2 :: u16) \<and>
     (\<forall>i \<in> set (members 3). dkg_start gf_curve tape_rng (CeremonyId []) i \<lparr>vp_n = 3, vp_t = 2\<rparr> 7
        [scalar_from i, 2, 3, 4, 5] = Ok (out i, rs' i)) \<and>
     (\<forall>j \<in> set (members 3). \<forall>Q. distinct Q \<and> set Q = set (members 3) - {j} \<longrightarrow>
        dkg_finalize gf_curve (out j)
          (map (\<lambda>i. \<lparr>pc_broadcast = do_broadcast (out i), pc_share_for_me = do_shares (out i) ! unat (j - 1)\<rparr>) Q) 7 =
        Ok \<lparr>df_my_index = j, df_joint_pk = PublicKey (compress gf_curve (mulG gf_curve (horner_eval_scalar F 0))),
            df_my_share = SecretKey (horner_eval_scalar F (scalar_from j)), df_qual = members 3\<rparr>)"
proof -
  have "VssParameters_new 3 2 = Ok \<lparr>vp_n = 3, vp_t = 2\<rparr>" by code_simp
  from dkg_honest_ceremony [OF curve_ok_gf gf_curve_simps(1) this] show ?thesis .
qed

text \<open>
  C22. What a successful finalisation guarantees against arbitrary peers: exactly \<open>n - 1\<close>
  contributions with pairwise different indices, none of them the caller's own, all for this
  ceremony and this recipient, every proof of knowledge and every share verified; the share is the
  sum of the verified shares and the joint key is the sum of the published first coefficients, in
  the prime-order subgroup.
\<close>

theorem dkg_finalize_accepts:
  fixes C :: "('s::field, 'p::ab_group_add) crypto"
  assumes ok: "curve_ok C" and fin: "dkg_finalize C own received h = Ok fin"
  shows "length received = unat (ucast (vp_n (dp_params (do_private own))) - 1 :: u64) \<and>
     distinct (dp_my_index (do_private own) # map (db_from_index \<circ> pc_broadcast) received) \<and>
     df_qual fin = sort (dp_my_index (do_private own) # map (db_from_index \<circ> pc_broadcast) received) \<and>
     (\<forall>p \<in> set received. vs_index (pc_share_for_me p) = dp_my_index (do_private own) \<and>
        db_ceremony_id (pc_broadcast p) = dp_ceremony_id (do_private own) \<and>
        verify_round1_pok C (pc_broadcast p) = Ok () \<and>
        verify_share C (pc_share_for_me p) (db_pedersen (pc_broadcast p)) h = Ok ()) \<and>
     (\<exists>self. index_at (do_shares own) (unat (dp_my_index (do_private own) - 1)) = (Ok self :: ('s vss_share, mint_error) result) \<and>
        df_my_share fin = SecretKey (vs_f_share self + (\<Sum>p \<leftarrow> received. vs_f_share (pc_share_for_me p)))) \<and>
     (\<exists>P. is_torsion_free C P \<and> df_joint_pk fin = PublicKey (compress C P) \<and>
        rbind (secret_commitment (db_feldman (do_broadcast own)))
          (\<lambda>a. sum_secret_commitments a (map (db_feldman \<circ> pc_broadcast) received)) = Ok P)"
proof -
  let ?me = "dp_my_index (do_private own)"
  obtain seen a P pk self sk where
    len: "length received = unat (ucast (vp_n (dp_params (do_private own))) - 1 :: u64)"
    and chk: "dkg_check_peers C (dp_ceremony_id (do_private own)) ?me h [?me] received = Ok seen"
    and a: "secret_commitment (db_feldman (do_broadcast own)) = (Ok a :: ('p, mint_error) result)"
    and P: "sum_secret_commitments a (map (db_feldman \<circ> pc_broadcast) received) = Ok P"
    and pk: "PublicKey_from_bytes C (compress C P) = Ok pk"
    and self: "index_at (do_shares own) (unat (?me - 1)) = (Ok self :: ('s vss_share, mint_error) result)"
    and sk: "sum_f_shares C (vs_f_share self) (map pc_share_for_me received) = Ok sk"
    and fin': "fin = \<lparr>df_my_index = ?me, df_joint_pk = pk, df_my_share = SecretKey sk, df_qual = sort seen\<rparr>"
    using fin ok
    by (auto simp: dkg_finalize_def Let_def f_share_bytes_def simp del: index_at_eq_Ok split: if_splits)
  have "is_torsion_free C P \<and> pk = PublicKey (compress C P)"
    using pk ok by (auto simp: PublicKey_from_bytes_def split: if_splits)
  moreover have "sk = vs_f_share self + (\<Sum>p \<leftarrow> received. vs_f_share (pc_share_for_me p))"
    using sk ok by (simp add: sum_f_shares_Ok comp_def)
  ultimately show ?thesis
    using len dkg_check_peers_accepts [OF chk] a P self by (auto simp: fin' simp del: index_at_eq_Ok)
qed

theorem dkg_finalize_accepts_witness:
  "\<exists>(own :: (gf, gf) dkg_round1_output) received fin.
     length received = 1 \<and> dkg_finalize gf_curve own received 7 = Ok fin \<and>
     distinct (dp_my_index (do_private own) # map (db_from_index \<circ> pc_broadcast) received) \<and>
     (\<forall>p \<in> set received. verify_share gf_curve (pc_share_for_me p) (db_pedersen (pc_broadcast p)) 7 = Ok ())"
proof -
  have "VssParameters_new 2 2 = Ok \<lparr>vp_n = 2, vp_t = 2\<rparr>" by code_simp
  from dkg_ceremony [OF curve_ok_gf gf_curve_simps(1) this, of tape_rng "CeremonyId []" 7 "\<lambda>_. [1, 2, 3, 4, 5]"]
  obtain out :: "u16 \<Rightarrow> (gf, gf) dkg_round1_output" and F where
    f: "\<forall>j \<in> set (members 2). \<forall>Q. distinct Q \<and> set Q = set (members 2) - {j} \<longrightarrow>
        dkg_finalize gf_curve (out j)
          (map (\<lambda>i. \<lparr>pc_broadcast = do_broadcast (out i), pc_share_for_me = do_shares (out i) ! unat (j - 1)\<rparr>) Q) 7 =
        Ok \<lparr>df_my_index = j, df_joint_pk = PublicKey (compress gf_curve (mulG gf_curve (horner_eval_scalar F 0))),
            df_my_share = SecretKey (horner_eval_scalar F (scalar_from j)), df_qual = members 2\<rparr>"
    by blast
  have m: "members 2 = [1, 2]" by code_simp
  let ?rec = "[\<lparr>pc_broadcast = do_broadcast (out 2), pc_share_for_me = do_shares (out 2) ! unat (1 - 1 :: u16)\<rparr>]"
  have "\<exists>fin. dkg_finalize gf_curve (out 1) ?rec 7 = Ok fin"
    using f [rule_format, of 1 "[2]"] by (auto simp: m)
  then obtain fin where fin: "dkg_finalize gf_curve (out 1) ?rec 7 = Ok fin" ..
  from dkg_finalize_accepts [OF curve_ok_gf fin] fin show ?thesis
    by (intro exI [of _ "out 1"] exI [of _ ?rec] exI [of _ fin]) simp
qed

end
