(* ===== verification/Rotation.thy ===== *)
theory Rotation
  imports Dkg
begin

text \<open>
  Proactive resharing of the crate \<open>tardus-mint\<close> (\<open>rotation.rs\<close>): every validator deals a sharing
  of zero, and the received shares are added to the old share.

  The lemmas show that an honest rotation keeps the joint secret, so that the joint public key
  stays valid and the new shares sign under it, and what the checks of \<open>reshare_finalize\<close> do and do
  not establish against a dealer whose two commitment vectors disagree.
\<close>

section \<open>Messages\<close>

record 'p reshare_round1_broadcast =
  rb_ceremony_id :: ceremony_id
  rb_from_index :: u16
  rb_pedersen :: "'p vss_commitments"
  rb_feldman :: "'p feldman_commitments"

record reshare_round1_private =
  rp_ceremony_id :: ceremony_id
  rp_my_index :: u16
  rp_params :: vss_parameters

record ('s, 'p) reshare_round1_output =
  ro_broadcast :: "'p reshare_round1_broadcast"
  ro_private :: reshare_round1_private
  ro_shares :: "'s vss_share list"

record ('s, 'p) reshare_peer_contribution =
  rpc_broadcast :: "'p reshare_round1_broadcast"
  rpc_share_for_me :: "'s vss_share"

record 's reshare_finalised =
  rf_my_index :: u16
  rf_new_share :: "'s secret_key"
  rf_qual :: "u16 list"

section \<open>The ceremony\<close>

definition reshare_start ::
    "('s::field, 'p::ab_group_add) crypto \<Rightarrow> ('r, 's) rng \<Rightarrow> ceremony_id \<Rightarrow> u16 \<Rightarrow> vss_parameters \<Rightarrow> 'p \<Rightarrow> 'r
     \<Rightarrow> (('s, 'p) reshare_round1_output \<times> 'r, mint_error) result" where
  "reshare_start C R ceremony_id my_index params h_gen r =
     (if my_index = 0 \<or> my_index > vp_n params then Err UnknownParticipant
      else
        (let ((pedersen, feldman, shares), r1) = deal C R 0 params h_gen r
         in Ok (\<lparr>ro_broadcast = \<lparr>rb_ceremony_id = ceremony_id, rb_from_index = my_index,
                                rb_pedersen = pedersen, rb_feldman = feldman\<rparr>,
                 ro_private = \<lparr>rp_ceremony_id = ceremony_id, rp_my_index = my_index, rp_params = params\<rparr>,
                 ro_shares = shares\<rparr>, r1)))"

definition verify_reshare_round1 :: "'p::ab_group_add reshare_round1_broadcast \<Rightarrow> (unit, mint_error) result" where
  "verify_reshare_round1 broadcast =
     rbind (secret_commitment (rb_feldman broadcast)) (\<lambda>a_0.
       if a_0 = 0 then Ok () else Err ResharePolyNonZero)"

fun reshare_check_peers ::
    "('s::field, 'p::ab_group_add) crypto \<Rightarrow> ceremony_id \<Rightarrow> u16 \<Rightarrow> 'p \<Rightarrow> u16 list
     \<Rightarrow> ('s, 'p) reshare_peer_contribution list \<Rightarrow> (u16 list, mint_error) result" where
  "reshare_check_peers C cid my_index h_gen seen [] = Ok seen"
| "reshare_check_peers C cid my_index h_gen seen (peer # peers) =
     (let from_index = rb_from_index (rpc_broadcast peer)
      in if from_index = my_index then Err DomainMismatch
         else if from_index \<in> set seen then Err DuplicateParticipant
         else if vs_index (rpc_share_for_me peer) \<noteq> my_index then Err DomainMismatch
         else if rb_ceremony_id (rpc_broadcast peer) \<noteq> cid then Err DomainMismatch
         else rbind (verify_reshare_round1 (rpc_broadcast peer)) (\<lambda>_.
              rbind (verify_share C (rpc_share_for_me peer) (rb_pedersen (rpc_broadcast peer)) h_gen) (\<lambda>_.
                reshare_check_peers C cid my_index h_gen (seen @ [from_index]) peers)))"

definition reshare_finalize ::
    "('s::field, 'p::ab_group_add) crypto \<Rightarrow> ('s, 'p) reshare_round1_output \<Rightarrow> 's secret_key
     \<Rightarrow> ('s, 'p) reshare_peer_contribution list \<Rightarrow> 'p \<Rightarrow> ('s reshare_finalised, mint_error) result" where
  "reshare_finalize C own old_share received h_gen =
     (let my_index = rp_my_index (ro_private own);
          expected_received = ucast (vp_n (rp_params (ro_private own))) - 1 :: u64
      in if length received \<noteq> unat expected_received then Err InsufficientMessages
         else
           rbind (verify_reshare_round1 (ro_broadcast own)) (\<lambda>_.
           rbind (reshare_check_peers C (rp_ceremony_id (ro_private own)) my_index h_gen [my_index] received) (\<lambda>seen_indices.
           rbind (index_at (ro_shares own) (unat (my_index - 1))) (\<lambda>self_share.
           rbind (ok_or VssShareInvalid (from_canonical_bytes C (f_share_bytes C self_share))) (\<lambda>self_f.
           rbind (sum_f_shares C self_f (map rpc_share_for_me received)) (\<lambda>delta.
           rbind (expect_some (from_canonical_bytes C (SecretKey_to_bytes C old_share))) (\<lambda>old_scalar.
           rbind (expect_ok (SecretKey_from_bytes C (scalar_to_bytes C (old_scalar + delta)))) (\<lambda>new_share.
             Ok \<lparr>rf_my_index = my_index, rf_new_share = new_share, rf_qual = sort seen_indices\<rparr>))))))))"

section \<open>Formats\<close>

definition ser_reshare_broadcast :: "('s, 'p) crypto \<Rightarrow> 'p reshare_round1_broadcast \<Rightarrow> bytes" where
  "ser_reshare_broadcast C b =
     ceremony_bytes (rb_ceremony_id b) @ to_le_bytes 2 (rb_from_index b) @
     the (serialize_point_vec C (vc_coeffs (rb_pedersen b))) @
     the (serialize_point_vec C (fc_coeffs (rb_feldman b)))"

definition de_reshare_broadcast :: "('s, 'p) crypto \<Rightarrow> 'p reshare_round1_broadcast reader" where
  "de_reshare_broadcast C =
     rd_bind (read_exact 16) (\<lambda>cid.
     rd_bind (rd_word 2) (\<lambda>from_index.
     rd_bind (deserialize_point_vec C) (\<lambda>pedersen.
     rd_bind (deserialize_point_vec C) (\<lambda>feldman.
       rd_return \<lparr>rb_ceremony_id = CeremonyId cid, rb_from_index = from_index,
                  rb_pedersen = \<lparr>vc_coeffs = pedersen\<rparr>, rb_feldman = \<lparr>fc_coeffs = feldman\<rparr>\<rparr>))))"

definition ser_reshare_contribution :: "('s, 'p) crypto \<Rightarrow> ('s, 'p) reshare_peer_contribution \<Rightarrow> bytes" where
  "ser_reshare_contribution C pc =
     ser_reshare_broadcast C (rpc_broadcast pc) @ ser_vss_share C (rpc_share_for_me pc)"

definition de_reshare_contribution :: "('s, 'p) crypto \<Rightarrow> ('s, 'p) reshare_peer_contribution reader" where
  "de_reshare_contribution C =
     rd_bind (de_reshare_broadcast C) (\<lambda>b. rd_bind (de_vss_share C) (\<lambda>sh.
       rd_return \<lparr>rpc_broadcast = b, rpc_share_for_me = sh\<rparr>))"

definition reshare_broadcast_wf :: "('s::field, 'p::ab_group_add) crypto \<Rightarrow> 'p reshare_round1_broadcast \<Rightarrow> bool" where
  "reshare_broadcast_wf C b \<longleftrightarrow> curve_ok C \<and> length (ceremony_bytes (rb_ceremony_id b)) = 16 \<and>
     length (vc_coeffs (rb_pedersen b)) < 2 ^ 16 \<and> length (fc_coeffs (rb_feldman b)) < 2 ^ 16"

interpretation reshare_broadcast_codec: codec "ser_reshare_broadcast C" "de_reshare_broadcast C"
    "reshare_broadcast_wf C" for C
  by unfold_locales
    (simp add: ser_reshare_broadcast_def de_reshare_broadcast_def reshare_broadcast_wf_def rd_bind_def
      point_vec_codec.de_ser)

interpretation reshare_contribution_codec: codec "ser_reshare_contribution C" "de_reshare_contribution C"
    "\<lambda>pc. reshare_broadcast_wf C (rpc_broadcast pc)" for C
proof unfold_locales
  fix pc :: "('a, 'b) reshare_peer_contribution" and rest
  assume wf: "reshare_broadcast_wf C (rpc_broadcast pc)"
  then have "curve_ok C" by (simp add: reshare_broadcast_wf_def)
  then show "de_reshare_contribution C (ser_reshare_contribution C pc @ rest) = Some (pc, rest)"
    by (simp add: ser_reshare_contribution_def de_reshare_contribution_def rd_bind_def
        reshare_broadcast_codec.de_ser [OF wf] vss_share_codec.de_ser)
qed

section \<open>What the finalisation computes\<close>

lemma reshare_check_peers_Ok:
  assumes "\<forall>p \<in> set peers. vs_index (rpc_share_for_me p) = me \<and> rb_ceremony_id (rpc_broadcast p) = cid \<and>
             verify_reshare_round1 (rpc_broadcast p) = Ok () \<and>
             verify_share C (rpc_share_for_me p) (rb_pedersen (rpc_broadcast p)) h = Ok ()"
    and "distinct (seen @ map (rb_from_index \<circ> rpc_broadcast) peers)" and "me \<in> set seen"
  shows "reshare_check_peers C cid me h seen peers = Ok (seen @ map (rb_from_index \<circ> rpc_broadcast) peers)"
  using assms by (induction peers arbitrary: seen) (auto simp: Let_def)

text \<open>
  Finalising over dealings with Pedersen polynomials \<open>F i\<close>, \<open>G i\<close> and any Feldman vectors that start
  with the identity: the result adds the values of all the Pedersen polynomials.
\<close>

lemma reshare_finalize_dealings:
  fixes C :: "('s::field, 'p::ab_group_add) crypto"
  assumes ok: "curve_ok C" and h: "is_torsion_free C h" and j: "j \<in> set (members n)"
    and Q: "distinct Q" "set Q = set (members n) - {j}"
    and FG: "\<forall>i. length (F i) = length (G i)"
    and bc: "\<forall>i \<in> set (members n). rb_ceremony_id (bc i) = cid \<and> rb_from_index (bc i) = i \<and>
        rb_pedersen (bc i) = \<lparr>vc_coeffs = map2 (pedersen_commit C h) (F i) (G i)\<rparr> \<and>
        verify_reshare_round1 (bc i) = Ok ()"
    and own: "ro_broadcast own = bc j" "rp_my_index (ro_private own) = j"
      "rp_ceremony_id (ro_private own) = cid" "vp_n (rp_params (ro_private own)) = n"
      "ro_shares own = map (share_at (F j) (G j)) (members n)"
  shows "reshare_finalize C own (SecretKey old)
       (map (\<lambda>i. \<lparr>rpc_broadcast = bc i, rpc_share_for_me = share_at (F i) (G i) j\<rparr>) Q) h =
     Ok \<lparr>rf_my_index = j,
         rf_new_share = SecretKey (old + (\<Sum>i \<leftarrow> members n. horner_eval_scalar (F i) (scalar_from j))),
         rf_qual = members n\<rparr>"
proof -
  define peers where "peers = map (\<lambda>i. \<lparr>rpc_broadcast = bc i, rpc_share_for_me = share_at (F i) (G i) j\<rparr>) Q"
  have j': "1 \<le> unat j" "unat j \<le> unat n" "j \<noteq> 0" using j by (auto simp: members_iff)
  have QM: "i \<in> set (members n)" if "i \<in> set Q" for i using that Q(2) by auto
  have idx: "map (rb_from_index \<circ> rpc_broadcast) peers = Q"
    unfolding peers_def using bc QM by (auto intro!: map_idI)
  have chk: "reshare_check_peers C cid j h [j] peers = Ok ([j] @ map (rb_from_index \<circ> rpc_broadcast) peers)"
  proof (rule reshare_check_peers_Ok)
    show "distinct ([j] @ map (rb_from_index \<circ> rpc_broadcast) peers)" unfolding idx using Q by auto
    show "\<forall>p \<in> set peers. vs_index (rpc_share_for_me p) = j \<and> rb_ceremony_id (rpc_broadcast p) = cid \<and>
             verify_reshare_round1 (rpc_broadcast p) = Ok () \<and>
             verify_share C (rpc_share_for_me p) (rb_pedersen (rpc_broadcast p)) h = Ok ()"
      unfolding peers_def using bc QM FG share_at_verifies [OF ok h _ j'(3)] by (auto simp: share_at_def)
  qed simp
  have "(\<Sum>sh \<leftarrow> map rpc_share_for_me peers. vs_f_share sh) = (\<Sum>i \<leftarrow> Q. horner_eval_scalar (F i) (scalar_from j))"
    by (simp add: peers_def share_at_def comp_def)
  then have shs: "sum_f_shares C (horner_eval_scalar (F j) (scalar_from j)) (map rpc_share_for_me peers) =
      Ok (\<Sum>i \<leftarrow> members n. horner_eval_scalar (F i) (scalar_from j))"
    using ok members_sum [OF j Q, of "\<lambda>i. horner_eval_scalar (F i) (scalar_from j)"]
    by (simp add: sum_f_shares_Ok)
  have len: "length peers = unat (ucast n - 1 :: u64)" using members_others [OF j Q] by (simp add: peers_def)
  have self: "from_canonical_bytes C (f_share_bytes C (share_at (F j) (G j) j)) = Some (horner_eval_scalar (F j) (scalar_from j))"
    using ok by (simp add: f_share_bytes_def share_at_def)
  have "verify_reshare_round1 (bc j) = Ok ()" using bc j by blast
  then have "reshare_finalize C own (SecretKey old) peers h = Ok \<lparr>rf_my_index = j,
         rf_new_share = SecretKey (old + (\<Sum>i \<leftarrow> members n. horner_eval_scalar (F i) (scalar_from j))),
         rf_qual = sort (j # Q)\<rparr>"
    using ok by (simp only: reshare_finalize_def own Let_def len chk idx dealt_share [OF j'(1,2)]
        self shs rbind.simps ok_or.simps SecretKey_to_bytes_def secret_key.sel canonical_to_bytes
        expect_some.simps secret_key_scalar_roundtrip expect_ok.simps) simp
  then show ?thesis unfolding peers_def sort_members [OF j Q] .
qed

lemma reshare_start_Ok:
  assumes ok: "curve_ok C" and t: "0 < unat (vp_t params)" and i: "i \<in> set (members (vp_n params))"
  shows "\<exists>r'. reshare_start C R cid i params h r =
       Ok (\<lparr>ro_broadcast = \<lparr>rb_ceremony_id = cid, rb_from_index = i,
              rb_pedersen = \<lparr>vc_coeffs = map2 (pedersen_commit C h) (dealt_f R 0 params r) (dealt_g R params r)\<rparr>,
              rb_feldman = \<lparr>fc_coeffs = map (mulG C) (dealt_f R 0 params r)\<rparr>\<rparr>,
            ro_private = \<lparr>rp_ceremony_id = cid, rp_my_index = i, rp_params = params\<rparr>,
            ro_shares = map (share_at (dealt_f R 0 params r) (dealt_g R params r)) (members (vp_n params))\<rparr>, r') \<and>
     verify_reshare_round1 \<lparr>rb_ceremony_id = cid, rb_from_index = i,
              rb_pedersen = \<lparr>vc_coeffs = map2 (pedersen_commit C h) (dealt_f R 0 params r) (dealt_g R params r)\<rparr>,
              rb_feldman = \<lparr>fc_coeffs = map (mulG C) (dealt_f R 0 params r)\<rparr>\<rparr> = Ok ()"
proof -
  obtain ped fel shs r2 where d: "deal C R 0 params h r = ((ped, fel, shs), r2)" by (metis prod.exhaust)
  have "i \<noteq> 0" "\<not> i > vp_n params" using i by (auto simp: members_iff word_less_nat_alt)
  moreover have "secret_commitment \<lparr>fc_coeffs = map (mulG C) (dealt_f R 0 params r)\<rparr> = (Ok 0 :: ('b, mint_error) result)"
    using ok by (simp add: secret_commitment_def dealt_f_def)
  ultimately show ?thesis
    using deal_shape [OF t, where secret = 0 and C = C and R = R and h = h and r = r] ok
    by (auto simp: reshare_start_def d verify_reshare_round1_def)
qed

text \<open>The polynomial the new shares lie on.\<close>

lemma horner_rotated:
  assumes "length F\<^sub>0 = T" and "\<forall>i. length (F i) = T"
  shows "horner_eval_scalar (poly_sum T (F\<^sub>0 # map F is)) x =
         horner_eval_scalar F\<^sub>0 x + (\<Sum>i \<leftarrow> is. horner_eval_scalar (F i) x)"
  using assms by (subst horner_poly_sum) (auto simp: comp_def)

text \<open>What an honest start of member \<open>i\<close> leaves behind.\<close>

definition reshare_started ::
    "('s::field, 'p::ab_group_add) crypto \<Rightarrow> ceremony_id \<Rightarrow> 'p \<Rightarrow> u16 \<Rightarrow> 's list \<Rightarrow> 's list \<Rightarrow> u16
     \<Rightarrow> ('s, 'p) reshare_round1_output \<Rightarrow> bool" where
  "reshare_started C cid h n F G i out \<longleftrightarrow>
     rb_ceremony_id (ro_broadcast out) = cid \<and> rb_from_index (ro_broadcast out) = i \<and>
     rb_pedersen (ro_broadcast out) = \<lparr>vc_coeffs = map2 (pedersen_commit C h) F G\<rparr> \<and>
     verify_reshare_round1 (ro_broadcast out) = Ok () \<and>
     rp_my_index (ro_private out) = i \<and> rp_ceremony_id (ro_private out) = cid \<and>
     vp_n (rp_params (ro_private out)) = n \<and> ro_shares out = map (share_at F G) (members n)"

lemma reshare_started_share:
  assumes "reshare_started C cid h n F G i out" and "j \<in> set (members n)"
  shows "ro_shares out ! unat (j - 1) = share_at F G j"
  using assms dealt_share [of j n F G] by (auto simp: reshare_started_def members_iff)

lemma reshare_all_start:
  fixes C :: "('s::field, 'p::ab_group_add) crypto"
  assumes ok: "curve_ok C" and params: "VssParameters_new n t = Ok params"
  obtains out rs' where "\<forall>i \<in> set (members n). reshare_start C R cid i params h (rs i) = Ok (out i, rs' i)"
    and "\<forall>i \<in> set (members n).
      reshare_started C cid h n (dealt_f R 0 params (rs i)) (dealt_g R params (rs i)) i (out i)"
proof
  define out where "out i = (case reshare_start C R cid i params h (rs i) of Ok (o', r') \<Rightarrow> o')" for i
  define rs' where "rs' i = (case reshare_start C R cid i params h (rs i) of Ok (o', r') \<Rightarrow> r')" for i
  from params have p: "vp_n params = n" "0 < unat (vp_t params)" by (auto simp: VssParameters_new_Ok)
  note st = reshare_start_Ok [OF ok p(2), where R = R and cid = cid and h = h, unfolded p(1)]
  show "\<forall>i \<in> set (members n). reshare_start C R cid i params h (rs i) = Ok (out i, rs' i)"
  proof
    fix i assume "i \<in> set (members n)"
    from st [OF this, of "rs i"] show "reshare_start C R cid i params h (rs i) = Ok (out i, rs' i)"
      by (auto simp: out_def rs'_def)
  qed
  show "\<forall>i \<in> set (members n).
      reshare_started C cid h n (dealt_f R 0 params (rs i)) (dealt_g R params (rs i)) i (out i)"
  proof
    fix i assume "i \<in> set (members n)"
    from st [OF this, of "rs i"] p(1)
    show "reshare_started C cid h n (dealt_f R 0 params (rs i)) (dealt_g R params (rs i)) i (out i)"
      by (auto simp: out_def reshare_started_def)
  qed
qed

lemma reshare_ceremony:
  fixes C :: "('s::field, 'p::ab_group_add) crypto"
  assumes ok: "curve_ok C" and h: "is_torsion_free C h" and params: "VssParameters_new n t = Ok params"
    and old: "length F = unat t"
  shows "\<exists>out rs' F'. length F' = unat t \<and> horner_eval_scalar F' 0 = horner_eval_scalar F 0 \<and>
     (\<forall>i \<in> set (members n). reshare_start C R cid i params h (rs i) = Ok (out i, rs' i)) \<and>
     (\<forall>j \<in> set (members n). \<forall>Q. distinct Q \<and> set Q = set (members n) - {j} \<longrightarrow>
        reshare_finalize C (out j) (SecretKey (horner_eval_scalar F (scalar_from j)))
          (map (\<lambda>i. \<lparr>rpc_broadcast = ro_broadcast (out i), rpc_share_for_me = ro_shares (out i) ! unat (j - 1)\<rparr>) Q) h =
        Ok \<lparr>rf_my_index = j, rf_new_share = SecretKey (horner_eval_scalar F' (scalar_from j)), rf_qual = members n\<rparr>)"
proof -
  from params have p: "vp_t params = t" "0 < unat (vp_t params)" by (auto simp: VssParameters_new_Ok)
  let ?F = "\<lambda>i. dealt_f R 0 params (rs i)" and ?G = "\<lambda>i. dealt_g R params (rs i)"
  let ?S = "poly_sum (unat t) (F # map ?F (members n))"
  have len: "\<forall>i. length (?F i) = unat t" "\<forall>i. length (?F i) = length (?G i)"
    using p(1) by (simp_all add: length_dealt(1) [OF p(2)] length_dealt(2))
  note S = horner_rotated [OF old len(1)]
  obtain out rs' where run: "\<forall>i \<in> set (members n). reshare_start C R cid i params h (rs i) = Ok (out i, rs' i)"
    and st: "\<forall>i \<in> set (members n).
      reshare_started C cid h n (dealt_f R 0 params (rs i)) (dealt_g R params (rs i)) i (out i)"
    by (rule reshare_all_start [OF ok params])
  have "reshare_finalize C (out j) (SecretKey (horner_eval_scalar F (scalar_from j)))
      (map (\<lambda>i. \<lparr>rpc_broadcast = ro_broadcast (out i), rpc_share_for_me = ro_shares (out i) ! unat (j - 1)\<rparr>) Q) h =
      Ok \<lparr>rf_my_index = j, rf_new_share = SecretKey (horner_eval_scalar ?S (scalar_from j)), rf_qual = members n\<rparr>"
    if j: "j \<in> set (members n)" and Q: "distinct Q" "set Q = set (members n) - {j}" for j Q
  proof -
    have eq: "map (\<lambda>i. \<lparr>rpc_broadcast = ro_broadcast (out i), rpc_share_for_me = ro_shares (out i) ! unat (j - 1)\<rparr>) Q =
        map (\<lambda>i. \<lparr>rpc_broadcast = ro_broadcast (out i), rpc_share_for_me = share_at (?F i) (?G i) j\<rparr>) Q"
      using Q(2) st j reshare_started_share by (intro map_cong refl) fastforce
    show ?thesis unfolding eq S using st j
      by (intro reshare_finalize_dealings [OF ok h j Q len(2)]) (auto simp: reshare_started_def)
  qed
  moreover have "horner_eval_scalar ?S 0 = horner_eval_scalar F 0" by (simp only: S) simp
  ultimately show ?thesis using run
    by (intro exI [of _ out] exI [of _ rs'] exI [of _ ?S]) simp
qed

section \<open>Properties\<close>

text \<open>
  C14. An honest rotation keeps the joint secret: if the old shares are the values of a polynomial
  \<open>F\<close> with \<open>t\<close> coefficients, then every \<open>reshare_start\<close> and every \<open>reshare_finalize\<close> succeeds, and
  the new shares are the values of a polynomial with \<open>t\<close> coefficients and the same value at zero.
\<close>

theorem reshare_preserves_joint_secret:
  fixes C :: "('s::field, 'p::ab_group_add) crypto"
  assumes "curve_ok C" and "is_torsion_free C h" and "VssParameters_new n t = Ok params"
    and "length F = unat t"
  shows "\<exists>out rs' F'. length F' = unat t \<and> horner_eval_scalar F' 0 = horner_eval_scalar F 0 \<and>
     (\<forall>i \<in> set (members n). reshare_start C R cid i params h (rs i) = Ok (out i, rs' i)) \<and>
     (\<forall>j \<in> set (members n). \<forall>Q. distinct Q \<and> set Q = set (members n) - {j} \<longrightarrow>
        reshare_finalize C (out j) (SecretKey (horner_eval_scalar F (scalar_from j)))
          (map (\<lambda>i. \<lparr>rpc_broadcast = ro_broadcast (out i), rpc_share_for_me = ro_shares (out i) ! unat (j - 1)\<rparr>) Q) h =
        Ok \<lparr>rf_my_index = j, rf_new_share = SecretKey (horner_eval_scalar F' (scalar_from j)), rf_qual = members n\<rparr>)"
  using assms by (rule reshare_ceremony)

theorem reshare_preserves_joint_secret_witness:
  "\<exists>out rs' F'. length F' = unat (2 :: u16) \<and> horner_eval_scalar F' 0 = horner_eval_scalar [5, 3 :: gf] 0 \<and>
     (\<forall>i \<in> set (members 3). reshare_start gf_curve tape_rng (CeremonyId []) i \<lparr>vp_n = 3, vp_t = 2\<rparr> 7
        [scalar_from i, 2, 3] = Ok (out i, rs' i)) \<and>
     (\<forall>j \<in> set (members 3). \<forall>Q. distinct Q \<and> set Q = set (members 3) - {j} \<longrightarrow>
        reshare_finalize gf_curve (out j) (SecretKey (horner_eval_scalar [5, 3] (scalar_from j)))
          (map (\<lambda>i. \<lparr>rpc_broadcast = ro_broadcast (out i), rpc_share_for_me = ro_shares (out i) ! unat (j - 1)\<rparr>) Q) 7 =
        Ok \<lparr>rf_my_index = j, rf_new_share = SecretKey (horner_eval_scalar F' (scalar_from j)), rf_qual = members 3\<rparr>)"
proof -
  have "VssParameters_new 3 2 = Ok \<lparr>vp_n = 3, vp_t = 2\<rparr>" by code_simp
  moreover have "length [5, 3 :: gf] = unat (2 :: u16)" by simp
  ultimately show ?thesis by (rule reshare_preserves_joint_secret [OF curve_ok_gf gf_curve_simps(1)])
qed

text \<open>
  C33. The identity check does not bind the dealt polynomial: a dealer \<open>m\<close> who publishes Pedersen
  commitments to any polynomial \<open>D\<close> beside a Feldman vector that starts with the identity is
  accepted by every honest member, and the new shares lie on a polynomial whose value at zero has
  moved by \<open>D(0)\<close>.
\<close>

theorem reshare_accepts_shifted_key:
  fixes C :: "('s::field, 'p::ab_group_add) crypto"
  assumes ok: "curve_ok C" and h: "is_torsion_free C h" and params: "VssParameters_new n t = Ok params"
    and old: "length F = unat t" and m: "m \<in> set (members n)" and D: "length D = unat t" "length E = unat t"
    and cheat: "cheat = \<lparr>rb_ceremony_id = cid, rb_from_index = m,
        rb_pedersen = \<lparr>vc_coeffs = map2 (pedersen_commit C h) D E\<rparr>, rb_feldman = \<lparr>fc_coeffs = 0 # A\<rparr>\<rparr>"
  shows "\<exists>out rs' F'. horner_eval_scalar F' 0 = horner_eval_scalar F 0 + horner_eval_scalar D 0 \<and> length F' = unat t \<and>
     (\<forall>i \<in> set (members n). reshare_start C R cid i params h (rs i) = Ok (out i, rs' i)) \<and>
     (\<forall>j \<in> set (members n) - {m}. \<forall>Q. distinct Q \<and> set Q = set (members n) - {j} \<longrightarrow>
        reshare_finalize C (out j) (SecretKey (horner_eval_scalar F (scalar_from j)))
          (map (\<lambda>i. if i = m then \<lparr>rpc_broadcast = cheat, rpc_share_for_me = share_at D E j\<rparr>
                    else \<lparr>rpc_broadcast = ro_broadcast (out i), rpc_share_for_me = ro_shares (out i) ! unat (j - 1)\<rparr>) Q) h =
        Ok \<lparr>rf_my_index = j, rf_new_share = SecretKey (horner_eval_scalar F' (scalar_from j)), rf_qual = members n\<rparr>)"
proof -
  from params have p: "vp_t params = t" "0 < unat (vp_t params)" by (auto simp: VssParameters_new_Ok)
  let ?F = "\<lambda>i. if i = m then D else dealt_f R 0 params (rs i)"
  let ?G = "\<lambda>i. if i = m then E else dealt_g R params (rs i)"
  let ?S = "poly_sum (unat t) (F # map ?F (members n))"
  have len: "\<forall>i. length (?F i) = unat t" "\<forall>i. length (?F i) = length (?G i)"
    using p(1) D by (simp_all add: length_dealt(1) [OF p(2)] length_dealt(2))
  note S = horner_rotated [OF old len(1)]
  obtain out rs' where run: "\<forall>i \<in> set (members n). reshare_start C R cid i params h (rs i) = Ok (out i, rs' i)"
    and st: "\<forall>i \<in> set (members n).
      reshare_started C cid h n (dealt_f R 0 params (rs i)) (dealt_g R params (rs i)) i (out i)"
    by (rule reshare_all_start [OF ok params])
  let ?bc = "\<lambda>i. if i = m then cheat else ro_broadcast (out i)"
  have cheat_ok: "verify_reshare_round1 cheat = Ok ()"
    by (simp add: cheat verify_reshare_round1_def secret_commitment_def)
  have fin: "reshare_finalize C (out j) (SecretKey (horner_eval_scalar F (scalar_from j)))
      (map (\<lambda>i. if i = m then \<lparr>rpc_broadcast = cheat, rpc_share_for_me = share_at D E j\<rparr>
                else \<lparr>rpc_broadcast = ro_broadcast (out i), rpc_share_for_me = ro_shares (out i) ! unat (j - 1)\<rparr>) Q) h =
      Ok \<lparr>rf_my_index = j, rf_new_share = SecretKey (horner_eval_scalar ?S (scalar_from j)), rf_qual = members n\<rparr>"
    if j: "j \<in> set (members n)" "j \<noteq> m" and Q: "distinct Q" "set Q = set (members n) - {j}" for j Q
  proof -
    have eq: "map (\<lambda>i. if i = m then \<lparr>rpc_broadcast = cheat, rpc_share_for_me = share_at D E j\<rparr>
                else \<lparr>rpc_broadcast = ro_broadcast (out i), rpc_share_for_me = ro_shares (out i) ! unat (j - 1)\<rparr>) Q =
        map (\<lambda>i. \<lparr>rpc_broadcast = ?bc i, rpc_share_for_me = share_at (?F i) (?G i) j\<rparr>) Q"
      using Q(2) st j(1) reshare_started_share by (intro map_cong refl) fastforce
    have bc: "\<forall>i \<in> set (members n). rb_ceremony_id (?bc i) = cid \<and> rb_from_index (?bc i) = i \<and>
        rb_pedersen (?bc i) = \<lparr>vc_coeffs = map2 (pedersen_commit C h) (?F i) (?G i)\<rparr> \<and>
        verify_reshare_round1 (?bc i) = Ok ()"
      using st cheat_ok by (simp add: cheat reshare_started_def)
    show ?thesis unfolding eq S using st [rule_format, OF j(1)] j(2)
      by (intro reshare_finalize_dealings [OF ok h j(1) Q len(2) bc]) (simp_all add: reshare_started_def)
  qed
  have "(\<Sum>i \<leftarrow> members n. horner_eval_scalar (?F i) 0) = (\<Sum>i \<leftarrow> members n. if i = m then horner_eval_scalar D 0 else 0)"
    by (intro arg_cong [where f = sum_list] map_cong) auto
  also have "\<dots> = horner_eval_scalar D 0"
    using m by (simp add: sum.distinct_set_conv_list [OF distinct_members, symmetric])
  finally have "horner_eval_scalar ?S 0 = horner_eval_scalar F 0 + horner_eval_scalar D 0" by (simp only: S)
  with fin run show ?thesis
    by (intro exI [of _ out] exI [of _ rs'] exI [of _ ?S]) simp
qed

theorem reshare_accepts_shifted_key_witness:
  "\<exists>out rs' F'. horner_eval_scalar F' 0 = horner_eval_scalar [5, 3 :: gf] 0 + horner_eval_scalar [1, 4] 0 \<and>
     length F' = unat (2 :: u16) \<and>
     (\<forall>i \<in> set (members 2). reshare_start gf_curve tape_rng (CeremonyId []) i \<lparr>vp_n = 2, vp_t = 2\<rparr> 7
        [scalar_from i, 2, 3] = Ok (out i, rs' i)) \<and>
     (\<forall>j \<in> set (members 2) - {2}. \<forall>Q. distinct Q \<and> set Q = set (members 2) - {j} \<longrightarrow>
        reshare_finalize gf_curve (out j) (SecretKey (horner_eval_scalar [5, 3] (scalar_from j)))
          (map (\<lambda>i. if i = 2 then \<lparr>rpc_broadcast = \<lparr>rb_ceremony_id = CeremonyId [], rb_from_index = 2,
                        rb_pedersen = \<lparr>vc_coeffs = map2 (pedersen_commit gf_curve 7) [1, 4] [6, 6]\<rparr>,
                        rb_feldman = \<lparr>fc_coeffs = [0, 9]\<rparr>\<rparr>, rpc_share_for_me = share_at [1, 4] [6, 6] j\<rparr>
                    else \<lparr>rpc_broadcast = ro_broadcast (out i), rpc_share_for_me = ro_shares (out i) ! unat (j - 1)\<rparr>) Q) 7 =
        Ok \<lparr>rf_my_index = j, rf_new_share = SecretKey (horner_eval_scalar F' (scalar_from j)), rf_qual = members 2\<rparr>)"
proof -
  have "VssParameters_new 2 2 = Ok \<lparr>vp_n = 2, vp_t = 2\<rparr>" "2 \<in> set (members 2)" by code_simp+
  moreover have "length [a, b :: gf] = unat (2 :: u16)" for a b by simp
  ultimately show ?thesis
    by (intro reshare_accepts_shifted_key [OF curve_ok_gf gf_curve_simps(1)]) simp_all
qed

end
