(* ===== verification/Coin.thy ===== *)
theory Coin
  imports Rotation
begin

text \<open>
  Coins of the crate \<open>tardus-refresh\<close>: the crate's errors (\<open>error.rs\<close>), the coin type with its
  nullifier and its verification (\<open>coin.rs\<close>) and the derivation of coin secrets from seeds
  (\<open>derivation.rs\<close>).
\<close>

datatype refresh_error =
    RefreshCore core_error
  | RefreshMint mint_error
  | CoinPubkeyMismatch
  | CoinSignatureInvalid
  | ChallengeOutOfRange
  | CheatingDetected
  | SessionIdMismatch
  | InvalidState

definition NULLIFIER_DOMAIN :: bytes where
  "NULLIFIER_DOMAIN = ascii ''TARDUS-nullifier-v1''"

record 's coin =
  coin_secret :: "'s secret_key"
  coin_pubkey_bytes :: bytes
  coin_signature :: signature

definition Coin_new ::
    "('s, 'p) crypto \<Rightarrow> 's secret_key \<Rightarrow> bytes \<Rightarrow> signature \<Rightarrow> ('s coin, refresh_error) result" where
  "Coin_new C secret pubkey_bytes sig =
     (let derived = PublicKey_from_secret C secret
      in if pk_to_bytes derived \<noteq> pubkey_bytes then Err CoinPubkeyMismatch
         else Ok \<lparr>coin_secret = secret, coin_pubkey_bytes = pubkey_bytes, coin_signature = sig\<rparr>)"

definition nullifier_of :: "('s, 'p) crypto \<Rightarrow> bytes \<Rightarrow> bytes" where
  "nullifier_of C pubkey_bytes = Sha256 C (NULLIFIER_DOMAIN @ pubkey_bytes)"

definition nullifier :: "('s, 'p) crypto \<Rightarrow> 's coin \<Rightarrow> bytes" where
  "nullifier C c = nullifier_of C (coin_pubkey_bytes c)"

definition Coin_verify ::
    "('s, 'p::plus) crypto \<Rightarrow> 's coin \<Rightarrow> public_key \<Rightarrow> (bool, refresh_error) result" where
  "Coin_verify C c joint_pk =
     map_err RefreshCore (schnorr_verify C joint_pk (coin_pubkey_bytes c) (coin_signature c))"

definition REFRESH_DOMAIN :: bytes where
  "REFRESH_DOMAIN = ascii ''TARDUS-refresh-v1''"

definition COIN_SECRET_INFO :: bytes where
  "COIN_SECRET_INFO = ascii ''coin-secret''"

definition derive_coin_secret :: "('s, 'p) crypto \<Rightarrow> bytes \<Rightarrow> 's" where
  "derive_coin_secret C seed =
     from_bytes_mod_order_wide C (hkdf_sha512 C REFRESH_DOMAIN seed COIN_SECRET_INFO 64)"

text \<open>A coin built by \<open>Coin_new\<close> holds the secret of its public key.\<close>

definition coin_ok :: "('s, 'p) crypto \<Rightarrow> 's coin \<Rightarrow> bool" where
  "coin_ok C c \<longleftrightarrow> coin_pubkey_bytes c = compress C (mulG C (sk_scalar (coin_secret c)))"

lemma Coin_new_Ok:
  "Coin_new C sk pk sig = Ok c \<longleftrightarrow>
     pk = compress C (mulG C (sk_scalar sk)) \<and>
     c = \<lparr>coin_secret = sk, coin_pubkey_bytes = pk, coin_signature = sig\<rparr>"
  by (auto simp: Coin_new_def Let_def)

lemma Coin_new_coin_ok: "Coin_new C sk pk sig = Ok c \<Longrightarrow> coin_ok C c"
  by (auto simp: Coin_new_Ok coin_ok_def)

end
