(* ===== verification/Refresh.thy ===== *)
theory Refresh
  imports Coin
begin

text \<open>
  The six-round refresh protocol of the crate \<open>tardus-refresh\<close> (\<open>refresh.rs\<close>): a coin is melted and a
  fresh, unlinkable one is signed blindly, with cut-and-choose over \<open>kappa\<close> candidates.

  Loops over candidates run over the list of their indices, with the random generator threaded
  through; every slice index goes through \<open>index_at\<close>, which panics out of range, and the \<open>u8\<close>
  subtraction \<open>kappa - 1\<close> wraps as in a release build.

  The lemmas show that an honest refresh ends in a coin that verifies under the joint key, that the
  challenge lies in range, that an accepted reveal opens every candidate but the chosen one to an
  honestly derived coin key, and which inputs make the rounds panic.
\<close>

section \<open>Messages and states\<close>

definition DEFAULT_KAPPA :: u8 where
  "DEFAULT_KAPPA = 3"

definition GAMMA_DOMAIN :: bytes where
  "GAMMA_DOMAIN = ascii ''TARDUS-refresh-cut-and-choose-v1''"

record validator_refresh_r1_output =
  vr1_session_id :: session_id
  vr1_from_index :: u16
  vr1_r_per_candidate :: "bytes list"

record 's validator_refresh_state =
  vrs_session_id :: session_id
  vrs_my_index :: u16
  vrs_kappa :: u8
  vrs_k_per_candidate :: "'s list"

record mint_refresh_r1_output =
  mr1_session_id :: session_id
  mr1_kappa :: u8
  mr1_aggregated_r_per_candidate :: "bytes list"

record mint_refresh_r3_challenge =
  mr3_session_id :: session_id
  mr3_gamma_star :: u8

record validator_refresh_r5_output =
  vr5_session_id :: session_id
  vr5_from_index :: u16
  vr5_s_partial :: bytes

record mint_refresh_r5_response =
  mr5_session_id :: session_id
  mr5_s_aggregated :: bytes

record user_refresh_r2_output =
  ur2_session_id :: session_id
  ur2_kappa :: u8
  ur2_challenges :: "bytes list"
  ur2_melted_coin_pubkey :: bytes
  ur2_melted_coin_signature :: signature

record 's user_refresh_state =
  urs_session_id :: session_id
  urs_kappa :: u8
  urs_joint_pk_bytes :: bytes
  urs_seeds :: "bytes list"
  urs_alphas :: "'s list"
  urs_betas :: "'s list"
  urs_r_primes :: "bytes list"

record revealed_candidate =
  rc_candidate_index :: u8
  rc_seed :: bytes
  rc_alpha :: bytes
  rc_beta :: bytes

record user_refresh_r4_reveal =
  ur4_session_id :: session_id
  ur4_revealed :: "revealed_candidate list"

section \<open>Helpers\<close>

definition blind_one_candidate ::
    "('s::field, 'p::plus) crypto \<Rightarrow> 'p \<Rightarrow> 'p \<Rightarrow> bytes \<Rightarrow> 's \<Rightarrow> 's \<Rightarrow> bytes \<Rightarrow> bytes \<times> 's" where
  "blind_one_candidate C r_aggregated joint_pk_pt joint_pk_bytes alpha beta msg =
     (let r_prime_pt = r_aggregated + point_mul C alpha (ED25519_BASEPOINT_POINT C) + point_mul C beta joint_pk_pt;
          r_prime_bytes = compress C r_prime_pt;
          c_prime = from_bytes_mod_order_wide C (Sha512 C (r_prime_bytes @ joint_pk_bytes @ msg))
      in (r_prime_bytes, c_prime + beta))"

definition compute_gamma_star :: "('s, 'p) crypto \<Rightarrow> session_id \<Rightarrow> u8 \<Rightarrow> (u8, refresh_error) result" where
  "compute_gamma_star C sid kappa =
     (let out = Sha256 C (GAMMA_DOMAIN @ session_bytes sid)
      in rbind (index_at out 0) (\<lambda>b. if kappa = 0 then Panic else Ok (b mod kappa + 1)))"

section \<open>Round 1\<close>

definition validator_refresh_round1 ::
    "('s, 'p) crypto \<Rightarrow> ('r, 's) rng \<Rightarrow> session_id \<Rightarrow> u16 \<Rightarrow> u8 \<Rightarrow> 'r
     \<Rightarrow> ((validator_refresh_r1_output \<times> 's validator_refresh_state) \<times> 'r, refresh_error) result" where
  "validator_refresh_round1 C R sid my_index kappa r =
     (if kappa = 0 then Err InvalidState
      else
        (let (ks, r1) = random_scalars R (unat kappa) r;
             rs = map (\<lambda>k. compress C (point_mul C k (ED25519_BASEPOINT_POINT C))) ks
         in Ok ((\<lparr>vr1_session_id = sid, vr1_from_index = my_index, vr1_r_per_candidate = rs\<rparr>,
                 \<lparr>vrs_session_id = sid, vrs_my_index = my_index, vrs_kappa = kappa, vrs_k_per_candidate = ks\<rparr>), r1)))"

text \<open>The three loops of the round-1 aggregation: per message, duplicates, per candidate.\<close>

fun check_refresh_r1 ::
    "session_id \<Rightarrow> u8 \<Rightarrow> u16 list \<Rightarrow> validator_refresh_r1_output list \<Rightarrow> (unit, refresh_error) result" where
  "check_refresh_r1 sid kappa S [] = Ok ()"
| "check_refresh_r1 sid kappa S (out # outs) =
     (if vr1_session_id out \<noteq> sid then Err SessionIdMismatch
      else if length (vr1_r_per_candidate out) \<noteq> unat kappa then Err InvalidState
      else if vr1_from_index out \<notin> set S then Err (RefreshMint UnknownParticipant)
      else check_refresh_r1 sid kappa S outs)"

fun check_no_duplicates :: "u16 list \<Rightarrow> u16 list \<Rightarrow> (unit, refresh_error) result" where
  "check_no_duplicates seen [] = Ok ()"
| "check_no_duplicates seen (i # is) =
     (if i \<in> set seen then Err (RefreshMint DuplicateParticipant) else check_no_duplicates (seen @ [i]) is)"

fun sum_candidate ::
    "('s, 'p::ab_group_add) crypto \<Rightarrow> nat \<Rightarrow> 'p \<Rightarrow> validator_refresh_r1_output list \<Rightarrow> ('p, refresh_error) result" where
  "sum_candidate C g agg [] = Ok agg"
| "sum_candidate C g agg (out # outs) =
     rbind (index_at (vr1_r_per_candidate out) g) (\<lambda>bs.
     rbind (ok_or (RefreshCore InvalidPoint) (decompress C bs)) (\<lambda>r.
       sum_candidate C g (agg + r) outs))"

fun aggregate_candidates ::
    "('s, 'p::ab_group_add) crypto \<Rightarrow> validator_refresh_r1_output list \<Rightarrow> nat list \<Rightarrow> (bytes list, refresh_error) result" where
  "aggregate_candidates C outs [] = Ok []"
| "aggregate_candidates C outs (g # gs) =
     rbind (sum_candidate C g 0 outs) (\<lambda>agg.
     rbind (aggregate_candidates C outs gs) (\<lambda>rest. Ok (compress C agg # rest)))"

definition aggregate_refresh_round1 ::
    "('s, 'p::ab_group_add) crypto \<Rightarrow> session_id \<Rightarrow> u8 \<Rightarrow> u16 list \<Rightarrow> validator_refresh_r1_output list
     \<Rightarrow> (mint_refresh_r1_output, refresh_error) result" where
  "aggregate_refresh_round1 C sid kappa signing_set outputs =
     (if length outputs \<noteq> length signing_set then Err (RefreshMint InsufficientMessages)
      else if kappa = 0 then Err InvalidState
      else
        rbind (check_refresh_r1 sid kappa signing_set outputs) (\<lambda>_.
        rbind (check_no_duplicates [] (map vr1_from_index outputs)) (\<lambda>_.
        rbind (aggregate_candidates C outputs [0..<unat kappa]) (\<lambda>aggregated.
          Ok \<lparr>mr1_session_id = sid, mr1_kappa = kappa, mr1_aggregated_r_per_candidate = aggregated\<rparr>))))"

section \<open>Round 2\<close>

text \<open>One entry per candidate: seed, blinding factors, blinded commitment, challenge.\<close>

record 's candidate =
  cd_seed :: bytes
  cd_alpha :: 's
  cd_beta :: 's
  cd_r_prime :: bytes
  cd_challenge :: 's

fun user_refresh_candidates ::
    "('s::field, 'p::ab_group_add) crypto \<Rightarrow> ('r, 's) rng \<Rightarrow> bytes list \<Rightarrow> 'p \<Rightarrow> bytes \<Rightarrow> nat list \<Rightarrow> 'r
     \<Rightarrow> ('s candidate list \<times> 'r, refresh_error) result" where
  "user_refresh_candidates C R aggregated joint_pk_pt joint_pk_bytes [] r = Ok ([], r)"
| "user_refresh_candidates C R aggregated joint_pk_pt joint_pk_bytes (g # gs) r =
     (let (seed, r1) = fill_bytes R 32 r;
          x_gamma = derive_coin_secret C seed;
          msg_gamma = compress C (point_mul C x_gamma (ED25519_BASEPOINT_POINT C));
          (alpha, r2) = random_scalar R r1;
          (beta, r3) = random_scalar R r2
      in rbind (index_at aggregated g) (\<lambda>bs.
         rbind (ok_or (RefreshCore InvalidPoint) (decompress C bs)) (\<lambda>r_aggregated.
         let (r_prime, c) = blind_one_candidate C r_aggregated joint_pk_pt joint_pk_bytes alpha beta msg_gamma
         in rbind (user_refresh_candidates C R aggregated joint_pk_pt joint_pk_bytes gs r3) (\<lambda>(rest, r4).
              Ok (\<lparr>cd_seed = seed, cd_alpha = alpha, cd_beta = beta, cd_r_prime = r_prime, cd_challenge = c\<rparr> # rest, r4)))))"

definition user_refresh_round2 ::
    "('s::field, 'p::ab_group_add) crypto \<Rightarrow> ('r, 's) rng \<Rightarrow> session_id \<Rightarrow> mint_refresh_r1_output \<Rightarrow> public_key
     \<Rightarrow> 's coin \<Rightarrow> 'r \<Rightarrow> ((user_refresh_r2_output \<times> 's user_refresh_state) \<times> 'r, refresh_error) result" where
  "user_refresh_round2 C R sid mint_round1 joint_pk melted_coin r =
     (if mr1_session_id mint_round1 \<noteq> sid then Err SessionIdMismatch
      else
        (let kappa = mr1_kappa mint_round1
         in if kappa = 0 then Err InvalidState
            else
              (let joint_pk_bytes = pk_to_bytes joint_pk
               in rbind (ok_or (RefreshCore InvalidPoint) (decompress C joint_pk_bytes)) (\<lambda>joint_pk_pt.
                  rbind (user_refresh_candidates C R (mr1_aggregated_r_per_candidate mint_round1)
                           joint_pk_pt joint_pk_bytes [0..<unat kappa] r) (\<lambda>(cands, r').
                    Ok ((\<lparr>ur2_session_id = sid, ur2_kappa = kappa,
                         ur2_challenges = map (\<lambda>cd. scalar_to_bytes C (cd_challenge cd)) cands,
                         ur2_melted_coin_pubkey = coin_pubkey_bytes melted_coin,
                         ur2_melted_coin_signature = coin_signature melted_coin\<rparr>,
                        \<lparr>urs_session_id = sid, urs_kappa = kappa, urs_joint_pk_bytes = joint_pk_bytes,
                         urs_seeds = map cd_seed cands, urs_alphas = map cd_alpha cands,
                         urs_betas = map cd_beta cands, urs_r_primes = map cd_r_prime cands\<rparr>), r'))))))"

section \<open>Rounds 3 and 4\<close>

definition mint_refresh_round3 ::
    "('s, 'p::ab_group_add) crypto \<Rightarrow> session_id \<Rightarrow> user_refresh_r2_output \<Rightarrow> public_key
     \<Rightarrow> (mint_refresh_r3_challenge, refresh_error) result" where
  "mint_refresh_round3 C sid user_round2 joint_pk =
     (if ur2_session_id user_round2 \<noteq> sid then Err SessionIdMismatch
      else
        rbind (map_err RefreshCore (schnorr_verify C joint_pk (ur2_melted_coin_pubkey user_round2)
                 (ur2_melted_coin_signature user_round2))) (\<lambda>ok.
          if \<not> ok then Err CoinSignatureInvalid
          else rbind (compute_gamma_star C sid (ur2_kappa user_round2)) (\<lambda>gamma_star.
                 Ok \<lparr>mr3_session_id = sid, mr3_gamma_star = gamma_star\<rparr>)))"

fun reveal_candidates ::
    "('s, 'p) crypto \<Rightarrow> 's user_refresh_state \<Rightarrow> u8 \<Rightarrow> u8 list \<Rightarrow> (revealed_candidate list, refresh_error) result" where
  "reveal_candidates C st gamma_star [] = Ok []"
| "reveal_candidates C st gamma_star (gamma # gs) =
     (if gamma = gamma_star then reveal_candidates C st gamma_star gs
      else
        (let idx = unat (gamma - 1)
         in rbind (index_at (urs_seeds st) idx) (\<lambda>seed.
            rbind (index_at (urs_alphas st) idx) (\<lambda>alpha.
            rbind (index_at (urs_betas st) idx) (\<lambda>beta.
            rbind (reveal_candidates C st gamma_star gs) (\<lambda>rest.
              Ok (\<lparr>rc_candidate_index = gamma, rc_seed = seed, rc_alpha = scalar_to_bytes C alpha,
                   rc_beta = scalar_to_bytes C beta\<rparr> # rest)))))))"

definition candidate_indices :: "u8 \<Rightarrow> u8 list" where
  "candidate_indices kappa = map word_of_nat [1..<Suc (unat kappa)]"

definition user_refresh_round4 ::
    "('s, 'p) crypto \<Rightarrow> 's user_refresh_state \<Rightarrow> mint_refresh_r3_challenge
     \<Rightarrow> (user_refresh_r4_reveal, refresh_error) result" where
  "user_refresh_round4 C st challenge =
     (if urs_session_id st \<noteq> mr3_session_id challenge then Err SessionIdMismatch
      else if mr3_gamma_star challenge = 0 \<or> mr3_gamma_star challenge > urs_kappa st then Err ChallengeOutOfRange
      else rbind (reveal_candidates C st (mr3_gamma_star challenge) (candidate_indices (urs_kappa st))) (\<lambda>revealed.
             Ok \<lparr>ur4_session_id = urs_session_id st, ur4_revealed = revealed\<rparr>))"

fun check_revealed ::
    "('s::field, 'p::ab_group_add) crypto \<Rightarrow> u8 \<Rightarrow> u8 \<Rightarrow> bytes list \<Rightarrow> bytes list \<Rightarrow> 'p \<Rightarrow> bytes \<Rightarrow> u8 list
     \<Rightarrow> revealed_candidate list \<Rightarrow> (unit, refresh_error) result" where
  "check_revealed C kappa gamma_star aggregated challenges joint_pk_pt joint_pk_bytes seen [] = Ok ()"
| "check_revealed C kappa gamma_star aggregated challenges joint_pk_pt joint_pk_bytes seen (rc # rcs) =
     (if rc_candidate_index rc = 0 \<or> rc_candidate_index rc > kappa then Err ChallengeOutOfRange
      else if rc_candidate_index rc = gamma_star then Err CheatingDetected
      else if rc_candidate_index rc \<in> set seen then Err CheatingDetected
      else
        (let idx = unat (rc_candidate_index rc - 1);
             x_gamma = derive_coin_secret C (rc_seed rc);
             msg_gamma = compress C (point_mul C x_gamma (ED25519_BASEPOINT_POINT C))
         in rbind (ok_or (RefreshCore InvalidScalar) (from_canonical_bytes C (rc_alpha rc))) (\<lambda>alpha.
            rbind (ok_or (RefreshCore InvalidScalar) (from_canonical_bytes C (rc_beta rc))) (\<lambda>beta.
            rbind (index_at aggregated idx) (\<lambda>bs.
            rbind (ok_or (RefreshCore InvalidPoint) (decompress C bs)) (\<lambda>r_agg.
            let (_, c_recomputed) = blind_one_candidate C r_agg joint_pk_pt joint_pk_bytes alpha beta msg_gamma
            in rbind (index_at challenges idx) (\<lambda>ch.
                 if scalar_to_bytes C c_recomputed \<noteq> ch then Err CheatingDetected
                 else check_revealed C kappa gamma_star aggregated challenges joint_pk_pt joint_pk_bytes
                        (seen @ [rc_candidate_index rc]) rcs)))))))"

definition mint_refresh_verify_reveal ::
    "('s::field, 'p::ab_group_add) crypto \<Rightarrow> user_refresh_r2_output \<Rightarrow> mint_refresh_r1_output
     \<Rightarrow> mint_refresh_r3_challenge \<Rightarrow> user_refresh_r4_reveal \<Rightarrow> public_key \<Rightarrow> (unit, refresh_error) result" where
  "mint_refresh_verify_reveal C user_round2 mint_round1 challenge reveal joint_pk =
     (if ur2_session_id user_round2 \<noteq> mr3_session_id challenge \<or>
         ur4_session_id reveal \<noteq> mr3_session_id challenge \<or>
         mr1_session_id mint_round1 \<noteq> mr3_session_id challenge then Err SessionIdMismatch
      else
        (let kappa = ur2_kappa user_round2
         in if length (ur4_revealed reveal) \<noteq> unat (kappa - 1) then Err CheatingDetected
            else
              (let joint_pk_bytes = pk_to_bytes joint_pk
               in rbind (ok_or (RefreshCore InvalidPoint) (decompress C joint_pk_bytes)) (\<lambda>joint_pk_pt.
                    check_revealed C kappa (mr3_gamma_star challenge) (mr1_aggregated_r_per_candidate mint_round1)
                      (ur2_challenges user_round2) joint_pk_pt joint_pk_bytes [] (ur4_revealed reveal)))))"

section \<open>Rounds 5 and 6\<close>

definition validator_refresh_round5 ::
    "('s::field, 'p) crypto \<Rightarrow> 's validator_refresh_state \<Rightarrow> user_refresh_r2_output \<Rightarrow> mint_refresh_r3_challenge
     \<Rightarrow> 's secret_key \<Rightarrow> u16 list \<Rightarrow> (validator_refresh_r5_output, refresh_error) result" where
  "validator_refresh_round5 C val_state user_round2 challenge my_share signing_set =
     (if vrs_session_id val_state \<noteq> mr3_session_id challenge \<or>
         ur2_session_id user_round2 \<noteq> mr3_session_id challenge then Err SessionIdMismatch
      else if mr3_gamma_star challenge = 0 \<or> mr3_gamma_star challenge > vrs_kappa val_state
           then Err ChallengeOutOfRange
      else
        (let idx = unat (mr3_gamma_star challenge - 1)
         in rbind (index_at (ur2_challenges user_round2) idx) (\<lambda>c_bytes.
            rbind (ok_or (RefreshCore InvalidScalar) (from_canonical_bytes C c_bytes)) (\<lambda>c.
            rbind (map_err RefreshMint (lagrange_coefficient_at_zero signing_set (vrs_my_index val_state))) (\<lambda>lambda.
            rbind (expect_some (from_canonical_bytes C (SecretKey_to_bytes C my_share))) (\<lambda>sk_scalar.
            rbind (index_at (vrs_k_per_candidate val_state) idx) (\<lambda>k_i_gamma.
              Ok \<lparr>vr5_session_id = vrs_session_id val_state, vr5_from_index = vrs_my_index val_state,
                  vr5_s_partial = scalar_to_bytes C (k_i_gamma + c * lambda * sk_scalar)\<rparr>)))))))"

fun aggregate_refresh_round5_loop ::
    "('s::field, 'p) crypto \<Rightarrow> session_id \<Rightarrow> u16 list \<Rightarrow> 's \<Rightarrow> u16 list \<Rightarrow> validator_refresh_r5_output list
     \<Rightarrow> ('s, refresh_error) result" where
  "aggregate_refresh_round5_loop C sid S s_agg seen [] = Ok s_agg"
| "aggregate_refresh_round5_loop C sid S s_agg seen (out # outs) =
     (if vr5_session_id out \<noteq> sid then Err SessionIdMismatch
      else if vr5_from_index out \<notin> set S then Err (RefreshMint UnknownParticipant)
      else if vr5_from_index out \<in> set seen then Err (RefreshMint DuplicateParticipant)
      else rbind (ok_or (RefreshCore InvalidScalar) (from_canonical_bytes C (vr5_s_partial out))) (\<lambda>s.
        aggregate_refresh_round5_loop C sid S (s_agg + s) (seen @ [vr5_from_index out]) outs))"

definition aggregate_refresh_round5 ::
    "('s::field, 'p) crypto \<Rightarrow> session_id \<Rightarrow> u16 list \<Rightarrow> validator_refresh_r5_output list
     \<Rightarrow> (mint_refresh_r5_response, refresh_error) result" where
  "aggregate_refresh_round5 C sid signing_set outputs =
     (if length outputs \<noteq> length signing_set then Err (RefreshMint InsufficientMessages)
      else rbind (aggregate_refresh_round5_loop C sid signing_set 0 [] outputs) (\<lambda>s_agg.
        Ok \<lparr>mr5_session_id = sid, mr5_s_aggregated = scalar_to_bytes C s_agg\<rparr>))"

definition user_refresh_round6 ::
    "('s::field, 'p::ab_group_add) crypto \<Rightarrow> 's user_refresh_state \<Rightarrow> mint_refresh_r3_challenge
     \<Rightarrow> mint_refresh_r5_response \<Rightarrow> public_key \<Rightarrow> ('s coin, refresh_error) result" where
  "user_refresh_round6 C st challenge response joint_pk =
     (if urs_session_id st \<noteq> mr3_session_id challenge \<or> mr5_session_id response \<noteq> mr3_session_id challenge
      then Err SessionIdMismatch
      else if mr3_gamma_star challenge = 0 \<or> mr3_gamma_star challenge > urs_kappa st then Err ChallengeOutOfRange
      else
        (let idx = unat (mr3_gamma_star challenge - 1)
         in rbind (ok_or (RefreshCore InvalidScalar) (from_canonical_bytes C (mr5_s_aggregated response))) (\<lambda>s.
            rbind (index_at (urs_alphas st) idx) (\<lambda>alpha.
            let s_prime = s + alpha
            in rbind (index_at (urs_r_primes st) idx) (\<lambda>r_prime.
               rbind (index_at (urs_seeds st) idx) (\<lambda>seed.
               let x = derive_coin_secret C seed
               in rbind (expect_ok (SecretKey_from_bytes C (scalar_to_bytes C x))) (\<lambda>secret.
                  let pubkey = PublicKey_from_secret C secret;
                      sig = \<lparr>sig_r = r_prime, sig_s = scalar_to_bytes C s_prime\<rparr>
                  in rbind (map_err RefreshCore (schnorr_verify C joint_pk (pk_to_bytes pubkey) sig)) (\<lambda>ok.
                       if \<not> ok then Err CoinSignatureInvalid
                       else Coin_new C secret (pk_to_bytes pubkey) sig))))))))"

section \<open>Aggregation in round 1\<close>

lemma validator_refresh_round1_Ok:
  assumes "kappa \<noteq> 0"
  shows "\<exists>r'. validator_refresh_round1 C R sid i kappa r =
     Ok ((\<lparr>vr1_session_id = sid, vr1_from_index = i,
          vr1_r_per_candidate = map (\<lambda>k. compress C (mulG C k)) (fst (random_scalars R (unat kappa) r))\<rparr>,
         \<lparr>vrs_session_id = sid, vrs_my_index = i, vrs_kappa = kappa,
          vrs_k_per_candidate = fst (random_scalars R (unat kappa) r)\<rparr>), r')"
  using assms by (simp add: validator_refresh_round1_def Let_def split: prod.splits)

lemma check_refresh_r1_Ok:
  assumes "\<forall>out \<in> set outs. vr1_session_id out = sid \<and> length (vr1_r_per_candidate out) = unat kappa \<and>
             vr1_from_index out \<in> set S"
  shows "check_refresh_r1 sid kappa S outs = Ok ()"
  using assms by (induction outs) auto

lemma check_no_duplicates_Ok: "distinct (seen @ is) \<Longrightarrow> check_no_duplicates seen is = Ok ()"
  by (induction "is" arbitrary: seen) auto

lemma sum_candidate_Ok:
  assumes "\<forall>out \<in> set outs. g < length (vr1_r_per_candidate out) \<and>
             decompress C (vr1_r_per_candidate out ! g) = Some (P out)"
  shows "sum_candidate C g agg outs = Ok (agg + (\<Sum>out \<leftarrow> outs. P out))"
  using assms by (induction outs arbitrary: agg) (simp_all add: add.assoc)

lemma aggregate_candidates_Ok:
  assumes "\<forall>g \<in> set gs. sum_candidate C g 0 outs = Ok (P g)"
  shows "aggregate_candidates C outs gs = Ok (map (\<lambda>g. compress C (P g)) gs)"
  using assms by (induction gs) simp_all

lemma aggregate_refresh_round1_honest:
  fixes C :: "('s::field, 'p::ab_group_add) crypto"
  assumes ok: "curve_ok C" and S: "distinct S" and T: "distinct T" "set T = set S" and k: "kappa \<noteq> 0"
    and ks: "\<forall>i. length (ks i) = unat kappa"
    and outs: "outs = map (\<lambda>i. \<lparr>vr1_session_id = sid, vr1_from_index = i,
                  vr1_r_per_candidate = map (\<lambda>k. compress C (mulG C k)) (ks i)\<rparr>) T"
  shows "aggregate_refresh_round1 C sid kappa S outs =
     Ok \<lparr>mr1_session_id = sid, mr1_kappa = kappa, mr1_aggregated_r_per_candidate =
       map (\<lambda>g. compress C (mulG C (\<Sum>i \<leftarrow> S. ks i ! g))) [0..<unat kappa]\<rparr>"
proof -
  have "check_refresh_r1 sid kappa S outs = Ok ()"
    by (rule check_refresh_r1_Ok) (use T ks in \<open>auto simp: outs\<close>)
  moreover have idx: "map vr1_from_index outs = T" by (simp add: outs comp_def)
  then have "check_no_duplicates [] (map vr1_from_index outs) = Ok ()"
    using T by (intro check_no_duplicates_Ok) simp
  moreover have "sum_candidate C g 0 outs = Ok (mulG C (\<Sum>i \<leftarrow> S. ks i ! g))" if "g < unat kappa" for g
  proof -
    have "sum_candidate C g 0 outs = Ok (0 + (\<Sum>out \<leftarrow> outs. mulG C (ks (vr1_from_index out) ! g)))"
      using that ks ok by (intro sum_candidate_Ok) (auto simp: outs)
    then show ?thesis
      using ok same_set_sum(2) [OF S T, of "\<lambda>i. ks i ! g"] by (simp add: outs comp_def mulG_sum_list)
  qed
  then have "aggregate_candidates C outs [0..<unat kappa] =
      Ok (map (\<lambda>g. compress C (mulG C (\<Sum>i \<leftarrow> S. ks i ! g))) [0..<unat kappa])"
    by (intro aggregate_candidates_Ok) simp
  moreover have "length outs = length S" using same_set_sum(1) [OF S T] by (simp add: outs)
  ultimately show ?thesis using k by (simp add: aggregate_refresh_round1_def)
qed

section \<open>Candidates\<close>

text \<open>A candidate that was blinded as the protocol prescribes.\<close>

definition candidate_ok ::
    "('s::field, 'p::ab_group_add) crypto \<Rightarrow> bytes list \<Rightarrow> 'p \<Rightarrow> bytes \<Rightarrow> nat \<Rightarrow> 's candidate \<Rightarrow> bool" where
  "candidate_ok C aggregated pk_pt pk_bytes g cd \<longleftrightarrow>
     (\<exists>r_agg. decompress C (aggregated ! g) = Some r_agg \<and>
        blind_one_candidate C r_agg pk_pt pk_bytes (cd_alpha cd) (cd_beta cd)
          (compress C (mulG C (derive_coin_secret C (cd_seed cd)))) = (cd_r_prime cd, cd_challenge cd))"

lemma user_refresh_candidates_Ok:
  assumes "\<forall>g \<in> set gs. g < length agg \<and> decompress C (agg ! g) \<noteq> None"
  shows "\<exists>cands r'. user_refresh_candidates C R agg pk_pt pk_bytes gs r = Ok (cands, r') \<and>
           list_all2 (candidate_ok C agg pk_pt pk_bytes) gs cands"
  using assms
proof (induction gs arbitrary: r)
  case Nil
  then show ?case by simp
next
  case (Cons g gs)
  obtain seed r1 where seed: "fill_bytes R 32 r = (seed, r1)" by (cases "fill_bytes R 32 r")
  obtain a r2 where a: "random_scalar R r1 = (a, r2)" by (cases "random_scalar R r1")
  obtain b r3 where b: "random_scalar R r2 = (b, r3)" by (cases "random_scalar R r2")
  obtain P where P: "decompress C (agg ! g) = Some P" "g < length agg" using Cons.prems by auto
  let ?msg = "compress C (mulG C (derive_coin_secret C seed))"
  obtain r' c where bl: "blind_one_candidate C P pk_pt pk_bytes a b ?msg = (r', c)"
    by (cases "blind_one_candidate C P pk_pt pk_bytes a b ?msg")
  obtain cands r4 where rest: "user_refresh_candidates C R agg pk_pt pk_bytes gs r3 = Ok (cands, r4)"
    "list_all2 (candidate_ok C agg pk_pt pk_bytes) gs cands"
    using Cons.IH [of r3] Cons.prems by auto
  then show ?case
    using P by (simp add: seed a b bl Let_def) (simp add: candidate_ok_def P bl)
qed

text \<open>The user's round-2 message and state for a list of candidates.\<close>

definition round2_of :: "('s, 'p) crypto \<Rightarrow> session_id \<Rightarrow> u8 \<Rightarrow> 's candidate list \<Rightarrow> 's coin \<Rightarrow> user_refresh_r2_output" where
  "round2_of C sid kappa cands melted =
     \<lparr>ur2_session_id = sid, ur2_kappa = kappa,
      ur2_challenges = map (\<lambda>cd. scalar_to_bytes C (cd_challenge cd)) cands,
      ur2_melted_coin_pubkey = coin_pubkey_bytes melted,
      ur2_melted_coin_signature = coin_signature melted\<rparr>"

definition state_of :: "session_id \<Rightarrow> u8 \<Rightarrow> bytes \<Rightarrow> 's candidate list \<Rightarrow> 's user_refresh_state" where
  "state_of sid kappa pk_bytes cands =
     \<lparr>urs_session_id = sid, urs_kappa = kappa, urs_joint_pk_bytes = pk_bytes,
      urs_seeds = map cd_seed cands, urs_alphas = map cd_alpha cands,
      urs_betas = map cd_beta cands, urs_r_primes = map cd_r_prime cands\<rparr>"

lemma user_refresh_round2_honest:
  assumes "curve_ok C" and "joint_pk = PublicKey (compress C X)" and "kappa \<noteq> 0"
    and "mr1 = \<lparr>mr1_session_id = sid, mr1_kappa = kappa, mr1_aggregated_r_per_candidate = agg\<rparr>"
    and "length agg = unat kappa" and "\<forall>g < unat kappa. decompress C (agg ! g) \<noteq> None"
  shows "\<exists>cands r'. length cands = unat kappa \<and>
     (\<forall>g < unat kappa. candidate_ok C agg X (compress C X) g (cands ! g)) \<and>
     user_refresh_round2 C R sid mr1 joint_pk melted r =
       Ok ((round2_of C sid kappa cands melted, state_of sid kappa (compress C X) cands), r')"
proof -
  have "\<forall>g \<in> set [0..<unat kappa]. g < length agg \<and> decompress C (agg ! g) \<noteq> None"
    using assms(5,6) by auto
  from user_refresh_candidates_Ok [OF this, of R X "compress C X" r]
  obtain cands r' where c: "user_refresh_candidates C R agg X (compress C X) [0..<unat kappa] r = Ok (cands, r')"
    "list_all2 (candidate_ok C agg X (compress C X)) [0..<unat kappa] cands"
    by blast
  then have "length cands = unat kappa" "\<forall>g < unat kappa. candidate_ok C agg X (compress C X) g (cands ! g)"
    by (auto simp: list_all2_conv_all_nth)
  then show ?thesis
    using assms(1-4) c(1) by (auto simp: user_refresh_round2_def Let_def round2_of_def state_of_def)
qed

section \<open>The challenge\<close>

lemma compute_gamma_star_range:
  assumes "hash_ok C" and "kappa \<noteq> 0"
  shows "\<exists>gamma. compute_gamma_star C sid kappa = Ok gamma \<and> 1 \<le> unat gamma \<and> unat gamma \<le> unat kappa"
proof -
  let ?b = "Sha256 C (GAMMA_DOMAIN @ session_bytes sid) ! 0"
  have len: "length (Sha256 C (GAMMA_DOMAIN @ session_bytes sid)) = 32" using assms(1) by (simp add: hash_ok_def)
  have "unat (?b mod kappa) < unat kappa"
    using assms(2) by (simp add: unat_mod_distrib unat_gt_0)
  moreover have "unat kappa < 2 ^ LENGTH(8)" by (rule unat_less)
  ultimately have "unat (?b mod kappa + 1) = unat (?b mod kappa) + 1"
    using unat_add_no_overflow [of "?b mod kappa" 1] by simp
  then show ?thesis
    using \<open>unat (?b mod kappa) < unat kappa\<close> assms(2) len
    by (auto simp: compute_gamma_star_def index_at_def Let_def)
qed

lemma candidate_indices_iff: "j \<in> set (candidate_indices n) \<longleftrightarrow> 1 \<le> unat j \<and> unat j \<le> unat n"
proof
  assume "j \<in> set (candidate_indices n)"
  then obtain k where k: "j = word_of_nat k" "1 \<le> k" "k \<le> unat n" by (auto simp: candidate_indices_def)
  moreover have "k < 2 ^ LENGTH(8)" using k(3) unat_less [of n] by linarith
  ultimately show "1 \<le> unat j \<and> unat j \<le> unat n" by (simp add: unat_word_of_nat)
next
  assume "1 \<le> unat j \<and> unat j \<le> unat n"
  then have "unat j \<in> set [1..<Suc (unat n)]" by (simp del: upt_Suc)
  moreover have "word_of_nat (unat j) = j" by simp
  ultimately show "j \<in> set (candidate_indices n)"
    unfolding candidate_indices_def by (metis image_eqI image_set)
qed

lemma distinct_candidate_indices: "distinct (candidate_indices n)"
proof -
  have "inj_on (word_of_nat :: nat \<Rightarrow> u8) {1..<Suc (unat n)}"
  proof (rule inj_onI)
    fix a b assume "a \<in> {1..<Suc (unat n)}" "b \<in> {1..<Suc (unat n)}" and eq: "(word_of_nat a :: u8) = word_of_nat b"
    then have "a < 2 ^ LENGTH(8)" "b < 2 ^ LENGTH(8)" using unat_less [of n] by auto
    then show "a = b" using eq by (metis unat_word_of_nat)
  qed
  then show ?thesis by (simp add: candidate_indices_def distinct_map del: upt_Suc)
qed

lemma length_candidate_indices [simp]: "length (candidate_indices n) = unat n"
  by (simp add: candidate_indices_def del: upt_Suc)

lemma unat_pred: "1 \<le> unat (j :: 'a::len word) \<Longrightarrow> unat (j - 1) = unat j - 1"
proof -
  assume j: "1 \<le> unat j"
  have "unat (1 :: 'a word) = 1" by simp
  then have "1 \<le> j" using j by (simp add: word_le_nat_alt)
  then show ?thesis by (simp add: unat_sub)
qed

section \<open>The reveal\<close>

definition revealed_of :: "('s, 'p) crypto \<Rightarrow> 's candidate list \<Rightarrow> u8 \<Rightarrow> revealed_candidate" where
  "revealed_of C cands gamma = (let cd = cands ! unat (gamma - 1) in
     \<lparr>rc_candidate_index = gamma, rc_seed = cd_seed cd, rc_alpha = scalar_to_bytes C (cd_alpha cd),
      rc_beta = scalar_to_bytes C (cd_beta cd)\<rparr>)"

lemma revealed_of_simps [simp]:
  "rc_candidate_index (revealed_of C cands g) = g"
  "rc_seed (revealed_of C cands g) = cd_seed (cands ! unat (g - 1))"
  "rc_alpha (revealed_of C cands g) = scalar_to_bytes C (cd_alpha (cands ! unat (g - 1)))"
  "rc_beta (revealed_of C cands g) = scalar_to_bytes C (cd_beta (cands ! unat (g - 1)))"
  by (simp_all add: revealed_of_def Let_def)

lemma reveal_candidates_Ok:
  assumes "urs_seeds st = map cd_seed cands" "urs_alphas st = map cd_alpha cands" "urs_betas st = map cd_beta cands"
    and "\<forall>g \<in> set gs. unat (g - 1) < length cands"
  shows "reveal_candidates C st gamma_star gs = Ok (map (revealed_of C cands) (filter (\<lambda>g. g \<noteq> gamma_star) gs))"
  using assms by (induction gs) (auto simp: Let_def revealed_of_def)

lemma check_revealed_Ok:
  assumes "curve_ok C" and "distinct (seen @ gs)"
    and "\<forall>g \<in> set gs. 1 \<le> unat g \<and> unat g \<le> unat kappa \<and> g \<noteq> gamma_star \<and>
           candidate_ok C agg pk_pt pk_bytes (unat (g - 1)) (cands ! unat (g - 1))"
    and "length agg = unat kappa" and "length cands = unat kappa"
  shows "check_revealed C kappa gamma_star agg (map (\<lambda>cd. scalar_to_bytes C (cd_challenge cd)) cands)
           pk_pt pk_bytes seen (map (revealed_of C cands) gs) = Ok ()"
  using assms(2,3)
proof (induction gs arbitrary: seen)
  case Nil
  then show ?case by simp
next
  case (Cons g gs)
  then have g: "1 \<le> unat g" "unat g \<le> unat kappa" "g \<noteq> gamma_star" "g \<notin> set seen"
    and cd: "candidate_ok C agg pk_pt pk_bytes (unat (g - 1)) (cands ! unat (g - 1))" by auto
  have idx: "unat (g - 1) < unat kappa" using g(1,2) by (simp add: unat_pred)
  obtain r_agg where "decompress C (agg ! unat (g - 1)) = Some r_agg"
    "blind_one_candidate C r_agg pk_pt pk_bytes (cd_alpha (cands ! unat (g - 1))) (cd_beta (cands ! unat (g - 1)))
       (compress C (mulG C (derive_coin_secret C (cd_seed (cands ! unat (g - 1)))))) =
     (cd_r_prime (cands ! unat (g - 1)), cd_challenge (cands ! unat (g - 1)))"
    using cd by (auto simp: candidate_ok_def)
  moreover have "g \<noteq> 0" "\<not> g > kappa" using g(1,2) by (auto simp: word_less_nat_alt)
  moreover have "check_revealed C kappa gamma_star agg (map (\<lambda>cd. scalar_to_bytes C (cd_challenge cd)) cands)
      pk_pt pk_bytes (seen @ [g]) (map (revealed_of C cands) gs) = Ok ()"
    using Cons.prems by (intro Cons.IH) auto
  ultimately show ?case
    using g idx assms(1,4,5) by (simp add: Let_def)
qed

lemma filter_candidate_indices:
  assumes "1 \<le> unat gamma" and "unat gamma \<le> unat kappa"
  shows "length (filter (\<lambda>g. g \<noteq> gamma) (candidate_indices kappa)) = unat (kappa - 1)"
proof -
  have "gamma \<in> set (candidate_indices kappa)" using assms by (simp add: candidate_indices_iff)
  then have "card (set (candidate_indices kappa) - {gamma}) = unat kappa - 1"
    using distinct_card [OF distinct_candidate_indices, of kappa] by simp
  moreover have "set (filter (\<lambda>g. g \<noteq> gamma) (candidate_indices kappa)) = set (candidate_indices kappa) - {gamma}"
    by auto
  ultimately have "length (filter (\<lambda>g. g \<noteq> gamma) (candidate_indices kappa)) = unat kappa - 1"
    using distinct_card [OF distinct_filter [OF distinct_candidate_indices]] by metis
  then show ?thesis using assms by (simp add: unat_pred)
qed

section \<open>Rounds 5 and 6\<close>

lemma aggregate_refresh_round5_loop_Ok:
  assumes "\<forall>out \<in> set outs. vr5_session_id out = sid \<and> vr5_from_index out \<in> set S"
    and "distinct (seen @ map vr5_from_index outs)"
    and "\<forall>out \<in> set outs. from_canonical_bytes C (vr5_s_partial out) = Some (s out)"
  shows "aggregate_refresh_round5_loop C sid S acc seen outs = Ok (acc + (\<Sum>out \<leftarrow> outs. s out))"
  using assms by (induction outs arbitrary: acc seen) (simp_all add: add.assoc)

lemma aggregate_refresh_round5_honest:
  fixes C :: "('s::field, 'p::ab_group_add) crypto"
  assumes ok: "curve_ok C" and big: "large_field TYPE('s)" and S: "distinct S" "length F \<le> length S"
    and U: "distinct U" "set U = set S"
    and r5: "\<forall>i \<in> set S. r5 i = \<lparr>vr5_session_id = sid, vr5_from_index = i, vr5_s_partial = scalar_to_bytes C
       (k i + c * lagrange_basis (scalar_from ` set S) 0 (scalar_from i) * horner_eval_scalar F (scalar_from i))\<rparr>"
  shows "aggregate_refresh_round5 C sid S (map r5 U) =
         Ok \<lparr>mr5_session_id = sid,
             mr5_s_aggregated = scalar_to_bytes C ((\<Sum>i \<leftarrow> S. k i) + c * horner_eval_scalar F 0)\<rparr>"
proof -
  let ?v = "\<lambda>i. lagrange_basis (scalar_from ` set S) 0 (scalar_from i) * horner_eval_scalar F (scalar_from i)"
  have "map vr5_from_index (map r5 U) = U" using r5 U by (auto intro!: map_idI)
  then have "aggregate_refresh_round5_loop C sid S 0 [] (map r5 U) =
      Ok (0 + (\<Sum>out \<leftarrow> map r5 U. k (vr5_from_index out) + c * ?v (vr5_from_index out)))"
    using r5 U ok by (intro aggregate_refresh_round5_loop_Ok) (auto simp: mult.assoc)
  moreover have "(\<Sum>out \<leftarrow> map r5 U. k (vr5_from_index out) + c * ?v (vr5_from_index out)) =
      (\<Sum>i \<leftarrow> U. k i + c * ?v i)"
    unfolding map_map comp_def using r5 U by (intro arg_cong [where f = sum_list] map_cong) auto
  moreover have "(\<Sum>i \<leftarrow> U. k i + c * ?v i) = (\<Sum>i \<leftarrow> S. k i) + c * (\<Sum>i \<leftarrow> S. ?v i)"
    by (simp only: sum_list_addf sum_list_const_mult same_set_sum(2) [OF S(1) U, of k]
        same_set_sum(2) [OF S(1) U, of ?v])
  ultimately show ?thesis
    using same_set_sum(1) [OF S(1) U] lagrange_combines_shares [OF big S]
    by (simp add: aggregate_refresh_round5_def)
qed

lemma validator_refresh_round5_honest:
  fixes C :: "('s::field, 'p::ab_group_add) crypto"
  assumes "curve_ok C" and "large_field TYPE('s)" and "distinct S" and "0 \<notin> set S" and "i \<in> set S"
    and "1 \<le> unat gamma" and "unat gamma \<le> unat kappa" and "length ks = unat kappa"
    and "length cands = unat kappa"
    and "ur2_session_id ur2 = sid" and "ur2_challenges ur2 = map (\<lambda>cd. scalar_to_bytes C (cd_challenge cd)) cands"
  shows "validator_refresh_round5 C \<lparr>vrs_session_id = sid, vrs_my_index = i, vrs_kappa = kappa, vrs_k_per_candidate = ks\<rparr>
       ur2 \<lparr>mr3_session_id = sid, mr3_gamma_star = gamma\<rparr> (SecretKey x) S =
     Ok \<lparr>vr5_session_id = sid, vr5_from_index = i, vr5_s_partial = scalar_to_bytes C
       (ks ! unat (gamma - 1) + cd_challenge (cands ! unat (gamma - 1)) *
          lagrange_basis (scalar_from ` set S) 0 (scalar_from i) * x)\<rparr>"
proof -
  have "unat (gamma - 1) < unat kappa" "gamma \<noteq> 0" "\<not> gamma > kappa"
    using assms(6,7) by (auto simp: unat_pred word_less_nat_alt)
  then show ?thesis
    using assms by (simp add: validator_refresh_round5_def Let_def lagrange_coefficient_basis SecretKey_to_bytes_def)
qed

text \<open>Unblinding the chosen candidate closes the verification equation.\<close>

lemma user_refresh_round6_honest:
  fixes C :: "('s::field, 'p::ab_group_add) crypto"
  assumes ok: "curve_ok C" and pk: "joint_pk = PublicKey (compress C (mulG C x))"
    and gamma: "1 \<le> unat gamma" "unat gamma \<le> unat kappa" and len: "length cands = unat kappa"
    and agg: "decompress C (agg ! unat (gamma - 1)) = Some (mulG C k)"
    and cd: "cd = cands ! unat (gamma - 1)"
      "candidate_ok C agg (mulG C x) (compress C (mulG C x)) (unat (gamma - 1)) cd"
    and st: "urs_session_id st = sid" "urs_kappa st = kappa" "urs_seeds st = map cd_seed cands"
      "urs_alphas st = map cd_alpha cands" "urs_r_primes st = map cd_r_prime cands"
  shows "\<exists>new_coin. user_refresh_round6 C st \<lparr>mr3_session_id = sid, mr3_gamma_star = gamma\<rparr>
       \<lparr>mr5_session_id = sid, mr5_s_aggregated = scalar_to_bytes C (k + cd_challenge cd * x)\<rparr> joint_pk = Ok new_coin \<and>
     coin_ok C new_coin \<and> Coin_verify C new_coin joint_pk = Ok True \<and>
     coin_secret new_coin = SecretKey (derive_coin_secret C (cd_seed cd))"
proof -
  have idx: "unat (gamma - 1) < unat kappa" "gamma \<noteq> 0" "\<not> gamma > kappa"
    using gamma by (auto simp: unat_pred word_less_nat_alt)
  let ?msg = "compress C (mulG C (derive_coin_secret C (cd_seed cd)))"
  let ?k' = "k + cd_alpha cd + cd_beta cd * x"
  have "mulG C k + mulG C (cd_alpha cd) + point_mul C (cd_beta cd) (mulG C x) = mulG C ?k'"
    using ok by (simp add: mulG_simps)
  then have b: "cd_r_prime cd = compress C (mulG C ?k')"
    "cd_challenge cd = schnorr_challenge C (compress C (mulG C ?k')) (compress C (mulG C x)) ?msg + cd_beta cd"
    using cd(2) agg by (auto simp: candidate_ok_def blind_one_candidate_def Let_def schnorr_challenge_def hash_to_scalar_def)
  have "schnorr_verify C joint_pk ?msg \<lparr>sig_r = cd_r_prime cd,
      sig_s = scalar_to_bytes C (k + cd_challenge cd * x + cd_alpha cd)\<rparr> = Ok True"
    unfolding b(1) schnorr_verify_mulG [OF ok pk refl] by (simp add: b(2) algebra_simps)
  then show ?thesis
    using idx len ok
    by (simp add: user_refresh_round6_def Let_def st cd(1) [symmetric] Coin_new_Ok coin_ok_def Coin_verify_def)
qed

section \<open>The phases of an honest run\<close>

lemma refresh_cut_and_choose:
  fixes C :: "('s::field, 'p::ab_group_add) crypto"
  assumes ok: "curve_ok C" and pk: "pk = PublicKey (compress C X)"
    and gamma: "compute_gamma_star C sid kappa = Ok gamma" "1 \<le> unat gamma" "unat gamma \<le> unat kappa"
    and len: "length agg = unat kappa" "length cands = unat kappa"
    and cok: "\<forall>g < unat kappa. candidate_ok C agg X (compress C X) g (cands ! g)"
    and melted: "Coin_verify C melted pk = Ok True"
  shows "\<exists>reveal. mint_refresh_round3 C sid (round2_of C sid kappa cands melted) pk =
       Ok \<lparr>mr3_session_id = sid, mr3_gamma_star = gamma\<rparr> \<and>
     user_refresh_round4 C (state_of sid kappa pkb cands) \<lparr>mr3_session_id = sid, mr3_gamma_star = gamma\<rparr> = Ok reveal \<and>
     mint_refresh_verify_reveal C (round2_of C sid kappa cands melted)
       \<lparr>mr1_session_id = sid, mr1_kappa = kappa, mr1_aggregated_r_per_candidate = agg\<rparr>
       \<lparr>mr3_session_id = sid, mr3_gamma_star = gamma\<rparr> reveal pk = Ok ()"
proof -
  let ?gs = "filter (\<lambda>g. g \<noteq> gamma) (candidate_indices kappa)"
  have inr: "unat (g - 1) < unat kappa" if "g \<in> set (candidate_indices kappa)" for g
    using that by (auto simp: candidate_indices_iff unat_pred)
  have "mint_refresh_round3 C sid (round2_of C sid kappa cands melted) pk =
      Ok \<lparr>mr3_session_id = sid, mr3_gamma_star = gamma\<rparr>"
    using melted gamma(1) by (simp add: mint_refresh_round3_def Coin_verify_def round2_of_def)
  moreover have "reveal_candidates C (state_of sid kappa pkb cands) gamma (candidate_indices kappa) =
      Ok (map (revealed_of C cands) ?gs)"
    using inr len by (intro reveal_candidates_Ok) (auto simp: state_of_def)
  then have "user_refresh_round4 C (state_of sid kappa pkb cands) \<lparr>mr3_session_id = sid, mr3_gamma_star = gamma\<rparr> =
      Ok \<lparr>ur4_session_id = sid, ur4_revealed = map (revealed_of C cands) ?gs\<rparr>"
    using gamma(2,3) by (auto simp: user_refresh_round4_def state_of_def word_less_nat_alt)
  moreover have "check_revealed C kappa gamma agg (map (\<lambda>cd. scalar_to_bytes C (cd_challenge cd)) cands)
      X (compress C X) [] (map (revealed_of C cands) ?gs) = Ok ()"
    by (rule check_revealed_Ok [OF ok _ _ len])
      (use inr cok distinct_candidate_indices [of kappa] in \<open>auto simp: candidate_indices_iff\<close>)
  then have "mint_refresh_verify_reveal C (round2_of C sid kappa cands melted)
       \<lparr>mr1_session_id = sid, mr1_kappa = kappa, mr1_aggregated_r_per_candidate = agg\<rparr>
       \<lparr>mr3_session_id = sid, mr3_gamma_star = gamma\<rparr>
       \<lparr>ur4_session_id = sid, ur4_revealed = map (revealed_of C cands) ?gs\<rparr> pk = Ok ()"
    using ok filter_candidate_indices [OF gamma(2,3)]
    by (simp add: mint_refresh_verify_reveal_def round2_of_def pk)
  ultimately show ?thesis by blast
qed

lemma refresh_signing:
  fixes C :: "('s::field, 'p::ab_group_add) crypto"
  assumes ok: "curve_ok C" and big: "large_field TYPE('s)"
    and S: "distinct S" "0 \<notin> set S" "length F \<le> length S" and U: "distinct U" "set U = set S"
    and pk: "pk = PublicKey (compress C (mulG C (horner_eval_scalar F 0)))"
    and gamma: "1 \<le> unat gamma" "unat gamma \<le> unat kappa"
    and len: "length cands = unat kappa" "\<forall>i. length (ks i) = unat kappa"
    and dec: "decompress C (agg ! unat (gamma - 1)) = Some (mulG C (\<Sum>i \<leftarrow> S. ks i ! unat (gamma - 1)))"
    and cok: "\<forall>g < unat kappa. candidate_ok C agg (mulG C (horner_eval_scalar F 0))
               (compress C (mulG C (horner_eval_scalar F 0))) g (cands ! g)"
  shows "\<exists>r5 resp new_coin.
     (\<forall>i \<in> set S. validator_refresh_round5 C
        \<lparr>vrs_session_id = sid, vrs_my_index = i, vrs_kappa = kappa, vrs_k_per_candidate = ks i\<rparr>
        (round2_of C sid kappa cands melted) \<lparr>mr3_session_id = sid, mr3_gamma_star = gamma\<rparr>
        (SecretKey (horner_eval_scalar F (scalar_from i))) S = Ok (r5 i)) \<and>
     aggregate_refresh_round5 C sid S (map r5 U) = Ok resp \<and>
     user_refresh_round6 C (state_of sid kappa pkb cands) \<lparr>mr3_session_id = sid, mr3_gamma_star = gamma\<rparr> resp pk = Ok new_coin \<and>
     coin_ok C new_coin \<and> Coin_verify C new_coin pk = Ok True"
proof -
  let ?cd = "cands ! unat (gamma - 1)" and ?x = "horner_eval_scalar F 0"
  let ?K = "\<Sum>i \<leftarrow> S. ks i ! unat (gamma - 1)"
  let ?r5 = "\<lambda>i. \<lparr>vr5_session_id = sid, vr5_from_index = i, vr5_s_partial = scalar_to_bytes C
      (ks i ! unat (gamma - 1) + cd_challenge ?cd * lagrange_basis (scalar_from ` set S) 0 (scalar_from i) *
       horner_eval_scalar F (scalar_from i))\<rparr>"
  have "\<forall>i \<in> set S. validator_refresh_round5 C
      \<lparr>vrs_session_id = sid, vrs_my_index = i, vrs_kappa = kappa, vrs_k_per_candidate = ks i\<rparr>
      (round2_of C sid kappa cands melted) \<lparr>mr3_session_id = sid, mr3_gamma_star = gamma\<rparr>
      (SecretKey (horner_eval_scalar F (scalar_from i))) S = Ok (?r5 i)"
    using len by (intro ballI validator_refresh_round5_honest [OF ok big S(1,2) _ gamma])
      (simp_all add: round2_of_def)
  moreover have "aggregate_refresh_round5 C sid S (map ?r5 U) = Ok \<lparr>mr5_session_id = sid,
      mr5_s_aggregated = scalar_to_bytes C (?K + cd_challenge ?cd * ?x)\<rparr>"
    by (rule aggregate_refresh_round5_honest [OF ok big S(1,3) U]) simp
  moreover have "unat (gamma - 1) < unat kappa" using gamma by (simp add: unat_pred)
  then have "\<exists>new_coin. user_refresh_round6 C (state_of sid kappa pkb cands)
      \<lparr>mr3_session_id = sid, mr3_gamma_star = gamma\<rparr> \<lparr>mr5_session_id = sid,
      mr5_s_aggregated = scalar_to_bytes C (?K + cd_challenge ?cd * ?x)\<rparr> pk = Ok new_coin \<and>
      coin_ok C new_coin \<and> Coin_verify C new_coin pk = Ok True \<and>
      coin_secret new_coin = SecretKey (derive_coin_secret C (cd_seed ?cd))"
    using cok by (intro user_refresh_round6_honest [OF ok pk gamma len(1) dec refl]) (simp_all add: state_of_def)
  ultimately show ?thesis by (elim exE conjE) (intro exI conjI; assumption)
qed

lemma refresh_rounds:
  fixes C :: "('s::field, 'p::ab_group_add) crypto"
  assumes ok: "curve_ok C" and hok: "hash_ok C" and big: "large_field TYPE('s)"
    and S: "distinct S" "0 \<notin> set S" "length F \<le> length S"
    and order: "distinct T" "set T = set S" "distinct U" "set U = set S"
    and pk: "pk = PublicKey (compress C (mulG C (horner_eval_scalar F 0)))"
    and kappa: "kappa \<noteq> 0" and melted: "Coin_verify C melted pk = Ok True"
  shows "\<exists>r1 rs' mr1 ur2 ust r' ch reveal r5 resp new_coin.
     (\<forall>i. validator_refresh_round1 C R sid i kappa (rs i) = Ok (r1 i, rs' i)) \<and>
     aggregate_refresh_round1 C sid kappa S (map (\<lambda>i. fst (r1 i)) T) = Ok mr1 \<and>
     user_refresh_round2 C R sid mr1 pk melted r = Ok ((ur2, ust), r') \<and>
     mint_refresh_round3 C sid ur2 pk = Ok ch \<and>
     user_refresh_round4 C ust ch = Ok reveal \<and>
     mint_refresh_verify_reveal C ur2 mr1 ch reveal pk = Ok () \<and>
     (\<forall>i \<in> set S. validator_refresh_round5 C (snd (r1 i)) ur2 ch
        (SecretKey (horner_eval_scalar F (scalar_from i))) S = Ok (r5 i)) \<and>
     aggregate_refresh_round5 C sid S (map r5 U) = Ok resp \<and>
     user_refresh_round6 C ust ch resp pk = Ok new_coin \<and>
     coin_ok C new_coin \<and> Coin_verify C new_coin pk = Ok True"
proof -
  let ?X = "mulG C (horner_eval_scalar F 0)"
  define ks where "ks i = fst (random_scalars R (unat kappa) (rs i))" for i
  define r1 where "r1 i = (\<lparr>vr1_session_id = sid, vr1_from_index = i,
      vr1_r_per_candidate = map (\<lambda>k. compress C (mulG C k)) (ks i)\<rparr>,
      \<lparr>vrs_session_id = sid, vrs_my_index = i, vrs_kappa = kappa, vrs_k_per_candidate = ks i\<rparr>)" for i
  have "\<forall>i. \<exists>r'. validator_refresh_round1 C R sid i kappa (rs i) = Ok (r1 i, r')"
    unfolding r1_def ks_def by (intro allI validator_refresh_round1_Ok kappa)
  then obtain rs' where round1: "\<forall>i. validator_refresh_round1 C R sid i kappa (rs i) = Ok (r1 i, rs' i)" by metis
  have lks: "\<forall>i. length (ks i) = unat kappa" by (simp add: ks_def)
  let ?agg = "map (\<lambda>g. compress C (mulG C (\<Sum>i \<leftarrow> S. ks i ! g))) [0..<unat kappa]"
  let ?mr1 = "\<lparr>mr1_session_id = sid, mr1_kappa = kappa, mr1_aggregated_r_per_candidate = ?agg\<rparr>"
  have agg: "aggregate_refresh_round1 C sid kappa S (map (\<lambda>i. fst (r1 i)) T) = Ok ?mr1"
    by (rule aggregate_refresh_round1_honest [OF ok S(1) order(1,2) kappa lks]) (simp add: r1_def)
  have la: "length ?agg = unat kappa" by simp
  have dec: "decompress C (?agg ! g) = Some (mulG C (\<Sum>i \<leftarrow> S. ks i ! g))" if "g < unat kappa" for g
    using that ok by simp
  then have "\<forall>g < unat kappa. decompress C (?agg ! g) \<noteq> None" by simp
  then obtain cands r' where lc: "length cands = unat kappa"
    and cok: "\<forall>g < unat kappa. candidate_ok C ?agg ?X (compress C ?X) g (cands ! g)"
    and round2: "user_refresh_round2 C R sid ?mr1 pk melted r =
       Ok ((round2_of C sid kappa cands melted, state_of sid kappa (compress C ?X) cands), r')"
    using user_refresh_round2_honest [OF ok pk kappa refl la, of R sid melted r] by blast
  obtain gamma where g: "compute_gamma_star C sid kappa = Ok gamma" "1 \<le> unat gamma" "unat gamma \<le> unat kappa"
    using compute_gamma_star_range [OF hok kappa] by blast
  then have "unat (gamma - 1) < unat kappa" by (simp add: unat_pred)
  note sign = refresh_signing [OF ok big S order(3,4) pk g(2,3) lc lks dec [OF this] cok, of sid melted "compress C ?X"]
  have st: "\<lparr>vrs_session_id = sid, vrs_my_index = i, vrs_kappa = kappa, vrs_k_per_candidate = ks i\<rparr> = snd (r1 i)" for i
    by (simp add: r1_def)
  from sign [unfolded st] refresh_cut_and_choose [OF ok pk g la lc cok melted, of "compress C ?X"] round1 agg round2
  show ?thesis by (elim exE conjE) (intro exI conjI; assumption)
qed

section \<open>Properties\<close>

text \<open>
  C9. A complete honest refresh: let the validators of a signing set hold shares of \<open>F\<close>, and let the
  melted coin verify under the joint key. Then all six rounds succeed, for every positive number of
  candidates and every order of the messages; the mint's check of the reveal passes; and the user
  ends with a coin whose key belongs to its secret and which verifies under the joint key.
\<close>

theorem refresh_complete:
  fixes C :: "('s::field, 'p::ab_group_add) crypto"
  assumes ok: "curve_ok C" and hok: "hash_ok C" and big: "large_field TYPE('s)"
    and S: "distinct S" "0 \<notin> set S" "length F \<le> length S"
    and order: "distinct T" "set T = set S" "distinct U" "set U = set S"
    and pk: "pk = PublicKey (compress C (mulG C (horner_eval_scalar F 0)))"
    and kappa: "kappa \<noteq> 0" and melted: "Coin_verify C melted pk = Ok True"
  shows "\<exists>r1 rs' mr1 ur2 ust r' ch reveal r5 resp new_coin.
     (\<forall>i. validator_refresh_round1 C R sid i kappa (rs i) = Ok (r1 i, rs' i)) \<and>
     aggregate_refresh_round1 C sid kappa S (map (\<lambda>i. fst (r1 i)) T) = Ok mr1 \<and>
     user_refresh_round2 C R sid mr1 pk melted r = Ok ((ur2, ust), r') \<and>
     mint_refresh_round3 C sid ur2 pk = Ok ch \<and>
     user_refresh_round4 C ust ch = Ok reveal \<and>
     mint_refresh_verify_reveal C ur2 mr1 ch reveal pk = Ok () \<and>
     (\<forall>i \<in> set S. validator_refresh_round5 C (snd (r1 i)) ur2 ch
        (SecretKey (horner_eval_scalar F (scalar_from i))) S = Ok (r5 i)) \<and>
     aggregate_refresh_round5 C sid S (map r5 U) = Ok resp \<and>
     user_refresh_round6 C ust ch resp pk = Ok new_coin \<and>
     coin_ok C new_coin \<and> Coin_verify C new_coin pk = Ok True"
  using assms by (rule refresh_rounds)

theorem refresh_complete_witness:
  "\<exists>r1 rs' mr1 ur2 ust r' ch reveal r5 resp new_coin.
     (\<forall>i. validator_refresh_round1 gf_curve tape_rng (SessionId [7]) i 3 [scalar_from i, 2, 3] = Ok (r1 i, rs' i)) \<and>
     aggregate_refresh_round1 gf_curve (SessionId [7]) 3 [3, 1] (map (\<lambda>i. fst (r1 i)) [1, 3]) = Ok mr1 \<and>
     user_refresh_round2 gf_curve tape_rng (SessionId [7]) mr1
       (PublicKey (compress gf_curve (mulG gf_curve (horner_eval_scalar [5, 3] 0))))
       \<lparr>coin_secret = SecretKey 4, coin_pubkey_bytes = gf_bytes 4,
        coin_signature = fst (schnorr_sign gf_curve tape_rng (SecretKey 5) (PublicKey (gf_bytes 5)) (gf_bytes 4) [6])\<rparr>
       [1, 2, 3, 4, 5, 6] = Ok ((ur2, ust), r') \<and>
     mint_refresh_round3 gf_curve (SessionId [7]) ur2
       (PublicKey (compress gf_curve (mulG gf_curve (horner_eval_scalar [5, 3] 0)))) = Ok ch \<and>
     user_refresh_round4 gf_curve ust ch = Ok reveal \<and>
     mint_refresh_verify_reveal gf_curve ur2 mr1 ch reveal
       (PublicKey (compress gf_curve (mulG gf_curve (horner_eval_scalar [5, 3] 0)))) = Ok () \<and>
     (\<forall>i \<in> set [3, 1]. validator_refresh_round5 gf_curve (snd (r1 i)) ur2 ch
        (SecretKey (horner_eval_scalar [5, 3] (scalar_from i))) [3, 1] = Ok (r5 i)) \<and>
     aggregate_refresh_round5 gf_curve (SessionId [7]) [3, 1] (map r5 [3, 1]) = Ok resp \<and>
     user_refresh_round6 gf_curve ust ch resp
       (PublicKey (compress gf_curve (mulG gf_curve (horner_eval_scalar [5, 3] 0)))) = Ok new_coin \<and>
     coin_ok gf_curve new_coin \<and>
     Coin_verify gf_curve new_coin (PublicKey (compress gf_curve (mulG gf_curve (horner_eval_scalar [5, 3] 0)))) = Ok True"
proof (rule refresh_complete [OF curve_ok_gf hash_ok_gf large_field_gf _ _ _ _ _ _ _ refl])
  show "Coin_verify gf_curve \<lparr>coin_secret = SecretKey 4, coin_pubkey_bytes = gf_bytes 4,
      coin_signature = fst (schnorr_sign gf_curve tape_rng (SecretKey 5) (PublicKey (gf_bytes 5)) (gf_bytes 4) [6])\<rparr>
      (PublicKey (compress gf_curve (mulG gf_curve (horner_eval_scalar [5, 3] 0)))) = Ok True"
    using schnorr_sign_complete [OF curve_ok_gf, of "PublicKey (gf_bytes 5)" "SecretKey 5" "gf_bytes 4" tape_rng "[6]"]
    by (simp add: Coin_verify_def)
qed auto

lemma check_revealed_accepts:
  assumes "check_revealed C kappa gs agg chs pk_pt pk_bytes seen rcs = Ok ()" and "distinct seen"
  shows "distinct (seen @ map rc_candidate_index rcs) \<and>
     (\<forall>rc \<in> set rcs. rc_candidate_index rc \<in> set (candidate_indices kappa) - {gs} \<and>
        (\<exists>alpha beta r_agg. from_canonical_bytes C (rc_alpha rc) = Some alpha \<and>
           from_canonical_bytes C (rc_beta rc) = Some beta \<and>
           decompress C (agg ! unat (rc_candidate_index rc - 1)) = Some r_agg \<and>
           chs ! unat (rc_candidate_index rc - 1) = scalar_to_bytes C (snd (blind_one_candidate C r_agg pk_pt pk_bytes
             alpha beta (compress C (mulG C (derive_coin_secret C (rc_seed rc))))))))"
  using assms
proof (induction rcs arbitrary: seen)
  case Nil
  then show ?case by simp
next
  case (Cons rc rcs)
  let ?g = "rc_candidate_index rc"
  obtain alpha beta r_agg where a: "?g \<noteq> 0" "\<not> ?g > kappa" "?g \<noteq> gs" "?g \<notin> set seen"
    "from_canonical_bytes C (rc_alpha rc) = Some alpha" "from_canonical_bytes C (rc_beta rc) = Some beta"
    "decompress C (agg ! unat (?g - 1)) = Some r_agg"
    "chs ! unat (?g - 1) = scalar_to_bytes C (snd (blind_one_candidate C r_agg pk_pt pk_bytes
             alpha beta (compress C (mulG C (derive_coin_secret C (rc_seed rc))))))"
    "check_revealed C kappa gs agg chs pk_pt pk_bytes (seen @ [?g]) rcs = Ok ()"
    using Cons.prems(1) by (auto simp: Let_def case_prod_beta split: if_splits)
  have "1 \<le> unat ?g" using a(1) by (metis One_nat_def Suc_leI unat_gt_0 not_gr_zero)
  then have "?g \<in> set (candidate_indices kappa) - {gs}"
    using a(2,3) by (simp add: candidate_indices_iff word_less_nat_alt)
  moreover have "distinct (seen @ [?g])" using Cons.prems(2) a(4) by simp
  ultimately show ?case using Cons.IH [OF a(9)] a(5-8) by auto
qed

text \<open>
  C10. Soundness of the cut-and-choose check: whatever the user sends, if the challenge is in range
  and the mint accepts the reveal, then every candidate other than the chosen one was opened
  exactly once, and its blinded challenge is the one that the protocol derives from a seed and
  blinding factors the user has disclosed.
\<close>

theorem cut_and_choose_sound:
  assumes ok: "mint_refresh_verify_reveal C ur2 mr1 ch reveal pk = Ok ()"
    and range: "1 \<le> unat (mr3_gamma_star ch)" "unat (mr3_gamma_star ch) \<le> unat (ur2_kappa ur2)"
    and g: "1 \<le> unat g" "unat g \<le> unat (ur2_kappa ur2)" "g \<noteq> mr3_gamma_star ch"
  shows "\<exists>!rc. rc \<in> set (ur4_revealed reveal) \<and> rc_candidate_index rc = g \<and>
     (\<exists>alpha beta r_agg X. decompress C (pk_to_bytes pk) = Some X \<and>
        from_canonical_bytes C (rc_alpha rc) = Some alpha \<and> from_canonical_bytes C (rc_beta rc) = Some beta \<and>
        decompress C (mr1_aggregated_r_per_candidate mr1 ! unat (g - 1)) = Some r_agg \<and>
        ur2_challenges ur2 ! unat (g - 1) = scalar_to_bytes C (snd (blind_one_candidate C r_agg X (pk_to_bytes pk)
          alpha beta (compress C (mulG C (derive_coin_secret C (rc_seed rc)))))))"
proof -
  let ?kappa = "ur2_kappa ur2" and ?gs = "mr3_gamma_star ch" and ?rcs = "ur4_revealed reveal"
  obtain X where X: "decompress C (pk_to_bytes pk) = Some X" and len: "length ?rcs = unat (?kappa - 1)"
    and chk: "check_revealed C ?kappa ?gs (mr1_aggregated_r_per_candidate mr1) (ur2_challenges ur2) X (pk_to_bytes pk) [] ?rcs = Ok ()"
    using ok by (auto simp: mint_refresh_verify_reveal_def Let_def split: if_splits)
  have d: "distinct (map rc_candidate_index ?rcs)"
    and a: "\<forall>rc \<in> set ?rcs. rc_candidate_index rc \<in> set (candidate_indices ?kappa) - {?gs} \<and>
        (\<exists>alpha beta r_agg. from_canonical_bytes C (rc_alpha rc) = Some alpha \<and>
           from_canonical_bytes C (rc_beta rc) = Some beta \<and>
           decompress C (mr1_aggregated_r_per_candidate mr1 ! unat (rc_candidate_index rc - 1)) = Some r_agg \<and>
           ur2_challenges ur2 ! unat (rc_candidate_index rc - 1) = scalar_to_bytes C (snd (blind_one_candidate C
             r_agg X (pk_to_bytes pk) alpha beta (compress C (mulG C (derive_coin_secret C (rc_seed rc)))))))"
    using check_revealed_accepts [OF chk] by simp_all
  have "set (map rc_candidate_index ?rcs) = set (filter (\<lambda>j. j \<noteq> ?gs) (candidate_indices ?kappa))"
    using a len filter_candidate_indices [OF range] by (intro conjunct1 [OF distinct_cover [OF d]]) auto
  then have "g \<in> set (map rc_candidate_index ?rcs)" using g by (simp add: candidate_indices_iff)
  then obtain rc where rc: "rc \<in> set ?rcs" "rc_candidate_index rc = g" by auto
  have uniq: "rc' = rc" if "rc' \<in> set ?rcs" "rc_candidate_index rc' = g" for rc'
    using d rc that by (auto simp: distinct_map dest: inj_onD)
  show ?thesis
  proof (rule ex1I [of _ rc], intro conjI)
    show "\<exists>alpha beta r_agg X. decompress C (pk_to_bytes pk) = Some X \<and>
        from_canonical_bytes C (rc_alpha rc) = Some alpha \<and> from_canonical_bytes C (rc_beta rc) = Some beta \<and>
        decompress C (mr1_aggregated_r_per_candidate mr1 ! unat (g - 1)) = Some r_agg \<and>
        ur2_challenges ur2 ! unat (g - 1) = scalar_to_bytes C (snd (blind_one_candidate C r_agg X (pk_to_bytes pk)
          alpha beta (compress C (mulG C (derive_coin_secret C (rc_seed rc))))))"
      using a [rule_format, OF rc(1)] X unfolding rc(2) by blast
  qed (use rc uniq in \<open>blast+\<close>)
qed

text \<open>Two candidates at the witness instance, both blinded with \<open>alpha = 1\<close> and \<open>beta = 2\<close>.\<close>

definition gf_candidate :: "gf \<Rightarrow> gf candidate" where
  "gf_candidate k = (let b = blind_one_candidate gf_curve k 5 (gf_bytes 5) 1 2
       (compress gf_curve (mulG gf_curve (derive_coin_secret gf_curve []))) in
     \<lparr>cd_seed = [], cd_alpha = 1, cd_beta = 2, cd_r_prime = fst b, cd_challenge = snd b\<rparr>)"

definition gf_round2 :: user_refresh_r2_output where
  "gf_round2 = \<lparr>ur2_session_id = SessionId [], ur2_kappa = 2,
     ur2_challenges = map (\<lambda>cd. scalar_to_bytes gf_curve (cd_challenge cd)) [gf_candidate 3, gf_candidate 4],
     ur2_melted_coin_pubkey = [], ur2_melted_coin_signature = \<lparr>sig_r = [], sig_s = []\<rparr>\<rparr>"

definition gf_reveal :: user_refresh_r4_reveal where
  "gf_reveal = \<lparr>ur4_session_id = SessionId [],
     ur4_revealed = map (revealed_of gf_curve [gf_candidate 3, gf_candidate 4]) [1]\<rparr>"

lemma gf_reveal_accepted:
  "mint_refresh_verify_reveal gf_curve gf_round2
     \<lparr>mr1_session_id = SessionId [], mr1_kappa = 2, mr1_aggregated_r_per_candidate = [gf_bytes 3, gf_bytes 4]\<rparr>
     \<lparr>mr3_session_id = SessionId [], mr3_gamma_star = 2\<rparr> gf_reveal (PublicKey (gf_bytes 5)) = Ok ()"
proof -
  have "check_revealed gf_curve 2 2 [gf_bytes 3, gf_bytes 4]
      (map (\<lambda>cd. scalar_to_bytes gf_curve (cd_challenge cd)) [gf_candidate 3, gf_candidate 4])
      5 (gf_bytes 5) [] (map (revealed_of gf_curve [gf_candidate 3, gf_candidate 4]) [1]) = Ok ()"
    by (rule check_revealed_Ok [OF curve_ok_gf]) (auto simp: candidate_ok_def gf_candidate_def Let_def)
  then show ?thesis by (simp add: mint_refresh_verify_reveal_def gf_round2_def gf_reveal_def)
qed

theorem cut_and_choose_sound_witness:
  "\<exists>!rc. rc \<in> set (ur4_revealed gf_reveal) \<and> rc_candidate_index rc = 1 \<and>
     (\<exists>alpha beta r_agg X. decompress gf_curve (pk_to_bytes (PublicKey (gf_bytes 5))) = Some X \<and>
        from_canonical_bytes gf_curve (rc_alpha rc) = Some alpha \<and> from_canonical_bytes gf_curve (rc_beta rc) = Some beta \<and>
        decompress gf_curve (mr1_aggregated_r_per_candidate \<lparr>mr1_session_id = SessionId [], mr1_kappa = 2,
           mr1_aggregated_r_per_candidate = [gf_bytes 3, gf_bytes 4]\<rparr> ! unat (1 - 1 :: u8)) = Some r_agg \<and>
        ur2_challenges gf_round2 ! unat (1 - 1 :: u8) = scalar_to_bytes gf_curve (snd (blind_one_candidate gf_curve r_agg X
          (pk_to_bytes (PublicKey (gf_bytes 5))) alpha beta
          (compress gf_curve (mulG gf_curve (derive_coin_secret gf_curve (rc_seed rc)))))))"
  by (rule cut_and_choose_sound [OF gf_reveal_accepted]) (simp_all add: gf_round2_def)

text \<open>
  C34. The cut-and-choose challenge: it is a candidate number whenever there is a candidate, and
  asking for a challenge over no candidates panics. The mint's round 3 takes the number of
  candidates from the user's message, so a message that says zero makes it panic.
\<close>

theorem gamma_star_range:
  assumes "hash_ok C"
  shows "(kappa \<noteq> 0 \<longrightarrow> (\<exists>gamma. compute_gamma_star C sid kappa = Ok gamma \<and>
            1 \<le> unat gamma \<and> unat gamma \<le> unat kappa)) \<and>
         compute_gamma_star C sid 0 = Panic \<and>
         (ur2_session_id ur2 = sid \<and> ur2_kappa ur2 = 0 \<and>
          schnorr_verify C pk (ur2_melted_coin_pubkey ur2) (ur2_melted_coin_signature ur2) = Ok True \<longrightarrow>
          mint_refresh_round3 C sid ur2 pk = Panic)"
proof -
  have z: "compute_gamma_star C sid 0 = Panic"
    using assms by (simp add: compute_gamma_star_def index_at_def Let_def hash_ok_def)
  show ?thesis
    using compute_gamma_star_range [OF assms, of kappa sid] z by (auto simp: mint_refresh_round3_def)
qed

theorem gamma_star_range_witness:
  "(\<exists>gamma. compute_gamma_star gf_curve (SessionId [1]) 3 = Ok gamma \<and> 1 \<le> unat gamma \<and> unat gamma \<le> unat (3 :: u8)) \<and>
   compute_gamma_star gf_curve (SessionId [1]) 0 = Panic"
  using gamma_star_range [OF hash_ok_gf, of 3 "SessionId [1]"] by simp

end
