(* ===== verification/Sessions.thy ===== *)
theory Sessions
  imports Refresh "HOL-Library.AList" "HOL-Library.Multiset"
begin

text \<open>
  The validator's tables of in-flight protocol state: signing sessions (\<open>sign_sessions.rs\<close>), refresh
  sessions (\<open>refresh_sessions.rs\<close>), key-generation ceremonies (\<open>dkg_sessions.rs\<close>) and rotation
  ceremonies (\<open>reshare_sessions.rs\<close>).

  A \<open>HashMap\<close> is an association list without repeated keys; its iteration order is not specified by
  Rust, and the lemmas show that nothing returned depends on it. Each operation runs under the
  table's mutex, so operations are atomic steps. An \<open>Instant\<close> and a \<open>Duration\<close> are numbers of
  milliseconds, and \<open>duration_since\<close> saturates at zero.

  The locale \<open>session_table\<close> is the contract that makes nonces single-use; \<open>ceremony_table\<close> is the
  contract of collecting one contribution per peer.
\<close>

section \<open>Hash maps\<close>

type_synonym ('k, 'v) hash_map = "('k \<times> 'v) list"

definition hm_ok :: "('k, 'v) hash_map \<Rightarrow> bool" where
  "hm_ok m \<longleftrightarrow> distinct (map fst m)"

definition hm_contains_key :: "('k, 'v) hash_map \<Rightarrow> 'k \<Rightarrow> bool" where
  "hm_contains_key m k \<longleftrightarrow> map_of m k \<noteq> None"

definition hm_insert :: "('k, 'v) hash_map \<Rightarrow> 'k \<Rightarrow> 'v \<Rightarrow> ('k, 'v) hash_map" where
  "hm_insert m k v = AList.update k v m"

definition hm_remove :: "('k, 'v) hash_map \<Rightarrow> 'k \<Rightarrow> 'v option \<times> ('k, 'v) hash_map" where
  "hm_remove m k = (map_of m k, AList.delete k m)"

definition hm_retain :: "('v \<Rightarrow> bool) \<Rightarrow> ('k, 'v) hash_map \<Rightarrow> ('k, 'v) hash_map" where
  "hm_retain P m = filter (\<lambda>(k, v). P v) m"

lemma hm_ok_ops [simp]:
  "hm_ok []" "hm_ok m \<Longrightarrow> hm_ok (hm_insert m k v)" "hm_ok m \<Longrightarrow> hm_ok (snd (hm_remove m k))"
  "hm_ok m \<Longrightarrow> hm_ok (hm_retain P m)"
  by (simp_all add: hm_ok_def hm_insert_def hm_remove_def hm_retain_def distinct_update distinct_delete distinct_map_filter)

lemma map_of_hm_insert [simp]: "map_of (hm_insert m k v) = (map_of m)(k \<mapsto> v)"
  by (simp add: hm_insert_def update_conv')

lemma map_of_hm_remove [simp]:
  "map_of (snd (hm_remove m k)) = (map_of m)(k := None)" "fst (hm_remove m k) = map_of m k"
  by (simp_all add: hm_remove_def delete_conv')

lemma hm_insert_new: "map_of m k = None \<Longrightarrow> hm_insert m k v = m @ [(k, v)]"
  unfolding hm_insert_def by (induction m) auto

lemma map_of_hm_retain:
  assumes "hm_ok m"
  shows "map_of (hm_retain P m) k = (case map_of m k of None \<Rightarrow> None | Some v \<Rightarrow> if P v then Some v else None)"
  using assms unfolding hm_ok_def hm_retain_def
proof (induction m)
  case (Cons x m)
  have "map_of m (fst x) = None" using Cons.prems by (simp add: map_of_eq_None_iff)
  then show ?case using Cons by (auto split: option.splits)
qed simp

lemma hm_remove_mset:
  assumes "hm_ok m" and "map_of m k = Some v"
  shows "mset m = add_mset (k, v) (mset (snd (hm_remove m k)))"
  using assms unfolding hm_ok_def hm_remove_def
proof (induction m)
  case (Cons x m)
  show ?case
  proof (cases "fst x = k")
    case True
    then have "k \<notin> fst ` set m" using Cons.prems(1) by simp
    then show ?thesis using True Cons.prems(2) by (cases x) auto
  next
    case False
    then show ?thesis using Cons by (cases x) auto
  qed
qed simp

section \<open>The contract of a session table\<close>

locale session_table =
  fixes table_ok :: "'t \<Rightarrow> bool" and lookup :: "'t \<Rightarrow> 'k \<Rightarrow> 'e option" and entries :: "'t \<Rightarrow> 'e multiset"
    and key :: "'e \<Rightarrow> 'k"
    and put :: "'t \<Rightarrow> 'e \<Rightarrow> (unit, unit) result \<times> 't" and get :: "'t \<Rightarrow> 'k \<Rightarrow> 'e option \<times> 't"
    and prune :: "'t \<Rightarrow> nat \<Rightarrow> nat \<Rightarrow> nat \<times> 't"
  assumes put_conflict: "lookup T (key e) \<noteq> None \<Longrightarrow> put T e = (Err (), T)"
    and put_fresh: "table_ok T \<Longrightarrow> lookup T (key e) = None \<Longrightarrow>
          \<exists>T'. put T e = (Ok (), T') \<and> table_ok T' \<and> lookup T' = (lookup T)(key e \<mapsto> e) \<and> entries T' = add_mset e (entries T)"
    and get_result: "table_ok T \<Longrightarrow> \<exists>T'. get T k = (lookup T k, T') \<and> table_ok T' \<and> lookup T' = (lookup T)(k := None) \<and>
          entries T = entries T' + (case lookup T k of None \<Rightarrow> {#} | Some e \<Rightarrow> {#e#})"
    and prune_subset: "table_ok T \<Longrightarrow> table_ok (snd (prune T now ttl)) \<and> entries (snd (prune T now ttl)) \<subseteq># entries T \<and>
          lookup (snd (prune T now ttl)) \<subseteq>\<^sub>m lookup T"
begin

text \<open>
  The conservation law: what was taken out so far, together with what is still in flight, was put in,
  counted with multiplicity.
\<close>

definition conserved :: "'t \<Rightarrow> 'e multiset \<Rightarrow> 'e multiset \<Rightarrow> bool" where
  "conserved T created taken \<longleftrightarrow> table_ok T \<and> taken + entries T \<subseteq># created"

lemma conserved_put:
  assumes "conserved T created taken"
  shows "conserved (snd (put T e)) (if fst (put T e) = Ok () then add_mset e created else created) taken"
proof (cases "lookup T (key e)")
  case None
  then show ?thesis using assms put_fresh [of T e] by (auto simp: conserved_def)
next
  case (Some v)
  then show ?thesis using assms put_conflict [of T e] by (auto simp: conserved_def)
qed

lemma conserved_get:
  assumes "conserved T created taken"
  shows "conserved (snd (get T k)) created (taken + (case fst (get T k) of None \<Rightarrow> {#} | Some e \<Rightarrow> {#e#}))"
  using assms get_result [of T k] by (auto simp: conserved_def ac_simps split: option.splits)

lemma conserved_prune:
  assumes "conserved T created taken"
  shows "conserved (snd (prune T now ttl)) created taken"
proof -
  have "taken + entries (snd (prune T now ttl)) \<subseteq># taken + entries T"
    using assms prune_subset [of T now ttl] by (simp add: conserved_def)
  also have "taken + entries T \<subseteq># created" using assms by (simp add: conserved_def)
  finally show ?thesis using assms prune_subset [of T now ttl] by (simp add: conserved_def)
qed

lemma put_entries:
  assumes "table_ok T" and "fst (put T e) = Ok ()"
  shows "entries (snd (put T e)) = add_mset e (entries T)"
  using assms put_conflict [of T e] put_fresh [of T e] by (cases "lookup T (key e)") auto

lemma get_entries:
  assumes "table_ok T" and "fst (get T k) = Some e"
  shows "entries T = add_mset e (entries (snd (get T k)))"
  using assms get_result [of T k] by auto

text \<open>One step of a server that uses the table: what it adds to the created and to the used entries.\<close>

definition moves :: "'t \<Rightarrow> 'e multiset \<Rightarrow> 'e multiset \<Rightarrow> 't \<Rightarrow> bool" where
  "moves T created taken T' \<longleftrightarrow>
     (created = {#} \<and> taken = {#} \<and> (T' = T \<or> (\<exists>k. T' = snd (get T k)) \<or> (\<exists>now ttl. T' = snd (prune T now ttl)))) \<or>
     (\<exists>e. fst (put T e) = Ok () \<and> T' = snd (put T e) \<and> created = {#e#} \<and> taken = {#}) \<or>
     (\<exists>k e. fst (get T k) = Some e \<and> T' = snd (get T k) \<and> created = {#} \<and> taken = {#e#})"

lemma moves_idle [simp]: "moves T {#} {#} T" "moves T {#} {#} (snd (prune T now ttl))"
  by (auto simp: moves_def)

lemma conserved_moves:
  assumes "conserved T created taken" and "moves T c t T'"
  shows "conserved T' (created + c) (taken + t)"
proof -
  have get: "conserved (snd (get T k)) created taken" for k
    using conserved_get [OF assms(1), of k] unfolding conserved_def
    by (auto split: option.splits intro: subset_mset.order_trans [rotated])
  have put: "conserved (snd (put T e)) (add_mset e created) taken" if "fst (put T e) = Ok ()" for e
    using conserved_put [OF assms(1), of e] that by simp
  have use: "conserved (snd (get T k)) created (add_mset e taken)" if "fst (get T k) = Some e" for k e
    using conserved_get [OF assms(1), of k] that by simp
  show ?thesis
    using assms get put use conserved_prune [OF assms(1)] by (auto simp: moves_def)
qed

lemma get_once: "table_ok T \<Longrightarrow> fst (get (snd (get T k)) k) = None"
  using get_result [of T k] get_result [of "snd (get T k)" k] by fastforce

lemma put_then_get:
  assumes "table_ok T" and "put T e = (Ok (), T')"
  shows "fst (get T' (key e)) = Some e"
proof (cases "lookup T (key e)")
  case None
  then show ?thesis
    using put_fresh [OF assms(1) None] assms(2) get_result [of T' "key e"] by auto
next
  case (Some v)
  then show ?thesis using put_conflict [of T e] assms(2) by simp
qed

end

section \<open>Signing sessions\<close>

definition DEFAULT_SESSION_TTL :: nat where
  "DEFAULT_SESSION_TTL = 300 * 1000"

record 's sign_session_entry =
  sse_state :: "'s validator_r1_state"
  sse_created_at :: nat

type_synonym 's sign_sessions = "(session_id, 's sign_session_entry) hash_map"

definition SignSessions_new :: "'s sign_sessions" where
  "SignSessions_new = []"

definition SignSessions_insert :: "'s sign_sessions \<Rightarrow> 's sign_session_entry \<Rightarrow> (unit, unit) result \<times> 's sign_sessions" where
  "SignSessions_insert m entry =
     (if hm_contains_key m (r1s_session_id (sse_state entry)) then (Err (), m)
      else (Ok (), hm_insert m (r1s_session_id (sse_state entry)) entry))"

definition SignSessions_take :: "'s sign_sessions \<Rightarrow> session_id \<Rightarrow> 's sign_session_entry option \<times> 's sign_sessions" where
  "SignSessions_take m sid = hm_remove m sid"

definition SignSessions_len :: "'s sign_sessions \<Rightarrow> nat" where
  "SignSessions_len m = length m"

definition SignSessions_is_empty :: "'s sign_sessions \<Rightarrow> bool" where
  "SignSessions_is_empty m \<longleftrightarrow> m = []"

definition SignSessions_prune :: "'s sign_sessions \<Rightarrow> nat \<Rightarrow> nat \<Rightarrow> nat \<times> 's sign_sessions" where
  "SignSessions_prune m now ttl =
     (let m' = hm_retain (\<lambda>entry. now - sse_created_at entry < ttl) m
      in (length m - length m', m'))"

section \<open>Refresh sessions\<close>

definition DEFAULT_REFRESH_TTL :: nat where
  "DEFAULT_REFRESH_TTL = 300 * 1000"

record 's refresh_session_entry =
  rse_state :: "'s validator_refresh_state"
  rse_created_at :: nat

type_synonym 's refresh_sessions = "(session_id, 's refresh_session_entry) hash_map"

definition RefreshSessions_new :: "'s refresh_sessions" where
  "RefreshSessions_new = []"

definition RefreshSessions_insert ::
    "'s refresh_sessions \<Rightarrow> 's refresh_session_entry \<Rightarrow> (unit, unit) result \<times> 's refresh_sessions" where
  "RefreshSessions_insert m entry =
     (if hm_contains_key m (vrs_session_id (rse_state entry)) then (Err (), m)
      else (Ok (), hm_insert m (vrs_session_id (rse_state entry)) entry))"

definition RefreshSessions_take ::
    "'s refresh_sessions \<Rightarrow> session_id \<Rightarrow> 's refresh_session_entry option \<times> 's refresh_sessions" where
  "RefreshSessions_take m sid = hm_remove m sid"

definition RefreshSessions_len :: "'s refresh_sessions \<Rightarrow> nat" where
  "RefreshSessions_len m = length m"

definition RefreshSessions_is_empty :: "'s refresh_sessions \<Rightarrow> bool" where
  "RefreshSessions_is_empty m \<longleftrightarrow> m = []"

definition RefreshSessions_prune :: "'s refresh_sessions \<Rightarrow> nat \<Rightarrow> nat \<Rightarrow> nat \<times> 's refresh_sessions" where
  "RefreshSessions_prune m now ttl =
     (let m' = hm_retain (\<lambda>entry. now - rse_created_at entry < ttl) m
      in (length m - length m', m'))"

section \<open>Both tables satisfy the contract\<close>

definition hm_values :: "('k, 'v) hash_map \<Rightarrow> 'v multiset" where
  "hm_values m = mset (map snd m)"

lemma hm_values_insert: "map_of m k = None \<Longrightarrow> hm_values (hm_insert m k v) = add_mset v (hm_values m)"
  by (simp add: hm_values_def hm_insert_new)

lemma hm_values_remove:
  assumes "hm_ok m"
  shows "hm_values m = hm_values (snd (hm_remove m k)) + (case map_of m k of None \<Rightarrow> {#} | Some v \<Rightarrow> {#v#})"
proof (cases "map_of m k")
  case None
  then have "snd (hm_remove m k) = m" by (simp add: hm_remove_def map_of_eq_None_iff)
  then show ?thesis using None by simp
next
  case (Some v)
  then show ?thesis using arg_cong [OF hm_remove_mset [OF assms Some], of "image_mset snd"] by (simp add: hm_values_def)
qed

lemma hm_values_retain: "hm_values (hm_retain P m) \<subseteq># hm_values m"
proof -
  have "filter_mset (\<lambda>(k, v). P v) (mset m) \<subseteq># mset m" by (rule multiset_filter_subset)
  then show ?thesis unfolding hm_values_def hm_retain_def mset_map mset_filter by (rule image_mset_subseteq_mono)
qed

lemma hm_retain_submap: "hm_ok m \<Longrightarrow> map_of (hm_retain P m) \<subseteq>\<^sub>m map_of m"
  by (auto simp: map_le_def map_of_hm_retain split: option.splits if_splits)

lemmas hm_laws = hm_values_insert hm_values_remove hm_values_retain hm_retain_submap

interpretation sign_table: session_table hm_ok map_of hm_values "\<lambda>e. r1s_session_id (sse_state e)"
    SignSessions_insert SignSessions_take SignSessions_prune
  by unfold_locales
    (auto simp: SignSessions_insert_def SignSessions_take_def SignSessions_prune_def hm_contains_key_def
      Let_def hm_laws prod_eq_iff intro: hm_laws)

interpretation refresh_table: session_table hm_ok map_of hm_values "\<lambda>e. vrs_session_id (rse_state e)"
    RefreshSessions_insert RefreshSessions_take RefreshSessions_prune
  by unfold_locales
    (auto simp: RefreshSessions_insert_def RefreshSessions_take_def RefreshSessions_prune_def hm_contains_key_def
      Let_def hm_laws prod_eq_iff intro: hm_laws)

section \<open>The contract of a ceremony table\<close>

locale ceremony_table =
  fixes table_ok :: "'t \<Rightarrow> bool" and lookup :: "'t \<Rightarrow> 'k \<Rightarrow> 'sess option"
    and round1 :: "'sess \<Rightarrow> 'r" and members :: "'sess \<Rightarrow> u16" and contribs :: "'sess \<Rightarrow> u16 \<Rightarrow> 'c option"
    and start :: "'t \<Rightarrow> 'k \<Rightarrow> 'sess \<Rightarrow> (unit, unit) result \<times> 't"
    and contribute :: "'t \<Rightarrow> 'k \<Rightarrow> u16 \<Rightarrow> 'c \<Rightarrow> (nat, unit) result \<times> 't"
    and finalise :: "'t \<Rightarrow> 'k \<Rightarrow> ('r \<times> 'c list \<times> u16, unit) result \<times> 't"
  assumes start_conflict: "lookup T k \<noteq> None \<Longrightarrow> start T k sess = (Err (), T)"
    and start_fresh: "table_ok T \<Longrightarrow> lookup T k = None \<Longrightarrow> contribs sess = Map.empty \<Longrightarrow>
          \<exists>T'. start T k sess = (Ok (), T') \<and> lookup T' = (lookup T)(k \<mapsto> sess)"
    and contribute_none: "lookup T k = None \<Longrightarrow> contribute T k i c = (Err (), T)"
    and contribute_some: "table_ok T \<Longrightarrow> lookup T k = Some sess \<Longrightarrow>
          \<exists>T' sess'. contribute T k i c = (Ok (card (dom (contribs sess'))), T') \<and> table_ok T' \<and>
            lookup T' = (lookup T)(k \<mapsto> sess') \<and> contribs sess' = (contribs sess)(i \<mapsto> c) \<and>
            round1 sess' = round1 sess \<and> members sess' = members sess"
    and finalise_none: "lookup T k = None \<Longrightarrow> finalise T k = (Err (), T)"
    and finalise_some: "table_ok T \<Longrightarrow> lookup T k = Some sess \<Longrightarrow>
          \<exists>T'. table_ok T' \<and> finalise T k =
            (if card (dom (contribs sess)) < unat (members sess - 1) then (Err (), T')
             else (Ok (round1 sess, map (the \<circ> contribs sess) (sorted_list_of_set (dom (contribs sess))), members sess), T')) \<and>
            lookup T' = (if card (dom (contribs sess)) < unat (members sess - 1) then lookup T else (lookup T)(k := None))"
begin

definition contribute_all :: "'t \<Rightarrow> 'k \<Rightarrow> (u16 \<times> 'c) list \<Rightarrow> 't" where
  "contribute_all T k cs = fold (\<lambda>(i, c) T. snd (contribute T k i c)) cs T"

text \<open>However often peers send, each index counts once, with what was sent last.\<close>

lemma contribute_all_collects:
  assumes "table_ok T" and "lookup T k = Some sess"
  shows "\<exists>sess'. table_ok (contribute_all T k cs) \<and> lookup (contribute_all T k cs) k = Some sess' \<and>
     contribs sess' = contribs sess ++ map_of (rev cs) \<and> round1 sess' = round1 sess \<and> members sess' = members sess"
  using assms unfolding contribute_all_def
proof (induction cs arbitrary: T sess)
  case (Cons x cs)
  obtain i c where x: "x = (i, c)" by force
  obtain T' sess1 where T': "contribute T k i c = (Ok (card (dom (contribs sess1))), T')" "table_ok T'"
      "lookup T' k = Some sess1" and s1: "contribs sess1 = (contribs sess)(i \<mapsto> c)" "round1 sess1 = round1 sess"
      "members sess1 = members sess"
    using contribute_some [OF Cons.prems, of i c] by auto
  have eq: "(contribs sess)(i \<mapsto> c) ++ map_of (rev cs) = contribs sess ++ map_of (rev (x # cs))"
    by (simp add: x map_add_assoc [symmetric])
  from Cons.IH [OF T'(2,3)] show ?case unfolding s1 eq by (simp add: x T'(1))
qed simp

lemma finalise_collected:
  assumes "table_ok T" and "lookup T k = Some sess" and "contribs sess = Map.empty"
  shows "fst (finalise (contribute_all T k cs) k) =
     (if card (set (map fst cs)) < unat (members sess - 1) then Err ()
      else Ok (round1 sess, map (the \<circ> map_of (rev cs)) (sorted_list_of_set (set (map fst cs))), members sess))"
proof -
  obtain sess' where s': "table_ok (contribute_all T k cs)" "lookup (contribute_all T k cs) k = Some sess'"
     "contribs sess' = map_of (rev cs)" "round1 sess' = round1 sess" "members sess' = members sess"
    using contribute_all_collects [OF assms(1,2), of cs] assms(3) by auto
  have "dom (contribs sess') = set (map fst cs)" by (simp add: s'(3) dom_map_of_conv_image_fst)
  then show ?thesis using finalise_some [OF s'(1,2)] s'(3-5) by auto
qed

end

section \<open>Key-generation ceremonies\<close>

definition DEFAULT_DKG_TTL :: nat where
  "DEFAULT_DKG_TTL = 3600 * 1000"

record ('s, 'p) dkg_session =
  ds_my_round1 :: "('s, 'p) dkg_round1_output"
  ds_n :: u16
  ds_peer_contributions :: "(u16, ('s, 'p) peer_contribution) hash_map"
  ds_created_at :: nat

type_synonym ('s, 'p) dkg_sessions = "(ceremony_id, ('s, 'p) dkg_session) hash_map"

definition DkgSessions_new :: "('s, 'p) dkg_sessions" where
  "DkgSessions_new = []"

definition DkgSessions_start ::
    "('s, 'p) dkg_sessions \<Rightarrow> ceremony_id \<Rightarrow> ('s, 'p) dkg_session \<Rightarrow> (unit, unit) result \<times> ('s, 'p) dkg_sessions" where
  "DkgSessions_start m ceremony sess =
     (if hm_contains_key m ceremony then (Err (), m) else (Ok (), hm_insert m ceremony sess))"

definition DkgSessions_contribute ::
    "('s, 'p) dkg_sessions \<Rightarrow> ceremony_id \<Rightarrow> u16 \<Rightarrow> ('s, 'p) peer_contribution \<Rightarrow> (nat, unit) result \<times> ('s, 'p) dkg_sessions" where
  "DkgSessions_contribute m ceremony from_index contribution =
     (case map_of m ceremony of
        None \<Rightarrow> (Err (), m)
      | Some sess \<Rightarrow>
          (let peers = hm_insert (ds_peer_contributions sess) from_index contribution
           in (Ok (length peers), hm_insert m ceremony (sess\<lparr>ds_peer_contributions := peers\<rparr>))))"

definition DkgSessions_take_finalisable ::
    "('s, 'p) dkg_sessions \<Rightarrow> ceremony_id
     \<Rightarrow> (('s, 'p) dkg_round1_output \<times> ('s, 'p) peer_contribution list \<times> u16, unit) result \<times> ('s, 'p) dkg_sessions" where
  "DkgSessions_take_finalisable m ceremony =
     (case hm_remove m ceremony of
        (None, m') \<Rightarrow> (Err (), m')
      | (Some sess, m') \<Rightarrow>
          (let required = unat (ds_n sess - 1)
           in if length (ds_peer_contributions sess) < required then (Err (), hm_insert m' ceremony sess)
              else (Ok (ds_my_round1 sess, map snd (sort_key fst (ds_peer_contributions sess)), ds_n sess), m')))"

definition DkgSessions_len :: "('s, 'p) dkg_sessions \<Rightarrow> nat" where
  "DkgSessions_len m = length m"

definition DkgSessions_is_empty :: "('s, 'p) dkg_sessions \<Rightarrow> bool" where
  "DkgSessions_is_empty m \<longleftrightarrow> m = []"

definition DkgSessions_prune :: "('s, 'p) dkg_sessions \<Rightarrow> nat \<Rightarrow> nat \<Rightarrow> nat \<times> ('s, 'p) dkg_sessions" where
  "DkgSessions_prune m now ttl =
     (let m' = hm_retain (\<lambda>sess. now - ds_created_at sess < ttl) m
      in (length m - length m', m'))"

section \<open>Rotation ceremonies\<close>

definition DEFAULT_RESHARE_TTL :: nat where
  "DEFAULT_RESHARE_TTL = 3600 * 1000"

record ('s, 'p) reshare_session =
  rs_my_round1 :: "('s, 'p) reshare_round1_output"
  rs_n :: u16
  rs_peer_contributions :: "(u16, ('s, 'p) reshare_peer_contribution) hash_map"
  rs_created_at :: nat

type_synonym ('s, 'p) reshare_sessions = "(ceremony_id, ('s, 'p) reshare_session) hash_map"

definition ReshareSessions_new :: "('s, 'p) reshare_sessions" where
  "ReshareSessions_new = []"

definition ReshareSessions_start ::
    "('s, 'p) reshare_sessions \<Rightarrow> ceremony_id \<Rightarrow> ('s, 'p) reshare_session \<Rightarrow> (unit, unit) result \<times> ('s, 'p) reshare_sessions" where
  "ReshareSessions_start m ceremony sess =
     (if hm_contains_key m ceremony then (Err (), m) else (Ok (), hm_insert m ceremony sess))"

definition ReshareSessions_contribute ::
    "('s, 'p) reshare_sessions \<Rightarrow> ceremony_id \<Rightarrow> u16 \<Rightarrow> ('s, 'p) reshare_peer_contribution \<Rightarrow> (nat, unit) result \<times> ('s, 'p) reshare_sessions" where
  "ReshareSessions_contribute m ceremony from_index contribution =
     (case map_of m ceremony of
        None \<Rightarrow> (Err (), m)
      | Some sess \<Rightarrow>
          (let peers = hm_insert (rs_peer_contributions sess) from_index contribution
           in (Ok (length peers), hm_insert m ceremony (sess\<lparr>rs_peer_contributions := peers\<rparr>))))"

definition ReshareSessions_take_finalisable ::
    "('s, 'p) reshare_sessions \<Rightarrow> ceremony_id
     \<Rightarrow> (('s, 'p) reshare_round1_output \<times> ('s, 'p) reshare_peer_contribution list \<times> u16, unit) result \<times> ('s, 'p) reshare_sessions" where
  "ReshareSessions_take_finalisable m ceremony =
     (case hm_remove m ceremony of
        (None, m') \<Rightarrow> (Err (), m')
      | (Some sess, m') \<Rightarrow>
          (let required = unat (rs_n sess - 1)
           in if length (rs_peer_contributions sess) < required then (Err (), hm_insert m' ceremony sess)
              else (Ok (rs_my_round1 sess, map snd (sort_key fst (rs_peer_contributions sess)), rs_n sess), m')))"

definition ReshareSessions_len :: "('s, 'p) reshare_sessions \<Rightarrow> nat" where
  "ReshareSessions_len m = length m"

definition ReshareSessions_is_empty :: "('s, 'p) reshare_sessions \<Rightarrow> bool" where
  "ReshareSessions_is_empty m \<longleftrightarrow> m = []"

definition ReshareSessions_prune :: "('s, 'p) reshare_sessions \<Rightarrow> nat \<Rightarrow> nat \<Rightarrow> nat \<times> ('s, 'p) reshare_sessions" where
  "ReshareSessions_prune m now ttl =
     (let m' = hm_retain (\<lambda>sess. now - rs_created_at sess < ttl) m
      in (length m - length m', m'))"

section \<open>Both satisfy the contract\<close>

definition ceremonies_ok :: "('v \<Rightarrow> ('i, 'c) hash_map) \<Rightarrow> ('k, 'v) hash_map \<Rightarrow> bool" where
  "ceremonies_ok peers m \<longleftrightarrow> hm_ok m \<and> (\<forall>k v. map_of m k = Some v \<longrightarrow> hm_ok (peers v))"

lemma length_hm_ok: "hm_ok m \<Longrightarrow> length m = card (dom (map_of m))"
  by (auto simp: hm_ok_def dom_map_of_conv_image_fst card_image distinct_map distinct_card)

text \<open>Iterating a hash map and sorting by key does not depend on the iteration order.\<close>

lemma sort_key_hm:
  assumes "hm_ok m"
  shows "map snd (sort_key fst m) = map (the \<circ> map_of m) (sorted_list_of_set (dom (map_of m)))"
proof -
  have d: "distinct (map fst (sort_key fst m))"
    using assms by (metis hm_ok_def distinct_map mset_sort mset_map mset_eq_imp_distinct_iff)
  then have "sorted_list_of_set (dom (map_of m)) = map fst (sort_key fst m)"
    by (metis dom_map_of_conv_image_fst list.set_map set_sort sorted_list_of_set.idem_if_sorted_distinct sorted_sort_key)
  moreover have "map_of m (fst x) = Some (snd x)" if "x \<in> set (sort_key fst m)" for x
    using that assms by (simp add: hm_ok_def)
  ultimately show ?thesis by (auto simp: comp_def)
qed


lemma take_finalisable_eq:
  assumes "hm_ok m" and "map_of m k = Some v"
  shows "hm_remove m k = (Some v, AList.delete k m)" and "map_of (hm_insert (AList.delete k m) k v) = map_of m"
    and "hm_ok (hm_insert (AList.delete k m) k v)" and "hm_ok (AList.delete k m)"
proof -
  show "hm_ok (AList.delete k m)" using assms(1) by (simp add: hm_ok_def distinct_delete)
  then show "hm_ok (hm_insert (AList.delete k m) k v)" by simp
  show "hm_remove m k = (Some v, AList.delete k m)" using assms(2) by (simp add: hm_remove_def)
  show "map_of (hm_insert (AList.delete k m) k v) = map_of m" using assms(2) by (simp add: delete_conv' fun_eq_iff)
qed

lemma hm_remove_none: "map_of m k = None \<Longrightarrow> hm_remove m k = (None, m)"
  by (simp add: hm_remove_def map_of_eq_None_iff)

interpretation dkg_table: ceremony_table "ceremonies_ok ds_peer_contributions" map_of ds_my_round1 ds_n
    "\<lambda>s. map_of (ds_peer_contributions s)" DkgSessions_start DkgSessions_contribute DkgSessions_take_finalisable
proof unfold_locales
  fix T :: "('s, 'p) dkg_sessions" and k sess i c
  assume ok: "ceremonies_ok ds_peer_contributions T" and s: "map_of T k = Some sess"
  then have hm: "hm_ok (ds_peer_contributions sess)" "hm_ok T" by (auto simp: ceremonies_ok_def)
  let ?s' = "sess\<lparr>ds_peer_contributions := hm_insert (ds_peer_contributions sess) i c\<rparr>"
  show "\<exists>T' sess'. DkgSessions_contribute T k i c = (Ok (card (dom (map_of (ds_peer_contributions sess')))), T') \<and>
      ceremonies_ok ds_peer_contributions T' \<and> map_of T' = (map_of T)(k \<mapsto> sess') \<and>
      map_of (ds_peer_contributions sess') = (map_of (ds_peer_contributions sess))(i \<mapsto> c) \<and>
      ds_my_round1 sess' = ds_my_round1 sess \<and> ds_n sess' = ds_n sess"
    using ok s hm by (intro exI [of _ "hm_insert T k ?s'"] exI [of _ ?s'])
      (simp add: DkgSessions_contribute_def ceremonies_ok_def Let_def length_hm_ok)
  note tf = take_finalisable_eq [OF hm(2) s]
  show "\<exists>T'. ceremonies_ok ds_peer_contributions T' \<and> DkgSessions_take_finalisable T k =
      (if card (dom (map_of (ds_peer_contributions sess))) < unat (ds_n sess - 1) then (Err (), T')
       else (Ok (ds_my_round1 sess, map (the \<circ> map_of (ds_peer_contributions sess))
          (sorted_list_of_set (dom (map_of (ds_peer_contributions sess)))), ds_n sess), T')) \<and>
      map_of T' = (if card (dom (map_of (ds_peer_contributions sess))) < unat (ds_n sess - 1) then map_of T else (map_of T)(k := None))"
    using ok tf by (cases "length (ds_peer_contributions sess) < unat (ds_n sess - 1)")
      (auto simp: DkgSessions_take_finalisable_def ceremonies_ok_def length_hm_ok [OF hm(1)] sort_key_hm [OF hm(1)] delete_conv'
        split: if_splits)
qed (auto simp: DkgSessions_start_def DkgSessions_contribute_def DkgSessions_take_finalisable_def hm_contains_key_def
    hm_remove_none)

interpretation reshare_table: ceremony_table "ceremonies_ok rs_peer_contributions" map_of rs_my_round1 rs_n
    "\<lambda>s. map_of (rs_peer_contributions s)" ReshareSessions_start ReshareSessions_contribute ReshareSessions_take_finalisable
proof unfold_locales
  fix T :: "('s, 'p) reshare_sessions" and k sess i c
  assume ok: "ceremonies_ok rs_peer_contributions T" and s: "map_of T k = Some sess"
  then have hm: "hm_ok (rs_peer_contributions sess)" "hm_ok T" by (auto simp: ceremonies_ok_def)
  let ?s' = "sess\<lparr>rs_peer_contributions := hm_insert (rs_peer_contributions sess) i c\<rparr>"
  show "\<exists>T' sess'. ReshareSessions_contribute T k i c = (Ok (card (dom (map_of (rs_peer_contributions sess')))), T') \<and>
      ceremonies_ok rs_peer_contributions T' \<and> map_of T' = (map_of T)(k \<mapsto> sess') \<and>
      map_of (rs_peer_contributions sess') = (map_of (rs_peer_contributions sess))(i \<mapsto> c) \<and>
      rs_my_round1 sess' = rs_my_round1 sess \<and> rs_n sess' = rs_n sess"
    using ok s hm by (intro exI [of _ "hm_insert T k ?s'"] exI [of _ ?s'])
      (simp add: ReshareSessions_contribute_def ceremonies_ok_def Let_def length_hm_ok)
  note tf = take_finalisable_eq [OF hm(2) s]
  show "\<exists>T'. ceremonies_ok rs_peer_contributions T' \<and> ReshareSessions_take_finalisable T k =
      (if card (dom (map_of (rs_peer_contributions sess))) < unat (rs_n sess - 1) then (Err (), T')
       else (Ok (rs_my_round1 sess, map (the \<circ> map_of (rs_peer_contributions sess))
          (sorted_list_of_set (dom (map_of (rs_peer_contributions sess)))), rs_n sess), T')) \<and>
      map_of T' = (if card (dom (map_of (rs_peer_contributions sess))) < unat (rs_n sess - 1) then map_of T else (map_of T)(k := None))"
    using ok tf by (cases "length (rs_peer_contributions sess) < unat (rs_n sess - 1)")
      (auto simp: ReshareSessions_take_finalisable_def ceremonies_ok_def length_hm_ok [OF hm(1)] sort_key_hm [OF hm(1)] delete_conv'
        split: if_splits)
qed (auto simp: ReshareSessions_start_def ReshareSessions_contribute_def ReshareSessions_take_finalisable_def hm_contains_key_def
    hm_remove_none)

end
