(* ===== verification/Storage.thy ===== *)
theory Storage
  imports Sessions
begin

text \<open>
  The validator's share records at rest (\<open>storage.rs\<close>, \<open>share_store.rs\<close>, \<open>error.rs\<close>).

  The crates that seal and print are a parameter, the record \<open>libs\<close>: hexadecimal encoding and
  ChaCha20-Poly1305. The disk is an explicit store from paths to contents; a write can fail half-way
  and a rename can fail, which the argument of type \<open>disk_fault\<close> decides. The nonce the operating
  system's generator returns is an argument.

  The locale \<open>share_store\<close> is the contract of the trait \<open>ShareStore\<close>; it is interpreted on the file
  backend and on the in-memory backend. The lemmas show that a record is read back as written and
  that a write which fails at any point leaves the previous record readable.
\<close>

section \<open>Third-party crates\<close>

record libs =
  hex_encode :: "bytes \<Rightarrow> string"
  hex_decode :: "string \<Rightarrow> bytes option"
  aead_encrypt :: "bytes \<Rightarrow> bytes \<Rightarrow> bytes \<Rightarrow> bytes option" \<comment> \<open>key, nonce, plaintext\<close>
  aead_decrypt :: "bytes \<Rightarrow> bytes \<Rightarrow> bytes \<Rightarrow> bytes option" \<comment> \<open>key, nonce, ciphertext with tag\<close>

text \<open>
  Documented behaviour: hexadecimal text decodes to what was encoded, and a ciphertext under a 32-byte
  key and a 12-byte nonce carries a 16-byte tag and decrypts to its plaintext.
\<close>

definition libs_ok :: "libs \<Rightarrow> bool" where
  "libs_ok X \<longleftrightarrow> (\<forall>bs. hex_decode X (hex_encode X bs) = Some bs) \<and>
     (\<forall>k n p c. length k = 32 \<longrightarrow> length n = 12 \<longrightarrow> aead_encrypt X k n p = Some c \<longrightarrow>
        aead_decrypt X k n c = Some p \<and> length c = length p + 16)"

definition hkdf_ok :: "('s, 'p) crypto \<Rightarrow> bool" where
  "hkdf_ok C \<longleftrightarrow> (\<forall>salt ikm info n. length (hkdf_sha512 C salt ikm info n) = n)"

lemma hex_encode_inj: "libs_ok X \<Longrightarrow> hex_encode X a = hex_encode X b \<longleftrightarrow> a = b"
  unfolding libs_ok_def by (metis option.inject)

lemma aead_laws:
  assumes "libs_ok X" and "length k = 32" and "length n = 12" and "aead_encrypt X k n p = Some c"
  shows "aead_decrypt X k n c = Some p" and "length c = length p + 16"
  using assms unfolding libs_ok_def by blast+

section \<open>Errors and records\<close>

datatype io_error = NotFound | IoOther

datatype validator_error =
    Io io_error
  | StorageCorruption
  | AeadFailure
  | HkdfFailure
  | ShareDecode
  | NoShare u16
  | Config

record validator_share_record =
  sr_keyset_id :: bytes
  sr_my_index :: u16
  sr_n :: u16
  sr_t :: u16
  sr_epoch :: u64
  sr_joint_pk_bytes :: bytes
  sr_my_share_bytes :: bytes
  sr_qual :: "u16 list"

definition ValidatorShareRecord_default :: validator_share_record where
  "ValidatorShareRecord_default = \<lparr>sr_keyset_id = replicate 33 0, sr_my_index = 0, sr_n = 0, sr_t = 0, sr_epoch = 0,
     sr_joint_pk_bytes = replicate 32 0, sr_my_share_bytes = replicate 32 0, sr_qual = []\<rparr>"

definition ser_share_record :: "validator_share_record \<Rightarrow> bytes" where
  "ser_share_record r = sr_keyset_id r @ to_le_bytes 2 (sr_my_index r) @ to_le_bytes 2 (sr_n r) @ to_le_bytes 2 (sr_t r) @
     to_le_bytes 8 (sr_epoch r) @ sr_joint_pk_bytes r @ sr_my_share_bytes r @ ser_seq (to_le_bytes 2) (sr_qual r)"

definition de_share_record :: "validator_share_record reader" where
  "de_share_record =
     rd_bind (read_exact 33) (\<lambda>kid. rd_bind (rd_word 2) (\<lambda>i. rd_bind (rd_word 2) (\<lambda>n. rd_bind (rd_word 2) (\<lambda>t.
     rd_bind (rd_word 8) (\<lambda>epoch. rd_bind (read_exact 32) (\<lambda>pk. rd_bind (read_exact 32) (\<lambda>sh.
     rd_bind (de_seq (rd_word 2)) (\<lambda>qual.
       rd_return \<lparr>sr_keyset_id = kid, sr_my_index = i, sr_n = n, sr_t = t, sr_epoch = epoch,
         sr_joint_pk_bytes = pk, sr_my_share_bytes = sh, sr_qual = qual\<rparr>))))))))"

definition share_record_wf :: "validator_share_record \<Rightarrow> bool" where
  "share_record_wf r \<longleftrightarrow> length (sr_keyset_id r) = 33 \<and> length (sr_joint_pk_bytes r) = 32 \<and>
     length (sr_my_share_bytes r) = 32 \<and> length (sr_qual r) < 2 ^ 32"

interpretation u16_codec: codec "to_le_bytes 2 :: u16 \<Rightarrow> bytes" "rd_word 2" "\<lambda>_. True"
  by unfold_locales simp

interpretation share_record_codec: codec ser_share_record de_share_record share_record_wf
proof unfold_locales
  fix r rest assume wf: "share_record_wf r"
  then have "de_seq (rd_word 2) (ser_seq (to_le_bytes 2) (sr_qual r) @ rest) = Some (sr_qual r, rest)"
    by (intro u16_codec.de_seq_ser_seq) (auto simp: share_record_wf_def list_all_iff)
  then show "de_share_record (ser_share_record r @ rest) = Some (r, rest)"
    using wf by (simp add: de_share_record_def ser_share_record_def share_record_wf_def rd_bind_def)
qed

section \<open>Sealed files\<close>

record path =
  p_dir :: string
  p_stem :: string
  p_ext :: string

type_synonym disk = "(path, bytes) hash_map"

datatype disk_fault = NoFault | WriteFault bytes | RenameFault

definition STORAGE_HKDF_SALT :: bytes where
  "STORAGE_HKDF_SALT = ascii ''TARDUS-validator-storage-v1''"

definition STORAGE_HKDF_INFO :: bytes where
  "STORAGE_HKDF_INFO = ascii ''chacha20poly1305-key''"

definition NONCE_LEN :: nat where
  "NONCE_LEN = 12"

definition derive_storage_key :: "('s, 'p) crypto \<Rightarrow> bytes \<Rightarrow> bytes" where
  "derive_storage_key C master_seed = hkdf_sha512 C STORAGE_HKDF_SALT master_seed STORAGE_HKDF_INFO 32"

text \<open>\<open>std::fs::write\<close> to the temporary file may stop after any bytes; then the rename may fail.\<close>

definition tmp_path :: "path \<Rightarrow> path" where
  "tmp_path path = path\<lparr>p_ext := ''tmp''\<rparr>"

definition write_share_record ::
    "('s, 'p) crypto \<Rightarrow> libs \<Rightarrow> disk_fault \<Rightarrow> bytes \<Rightarrow> path \<Rightarrow> bytes \<Rightarrow> validator_share_record \<Rightarrow> disk
     \<Rightarrow> (unit, validator_error) result \<times> disk" where
  "write_share_record C X fault nonce path master_seed record fs =
     (let key = derive_storage_key C master_seed;
          plaintext = ser_share_record record
      in case aead_encrypt X key nonce plaintext of
           None \<Rightarrow> (Err AeadFailure, fs)
         | Some ciphertext \<Rightarrow>
             (let sealed = nonce @ ciphertext
              in case fault of
                   WriteFault partial \<Rightarrow> (Err (Io IoOther), hm_insert fs (tmp_path path) partial)
                 | RenameFault \<Rightarrow> (Err (Io IoOther), hm_insert fs (tmp_path path) sealed)
                 | NoFault \<Rightarrow> (Ok (), hm_insert (snd (hm_remove (hm_insert fs (tmp_path path) sealed) (tmp_path path))) path sealed)))"

definition read_share_record ::
    "('s, 'p) crypto \<Rightarrow> libs \<Rightarrow> path \<Rightarrow> bytes \<Rightarrow> disk \<Rightarrow> (validator_share_record, validator_error) result" where
  "read_share_record C X path master_seed fs =
     (case map_of fs path of
        None \<Rightarrow> Err (Io NotFound)
      | Some sealed \<Rightarrow>
          if length sealed < NONCE_LEN + 16 then Err StorageCorruption
          else
            (let key = derive_storage_key C master_seed; nonce = take NONCE_LEN sealed
             in rbind (ok_or AeadFailure (aead_decrypt X key nonce (drop NONCE_LEN sealed))) (\<lambda>plaintext.
                  ok_or ShareDecode (try_from_slice de_share_record plaintext))))"

definition share_path :: "libs \<Rightarrow> string \<Rightarrow> bytes \<Rightarrow> path" where
  "share_path X data_dir keyset_id = \<lparr>p_dir = data_dir, p_stem = ''share_'' @ hex_encode X keyset_id, p_ext = ''bin''\<rparr>"

lemma share_path_simps:
  "share_path X d k \<noteq> tmp_path p" "libs_ok X \<Longrightarrow> share_path X d a = share_path X d b \<longleftrightarrow> a = b"
  by (auto simp: share_path_def tmp_path_def hex_encode_inj dest: arg_cong [of _ _ p_ext])

lemma read_sealed:
  assumes X: "libs_ok X" and C: "hkdf_ok C" and wf: "share_record_wf r" and n: "length nonce = 12"
    and enc: "aead_encrypt X (derive_storage_key C seed) nonce (ser_share_record r) = Some c"
    and fs: "map_of fs path = Some (nonce @ c)"
  shows "read_share_record C X path seed fs = Ok r"
proof -
  have "length (derive_storage_key C seed) = 32" using C by (simp add: derive_storage_key_def hkdf_ok_def)
  note aead = aead_laws [OF X this n enc]
  show ?thesis
    using fs n wf aead by (simp add: read_share_record_def NONCE_LEN_def share_record_codec.try_from_slice_ser)
qed

lemma read_cong: "map_of fs path = map_of fs' path \<Longrightarrow> read_share_record C X path seed fs = read_share_record C X path seed fs'"
  by (simp add: read_share_record_def)

text \<open>What a write does to the disk, at every point where it can stop.\<close>

lemma write_effect:
  assumes "p_ext path \<noteq> ''tmp''" and "write_share_record C X fault nonce path seed r fs = (out, fs')"
  shows "q \<noteq> path \<Longrightarrow> q \<noteq> tmp_path path \<Longrightarrow> map_of fs' q = map_of fs q"
    and "out \<noteq> Ok () \<Longrightarrow> map_of fs' path = map_of fs path"
    and "out = Ok () \<Longrightarrow> \<exists>c. aead_encrypt X (derive_storage_key C seed) nonce (ser_share_record r) = Some c \<and>
           map_of fs' path = Some (nonce @ c)"
proof -
  have "path \<noteq> tmp_path path" using assms(1) by (auto simp: tmp_path_def dest: arg_cong [of _ _ p_ext])
  then show "q \<noteq> path \<Longrightarrow> q \<noteq> tmp_path path \<Longrightarrow> map_of fs' q = map_of fs q"
    "out \<noteq> Ok () \<Longrightarrow> map_of fs' path = map_of fs path"
    "out = Ok () \<Longrightarrow> \<exists>c. aead_encrypt X (derive_storage_key C seed) nonce (ser_share_record r) = Some c \<and>
           map_of fs' path = Some (nonce @ c)"
    using assms(2) by (auto simp: write_share_record_def Let_def split: option.splits disk_fault.splits)
qed

section \<open>Share stores\<close>

text \<open>
  The contract of the trait: what was saved under an identifier is what is loaded, saving touches no
  other identifier, and a failed save changes nothing that can be loaded.
\<close>

locale share_store =
  fixes store_ok :: "'st \<Rightarrow> bool" and load :: "'st \<Rightarrow> bytes \<Rightarrow> (validator_share_record option, validator_error) result"
    and save :: "'f \<Rightarrow> 'st \<Rightarrow> validator_share_record \<Rightarrow> (unit, validator_error) result \<times> 'st" and env_ok :: "'f \<Rightarrow> bool"
  assumes save_Ok: "store_ok st \<Longrightarrow> env_ok f \<Longrightarrow> share_record_wf r \<Longrightarrow> save f st r = (Ok (), st') \<Longrightarrow>
          store_ok st' \<and> load st' (sr_keyset_id r) = Ok (Some r)"
    and save_other: "store_ok st \<Longrightarrow> save f st r = (out, st') \<Longrightarrow> k \<noteq> sr_keyset_id r \<Longrightarrow> load st' k = load st k"
    and save_failed: "store_ok st \<Longrightarrow> save f st r = (out, st') \<Longrightarrow> out \<noteq> Ok () \<Longrightarrow>
          store_ok st' \<and> load st' (sr_keyset_id r) = load st (sr_keyset_id r)"
begin

lemma save_or_keep:
  assumes "store_ok st" and "env_ok f" and "share_record_wf r" and "save f st r = (out, st')"
  shows "load st' k = load st k \<or> (out = Ok () \<and> k = sr_keyset_id r \<and> load st' k = Ok (Some r))"
  using assms save_Ok [of st f r st'] save_other [of st f r out st' k] save_failed [of st f r out st']
  by (cases "k = sr_keyset_id r"; cases "out = Ok ()") auto

end

record file_share_store =
  fss_data_dir :: string
  fss_master_seed :: bytes

definition FileShareStore_load ::
    "('s, 'p) crypto \<Rightarrow> libs \<Rightarrow> file_share_store \<Rightarrow> disk \<Rightarrow> bytes \<Rightarrow> (validator_share_record option, validator_error) result" where
  "FileShareStore_load C X st fs keyset_id =
     (case read_share_record C X (share_path X (fss_data_dir st) keyset_id) (fss_master_seed st) fs of
        Ok rec \<Rightarrow> Ok (Some rec)
      | Err e \<Rightarrow> if e = Io NotFound then Ok None else Err e
      | Panic \<Rightarrow> Panic)"

definition FileShareStore_save ::
    "('s, 'p) crypto \<Rightarrow> libs \<Rightarrow> disk_fault \<Rightarrow> bytes \<Rightarrow> file_share_store \<Rightarrow> disk \<Rightarrow> validator_share_record
     \<Rightarrow> (unit, validator_error) result \<times> disk" where
  "FileShareStore_save C X fault nonce st fs record =
     write_share_record C X fault nonce (share_path X (fss_data_dir st) (sr_keyset_id record)) (fss_master_seed st) record fs"

definition is_share_file :: "string \<Rightarrow> path \<Rightarrow> bool" where
  "is_share_file data_dir path \<longleftrightarrow> p_dir path = data_dir \<and> p_ext path = ''bin'' \<and> take 6 (p_stem path) = ''share_''"

definition FileShareStore_list ::
    "('s, 'p) crypto \<Rightarrow> libs \<Rightarrow> file_share_store \<Rightarrow> disk \<Rightarrow> (validator_share_record list, validator_error) result" where
  "FileShareStore_list C X st fs =
     Ok (List.map_filter (\<lambda>path. if is_share_file (fss_data_dir st) path
           then (case read_share_record C X path (fss_master_seed st) fs of Ok rec \<Rightarrow> Some rec | _ \<Rightarrow> None)
           else None) (map fst fs))"

type_synonym mock_share_store = "(bytes, validator_share_record) hash_map"

definition MockShareStore_load :: "mock_share_store \<Rightarrow> bytes \<Rightarrow> (validator_share_record option, validator_error) result" where
  "MockShareStore_load st keyset_id = Ok (map_of st keyset_id)"

definition MockShareStore_save ::
    "mock_share_store \<Rightarrow> validator_share_record \<Rightarrow> (unit, validator_error) result \<times> mock_share_store" where
  "MockShareStore_save st record = (Ok (), hm_insert st (sr_keyset_id record) record)"

definition MockShareStore_list :: "mock_share_store \<Rightarrow> (validator_share_record list, validator_error) result" where
  "MockShareStore_list st = Ok (map snd st)"

lemma file_store_effect:
  assumes "FileShareStore_save C X fault nonce st fs r = (out, fs')"
  shows "k \<noteq> sr_keyset_id r \<Longrightarrow> libs_ok X \<Longrightarrow> FileShareStore_load C X st fs' k = FileShareStore_load C X st fs k"
    and "out \<noteq> Ok () \<Longrightarrow> FileShareStore_load C X st fs' (sr_keyset_id r) = FileShareStore_load C X st fs (sr_keyset_id r)"
    and "out = Ok () \<Longrightarrow> libs_ok X \<Longrightarrow> hkdf_ok C \<Longrightarrow> length nonce = 12 \<Longrightarrow> share_record_wf r \<Longrightarrow>
           FileShareStore_load C X st fs' (sr_keyset_id r) = Ok (Some r)"
proof -
  let ?p = "share_path X (fss_data_dir st)"
  have "p_ext (?p (sr_keyset_id r)) \<noteq> ''tmp''" by (simp add: share_path_def)
  note eff = write_effect [OF this assms [unfolded FileShareStore_save_def]]
  show "k \<noteq> sr_keyset_id r \<Longrightarrow> libs_ok X \<Longrightarrow> FileShareStore_load C X st fs' k = FileShareStore_load C X st fs k"
    using eff(1) [of "?p k"] read_cong [of fs' "?p k" fs C X "fss_master_seed st"] by (simp add: FileShareStore_load_def share_path_simps)
  show "out \<noteq> Ok () \<Longrightarrow> FileShareStore_load C X st fs' (sr_keyset_id r) = FileShareStore_load C X st fs (sr_keyset_id r)"
    using eff(2) read_cong [of fs' "?p (sr_keyset_id r)" fs C X "fss_master_seed st"] by (simp add: FileShareStore_load_def)
  show "FileShareStore_load C X st fs' (sr_keyset_id r) = Ok (Some r)"
    if "out = Ok ()" and "libs_ok X" and "hkdf_ok C" and "length nonce = 12" and "share_record_wf r"
    using eff(3) [OF that(1)] read_sealed [OF that(2,3,5,4)] by (auto simp: FileShareStore_load_def)
qed

text \<open>The file backend: the store together with the crates it calls; the environment decides fault and nonce.\<close>

interpretation file_store: share_store "\<lambda>(C, X, st, fs). libs_ok X \<and> hkdf_ok C" "\<lambda>(C, X, st, fs). FileShareStore_load C X st fs"
    "\<lambda>(fault, nonce) (C, X, st, fs) r. let (out, fs') = FileShareStore_save C X fault nonce st fs r in (out, (C, X, st, fs'))"
    "\<lambda>(fault, nonce). length nonce = 12"
  by unfold_locales (auto simp: case_prod_beta Let_def file_store_effect [OF prod.collapse [symmetric]])

interpretation mock_store: share_store hm_ok MockShareStore_load "\<lambda>_. MockShareStore_save" "\<lambda>_. True"
  by unfold_locales (auto simp: MockShareStore_load_def MockShareStore_save_def)

section \<open>Crates for the witnesses\<close>

definition sample_libs :: libs where
  "sample_libs = \<lparr>hex_encode = map (\<lambda>b. char_of (unat b)), hex_decode = (\<lambda>s. Some (ascii s)),
     aead_encrypt = (\<lambda>k n p. Some (p @ replicate 16 0)), aead_decrypt = (\<lambda>k n c. Some (take (length c - 16) c))\<rparr>"

lemma libs_ok_sample: "libs_ok sample_libs"
proof -
  have "(word_of_nat (of_char (char_of (unat b) :: char)) :: u8) = b" for b :: u8
    using unat_less [of b] by simp
  then show ?thesis by (auto simp: libs_ok_def sample_libs_def ascii_def comp_def)
qed

lemma hkdf_ok_gf: "hkdf_ok gf_curve"
  by (auto simp: hkdf_ok_def gf_curve_def)

section \<open>Properties\<close>

text \<open>
  C24. Share records survive: whatever stops a save (encryption, a partial write, a failed rename),
  every identifier loads afterwards exactly as before, except that a save which reports success makes
  its own identifier load to exactly the saved record, under the same master seed.
\<close>

theorem share_save_crash_safe:
  assumes "libs_ok X" and "hkdf_ok C" and "length nonce = 12" and "share_record_wf r"
    and "FileShareStore_save C X fault nonce st fs r = (out, fs')"
  shows "(out = Ok () \<and> FileShareStore_load C X st fs' = (FileShareStore_load C X st fs)(sr_keyset_id r := Ok (Some r))) \<or>
         (out \<noteq> Ok () \<and> FileShareStore_load C X st fs' = FileShareStore_load C X st fs)"
proof -
  note eff = file_store_effect [OF assms(5)]
  have "FileShareStore_load C X st fs' k = FileShareStore_load C X st fs k" if "out \<noteq> Ok ()" for k
    using eff(1) [of k] eff(2) that assms(1) by (cases "k = sr_keyset_id r") simp_all
  then show ?thesis using eff(1,3) assms(1-4) by (cases "out = Ok ()") (auto simp: fun_eq_iff)
qed

theorem share_save_crash_safe_witness:
  "\<exists>fs'. FileShareStore_save gf_curve sample_libs NoFault (replicate 12 0) \<lparr>fss_data_dir = [], fss_master_seed = []\<rparr> []
       ValidatorShareRecord_default = (Ok (), fs') \<and>
     FileShareStore_load gf_curve sample_libs \<lparr>fss_data_dir = [], fss_master_seed = []\<rparr> fs' (replicate 33 0) =
       Ok (Some ValidatorShareRecord_default)"
proof -
  let ?st = "\<lparr>fss_data_dir = [], fss_master_seed = []\<rparr>" and ?r = ValidatorShareRecord_default
  obtain out fs' where s: "FileShareStore_save gf_curve sample_libs NoFault (replicate 12 0) ?st [] ?r = (out, fs')" by force
  then have "out = Ok ()"
    by (auto simp: FileShareStore_save_def write_share_record_def sample_libs_def Let_def)
  moreover have "share_record_wf ?r" by (simp add: share_record_wf_def ValidatorShareRecord_default_def)
  moreover have "sr_keyset_id ?r = replicate 33 0" by (simp add: ValidatorShareRecord_default_def)
  ultimately show ?thesis
    using share_save_crash_safe [OF libs_ok_sample hkdf_ok_gf _ _ s] s by auto
qed

end
