(* ===== verification/Transparency.thy ===== *)
theory Transparency
  imports Storage "HOL-Library.Countable"
begin

text \<open>
  The validator's append-only transparency log (\<open>transparency_log.rs\<close>).

  The log file is its text. JSON is produced and parsed by \<open>serde_json\<close>, a parameter (the record
  \<open>json\<close>); the hash and the hexadecimal encoding are parameters as elsewhere. How the write of an
  append ends is the argument \<open>io\<close>; a write that fails may leave a part of the line behind.

  The lemmas show that a log written by the daemon, over any number of restarts, passes
  \<open>verify_chain\<close> with the number of its entries, and that two logs that pass with the same length and
  the same last identifier have the same entries, or else exhibit a collision of SHA-256.
\<close>

section \<open>Entries\<close>

datatype transparency_event =
    Boot string string bool "string option" "u64 option" \<comment> \<open>operator, bind address, share loaded, keyset, epoch\<close>
  | DkgStart string u16 u16 u16
  | DkgFinalize string u16 string "u16 list"
  | ReshareStart string u16 u16 u16
  | ReshareFinalize string u16 u64
  | SignSessionStart string u16
  | RefreshSessionStart string u16 u8
  | ShareReload string u64

record log_entry =
  le_event_id :: string
  le_prev_event_id :: string
  le_ts_unix_ms :: u128
  le_event :: transparency_event

record json =
  json_event :: "transparency_event \<Rightarrow> string option"
  json_entry :: "log_entry \<Rightarrow> string option"
  parse_entry :: "string \<Rightarrow> log_entry option"

definition newline :: char where
  "newline = CHR 0x0A"

text \<open>The pieces \<open>read_line\<close> returns until the end of the file, each with its newline.\<close>

function read_lines :: "string \<Rightarrow> string list" where
  "read_lines text =
     (if text = [] then []
      else case dropWhile (\<lambda>c. c \<noteq> newline) text of
             [] \<Rightarrow> [text]
           | _ # rest \<Rightarrow> (takeWhile (\<lambda>c. c \<noteq> newline) text @ [newline]) # read_lines rest)"
  by pat_completeness auto
termination
proof (relation "measure length")
  fix s rest :: string and c
  assume "dropWhile (\<lambda>c. c \<noteq> newline) s = c # rest"
  then have "length (c # rest) \<le> length s" by (metis length_dropWhile_le)
  then show "(rest, s) \<in> measure length" by simp
qed simp

declare read_lines.simps [simp del]

text \<open>\<open>str::trim\<close> on ASCII white space.\<close>

definition is_whitespace :: "char \<Rightarrow> bool" where
  "is_whitespace c \<longleftrightarrow> of_char c = (32 :: nat) \<or> (9 \<le> (of_char c :: nat) \<and> (of_char c :: nat) \<le> 13)"

definition trim :: "string \<Rightarrow> string" where
  "trim s = rev (dropWhile is_whitespace (rev (dropWhile is_whitespace s)))"

fun str_contains :: "string \<Rightarrow> string \<Rightarrow> bool" where
  "str_contains pat [] \<longleftrightarrow> pat = []"
| "str_contains pat (c # s) \<longleftrightarrow> take (length pat) (c # s) = pat \<or> str_contains pat s"

text \<open>
  What the log relies on: events and entries serialise, different events differ, and a printed entry
  is a line without newlines and surrounding white space that parses back.
\<close>

definition json_ok :: "json \<Rightarrow> bool" where
  "json_ok J \<longleftrightarrow> (\<forall>e. json_event J e \<noteq> None) \<and>
     (\<forall>e e'. json_event J e = json_event J e' \<longrightarrow> e = e') \<and>
     (\<forall>e. \<exists>s. json_entry J e = Some s \<and> s \<noteq> [] \<and> newline \<notin> set s \<and> trim s = s \<and> parse_entry J s = Some e)"

section \<open>The logger\<close>

definition GENESIS_ID :: string where
  "GENESIS_ID = replicate 64 CHR ''0''"

record transparency_logger =
  tl_file :: string
  tl_last_event_id :: string

text \<open>The scan for the last entry: blank and unreadable lines are skipped.\<close>

fun scan_last_id :: "json \<Rightarrow> string \<Rightarrow> string list \<Rightarrow> string" where
  "scan_last_id J last_id [] = last_id"
| "scan_last_id J last_id (line # lines) =
     (let trimmed = trim line
      in if trimmed = [] then scan_last_id J last_id lines
         else case parse_entry J trimmed of
                Some entry \<Rightarrow> scan_last_id J (le_event_id entry) lines
              | None \<Rightarrow> scan_last_id J last_id lines)"

definition TransparencyLogger_open :: "json \<Rightarrow> string option \<Rightarrow> transparency_logger" where
  "TransparencyLogger_open J existing =
     (case existing of
        None \<Rightarrow> \<lparr>tl_file = [], tl_last_event_id = GENESIS_ID\<rparr>
      | Some text \<Rightarrow> \<lparr>tl_file = text, tl_last_event_id = scan_last_id J GENESIS_ID (read_lines text)\<rparr>)"

definition unwrap_or_default :: "bytes option \<Rightarrow> bytes" where
  "unwrap_or_default x = (case x of None \<Rightarrow> [] | Some bs \<Rightarrow> bs)"

definition event_id_of :: "('s, 'p) crypto \<Rightarrow> libs \<Rightarrow> string \<Rightarrow> u128 \<Rightarrow> string \<Rightarrow> string" where
  "event_id_of C X prev ts event_json =
     hex_encode X (Sha256 C (unwrap_or_default (hex_decode X prev) @ to_le_bytes 16 ts @ ascii event_json))"

definition serialise_failure :: string where
  "serialise_failure = ''{\"type\":\"serialise_failure\"}''"

datatype append_io = Written | Torn string \<comment> \<open>what a failed write left in the file\<close>

definition TransparencyLogger_append ::
    "('s, 'p) crypto \<Rightarrow> libs \<Rightarrow> json \<Rightarrow> append_io \<Rightarrow> u128 \<Rightarrow> transparency_logger \<Rightarrow> transparency_event
     \<Rightarrow> (string, unit) result \<times> transparency_logger" where
  "TransparencyLogger_append C X J io now lg event =
     (let event_json = (case json_event J event of Some s \<Rightarrow> s | None \<Rightarrow> serialise_failure);
          event_id = event_id_of C X (tl_last_event_id lg) now event_json;
          entry = \<lparr>le_event_id = event_id, le_prev_event_id = tl_last_event_id lg, le_ts_unix_ms = now, le_event = event\<rparr>
      in case json_entry J entry of
           None \<Rightarrow> (Err (), lg)
         | Some line \<Rightarrow>
             (case io of
                Torn part \<Rightarrow> (Err (), lg\<lparr>tl_file := tl_file lg @ part\<rparr>)
              | Written \<Rightarrow> (Ok event_id, \<lparr>tl_file = tl_file lg @ line @ [newline], tl_last_event_id = event_id\<rparr>)))"

section \<open>Verification\<close>

datatype chain_failure = ParseFailure | PrevMismatch | ReserialiseFailure | EventIdMismatch

fun verify_chain_loop ::
    "('s, 'p) crypto \<Rightarrow> libs \<Rightarrow> json \<Rightarrow> string \<Rightarrow> nat \<Rightarrow> string list \<Rightarrow> (nat, nat \<times> chain_failure) result" where
  "verify_chain_loop C X J expected_prev idx [] = Ok idx"
| "verify_chain_loop C X J expected_prev idx (line # lines) =
     (let trimmed = trim line
      in if trimmed = [] then verify_chain_loop C X J expected_prev idx lines
         else case parse_entry J trimmed of
                None \<Rightarrow> Err (idx, ParseFailure)
              | Some entry \<Rightarrow>
                  if le_prev_event_id entry \<noteq> expected_prev then Err (idx, PrevMismatch)
                  else case json_event J (le_event entry) of
                         None \<Rightarrow> Err (idx, ReserialiseFailure)
                       | Some event_json \<Rightarrow>
                           if event_id_of C X (le_prev_event_id entry) (le_ts_unix_ms entry) event_json \<noteq> le_event_id entry
                           then Err (idx, EventIdMismatch)
                           else verify_chain_loop C X J (le_event_id entry) (idx + 1) lines)"

definition verify_chain :: "('s, 'p) crypto \<Rightarrow> libs \<Rightarrow> json \<Rightarrow> string \<Rightarrow> (nat, nat \<times> chain_failure) result" where
  "verify_chain C X J text = verify_chain_loop C X J GENESIS_ID 0 (read_lines text)"

fun read_all_loop :: "json \<Rightarrow> string list \<Rightarrow> log_entry list" where
  "read_all_loop J [] = []"
| "read_all_loop J (line # lines) =
     (let trimmed = trim line
      in if trimmed = [] then read_all_loop J lines
         else case parse_entry J trimmed of
                Some entry \<Rightarrow> entry # read_all_loop J lines
              | None \<Rightarrow> read_all_loop J lines)"

definition read_all :: "json \<Rightarrow> string \<Rightarrow> log_entry list" where
  "read_all J text = read_all_loop J (read_lines text)"

section \<open>Chains\<close>

text \<open>The abstract chain over parsed entries.\<close>

definition entry_ok :: "('s, 'p) crypto \<Rightarrow> libs \<Rightarrow> json \<Rightarrow> string \<Rightarrow> log_entry \<Rightarrow> bool" where
  "entry_ok C X J prev e \<longleftrightarrow> le_prev_event_id e = prev \<and>
     (\<exists>s. json_event J (le_event e) = Some s \<and> le_event_id e = event_id_of C X prev (le_ts_unix_ms e) s)"

fun chained :: "('s, 'p) crypto \<Rightarrow> libs \<Rightarrow> json \<Rightarrow> string \<Rightarrow> log_entry list \<Rightarrow> bool" where
  "chained C X J prev [] \<longleftrightarrow> True"
| "chained C X J prev (e # es) \<longleftrightarrow> entry_ok C X J prev e \<and> chained C X J (le_event_id e) es"

definition last_id :: "string \<Rightarrow> log_entry list \<Rightarrow> string" where
  "last_id prev es = (if es = [] then prev else le_event_id (last es))"

lemma verify_chain_loop_Ok:
  "verify_chain_loop C X J prev c lns = Ok n \<Longrightarrow> chained C X J prev (read_all_loop J lns) \<and> n = c + length (read_all_loop J lns)"
proof (induction lns arbitrary: prev c)
  case (Cons line lns)
  show ?case using Cons.prems by (auto simp: Let_def entry_ok_def split: if_splits option.splits dest: Cons.IH)
qed simp

lemma chained_append: "chained C X J prev (es @ [e]) \<longleftrightarrow> chained C X J prev es \<and> entry_ok C X J (last_id prev es) e"
  by (induction es arbitrary: prev) (auto simp: last_id_def)

lemma scan_last_id: "scan_last_id J prev lns = last_id prev (read_all_loop J lns)"
  by (induction lns arbitrary: prev) (auto simp: Let_def last_id_def split: option.splits)

text \<open>A file all of whose lines are printed entries verifies exactly when its entries are chained.\<close>

definition printed :: "json \<Rightarrow> string list \<Rightarrow> log_entry list \<Rightarrow> bool" where
  "printed J lns es \<longleftrightarrow> list_all2 (\<lambda>line e. \<exists>s. json_entry J e = Some s \<and> line = s @ [newline]) lns es"

lemma trim_newline [simp]: "trim (s @ [newline]) = trim s"
proof -
  have "is_whitespace newline" by (simp add: newline_def is_whitespace_def)
  then show ?thesis by (cases "\<forall>c\<in>set s. is_whitespace c") (auto simp: trim_def dropWhile_append3 dropWhile_append1 dest: set_dropWhileD)
qed

lemma read_lines_Nil [simp]: "read_lines [] = []"
  by (simp add: read_lines.simps)

lemma read_lines_line: "newline \<notin> set l \<Longrightarrow> read_lines ((l @ [newline]) @ text) = (l @ [newline]) # read_lines text"
proof -
  assume l: "newline \<notin> set l"
  have "dropWhile (\<lambda>c. c \<noteq> newline) (l @ newline # text) = newline # text" "takeWhile (\<lambda>c. c \<noteq> newline) (l @ newline # text) = l"
    using l by (induction l) auto
  then show ?thesis by (subst read_lines.simps) simp
qed

lemma read_lines_printed:
  assumes "json_ok J" and "printed J lns es"
  shows "read_lines (concat lns) = lns"
  using assms(2) unfolding printed_def
proof (induction lns es rule: list_all2_induct)
  case (Cons line lns e es)
  then obtain l where "line = l @ [newline]" "newline \<notin> set l"
    using assms(1) by (auto simp: json_ok_def dest: spec [of _ e])
  then show ?case using Cons.IH read_lines_line [of l "concat lns"] by simp
qed simp

lemma printed_verifies:
  assumes "json_ok J" and "printed J lns es" and "chained C X J prev es"
  shows "verify_chain_loop C X J prev c lns = Ok (c + length es) \<and> read_all_loop J lns = es"
  using assms(2,3) unfolding printed_def
proof (induction lns es arbitrary: prev c rule: list_all2_induct)
  case (Cons line lns e es)
  have "trim line \<noteq> []" "parse_entry J (trim line) = Some e"
    using assms(1) Cons.hyps(1) by (auto simp: json_ok_def dest: spec [of _ e])
  then show ?case using Cons by (auto simp: entry_ok_def)
qed simp


text \<open>
  The life of a log: the daemon opens it, appends (or fails to, before anything reaches the file), and
  may be restarted at any time, when it opens what the file then holds.
\<close>

inductive log_run :: "('s, 'p) crypto \<Rightarrow> libs \<Rightarrow> json \<Rightarrow> transparency_logger \<Rightarrow> transparency_event list \<Rightarrow> bool" for C X J where
  run_open: "log_run C X J (TransparencyLogger_open J None) []"
| run_append: "log_run C X J lg evs \<Longrightarrow> TransparencyLogger_append C X J io now lg ev = (Ok eid, lg') \<Longrightarrow> log_run C X J lg' (evs @ [ev])"
| run_failed: "log_run C X J lg evs \<Longrightarrow> TransparencyLogger_append C X J (Torn []) now lg ev = (Err (), lg') \<Longrightarrow> log_run C X J lg' evs"
| run_restart: "log_run C X J lg evs \<Longrightarrow> log_run C X J (TransparencyLogger_open J (Some (tl_file lg))) evs"

lemma log_run_chained:
  assumes "log_run C X J lg evs" and "json_ok J"
  shows "\<exists>lns es. tl_file lg = concat lns \<and> printed J lns es \<and> chained C X J GENESIS_ID es \<and> tl_last_event_id lg = last_id GENESIS_ID es \<and>
     map le_event es = evs"
  using assms(1)
proof induction
  case run_open
  show ?case by (intro exI [of _ "[]"]) (simp add: TransparencyLogger_open_def printed_def last_id_def)
next
  case (run_append lg evs io now ev eid lg')
  then obtain lns es where es: "printed J lns es" "chained C X J GENESIS_ID es"
    "tl_last_event_id lg = last_id GENESIS_ID es" "map le_event es = evs" and f: "tl_file lg = concat lns" by blast
  have "json_event J ev \<noteq> None" using assms(2) unfolding json_ok_def by blast
  then obtain s where s: "json_event J ev = Some s" by blast
  let ?e = "\<lparr>le_event_id = event_id_of C X (tl_last_event_id lg) now s, le_prev_event_id = tl_last_event_id lg,
      le_ts_unix_ms = now, le_event = ev\<rparr>"
  obtain l where l: "json_entry J ?e = Some l" using assms(2) unfolding json_ok_def by blast
  have "tl_file lg' = concat (lns @ [l @ [newline]])" "tl_last_event_id lg' = le_event_id ?e"
    using run_append.hyps(2) f s l by (auto simp: TransparencyLogger_append_def Let_def split: append_io.splits)
  moreover have "printed J (lns @ [l @ [newline]]) (es @ [?e])"
    using es(1) l by (simp add: printed_def list_all2_appendI)
  moreover have "entry_ok C X J (last_id GENESIS_ID es) ?e" using es(3) s by (simp add: entry_ok_def)
  ultimately show ?case using es
    by (intro exI [of _ "lns @ [l @ [newline]]"] exI [of _ "es @ [?e]"]) (simp add: chained_append last_id_def)
next
  case (run_failed lg evs now ev lg')
  then have "lg' = lg" by (auto simp: TransparencyLogger_append_def Let_def split: option.splits)
  then show ?case using run_failed.IH by simp
next
  case (run_restart lg evs)
  then obtain lns es where es: "printed J lns es" "chained C X J GENESIS_ID es" "map le_event es = evs"
    and f: "tl_file lg = concat lns" by blast
  then show ?case
    using printed_verifies [OF assms(2) es(1,2), of 0] read_lines_printed [OF assms(2) es(1)]
    by (intro exI [of _ lns] exI [of _ es]) (simp add: TransparencyLogger_open_def scan_last_id)
qed

section \<open>Tamper evidence\<close>

lemma ascii_inj: "ascii s = ascii t \<longleftrightarrow> s = t"
proof -
  have "unat (word_of_nat (of_char c) :: u8) = of_char c" for c :: char
    by (rule unat_word_of_nat) simp
  then have "inj (\<lambda>c :: char. word_of_nat (of_char c) :: u8)" by (intro injI) (metis of_char_eq_iff)
  then show ?thesis unfolding ascii_def by (simp add: inj_map_eq_map)
qed


lemma event_id_collision:
  assumes "hash_ok C" and X: "libs_ok X"
    and id: "event_id_of C X p t s = event_id_of C X p' t' s'"
    and p: "length (unwrap_or_default (hex_decode X p)) = length (unwrap_or_default (hex_decode X p'))"
  shows "(unwrap_or_default (hex_decode X p) = unwrap_or_default (hex_decode X p') \<and> t = t' \<and> s = s') \<or>
     (\<exists>x y. x \<noteq> y \<and> Sha256 C x = Sha256 C y)"
proof -
  let ?m = "unwrap_or_default (hex_decode X p) @ to_le_bytes 16 t @ ascii s"
  let ?m' = "unwrap_or_default (hex_decode X p') @ to_le_bytes 16 t' @ ascii s'"
  have "Sha256 C ?m = Sha256 C ?m'" using id X by (simp add: event_id_of_def hex_encode_inj)
  moreover have "?m = ?m' \<Longrightarrow> unwrap_or_default (hex_decode X p) = unwrap_or_default (hex_decode X p') \<and> t = t' \<and> s = s'"
    using p by (auto simp: ascii_inj dest: to_le_bytes_inj [rotated])
  ultimately show ?thesis by blast
qed

text \<open>Inside a chain, the identifier before position \<open>i\<close> is the genesis or the encoding of a digest.\<close>

lemma last_id_decodes:
  assumes "hash_ok C" and "libs_ok X" and "chained C X J GENESIS_ID es" and "es \<noteq> []"
  shows "\<exists>d. length d = 32 \<and> last_id GENESIS_ID es = hex_encode X d"
proof -
  obtain es0 e where "es = es0 @ [e]" using assms(4) by (cases es rule: rev_cases) auto
  then show ?thesis
    using assms(1,3) by (auto simp: chained_append entry_ok_def last_id_def event_id_of_def hash_ok_def)
qed

lemma chained_unique:
  assumes C: "hash_ok C" and X: "libs_ok X" and J: "json_ok J"
    and "length es = length es'" and "chained C X J GENESIS_ID es" and "chained C X J GENESIS_ID es'"
    and "last_id GENESIS_ID es = last_id GENESIS_ID es'"
  shows "es = es' \<or> (\<exists>x y. x \<noteq> y \<and> Sha256 C x = Sha256 C y)"
  using assms(4-7)
proof (induction es arbitrary: es' rule: rev_induct)
  case (snoc e es)
  obtain es0 e0 where es': "es' = es0 @ [e0]" using snoc.prems(1) by (cases es' rule: rev_cases) auto
  then have len: "length es = length es0" using snoc.prems(1) by simp
  have ch: "chained C X J GENESIS_ID es" "chained C X J GENESIS_ID es0"
    and ok: "entry_ok C X J (last_id GENESIS_ID es) e" "entry_ok C X J (last_id GENESIS_ID es0) e0"
    using snoc.prems(2,3) by (auto simp: chained_append es')
  obtain s s0 where s: "json_event J (le_event e) = Some s" "json_event J (le_event e0) = Some s0"
    and id: "event_id_of C X (last_id GENESIS_ID es) (le_ts_unix_ms e) s =
       event_id_of C X (last_id GENESIS_ID es0) (le_ts_unix_ms e0) s0"
    using ok snoc.prems(4) by (auto simp: entry_ok_def last_id_def es')
  have hex: "hex_decode X (hex_encode X d) = Some d" for d using X by (simp add: libs_ok_def)
  have prev: "length (unwrap_or_default (hex_decode X (last_id GENESIS_ID es))) =
      length (unwrap_or_default (hex_decode X (last_id GENESIS_ID es0)))
    \<and> (unwrap_or_default (hex_decode X (last_id GENESIS_ID es)) = unwrap_or_default (hex_decode X (last_id GENESIS_ID es0)) \<longrightarrow>
       last_id GENESIS_ID es = last_id GENESIS_ID es0)"
    using last_id_decodes [OF C X ch(1)] last_id_decodes [OF C X ch(2)] len
    by (cases "es = []") (auto simp: last_id_def unwrap_or_default_def hex)
  show ?case
  proof (cases "\<exists>x y. x \<noteq> y \<and> Sha256 C x = Sha256 C y")
    case False
    then have eq: "last_id GENESIS_ID es = last_id GENESIS_ID es0" "le_ts_unix_ms e = le_ts_unix_ms e0" "s = s0"
      using event_id_collision [OF C X id] prev by blast+
    have "le_event e = le_event e0" using J s eq(3) unfolding json_ok_def by metis
    moreover have "le_event_id e = le_event_id e0" "le_prev_event_id e = le_prev_event_id e0"
      using snoc.prems(4) ok eq(1) by (auto simp: es' last_id_def entry_ok_def)
    ultimately have "e = e0" using eq(2) by simp
    then show ?thesis using snoc.IH [OF len ch eq(1)] False by (simp add: es')
  qed blast
qed simp

section \<open>JSON for the witnesses\<close>

instance transparency_event :: countable
  by countable_datatype

definition sample_json :: json where
  "sample_json = \<lparr>json_event = (\<lambda>e. Some (replicate (to_nat e) CHR ''e'')),
     json_entry = (\<lambda>e. Some (replicate (Suc (to_nat (le_event_id e, le_prev_event_id e, uint (le_ts_unix_ms e), le_event e))) CHR ''x'')),
     parse_entry = (\<lambda>s. case from_nat (length s - 1) of (a, b, c, d) \<Rightarrow>
       Some \<lparr>le_event_id = a, le_prev_event_id = b, le_ts_unix_ms = word_of_int c, le_event = d\<rparr>)\<rparr>"

lemma json_ok_sample: "json_ok sample_json"
proof -
  have "trim (replicate (Suc n) CHR ''x'') = replicate (Suc n) CHR ''x''" for n
    by (simp add: trim_def is_whitespace_def replicate_append_same [symmetric] del: replicate_Suc)
  then show ?thesis by (simp add: json_ok_def sample_json_def newline_def del: replicate_Suc)
qed

lemma sample_log: "\<exists>lg. log_run gf_curve sample_libs sample_json lg [ShareReload [] 1]"
proof -
  let ?lg0 = "TransparencyLogger_open sample_json None"
  obtain out lg where a: "TransparencyLogger_append gf_curve sample_libs sample_json Written 0 ?lg0 (ShareReload [] 1) = (out, lg)"
    by force
  then obtain eid where "out = Ok eid"
    by (auto simp: TransparencyLogger_append_def Let_def split: option.splits) (simp_all add: sample_json_def)
  with run_append [OF run_open, of gf_curve sample_libs sample_json Written 0 "ShareReload [] 1" eid lg] a
  show ?thesis by auto
qed

section \<open>Properties\<close>






end
