(* ===== verification/Program_State.thy ===== *)
theory Program_State
  imports Coin "HOL-Library.List_Lexorder"
begin

text \<open>
  Account state of the on-chain program \<open>tardus-program\<close> (\<open>state.rs\<close>, \<open>error.rs\<close>) with the Borsh
  formats the accounts are stored in.

  The \<open>BTreeSet\<close> of nullifiers is its ascending list of 32-byte arrays, compared lexicographically
  as Rust compares arrays; decoding collects the elements into such a set without insisting on
  their order.

  The locale \<open>account_slot\<close> is the contract of the load and store helpers of
  \<open>sbf_processor.rs\<close>: an account holds the encoding of a value followed by padding, and an account
  of zeros holds the default value.
\<close>

section \<open>Errors\<close>

datatype program_error =
    ProgCore core_error
  | UnknownKeysetId
  | KeysetRevoked
  | KeysetAlreadyRegistered
  | KeysetRegistryFull
  | ProgCoinSignatureInvalid
  | ProgCoinPubkeyMismatch
  | DoubleSpend
  | DepositAmountMismatch
  | RefreshDenominationMismatch
  | VaultInsufficientCollateral
  | VaultInvariantViolation
  | InsufficientThresholdAuth
  | InstructionMalformed

section \<open>Keysets\<close>

datatype keyset_status = KActive | KRevoked

record keyset_entry =
  ke_keyset_id :: bytes
  ke_denom :: u64
  ke_joint_pk :: bytes
  ke_epoch :: u64
  ke_status :: keyset_status

definition KEYSET_REGISTRY_CAPACITY :: nat where
  "KEYSET_REGISTRY_CAPACITY = 256"

record keyset_registry =
  kr_version :: u8
  kr_entries :: "keyset_entry list"

definition KeysetRegistry_new :: keyset_registry where
  "KeysetRegistry_new = \<lparr>kr_version = 1, kr_entries = []\<rparr>"

definition KeysetRegistry_find :: "keyset_registry \<Rightarrow> bytes \<Rightarrow> keyset_entry option" where
  "KeysetRegistry_find reg keyset_id = find (\<lambda>e. ke_keyset_id e = keyset_id) (kr_entries reg)"

text \<open>\<open>Iterator::max_by_key\<close>: of several maximal elements it returns the last one.\<close>

definition max_by_key :: "('a \<Rightarrow> 'k::linorder) \<Rightarrow> 'a list \<Rightarrow> 'a option" where
  "max_by_key f xs = fold (\<lambda>x best. case best of
       None \<Rightarrow> Some x
     | Some b \<Rightarrow> if f b \<le> f x then Some x else Some b) xs None"

definition find_active_for_denom :: "keyset_registry \<Rightarrow> u64 \<Rightarrow> keyset_entry option" where
  "find_active_for_denom reg denom =
     max_by_key ke_epoch (filter (\<lambda>e. ke_denom e = denom \<and> ke_status e = KActive) (kr_entries reg))"

text \<open>Updating the entry that \<open>find_mut\<close> returns: the first with the identifier.\<close>

fun update_first :: "('a \<Rightarrow> bool) \<Rightarrow> ('a \<Rightarrow> 'a) \<Rightarrow> 'a list \<Rightarrow> 'a list option" where
  "update_first P f [] = None"
| "update_first P f (x # xs) = (if P x then Some (f x # xs) else map_option ((#) x) (update_first P f xs))"

definition KeysetRegistry_find_mut ::
    "keyset_registry \<Rightarrow> bytes \<Rightarrow> (keyset_entry \<Rightarrow> keyset_entry) \<Rightarrow> keyset_registry option" where
  "KeysetRegistry_find_mut reg keyset_id f =
     map_option (\<lambda>es. reg\<lparr>kr_entries := es\<rparr>) (update_first (\<lambda>e. ke_keyset_id e = keyset_id) f (kr_entries reg))"

section \<open>Vault, nullifiers, sponsor pool\<close>

record vault =
  v_denom :: u64
  v_collateral :: u64

definition Vault_new :: "u64 \<Rightarrow> vault" where
  "Vault_new denom = \<lparr>v_denom = denom, v_collateral = 0\<rparr>"

datatype nullifier_set = NullifierSet (leaves: "bytes list")

definition NullifierSet_new :: nullifier_set where
  "NullifierSet_new = NullifierSet []"

definition NullifierSet_insert :: "nullifier_set \<Rightarrow> bytes \<Rightarrow> bool \<times> nullifier_set" where
  "NullifierSet_insert ns n =
     (if n \<in> set (leaves ns) then (False, ns) else (True, NullifierSet (insort n (leaves ns))))"

definition NullifierSet_contains :: "nullifier_set \<Rightarrow> bytes \<Rightarrow> bool" where
  "NullifierSet_contains ns n \<longleftrightarrow> n \<in> set (leaves ns)"

definition NullifierSet_len :: "nullifier_set \<Rightarrow> nat" where
  "NullifierSet_len ns = length (leaves ns)"

record sponsor_pool =
  sp_last_payout_slot :: u64
  sp_total_payouts :: u64
  sp_total_deposits :: u64

definition SponsorPool_default :: sponsor_pool where
  "SponsorPool_default = \<lparr>sp_last_payout_slot = 0, sp_total_payouts = 0, sp_total_deposits = 0\<rparr>"

definition MIN_SLOTS_BETWEEN_PAYOUTS :: u64 where
  "MIN_SLOTS_BETWEEN_PAYOUTS = 5"

section \<open>Formats\<close>

definition ser_status :: "keyset_status \<Rightarrow> bytes" where
  "ser_status st = (case st of KActive \<Rightarrow> [0] | KRevoked \<Rightarrow> [1])"

definition de_status :: "keyset_status reader" where
  "de_status = rd_bind rd_byte (\<lambda>b.
     if b = 0 then rd_return KActive else if b = 1 then rd_return KRevoked else rd_fail)"

definition ser_keyset_entry :: "keyset_entry \<Rightarrow> bytes" where
  "ser_keyset_entry e = ke_keyset_id e @ to_le_bytes 8 (ke_denom e) @ ke_joint_pk e @
     to_le_bytes 8 (ke_epoch e) @ ser_status (ke_status e)"

definition de_keyset_entry :: "keyset_entry reader" where
  "de_keyset_entry =
     rd_bind (read_exact 33) (\<lambda>kid. rd_bind (rd_word 8) (\<lambda>denom. rd_bind (read_exact 32) (\<lambda>pk.
     rd_bind (rd_word 8) (\<lambda>epoch. rd_bind de_status (\<lambda>st.
       rd_return \<lparr>ke_keyset_id = kid, ke_denom = denom, ke_joint_pk = pk, ke_epoch = epoch, ke_status = st\<rparr>)))))"

definition ser_registry :: "keyset_registry \<Rightarrow> bytes" where
  "ser_registry reg = [kr_version reg] @ ser_seq ser_keyset_entry (kr_entries reg)"

definition de_registry :: "keyset_registry reader" where
  "de_registry = rd_bind rd_byte (\<lambda>v. rd_bind (de_seq de_keyset_entry) (\<lambda>es.
     rd_return \<lparr>kr_version = v, kr_entries = es\<rparr>))"

definition ser_nullifiers :: "nullifier_set \<Rightarrow> bytes" where
  "ser_nullifiers ns = ser_seq (\<lambda>n. n) (leaves ns)"

definition de_nullifiers :: "nullifier_set reader" where
  "de_nullifiers = rd_bind (de_seq (read_exact 32)) (\<lambda>ns. rd_return (NullifierSet (sort (remdups ns))))"

definition ser_sponsor_pool :: "sponsor_pool \<Rightarrow> bytes" where
  "ser_sponsor_pool p = to_le_bytes 8 (sp_last_payout_slot p) @ to_le_bytes 8 (sp_total_payouts p) @
     to_le_bytes 8 (sp_total_deposits p)"

definition de_sponsor_pool :: "sponsor_pool reader" where
  "de_sponsor_pool = rd_bind (rd_word 8) (\<lambda>a. rd_bind (rd_word 8) (\<lambda>b. rd_bind (rd_word 8) (\<lambda>c.
     rd_return \<lparr>sp_last_payout_slot = a, sp_total_payouts = b, sp_total_deposits = c\<rparr>)))"

section \<open>Well-formedness\<close>

definition entry_wf :: "keyset_entry \<Rightarrow> bool" where
  "entry_wf e \<longleftrightarrow> length (ke_keyset_id e) = 33 \<and> length (ke_joint_pk e) = 32"

text \<open>The registry invariant: unique identifiers, within capacity, current version.\<close>

definition registry_wf :: "keyset_registry \<Rightarrow> bool" where
  "registry_wf reg \<longleftrightarrow> kr_version reg = 1 \<and> list_all entry_wf (kr_entries reg) \<and> distinct (map ke_keyset_id (kr_entries reg)) \<and>
     length (kr_entries reg) \<le> KEYSET_REGISTRY_CAPACITY"

definition nullifiers_wf :: "nullifier_set \<Rightarrow> bool" where
  "nullifiers_wf ns \<longleftrightarrow> sorted (leaves ns) \<and> distinct (leaves ns) \<and>
     list_all (\<lambda>n. length n = 32) (leaves ns) \<and> length (leaves ns) < 2 ^ 32"

interpretation status_codec: codec ser_status de_status "\<lambda>_. True"
  by unfold_locales (simp add: ser_status_def de_status_def rd_bind_def split: keyset_status.splits)

interpretation entry_codec: codec ser_keyset_entry de_keyset_entry entry_wf
  by unfold_locales
    (simp add: ser_keyset_entry_def de_keyset_entry_def entry_wf_def rd_bind_def status_codec.de_ser)

interpretation registry_codec: codec ser_registry de_registry registry_wf
proof unfold_locales
  fix reg rest assume "registry_wf reg"
  then have "de_seq de_keyset_entry (ser_seq ser_keyset_entry (kr_entries reg) @ rest) = Some (kr_entries reg, rest)"
    by (intro entry_codec.de_seq_ser_seq) (auto simp: registry_wf_def KEYSET_REGISTRY_CAPACITY_def)
  then show "de_registry (ser_registry reg @ rest) = Some (reg, rest)"
    by (simp add: de_registry_def ser_registry_def rd_bind_def)
qed

interpretation nullifiers_codec: codec ser_nullifiers de_nullifiers nullifiers_wf
proof unfold_locales
  fix ns rest assume wf: "nullifiers_wf ns"
  then have "de_seq (read_exact 32) (ser_seq (\<lambda>n. n) (leaves ns) @ rest) = Some (leaves ns, rest)"
    by (intro arr.de_seq_ser_seq) (auto simp: nullifiers_wf_def)
  then show "de_nullifiers (ser_nullifiers ns @ rest) = Some (ns, rest)"
    using wf by (simp add: de_nullifiers_def ser_nullifiers_def rd_bind_def nullifiers_wf_def
        distinct_remdups_id sorted_sort_id)
qed

interpretation sponsor_pool_codec: codec ser_sponsor_pool de_sponsor_pool "\<lambda>_. True"
  by unfold_locales (simp add: ser_sponsor_pool_def de_sponsor_pool_def rd_bind_def)

section \<open>Account slots\<close>

locale account_slot = codec ser de ok
  for ser :: "'a \<Rightarrow> bytes" and de :: "'a reader" and ok :: "'a \<Rightarrow> bool" +
  fixes default :: 'a and load :: "bytes \<Rightarrow> ('a, 'e) result" and store :: "'a \<Rightarrow> bytes \<Rightarrow> (bytes, 'e) result"
  assumes default_ok: "ok default"
    and load_zero: "list_all (\<lambda>b. b = 0) data \<Longrightarrow> load data = Ok default"
    and load_ser: "ok v \<Longrightarrow> load (ser v @ pad) = Ok v"
    and store_Ok: "store v data = Ok data' \<longleftrightarrow>
           length (ser v) \<le> length data \<and> data' = ser v @ drop (length (ser v)) data"
begin

definition holds :: "bytes \<Rightarrow> bool" where
  "holds data \<longleftrightarrow> list_all (\<lambda>b. b = 0) data \<or> (\<exists>v pad. ok v \<and> data = ser v @ pad)"

lemma holds_load: "holds data \<Longrightarrow> \<exists>v. ok v \<and> load data = Ok v"
  unfolding holds_def using load_zero load_ser default_ok by blast

lemma load_store:
  assumes "ok v" and "store v data = Ok data'"
  shows "load data' = Ok v" and "holds data'" and "length data' = length data"
  using assms by (auto simp: store_Ok load_ser holds_def)

lemma load_grow:
  assumes "holds data"
  shows "load (data @ replicate n 0) = load data" and "holds (data @ replicate n 0)"
proof -
  consider "list_all (\<lambda>b. b = 0) data" | v pad where "ok v" "data = ser v @ pad"
    using assms by (auto simp: holds_def)
  then have "load (data @ replicate n 0) = load data \<and> holds (data @ replicate n 0)"
  proof cases
    case 1
    then have "list_all (\<lambda>b. b = 0) (data @ replicate n 0)" by (auto simp: list_all_iff)
    then show ?thesis using 1 by (simp add: load_zero holds_def)
  next
    case 2
    then show ?thesis unfolding holds_def by (auto simp: load_ser)
  qed
  then show "load (data @ replicate n 0) = load data" "holds (data @ replicate n 0)" by simp_all
qed

lemma holds_zeros: "holds (replicate n 0)" and load_zeros: "load (replicate n 0) = Ok default"
  by (simp_all add: holds_def load_zero list_all_iff)

end

end
