(* ===== verification/Program_Instruction.thy ===== *)
theory Program_Instruction
  imports Program_State
begin

text \<open>
  The instruction set of \<open>tardus-program\<close> and its hand-written Borsh format (\<open>instruction.rs\<close>), and
  the seeds of the program's accounts (\<open>pda.rs\<close>).

  The lemmas show that the decoder reads back every encoded instruction, that the format is
  prefix-free, and that the strict entry point accepts an encoding and nothing with bytes left over.
\<close>

section \<open>Instructions\<close>

datatype bootstrap_kind = BKeysetRegistry | BNullifierTree | BVault | BSponsorPool

definition as_byte :: "bootstrap_kind \<Rightarrow> u8" where
  "as_byte k = (case k of BKeysetRegistry \<Rightarrow> 0 | BNullifierTree \<Rightarrow> 1 | BVault \<Rightarrow> 2 | BSponsorPool \<Rightarrow> 3)"

definition try_from_byte :: "u8 \<Rightarrow> bootstrap_kind option" where
  "try_from_byte b =
     (if b = 0 then Some BKeysetRegistry else if b = 1 then Some BNullifierTree
      else if b = 2 then Some BVault else if b = 3 then Some BSponsorPool else None)"

datatype instruction =
    RegisterKeyset (rk_keyset_id: bytes) (rk_denom: u64) (rk_joint_pk: bytes) (rk_epoch: u64) (rk_authorization: bytes)
  | Deposit u64 u64
  | Refresh bytes signature u64
  | Withdraw bytes signature u64 bytes
  | Revoke bytes bytes
  | Bootstrap bootstrap_kind u32 u64
  | SponsorDeposit u64
  | ResizeAccount bootstrap_kind u32 u64
  | SponsorPayout u64 bytes

section \<open>Format\<close>

fun ser_instruction :: "instruction \<Rightarrow> bytes" where
  "ser_instruction (RegisterKeyset keyset_id denom joint_pk epoch authorization) =
     [0] @ keyset_id @ to_le_bytes 8 denom @ joint_pk @ to_le_bytes 8 epoch @ ser_seq (\<lambda>b. [b]) authorization"
| "ser_instruction (Deposit denom lamports) = [1] @ to_le_bytes 8 denom @ to_le_bytes 8 lamports"
| "ser_instruction (Refresh coin_pubkey coin_sig denom) =
     [2] @ coin_pubkey @ Signature_to_bytes coin_sig @ to_le_bytes 8 denom"
| "ser_instruction (Withdraw coin_pubkey coin_sig denom recipient) =
     [3] @ coin_pubkey @ Signature_to_bytes coin_sig @ to_le_bytes 8 denom @ recipient"
| "ser_instruction (Revoke keyset_id authorization) = [4] @ keyset_id @ ser_seq (\<lambda>b. [b]) authorization"
| "ser_instruction (Bootstrap account_kind alloc_size denom) =
     [5] @ [as_byte account_kind] @ to_le_bytes 4 alloc_size @ to_le_bytes 8 denom"
| "ser_instruction (SponsorDeposit amount) = [6] @ to_le_bytes 8 amount"
| "ser_instruction (SponsorPayout lamports recipient) = [7] @ to_le_bytes 8 lamports @ recipient"
| "ser_instruction (ResizeAccount account_kind new_size denom) =
     [8] @ [as_byte account_kind] @ to_le_bytes 4 new_size @ to_le_bytes 8 denom"

definition rd_kind :: "bootstrap_kind reader" where
  "rd_kind = rd_bind rd_byte (\<lambda>b. case try_from_byte b of None \<Rightarrow> rd_fail | Some k \<Rightarrow> rd_return k)"

definition rd_signature :: "signature reader" where
  "rd_signature = rd_bind (read_exact 64) (\<lambda>bs. rd_return (Signature_from_bytes bs))"

definition de_instruction :: "instruction reader" where
  "de_instruction = rd_bind rd_byte (\<lambda>tag.
     if tag = 0 then
       rd_bind (read_exact 33) (\<lambda>keyset_id. rd_bind (rd_word 8) (\<lambda>denom. rd_bind (read_exact 32) (\<lambda>joint_pk.
       rd_bind (rd_word 8) (\<lambda>epoch. rd_bind (de_seq rd_byte) (\<lambda>authorization.
         rd_return (RegisterKeyset keyset_id denom joint_pk epoch authorization))))))
     else if tag = 1 then
       rd_bind (rd_word 8) (\<lambda>denom. rd_bind (rd_word 8) (\<lambda>lamports. rd_return (Deposit denom lamports)))
     else if tag = 2 then
       rd_bind (read_exact 32) (\<lambda>coin_pubkey. rd_bind rd_signature (\<lambda>coin_sig. rd_bind (rd_word 8) (\<lambda>denom.
         rd_return (Refresh coin_pubkey coin_sig denom))))
     else if tag = 3 then
       rd_bind (read_exact 32) (\<lambda>coin_pubkey. rd_bind rd_signature (\<lambda>coin_sig. rd_bind (rd_word 8) (\<lambda>denom.
       rd_bind (read_exact 32) (\<lambda>recipient.
         rd_return (Withdraw coin_pubkey coin_sig denom recipient)))))
     else if tag = 4 then
       rd_bind (read_exact 33) (\<lambda>keyset_id. rd_bind (de_seq rd_byte) (\<lambda>authorization.
         rd_return (Revoke keyset_id authorization)))
     else if tag = 5 then
       rd_bind rd_kind (\<lambda>account_kind. rd_bind (rd_word 4) (\<lambda>alloc_size. rd_bind (rd_word 8) (\<lambda>denom.
         rd_return (Bootstrap account_kind alloc_size denom))))
     else if tag = 6 then
       rd_bind (rd_word 8) (\<lambda>amount. rd_return (SponsorDeposit amount))
     else if tag = 7 then
       rd_bind (rd_word 8) (\<lambda>lamports. rd_bind (read_exact 32) (\<lambda>recipient.
         rd_return (SponsorPayout lamports recipient)))
     else if tag = 8 then
       rd_bind rd_kind (\<lambda>account_kind. rd_bind (rd_word 4) (\<lambda>new_size. rd_bind (rd_word 8) (\<lambda>denom.
         rd_return (ResizeAccount account_kind new_size denom))))
     else rd_fail)"

text \<open>The array lengths that the Rust types fix.\<close>

fun instruction_wf :: "instruction \<Rightarrow> bool" where
  "instruction_wf (RegisterKeyset kid d pk e a) \<longleftrightarrow> length kid = 33 \<and> length pk = 32 \<and> length a < 2 ^ 32"
| "instruction_wf (Refresh cp sig d) \<longleftrightarrow> length cp = 32 \<and> sig_wf sig"
| "instruction_wf (Withdraw cp sig d r) \<longleftrightarrow> length cp = 32 \<and> sig_wf sig \<and> length r = 32"
| "instruction_wf (Revoke kid a) \<longleftrightarrow> length kid = 33 \<and> length a < 2 ^ 32"
| "instruction_wf (SponsorPayout l r) \<longleftrightarrow> length r = 32"
| "instruction_wf _ \<longleftrightarrow> True"

section \<open>Account seeds\<close>

definition TARDUS_PREFIX :: bytes where
  "TARDUS_PREFIX = ascii ''tardus''"

definition keyset_registry_seeds :: "bytes list" where
  "keyset_registry_seeds = [TARDUS_PREFIX, ascii ''keyset-registry'']"

definition vault_seeds :: "u64 \<Rightarrow> bytes list" where
  "vault_seeds denom = [TARDUS_PREFIX, ascii ''vault'', to_le_bytes 8 denom]"

definition nullifier_tree_seeds :: "bytes list" where
  "nullifier_tree_seeds = [TARDUS_PREFIX, ascii ''nullifier-tree'']"

definition sponsor_pool_seeds :: "bytes list" where
  "sponsor_pool_seeds = [TARDUS_PREFIX, ascii ''sponsor-pool'']"

section \<open>The format satisfies the codec contract\<close>

lemma rd_signature_append:
  "sig_wf sig \<Longrightarrow> rd_signature (Signature_to_bytes sig @ rest) = Some (sig, rest)"
  by (auto simp: rd_signature_def rd_bind_def Signature_to_bytes_def Signature_from_bytes_def sig_wf_def read_exact_def)

lemma rd_kind_Cons: "rd_kind (as_byte k # rest) = Some (k, rest)"
  by (cases k) (simp_all add: rd_kind_def as_byte_def try_from_byte_def rd_bind_def)

lemma de_bytes_append: "length a < 2 ^ 32 \<Longrightarrow> de_seq rd_byte (ser_seq (\<lambda>b. [b]) a @ rest) = Some (a, rest)"
  by (rule bytes_codec.de_ser) (simp add: list_all_iff)

lemmas instruction_readers = de_instruction_def rd_bind_def rd_signature_append rd_kind_Cons de_bytes_append

interpretation instruction_codec: codec ser_instruction de_instruction instruction_wf
proof unfold_locales
  fix ix rest assume "instruction_wf ix"
  then show "de_instruction (ser_instruction ix @ rest) = Some (ix, rest)"
    by (cases ix) (simp_all add: instruction_readers)
qed

lemma seeds_distinct:
  "keyset_registry_seeds \<noteq> nullifier_tree_seeds" "keyset_registry_seeds \<noteq> sponsor_pool_seeds"
  "nullifier_tree_seeds \<noteq> sponsor_pool_seeds" "vault_seeds d \<noteq> keyset_registry_seeds"
  "vault_seeds d \<noteq> nullifier_tree_seeds" "vault_seeds d \<noteq> sponsor_pool_seeds"
  by (simp_all add: keyset_registry_seeds_def nullifier_tree_seeds_def sponsor_pool_seeds_def vault_seeds_def)
    (simp_all add: ascii_def)

lemma vault_seeds_inj: "vault_seeds d = vault_seeds e \<longleftrightarrow> d = e"
  by (auto simp: vault_seeds_def dest: to_le_bytes_inj [rotated])

section \<open>Properties\<close>

text \<open>
  C35. The instruction format is sound: every well-formed instruction decodes from its encoding with
  nothing left over, an encoding is never a proper prefix of another or equal to that of another
  instruction, and trailing bytes are rejected.
\<close>

theorem instruction_roundtrip:
  assumes "instruction_wf ix"
  shows "try_from_slice de_instruction (ser_instruction ix) = Some ix \<and>
         (extra \<noteq> [] \<longrightarrow> try_from_slice de_instruction (ser_instruction ix @ extra) = None) \<and>
         (\<forall>ix' rest. instruction_wf ix' \<and> ser_instruction ix = ser_instruction ix' @ rest \<longrightarrow> ix = ix' \<and> rest = [])"
proof (intro conjI allI impI)
  show "try_from_slice de_instruction (ser_instruction ix) = Some ix"
    using assms by (rule instruction_codec.try_from_slice_ser)
  show "try_from_slice de_instruction (ser_instruction ix @ extra) = None" if "extra \<noteq> []"
    using that instruction_codec.de_ser [OF assms, of extra] by (simp add: try_from_slice_def split: list.splits)
  fix ix' rest assume a: "instruction_wf ix' \<and> ser_instruction ix = ser_instruction ix' @ rest"
  then show "ix = ix'" "rest = []"
    using instruction_codec.ser_prefix_free [OF assms, of ix' "[]" rest] by auto
qed

theorem instruction_roundtrip_witness:
  "try_from_slice de_instruction (ser_instruction (Deposit 5 7)) = Some (Deposit 5 7) \<and>
   try_from_slice de_instruction (ser_instruction (Deposit 5 7) @ [0]) = None"
  using instruction_roundtrip [of "Deposit 5 7" "[0]"] by simp

end
