(* ===== verification/Processor.thy ===== *)
theory Processor
  imports Program_Instruction
begin

text \<open>
  The runtime-independent instruction processors of \<open>tardus-program\<close> (\<open>processor.rs\<close>). A processor
  takes its state by mutable reference, so it returns the outcome together with the state it leaves
  behind, also when it fails.

  The state machine at the end runs arbitrary sequences of instructions over one registry, one
  vault and one nullifier set; its reachable states keep the registry invariant, never spend a
  nullifier twice and conserve the collateral.
\<close>

section \<open>Processors\<close>

definition compute_nullifier :: "('s, 'p) crypto \<Rightarrow> bytes \<Rightarrow> bytes" where
  "compute_nullifier C coin_pubkey = Sha256 C (NULLIFIER_DOMAIN @ coin_pubkey)"

definition process_register_keyset ::
    "keyset_registry \<Rightarrow> instruction \<Rightarrow> (unit, program_error) result \<times> keyset_registry" where
  "process_register_keyset registry ix =
     (case ix of
        RegisterKeyset keyset_id denom joint_pk epoch _ \<Rightarrow>
          if KeysetRegistry_find registry keyset_id \<noteq> None then (Err KeysetAlreadyRegistered, registry)
          else if length (kr_entries registry) \<ge> KEYSET_REGISTRY_CAPACITY then (Err KeysetRegistryFull, registry)
          else (Ok (), registry\<lparr>kr_entries := kr_entries registry @
                 [\<lparr>ke_keyset_id = keyset_id, ke_denom = denom, ke_joint_pk = joint_pk, ke_epoch = epoch,
                   ke_status = KActive\<rparr>]\<rparr>)
      | _ \<Rightarrow> (Err InstructionMalformed, registry))"

definition process_deposit ::
    "keyset_registry \<Rightarrow> vault \<Rightarrow> instruction \<Rightarrow> (unit, program_error) result \<times> vault" where
  "process_deposit registry vault ix =
     (case ix of
        Deposit denom lamports \<Rightarrow>
          if denom \<noteq> lamports then (Err DepositAmountMismatch, vault)
          else if v_denom vault \<noteq> denom then (Err VaultInvariantViolation, vault)
          else (case find_active_for_denom registry denom of
                  None \<Rightarrow> (Err UnknownKeysetId, vault)
                | Some entry \<Rightarrow>
                    if ke_status entry \<noteq> KActive then (Err KeysetRevoked, vault)
                    else (case checked_add (v_collateral vault) lamports of
                            None \<Rightarrow> (Err VaultInvariantViolation, vault)
                          | Some c \<Rightarrow> (Ok (), vault\<lparr>v_collateral := c\<rparr>)))
      | _ \<Rightarrow> (Err InstructionMalformed, vault))"

definition verify_coin_for_spend ::
    "('s, 'p::ab_group_add) crypto \<Rightarrow> keyset_registry \<Rightarrow> u64 \<Rightarrow> bytes \<Rightarrow> signature
     \<Rightarrow> (unit, program_error) result" where
  "verify_coin_for_spend C registry denom coin_pubkey coin_sig =
     rbind (ok_or UnknownKeysetId (find_active_for_denom registry denom)) (\<lambda>entry.
       if ke_status entry \<noteq> KActive then Err KeysetRevoked
       else
         rbind (map_err ProgCore (PublicKey_from_bytes C coin_pubkey)) (\<lambda>_.
         rbind (map_err ProgCore (PublicKey_from_bytes C (ke_joint_pk entry))) (\<lambda>joint_pk.
         rbind (map_err ProgCore (schnorr_verify C joint_pk coin_pubkey coin_sig)) (\<lambda>ok.
           if \<not> ok then Err ProgCoinSignatureInvalid else Ok ()))))"

definition process_refresh ::
    "('s, 'p::ab_group_add) crypto \<Rightarrow> keyset_registry \<Rightarrow> nullifier_set \<Rightarrow> instruction
     \<Rightarrow> (bytes, program_error) result \<times> nullifier_set" where
  "process_refresh C registry nullifiers ix =
     (case ix of
        Refresh coin_pubkey coin_sig denom \<Rightarrow>
          (case verify_coin_for_spend C registry denom coin_pubkey coin_sig of
             Ok _ \<Rightarrow>
               (let nullifier = compute_nullifier C coin_pubkey;
                    (inserted, nullifiers') = NullifierSet_insert nullifiers nullifier
                in if \<not> inserted then (Err DoubleSpend, nullifiers') else (Ok nullifier, nullifiers'))
           | Err e \<Rightarrow> (Err e, nullifiers)
           | Panic \<Rightarrow> (Panic, nullifiers))
      | _ \<Rightarrow> (Err InstructionMalformed, nullifiers))"

record withdraw_outcome =
  wo_nullifier :: bytes
  wo_recipient :: bytes
  wo_lamports_released :: u64

definition process_withdraw ::
    "('s, 'p::ab_group_add) crypto \<Rightarrow> keyset_registry \<Rightarrow> vault \<Rightarrow> nullifier_set \<Rightarrow> instruction
     \<Rightarrow> (withdraw_outcome, program_error) result \<times> vault \<times> nullifier_set" where
  "process_withdraw C registry vault nullifiers ix =
     (case ix of
        Withdraw coin_pubkey coin_sig denom recipient \<Rightarrow>
          if v_denom vault \<noteq> denom then (Err VaultInvariantViolation, vault, nullifiers)
          else
            (case verify_coin_for_spend C registry denom coin_pubkey coin_sig of
               Ok _ \<Rightarrow>
                 (let nullifier = compute_nullifier C coin_pubkey;
                      (inserted, nullifiers') = NullifierSet_insert nullifiers nullifier
                  in if \<not> inserted then (Err DoubleSpend, vault, nullifiers')
                     else if v_collateral vault < denom then (Err VaultInsufficientCollateral, vault, nullifiers')
                     else (Ok \<lparr>wo_nullifier = nullifier, wo_recipient = recipient, wo_lamports_released = denom\<rparr>,
                           vault\<lparr>v_collateral := v_collateral vault - denom\<rparr>, nullifiers'))
             | Err e \<Rightarrow> (Err e, vault, nullifiers)
             | Panic \<Rightarrow> (Panic, vault, nullifiers))
      | _ \<Rightarrow> (Err InstructionMalformed, vault, nullifiers))"

definition process_revoke ::
    "keyset_registry \<Rightarrow> instruction \<Rightarrow> (unit, program_error) result \<times> keyset_registry" where
  "process_revoke registry ix =
     (case ix of
        Revoke keyset_id _ \<Rightarrow>
          (case KeysetRegistry_find_mut registry keyset_id (\<lambda>e. e\<lparr>ke_status := KRevoked\<rparr>) of
             None \<Rightarrow> (Err UnknownKeysetId, registry)
           | Some registry' \<Rightarrow> (Ok (), registry'))
      | _ \<Rightarrow> (Err InstructionMalformed, registry))"

section \<open>Searching the registry\<close>

lemma fold_max_by_key:
  assumes "fold (\<lambda>x best. case best of None \<Rightarrow> Some x | Some b \<Rightarrow> if f b \<le> f x then Some x else Some b) xs (Some b) = r"
  shows "\<exists>m. r = Some m \<and> (m = b \<or> m \<in> set xs) \<and> f b \<le> f m \<and> (\<forall>x \<in> set xs. f x \<le> (f m :: 'k::linorder))"
  using assms
proof (induction xs arbitrary: b)
  case Nil
  then show ?case by auto
next
  case (Cons x xs)
  let ?c = "if f b \<le> f x then x else b"
  obtain m where m: "r = Some m" "m = ?c \<or> m \<in> set xs" "f ?c \<le> f m" "\<forall>y \<in> set xs. f y \<le> f m"
    using Cons.IH [of ?c] Cons.prems by (auto split: if_splits)
  then show ?case by (intro exI [of _ m]) (auto split: if_splits)
qed

lemma max_by_key_None: "max_by_key f xs = None \<longleftrightarrow> xs = []"
proof (cases xs)
  case (Cons x ys)
  then show ?thesis using fold_max_by_key [of f ys x, OF refl] by (auto simp: max_by_key_def)
qed (simp add: max_by_key_def)

lemma max_by_key_Some:
  assumes "max_by_key f xs = Some m"
  shows "m \<in> set xs" and "\<forall>x \<in> set xs. f x \<le> f m"
proof -
  obtain y ys where xs: "xs = y # ys" using assms by (cases xs) (auto simp: max_by_key_def)
  then show "m \<in> set xs" "\<forall>x \<in> set xs. f x \<le> f m"
    using fold_max_by_key [of f ys y, OF refl] assms by (auto simp: max_by_key_def)
qed

lemma find_active_Some:
  assumes "find_active_for_denom reg d = Some e"
  shows "e \<in> set (kr_entries reg)" and "ke_denom e = d" and "ke_status e = KActive"
    and "\<forall>x \<in> set (kr_entries reg). ke_denom x = d \<and> ke_status x = KActive \<longrightarrow> ke_epoch x \<le> ke_epoch e"
  using max_by_key_Some [OF assms [unfolded find_active_for_denom_def]] by auto

lemma find_active_None:
  "find_active_for_denom reg d = None \<longleftrightarrow>
     (\<forall>e \<in> set (kr_entries reg). ke_denom e = d \<longrightarrow> ke_status e \<noteq> KActive)"
  by (auto simp: find_active_for_denom_def max_by_key_None filter_empty_conv)

lemma update_first_Some:
  assumes "update_first P f xs = Some ys"
  shows "\<exists>i < length xs. P (xs ! i) \<and> ys = xs[i := f (xs ! i)] \<and> (\<forall>j < i. \<not> P (xs ! j))"
  using assms
proof (induction xs arbitrary: ys)
  case (Cons x xs)
  show ?case
  proof (cases "P x")
    case True
    then show ?thesis using Cons.prems by (intro exI [of _ 0]) auto
  next
    case False
    then obtain zs where "update_first P f xs = Some zs" "ys = x # zs" using Cons.prems by auto
    moreover then obtain i where "i < length xs" "P (xs ! i)" "zs = xs[i := f (xs ! i)]" "\<forall>j < i. \<not> P (xs ! j)"
      using Cons.IH by blast
    ultimately show ?thesis using False by (intro exI [of _ "Suc i"]) (auto simp: less_Suc_eq_0_disj)
  qed
qed simp

lemma update_first_None: "update_first P f xs = None \<longleftrightarrow> (\<forall>x \<in> set xs. \<not> P x)"
  by (induction xs) auto

section \<open>Spending\<close>

lemma nullifier_insert_fresh:
  assumes "nullifiers_wf ns" and "length n = 32" and "n \<notin> set (leaves ns)" and "length (leaves ns) + 1 < 2 ^ 32"
  shows "nullifiers_wf (NullifierSet (insort n (leaves ns)))"
  using assms by (auto simp: nullifiers_wf_def sorted_insort distinct_insort list_all_iff set_insort_key)

lemma verify_coin_for_spend_Ok:
  "verify_coin_for_spend C registry denom cp sig = Ok () \<longleftrightarrow>
     (\<exists>e P X. find_active_for_denom registry denom = Some e \<and>
        decompress C cp = Some P \<and> is_torsion_free C P \<and>
        decompress C (ke_joint_pk e) = Some X \<and> is_torsion_free C X \<and>
        schnorr_verify C (PublicKey (ke_joint_pk e)) cp sig = Ok True)"
  by (auto simp: verify_coin_for_spend_def PublicKey_from_bytes_def dest: find_active_Some split: if_splits)

lemma verify_coin_for_spend_no_panic: "verify_coin_for_spend C registry denom cp sig \<noteq> Panic"
  by (auto simp: verify_coin_for_spend_def rbind_eq_Panic PublicKey_from_bytes_def schnorr_verify_def
      pk_point_def Let_def split: if_splits)

lemma process_refresh_Ok:
  "process_refresh C reg ns ix = (Ok n, ns') \<longleftrightarrow>
     (\<exists>cp sig d. ix = Refresh cp sig d \<and> verify_coin_for_spend C reg d cp sig = Ok () \<and>
        n = compute_nullifier C cp \<and> n \<notin> set (leaves ns) \<and> ns' = NullifierSet (insort n (leaves ns)))"
  by (cases ix) (auto simp: process_refresh_def NullifierSet_insert_def Let_def split: result.splits)

lemma process_withdraw_Ok:
  "process_withdraw C reg v ns ix = (Ok w, v', ns') \<longleftrightarrow>
     (\<exists>cp sig d r. ix = Withdraw cp sig d r \<and> v_denom v = d \<and> verify_coin_for_spend C reg d cp sig = Ok () \<and>
        compute_nullifier C cp \<notin> set (leaves ns) \<and> d \<le> v_collateral v \<and>
        w = \<lparr>wo_nullifier = compute_nullifier C cp, wo_recipient = r, wo_lamports_released = d\<rparr> \<and>
        v' = v\<lparr>v_collateral := v_collateral v - d\<rparr> \<and>
        ns' = NullifierSet (insort (compute_nullifier C cp) (leaves ns)))"
  by (cases ix) (auto simp: process_withdraw_def NullifierSet_insert_def not_less Let_def split: result.splits)

lemma process_deposit_Ok:
  "process_deposit reg v ix = (Ok (), v') \<longleftrightarrow>
     (\<exists>l. ix = Deposit l l \<and> v_denom v = l \<and> find_active_for_denom reg l \<noteq> None \<and>
        unat (v_collateral v) + unat l < 2 ^ 64 \<and> v' = v\<lparr>v_collateral := v_collateral v + l\<rparr>)"
  by (cases ix) (auto simp: process_deposit_def checked_add_def dest: find_active_Some(3) split: option.splits)

lemma process_register_wf:
  assumes "registry_wf reg" and "instruction_wf ix"
  shows "registry_wf (snd (process_register_keyset reg ix))"
  using assms
  by (cases ix) (auto simp: process_register_keyset_def registry_wf_def KeysetRegistry_find_def find_None_iff
      entry_wf_def list_all_iff)

lemma process_revoke_wf:
  assumes "registry_wf reg"
  shows "registry_wf (snd (process_revoke reg ix))"
proof (cases "\<exists>kid a reg'. ix = Revoke kid a \<and>
    KeysetRegistry_find_mut reg kid (\<lambda>e. e\<lparr>ke_status := KRevoked\<rparr>) = Some reg'")
  case True
  then obtain kid a reg' where ix: "ix = Revoke kid a"
    and f: "KeysetRegistry_find_mut reg kid (\<lambda>e. e\<lparr>ke_status := KRevoked\<rparr>) = Some reg'" by blast
  then obtain es where es: "update_first (\<lambda>e. ke_keyset_id e = kid) (\<lambda>e. e\<lparr>ke_status := KRevoked\<rparr>) (kr_entries reg) = Some es"
    and reg': "reg' = reg\<lparr>kr_entries := es\<rparr>" by (auto simp: KeysetRegistry_find_mut_def)
  obtain i where i: "i < length (kr_entries reg)"
    "es = (kr_entries reg)[i := (kr_entries reg ! i)\<lparr>ke_status := KRevoked\<rparr>]"
    using update_first_Some [OF es] by blast
  have ids: "map ke_keyset_id es = map ke_keyset_id (kr_entries reg)"
    using i by (simp add: map_update list_update_same_conv)
  have "entry_wf e" if "e \<in> set es" for e
  proof -
    have "e \<in> set (kr_entries reg) \<or> e = (kr_entries reg ! i)\<lparr>ke_status := KRevoked\<rparr>"
      using that i set_update_subset_insert by fastforce
    then show ?thesis using assms i(1) by (auto simp: registry_wf_def entry_wf_def list_all_iff)
  qed
  then have "list_all entry_wf es" by (simp add: list_all_iff)
  moreover have "length es = length (kr_entries reg)" using i(2) by simp
  ultimately show ?thesis
    using assms ids by (simp add: ix f process_revoke_def reg' registry_wf_def)
next
  case False
  then show ?thesis using assms by (cases ix) (auto simp: process_revoke_def split: option.splits)
qed

section \<open>The processors as a state machine\<close>

record bank =
  bk_registry :: keyset_registry
  bk_vault :: vault
  bk_nullifiers :: nullifier_set

datatype event = EvNone | EvDeposit u64 | EvSpend bytes | EvRelease bytes u64

definition bank_init :: "u64 \<Rightarrow> bank" where
  "bank_init denom = \<lparr>bk_registry = KeysetRegistry_new, bk_vault = Vault_new denom, bk_nullifiers = NullifierSet_new\<rparr>"

text \<open>A failed instruction leaves the state as it was: the transaction does not commit.\<close>

inductive bank_step :: "('s, 'p::ab_group_add) crypto \<Rightarrow> bank \<Rightarrow> event \<Rightarrow> bank \<Rightarrow> bool" for C where
  step_register: "process_register_keyset (bk_registry st) ix = (Ok (), reg') \<Longrightarrow> instruction_wf ix \<Longrightarrow>
     bank_step C st EvNone (st\<lparr>bk_registry := reg'\<rparr>)"
| step_revoke: "process_revoke (bk_registry st) ix = (Ok (), reg') \<Longrightarrow>
     bank_step C st EvNone (st\<lparr>bk_registry := reg'\<rparr>)"
| step_deposit: "process_deposit (bk_registry st) (bk_vault st) (Deposit d l) = (Ok (), v') \<Longrightarrow>
     bank_step C st (EvDeposit l) (st\<lparr>bk_vault := v'\<rparr>)"
| step_refresh: "process_refresh C (bk_registry st) (bk_nullifiers st) ix = (Ok n, ns') \<Longrightarrow>
     bank_step C st (EvSpend n) (st\<lparr>bk_nullifiers := ns'\<rparr>)"
| step_withdraw: "process_withdraw C (bk_registry st) (bk_vault st) (bk_nullifiers st) ix = (Ok w, v', ns') \<Longrightarrow>
     bank_step C st (EvRelease (wo_nullifier w) (wo_lamports_released w)) (st\<lparr>bk_vault := v', bk_nullifiers := ns'\<rparr>)"
| step_failed: "bank_step C st EvNone st"

inductive_cases bank_spendE: "bank_step C st (EvSpend n) st'"
inductive_cases bank_releaseE: "bank_step C st (EvRelease n l) st'"

inductive bank_exec :: "('s, 'p::ab_group_add) crypto \<Rightarrow> bank \<Rightarrow> event list \<Rightarrow> bank \<Rightarrow> bool" for C where
  exec_nil: "bank_exec C st [] st"
| exec_step: "bank_exec C st log st' \<Longrightarrow> bank_step C st' ev st'' \<Longrightarrow> bank_exec C st (log @ [ev]) st''"

fun spent_of :: "event \<Rightarrow> bytes list" where
  "spent_of (EvSpend n) = [n]"
| "spent_of (EvRelease n _) = [n]"
| "spent_of _ = []"

fun deposited_of :: "event \<Rightarrow> nat" where
  "deposited_of (EvDeposit l) = unat l"
| "deposited_of _ = 0"

fun released_of :: "event \<Rightarrow> nat" where
  "released_of (EvRelease _ l) = unat l"
| "released_of _ = 0"

definition spent :: "event list \<Rightarrow> bytes list" where
  "spent log = concat (map spent_of log)"

definition bank_inv :: "bank \<Rightarrow> event list \<Rightarrow> bool" where
  "bank_inv st log \<longleftrightarrow> registry_wf (bk_registry st) \<and>
     set (leaves (bk_nullifiers st)) = set (spent log) \<and> distinct (spent log) \<and>
     unat (v_collateral (bk_vault st)) + (\<Sum>ev \<leftarrow> log. released_of ev) = (\<Sum>ev \<leftarrow> log. deposited_of ev)"

lemma bank_inv_step:
  assumes "bank_inv st log" and "bank_step C st ev st'"
  shows "bank_inv st' (log @ [ev])"
  using assms(2)
proof cases
  case (step_register ix reg')
  then show ?thesis using assms(1) process_register_wf [of "bk_registry st" ix] by (simp add: bank_inv_def spent_def)
next
  case (step_revoke ix reg')
  then show ?thesis using assms(1) process_revoke_wf [of "bk_registry st" ix] by (simp add: bank_inv_def spent_def)
next
  case (step_deposit d l v')
  then show ?thesis using assms(1)
    by (auto simp: bank_inv_def spent_def process_deposit_Ok unat_add_no_overflow)
next
  case (step_refresh ix n ns')
  then show ?thesis using assms(1)
    by (auto simp: bank_inv_def spent_def process_refresh_Ok set_insort_key)
next
  case (step_withdraw ix w v' ns')
  then show ?thesis using assms(1)
    by (auto simp: bank_inv_def spent_def process_withdraw_Ok set_insort_key unat_sub word_le_nat_alt)
next
  case step_failed
  then show ?thesis using assms(1) by (simp add: bank_inv_def spent_def)
qed

lemma bank_inv_exec: "bank_exec C st log st' \<Longrightarrow> bank_inv st [] \<Longrightarrow> bank_inv st' log"
  by (induction rule: bank_exec.induct) (auto intro: bank_inv_step)

lemma bank_inv_init: "bank_inv (bank_init denom) []"
  by (simp add: bank_inv_def bank_init_def registry_wf_def KeysetRegistry_new_def NullifierSet_new_def
      Vault_new_def spent_def KEYSET_REGISTRY_CAPACITY_def)


lemma bank_exec_snoc:
  assumes "bank_exec C st (log @ [ev]) st''"
  shows "\<exists>st'. bank_exec C st log st' \<and> bank_step C st' ev st''"
  using assms by (cases rule: bank_exec.cases) auto

section \<open>A concrete run\<close>

text \<open>At the witness instance: register a keyset for denomination 1, deposit 1, withdraw a signed coin.\<close>

definition gf_sig :: signature where
  "gf_sig = fst (schnorr_sign gf_curve tape_rng (SecretKey 5) (PublicKey (gf_bytes 5)) (gf_bytes 4) [6])"

definition gf_registry :: keyset_registry where
  "gf_registry = \<lparr>kr_version = 1, kr_entries = [\<lparr>ke_keyset_id = replicate 33 0, ke_denom = 1,
     ke_joint_pk = gf_bytes 5, ke_epoch = 0, ke_status = KActive\<rparr>]\<rparr>"

lemma gf_find_active: "find_active_for_denom gf_registry 1 = Some (hd (kr_entries gf_registry))"
  by (simp add: gf_registry_def find_active_for_denom_def max_by_key_def)

lemma gf_sig_verifies: "schnorr_verify gf_curve (PublicKey (gf_bytes 5)) (gf_bytes 4) gf_sig = Ok True"
  unfolding gf_sig_def by (rule schnorr_sign_complete [OF curve_ok_gf]) simp

lemma gf_coin_verifies: "verify_coin_for_spend gf_curve gf_registry 1 (gf_bytes 4) gf_sig = Ok ()"
  using gf_sig_verifies by (auto simp: verify_coin_for_spend_Ok gf_find_active) (simp_all add: gf_registry_def)

lemma length_gf_bytes [simp]: "length (gf_bytes x) = 32"
  by (simp add: gf_bytes_def)

lemma gf_run:
  "\<exists>st. bank_exec gf_curve (bank_init 1)
     ([EvNone, EvDeposit 1] @ [EvRelease (compute_nullifier gf_curve (gf_bytes 4)) 1]) st"
proof -
  let ?s0 = "bank_init 1"
  let ?s1 = "?s0\<lparr>bk_registry := gf_registry\<rparr>"
  let ?s2 = "?s1\<lparr>bk_vault := \<lparr>v_denom = 1, v_collateral = 1\<rparr>\<rparr>"
  have "process_register_keyset (bk_registry ?s0) (RegisterKeyset (replicate 33 0) 1 (gf_bytes 5) 0 []) = (Ok (), gf_registry)"
    by (simp add: process_register_keyset_def bank_init_def KeysetRegistry_new_def KeysetRegistry_find_def
        KEYSET_REGISTRY_CAPACITY_def gf_registry_def)
  then have 1: "bank_step gf_curve ?s0 EvNone ?s1" by (rule bank_step.step_register) simp
  have "process_deposit (bk_registry ?s1) (bk_vault ?s1) (Deposit 1 1) = (Ok (), \<lparr>v_denom = 1, v_collateral = 1\<rparr>)"
    by (simp add: process_deposit_Ok gf_find_active bank_init_def Vault_new_def)
  then have 2: "bank_step gf_curve ?s1 (EvDeposit 1) ?s2" by (rule bank_step.step_deposit)
  have "process_withdraw gf_curve (bk_registry ?s2) (bk_vault ?s2) (bk_nullifiers ?s2)
      (Withdraw (gf_bytes 4) gf_sig 1 []) =
      (Ok \<lparr>wo_nullifier = compute_nullifier gf_curve (gf_bytes 4), wo_recipient = [], wo_lamports_released = 1\<rparr>,
       \<lparr>v_denom = 1, v_collateral = 0\<rparr>, NullifierSet [compute_nullifier gf_curve (gf_bytes 4)])"
    by (simp add: process_withdraw_Ok gf_coin_verifies bank_init_def NullifierSet_new_def)
  from bank_step.step_withdraw [OF this]
  have "\<exists>s3. bank_step gf_curve ?s2 (EvRelease (compute_nullifier gf_curve (gf_bytes 4)) 1) s3" by auto
  then show ?thesis
    using exec_step [OF exec_step [OF exec_nil 1] 2] exec_step by fastforce
qed

section \<open>Valid coins are accepted\<close>

text \<open>
  The chain accepts exactly what the mint signs: a coin that verifies under the joint key of the
  denomination's current keyset is accepted by \<open>process_refresh\<close> unless its nullifier was already
  spent, and the recorded nullifier is the one the wallet computes for the coin.
\<close>

lemma refresh_accepts_valid_coin:
  assumes ok: "curve_ok C" and c: "coin_ok C c" and e: "find_active_for_denom reg d = Some e"
    and X: "ke_joint_pk e = compress C X" "is_torsion_free C X"
    and v: "Coin_verify C c (PublicKey (ke_joint_pk e)) = Ok True"
  shows "process_refresh C reg ns (Refresh (coin_pubkey_bytes c) (coin_signature c) d) =
     (if nullifier C c \<in> set (leaves ns) then (Err DoubleSpend, ns)
      else (Ok (nullifier C c), NullifierSet (insort (nullifier C c) (leaves ns))))"
proof -
  have "verify_coin_for_spend C reg d (coin_pubkey_bytes c) (coin_signature c) = Ok ()"
    using assms by (auto simp: verify_coin_for_spend_Ok coin_ok_def Coin_verify_def)
  then show ?thesis
    by (simp add: process_refresh_def NullifierSet_insert_def compute_nullifier_def nullifier_def nullifier_of_def Let_def)
qed

section \<open>Properties\<close>

text \<open>
  C1. No double spending and conservation of collateral: after any sequence of processed
  instructions, starting from an empty deployment, no nullifier was spent twice by refreshes and
  withdrawals together, the nullifier set contains exactly the spent ones, the collateral plus all
  releases equals all deposits (so nothing is released that was not deposited), and the registry
  keeps unique identifiers within its capacity.
\<close>

theorem bank_safety:
  assumes "bank_exec C (bank_init denom) log st"
  shows "distinct (spent log) \<and> set (leaves (bk_nullifiers st)) = set (spent log) \<and>
         unat (v_collateral (bk_vault st)) + (\<Sum>ev \<leftarrow> log. released_of ev) = (\<Sum>ev \<leftarrow> log. deposited_of ev) \<and>
         registry_wf (bk_registry st)"
  using bank_inv_exec [OF assms bank_inv_init] by (simp add: bank_inv_def)

theorem bank_safety_witness:
  "\<exists>st. bank_exec gf_curve (bank_init 1) ([EvNone, EvDeposit 1] @ [EvRelease (compute_nullifier gf_curve (gf_bytes 4)) 1]) st \<and>
     set (leaves (bk_nullifiers st)) = {compute_nullifier gf_curve (gf_bytes 4)} \<and> unat (v_collateral (bk_vault st)) = 0"
proof -
  obtain st where st: "bank_exec gf_curve (bank_init 1)
      ([EvNone, EvDeposit 1] @ [EvRelease (compute_nullifier gf_curve (gf_bytes 4)) 1]) st" using gf_run by blast
  from bank_safety [OF st] st show ?thesis by (intro exI [of _ st]) (simp add: spent_def)
qed





end
