(* ===== verification/Validator.thy ===== *)
theory Validator
  imports Transparency Processor
begin

text \<open>
  The HTTP handlers of the validator daemon (\<open>api.rs\<close>) over its state (\<open>state.rs\<close>).

  A handler receives the whole application state and returns its answer and the state it leaves
  behind, also when it fails; requests are atomic steps. JSON bodies arrive parsed, as records; an
  error answer is its status code. What the outside world decides during a request is the record
  \<open>request_env\<close>: the clocks, whether the log can be written, how a disk write ends, the nonce for
  sealing and the reply of the Solana RPC node.
\<close>

section \<open>State\<close>

record validator_config =
  vcfg_data_dir :: string
  vcfg_bind_addr :: string
  vcfg_operator_name :: string
  vcfg_master_seed :: "bytes option"
  vcfg_admin_token :: "string option"
  vcfg_solana_rpc_url :: "string option"
  vcfg_nullifier_tree_pda :: "bytes option"

record validator_state =
  vst_share :: "validator_share_record option"
  vst_sign_session_counter :: u64
  vst_refresh_session_counter :: u64
  vst_health_probes_served :: u64
  vst_share_reloads :: u64

definition ValidatorState_default :: validator_state where
  "ValidatorState_default = \<lparr>vst_share = None, vst_sign_session_counter = 0, vst_refresh_session_counter = 0,
     vst_health_probes_served = 0, vst_share_reloads = 0\<rparr>"

record ('s, 'p, 'r) app_state =
  app_config :: validator_config
  app_state :: validator_state
  app_sign_sessions :: "'s sign_sessions"
  app_refresh_sessions :: "'s refresh_sessions"
  app_dkg_sessions :: "('s, 'p) dkg_sessions"
  app_reshare_sessions :: "('s, 'p) reshare_sessions"
  app_transparency :: "transparency_logger option"
  app_disk :: disk
  app_rng :: 'r

text \<open>Replies to \<open>getAccountInfo\<close>, after base64 decoding of the account data.\<close>

datatype rpc_reply = RpcRequestFailed | RpcParseFailed | RpcBadShape | RpcNull | RpcBadData | RpcBadBase64 | RpcData bytes

record request_env =
  re_instant :: nat
  re_unix_ms :: u128
  re_log_io :: append_io
  re_fault :: disk_fault
  re_nonce :: bytes
  re_rpc :: "string \<Rightarrow> bytes \<Rightarrow> rpc_reply"

datatype status_code =
    BAD_REQUEST | UNAUTHORIZED | FORBIDDEN | NOT_FOUND | CONFLICT | UNPROCESSABLE_ENTITY
  | INTERNAL_SERVER_ERROR | SERVICE_UNAVAILABLE

type_synonym ('a, 's, 'p, 'r) answer = "('a, status_code) result \<times> ('s, 'p, 'r) app_state"

definition tlog ::
    "('s, 'p) crypto \<Rightarrow> libs \<Rightarrow> json \<Rightarrow> request_env \<Rightarrow> ('s, 'p, 'r) app_state \<Rightarrow> transparency_event \<Rightarrow> ('s, 'p, 'r) app_state" where
  "tlog C X J E app event =
     (case app_transparency app of
        None \<Rightarrow> app
      | Some lg \<Rightarrow> app\<lparr>app_transparency := Some (snd (TransparencyLogger_append C X J (re_log_io E) (re_unix_ms E) lg event))\<rparr>)"

section \<open>Read-only endpoints\<close>

definition health :: "('s, 'p, 'r) app_state \<Rightarrow> (u64, 's, 'p, 'r) answer" where
  "health app =
     (let probes = saturating_add (vst_health_probes_served (app_state app)) 1
      in (Ok probes, app\<lparr>app_state := (app_state app)\<lparr>vst_health_probes_served := probes\<rparr>\<rparr>))"

record info_response =
  ir_operator :: string
  ir_bind_addr :: string
  ir_share_loaded :: bool
  ir_keyset_id_hex :: "string option"
  ir_my_index :: "u16 option"
  ir_n :: "u16 option"
  ir_t :: "u16 option"
  ir_epoch :: "u64 option"
  ir_sign_sessions :: u64
  ir_refresh_sessions :: u64

definition info :: "libs \<Rightarrow> ('s, 'p, 'r) app_state \<Rightarrow> info_response" where
  "info X app =
     (let s = app_state app
      in \<lparr>ir_operator = vcfg_operator_name (app_config app), ir_bind_addr = vcfg_bind_addr (app_config app),
          ir_share_loaded = (vst_share s \<noteq> None),
          ir_keyset_id_hex = map_option (\<lambda>share. hex_encode X (sr_keyset_id share)) (vst_share s),
          ir_my_index = map_option sr_my_index (vst_share s), ir_n = map_option sr_n (vst_share s),
          ir_t = map_option sr_t (vst_share s), ir_epoch = map_option sr_epoch (vst_share s),
          ir_sign_sessions = vst_sign_session_counter s, ir_refresh_sessions = vst_refresh_session_counter s\<rparr>)"

section \<open>Decoding\<close>

definition decode_hex32 :: "libs \<Rightarrow> string \<Rightarrow> (bytes, status_code) result" where
  "decode_hex32 X s =
     rbind (ok_or BAD_REQUEST (hex_decode X s)) (\<lambda>bs. if length bs \<noteq> 32 then Err BAD_REQUEST else Ok bs)"

definition decode_hex64 :: "libs \<Rightarrow> string \<Rightarrow> (bytes, status_code) result" where
  "decode_hex64 X s =
     rbind (ok_or BAD_REQUEST (hex_decode X s)) (\<lambda>bs. if length bs \<noteq> 64 then Err BAD_REQUEST else Ok bs)"

definition decode_session_id :: "libs \<Rightarrow> string \<Rightarrow> (session_id, status_code) result" where
  "decode_session_id X s =
     rbind (ok_or BAD_REQUEST (hex_decode X s)) (\<lambda>bs. if length bs \<noteq> 16 then Err BAD_REQUEST else Ok (SessionId bs))"

definition decode_ceremony_id :: "libs \<Rightarrow> string \<Rightarrow> (ceremony_id, status_code) result" where
  "decode_ceremony_id X s =
     rbind (ok_or BAD_REQUEST (hex_decode X s)) (\<lambda>bs. if length bs \<noteq> 16 then Err BAD_REQUEST else Ok (CeremonyId bs))"

definition loaded_share :: "('s, 'p, 'r) app_state \<Rightarrow> (validator_share_record, status_code) result" where
  "loaded_share app = ok_or SERVICE_UNAVAILABLE (vst_share (app_state app))"

section \<open>Signing sessions\<close>

record sign_round1_resp =
  s1_from_index :: u16
  s1_session_id_hex :: string
  s1_r_i_hex :: string

definition sign_round1 ::
    "('s, 'p) crypto \<Rightarrow> ('r, 's) rng \<Rightarrow> libs \<Rightarrow> json \<Rightarrow> request_env \<Rightarrow> string \<Rightarrow> ('s, 'p, 'r) app_state
     \<Rightarrow> (sign_round1_resp, 's, 'p, 'r) answer" where
  "sign_round1 C R X J E session_id_hex app =
     or_return (decode_session_id X session_id_hex) app (\<lambda>sid.
     or_return (loaded_share app) app (\<lambda>share.
     let my_index = sr_my_index share;
         ((out, st), r') = validator_round1 C R sid my_index (app_rng app);
         (inserted, table) = SignSessions_insert (app_sign_sessions app) \<lparr>sse_state = st, sse_created_at = re_instant E\<rparr>;
         app1 = app\<lparr>app_rng := r', app_sign_sessions := table\<rparr>
     in or_return (map_err (\<lambda>_. CONFLICT) inserted) app1 (\<lambda>_.
          let app2 = app1\<lparr>app_state := (app_state app1)\<lparr>vst_sign_session_counter :=
                saturating_add (vst_sign_session_counter (app_state app1)) 1\<rparr>\<rparr>;
              app3 = tlog C X J E app2 (SignSessionStart (hex_encode X (session_bytes sid)) my_index)
          in (Ok \<lparr>s1_from_index = r1o_from_index out, s1_session_id_hex = hex_encode X (session_bytes (r1o_session_id out)),
                 s1_r_i_hex = hex_encode X (r1o_r_i out)\<rparr>, app3))))"

record sign_round3_req =
  s3_session_id_hex :: string
  s3_signing_set :: "u16 list"
  s3_challenge_hex :: string

record sign_round3_resp =
  s3r_from_index :: u16
  s3r_session_id_hex :: string
  s3r_s_i_hex :: string

definition sign_round3 ::
    "('s::field, 'p) crypto \<Rightarrow> libs \<Rightarrow> sign_round3_req \<Rightarrow> ('s, 'p, 'r) app_state \<Rightarrow> (sign_round3_resp, 's, 'p, 'r) answer" where
  "sign_round3 C X req app =
     or_return (decode_session_id X (s3_session_id_hex req)) app (\<lambda>sid.
     or_return (decode_hex32 X (s3_challenge_hex req)) app (\<lambda>c_bytes.
     or_return (loaded_share app) app (\<lambda>share.
     or_return (map_err (\<lambda>_. INTERNAL_SERVER_ERROR) (SecretKey_from_bytes C (sr_my_share_bytes share))) app (\<lambda>my_share.
     let (taken, table) = SignSessions_take (app_sign_sessions app) sid;
         app1 = app\<lparr>app_sign_sessions := table\<rparr>
     in or_return (ok_or NOT_FOUND taken) app1 (\<lambda>entry.
        or_return (map_err (\<lambda>_. BAD_REQUEST) (partial_sign C (sse_state entry) \<lparr>bch_c = c_bytes\<rparr> my_share (s3_signing_set req))) app1 (\<lambda>out.
          (Ok \<lparr>s3r_from_index = r3o_from_index out, s3r_session_id_hex = hex_encode X (session_bytes (r3o_session_id out)),
               s3r_s_i_hex = hex_encode X (r3o_s_i out)\<rparr>, app1)))))))"

section \<open>Refresh sessions\<close>

record refresh_round1_resp =
  f1_from_index :: u16
  f1_session_id_hex :: string
  f1_kappa :: u8
  f1_r_per_candidate_hex :: "string list"

definition refresh_round1 ::
    "('s, 'p) crypto \<Rightarrow> ('r, 's) rng \<Rightarrow> libs \<Rightarrow> json \<Rightarrow> request_env \<Rightarrow> string \<Rightarrow> u8 \<Rightarrow> ('s, 'p, 'r) app_state
     \<Rightarrow> (refresh_round1_resp, 's, 'p, 'r) answer" where
  "refresh_round1 C R X J E session_id_hex kappa app =
     or_return (decode_session_id X session_id_hex) app (\<lambda>sid.
     if kappa = 0 then (Err BAD_REQUEST, app)
     else
       or_return (loaded_share app) app (\<lambda>share.
       let my_index = sr_my_index share
       in or_return (map_err (\<lambda>_. BAD_REQUEST) (validator_refresh_round1 C R sid my_index kappa (app_rng app))) app (\<lambda>((out, st), r').
          let (inserted, table) = RefreshSessions_insert (app_refresh_sessions app) \<lparr>rse_state = st, rse_created_at = re_instant E\<rparr>;
              app1 = app\<lparr>app_rng := r', app_refresh_sessions := table\<rparr>
          in or_return (map_err (\<lambda>_. CONFLICT) inserted) app1 (\<lambda>_.
               let app2 = app1\<lparr>app_state := (app_state app1)\<lparr>vst_refresh_session_counter :=
                     saturating_add (vst_refresh_session_counter (app_state app1)) 1\<rparr>\<rparr>;
                   app3 = tlog C X J E app2 (RefreshSessionStart (hex_encode X (session_bytes sid)) my_index kappa)
               in (Ok \<lparr>f1_from_index = vr1_from_index out, f1_session_id_hex = hex_encode X (session_bytes (vr1_session_id out)),
                      f1_kappa = kappa, f1_r_per_candidate_hex = map (hex_encode X) (vr1_r_per_candidate out)\<rparr>, app3)))))"

datatype nullifier_guard_error =
    RpcFailure rpc_reply
  | DataTooShort
  | DataTruncated
  | NullifierNotFound

text \<open>The leaves of the account data, as \<open>chunks_exact(32)\<close> cuts them.\<close>

fun chunks_exact32 :: "bytes \<Rightarrow> bytes list" where
  "chunks_exact32 bs = (if length bs < 32 then [] else take 32 bs # chunks_exact32 (drop 32 bs))"

declare chunks_exact32.simps [simp del]

definition verify_nullifier_finalized ::
    "('s, 'p) crypto \<Rightarrow> rpc_reply \<Rightarrow> bytes \<Rightarrow> (unit, nullifier_guard_error) result" where
  "verify_nullifier_finalized C reply coin_pubkey =
     (let nullifier = Sha256 C (ascii ''TARDUS-nullifier-v1'' @ coin_pubkey)
      in case reply of
           RpcData account_data \<Rightarrow>
             if length account_data < 4 then Err DataTooShort
             else
               (let num = unat (from_le_bytes (take 4 account_data) :: u32);
                    expected_len = 4 + num * 32
                in if length account_data < expected_len then Err DataTruncated
                   else
                     (let leaves_bytes = take (num * 32) (drop 4 account_data);
                          found = list_ex (\<lambda>chunk. chunk = nullifier) (chunks_exact32 leaves_bytes)
                      in if found then Ok () else Err NullifierNotFound))
         | failed \<Rightarrow> Err (RpcFailure failed))"

definition nullifier_guard ::
    "('s, 'p) crypto \<Rightarrow> request_env \<Rightarrow> validator_config \<Rightarrow> bytes \<Rightarrow> (unit, status_code) result" where
  "nullifier_guard C E cfg coin_pubkey =
     (case vcfg_solana_rpc_url cfg of
        None \<Rightarrow> Ok ()
      | Some rpc_url \<Rightarrow>
          rbind (ok_or INTERNAL_SERVER_ERROR (vcfg_nullifier_tree_pda cfg)) (\<lambda>pda.
            map_err (\<lambda>_. FORBIDDEN) (verify_nullifier_finalized C (re_rpc E rpc_url pda) coin_pubkey)))"

record refresh_round5_req =
  f5_session_id_hex :: string
  f5_signing_set :: "u16 list"
  f5_gamma_star :: u8
  f5_user_challenges_hex :: "string list"
  f5_melted_coin_pubkey_hex :: string
  f5_melted_coin_signature_hex :: string

record refresh_round5_resp =
  f5r_from_index :: u16
  f5r_session_id_hex :: string
  f5r_s_partial_hex :: string

fun decode_all :: "libs \<Rightarrow> string list \<Rightarrow> (bytes list, status_code) result" where
  "decode_all X [] = Ok []"
| "decode_all X (hx # hxs) =
     rbind (decode_hex32 X hx) (\<lambda>c. rbind (decode_all X hxs) (\<lambda>cs. Ok (c # cs)))"

definition refresh_round5 ::
    "('s::field, 'p) crypto \<Rightarrow> libs \<Rightarrow> request_env \<Rightarrow> refresh_round5_req \<Rightarrow> ('s, 'p, 'r) app_state
     \<Rightarrow> (refresh_round5_resp, 's, 'p, 'r) answer" where
  "refresh_round5 C X E req app =
     or_return (decode_session_id X (f5_session_id_hex req)) app (\<lambda>sid.
     if \<not> length (f5_user_challenges_hex req) < 2 ^ 8 then (Err BAD_REQUEST, app)
     else
       (let kappa = word_of_nat (length (f5_user_challenges_hex req)) :: u8
        in if kappa = 0 then (Err BAD_REQUEST, app)
           else if f5_gamma_star req = 0 \<or> f5_gamma_star req > kappa then (Err BAD_REQUEST, app)
           else
             or_return (decode_all X (f5_user_challenges_hex req)) app (\<lambda>challenges.
             or_return (decode_hex32 X (f5_melted_coin_pubkey_hex req)) app (\<lambda>melted_coin_pubkey.
             or_return (decode_hex64 X (f5_melted_coin_signature_hex req)) app (\<lambda>sig_bytes.
             or_return (nullifier_guard C E (app_config app) melted_coin_pubkey) app (\<lambda>_.
             or_return (loaded_share app) app (\<lambda>share.
             or_return (map_err (\<lambda>_. INTERNAL_SERVER_ERROR) (SecretKey_from_bytes C (sr_my_share_bytes share))) app (\<lambda>my_share.
             let (taken, table) = RefreshSessions_take (app_refresh_sessions app) sid;
                 app1 = app\<lparr>app_refresh_sessions := table\<rparr>
             in or_return (ok_or NOT_FOUND taken) app1 (\<lambda>entry.
                let user_round2 = \<lparr>ur2_session_id = sid, ur2_kappa = kappa, ur2_challenges = challenges,
                      ur2_melted_coin_pubkey = melted_coin_pubkey, ur2_melted_coin_signature = Signature_from_bytes sig_bytes\<rparr>;
                    challenge = \<lparr>mr3_session_id = sid, mr3_gamma_star = f5_gamma_star req\<rparr>
                in or_return (map_err (\<lambda>_. BAD_REQUEST)
                     (validator_refresh_round5 C (rse_state entry) user_round2 challenge my_share (f5_signing_set req))) app1 (\<lambda>out.
                     (Ok \<lparr>f5r_from_index = vr5_from_index out, f5r_session_id_hex = hex_encode X (session_bytes (vr5_session_id out)),
                          f5r_s_partial_hex = hex_encode X (vr5_s_partial out)\<rparr>, app1)))))))))))"

section \<open>Key-generation ceremonies\<close>

record dkg_start_req =
  dsq_ceremony_id_hex :: string
  dsq_my_index :: u16
  dsq_n :: u16
  dsq_t :: u16

record ceremony_start_resp =
  csr_ceremony_id_hex :: string
  csr_my_index :: u16
  csr_n :: u16
  csr_t :: u16
  csr_broadcast_borsh_hex :: string
  csr_shares_borsh_hex :: "string list"

definition dkg_start_handler ::
    "('s::field, 'p::ab_group_add) crypto \<Rightarrow> ('r, 's) rng \<Rightarrow> libs \<Rightarrow> json \<Rightarrow> request_env \<Rightarrow> dkg_start_req \<Rightarrow> ('s, 'p, 'r) app_state
     \<Rightarrow> (ceremony_start_resp, 's, 'p, 'r) answer" where
  "dkg_start_handler C R X J E req app =
     or_return (decode_ceremony_id X (dsq_ceremony_id_hex req)) app (\<lambda>cid.
     or_return (map_err (\<lambda>_. BAD_REQUEST) (VssParameters_new (dsq_n req) (dsq_t req))) app (\<lambda>params.
     or_return (map_err (\<lambda>_. BAD_REQUEST) (h_generator C)) app (\<lambda>h.
     or_return (map_err (\<lambda>_. BAD_REQUEST) (dkg_start C R cid (dsq_my_index req) params h (app_rng app))) app (\<lambda>(round1, r').
     let resp = \<lparr>csr_ceremony_id_hex = dsq_ceremony_id_hex req, csr_my_index = dsq_my_index req, csr_n = dsq_n req,
           csr_t = dsq_t req, csr_broadcast_borsh_hex = hex_encode X (ser_dkg_broadcast C (do_broadcast round1)),
           csr_shares_borsh_hex = map (\<lambda>sh. hex_encode X (ser_vss_share C sh)) (do_shares round1)\<rparr>;
         session = \<lparr>ds_my_round1 = round1, ds_n = dsq_n req, ds_peer_contributions = [], ds_created_at = re_instant E\<rparr>;
         (started, table) = DkgSessions_start (app_dkg_sessions app) cid session;
         app1 = app\<lparr>app_rng := r', app_dkg_sessions := table\<rparr>
     in or_return (map_err (\<lambda>_. CONFLICT) started) app1 (\<lambda>_.
          (Ok resp, tlog C X J E app1 (DkgStart (dsq_ceremony_id_hex req) (dsq_my_index req) (dsq_n req) (dsq_t req))))))))"

record contribute_req =
  ctq_ceremony_id_hex :: string
  ctq_from_index :: u16
  ctq_broadcast_borsh_hex :: string
  ctq_share_for_me_borsh_hex :: string

definition dkg_contribute_handler ::
    "('s, 'p) crypto \<Rightarrow> libs \<Rightarrow> contribute_req \<Rightarrow> ('s, 'p, 'r) app_state \<Rightarrow> (nat, 's, 'p, 'r) answer" where
  "dkg_contribute_handler C X req app =
     or_return (decode_ceremony_id X (ctq_ceremony_id_hex req)) app (\<lambda>cid.
     or_return (ok_or BAD_REQUEST (hex_decode X (ctq_broadcast_borsh_hex req))) app (\<lambda>broadcast_bytes.
     or_return (ok_or BAD_REQUEST (try_from_slice (de_dkg_broadcast C) broadcast_bytes)) app (\<lambda>broadcast.
     or_return (ok_or BAD_REQUEST (hex_decode X (ctq_share_for_me_borsh_hex req))) app (\<lambda>share_bytes.
     or_return (ok_or BAD_REQUEST (try_from_slice (de_vss_share C) share_bytes)) app (\<lambda>share_for_me.
     let (received, table) = DkgSessions_contribute (app_dkg_sessions app) cid (ctq_from_index req)
           \<lparr>pc_broadcast = broadcast, pc_share_for_me = share_for_me\<rparr>;
         app1 = app\<lparr>app_dkg_sessions := table\<rparr>
     in or_return (map_err (\<lambda>_. NOT_FOUND) received) app1 (\<lambda>num. (Ok num, app1)))))))"

text \<open>Persisting a new share record, if a master seed was configured.\<close>

definition persist_share ::
    "('s, 'p) crypto \<Rightarrow> libs \<Rightarrow> request_env \<Rightarrow> validator_share_record \<Rightarrow> ('s, 'p, 'r) app_state \<Rightarrow> (bool, 's, 'p, 'r) answer" where
  "persist_share C X E record app =
     (case vcfg_master_seed (app_config app) of
        None \<Rightarrow> (Ok False, app)
      | Some seed \<Rightarrow>
          (let (written, fs) = write_share_record C X (re_fault E) (re_nonce E)
                 (share_path X (vcfg_data_dir (app_config app)) (sr_keyset_id record)) seed record (app_disk app);
               app1 = app\<lparr>app_disk := fs\<rparr>
           in or_return (map_err (\<lambda>_. INTERNAL_SERVER_ERROR) written) app1 (\<lambda>_. (Ok True, app1))))"

definition set_share :: "validator_share_record \<Rightarrow> ('s, 'p, 'r) app_state \<Rightarrow> ('s, 'p, 'r) app_state" where
  "set_share record app = app\<lparr>app_state := (app_state app)\<lparr>vst_share := Some record\<rparr>\<rparr>"

record dkg_finalize_resp =
  dfr_ceremony_id_hex :: string
  dfr_my_index :: u16
  dfr_joint_pk_hex :: string
  dfr_qual :: "u16 list"
  dfr_share_persisted :: bool

definition dkg_finalize_handler ::
    "('s::field, 'p::ab_group_add) crypto \<Rightarrow> libs \<Rightarrow> json \<Rightarrow> request_env \<Rightarrow> string \<Rightarrow> ('s, 'p, 'r) app_state
     \<Rightarrow> (dkg_finalize_resp, 's, 'p, 'r) answer" where
  "dkg_finalize_handler C X J E ceremony_id_hex app =
     or_return (decode_ceremony_id X ceremony_id_hex) app (\<lambda>cid.
     let (taken, table) = DkgSessions_take_finalisable (app_dkg_sessions app) cid;
         app1 = app\<lparr>app_dkg_sessions := table\<rparr>
     in or_return (map_err (\<lambda>_. NOT_FOUND) taken) app1 (\<lambda>(round1, contributions, n).
        let my_index = dp_my_index (do_private round1); t = vp_t (dp_params (do_private round1))
        in or_return (map_err (\<lambda>_. UNPROCESSABLE_ENTITY) (h_generator C)) app1 (\<lambda>h.
           or_return (map_err (\<lambda>_. UNPROCESSABLE_ENTITY) (dkg_finalize C round1 contributions h)) app1 (\<lambda>finalised.
           let joint_pk_bytes = pk_to_bytes (df_joint_pk finalised);
               record = \<lparr>sr_keyset_id = 2 # joint_pk_bytes, sr_my_index = df_my_index finalised, sr_n = n, sr_t = t, sr_epoch = 1,
                 sr_joint_pk_bytes = joint_pk_bytes, sr_my_share_bytes = SecretKey_to_bytes C (df_my_share finalised),
                 sr_qual = df_qual finalised\<rparr>;
               (persisted, app2) = persist_share C X E record app1
           in or_return persisted app2 (\<lambda>share_persisted.
                (Ok \<lparr>dfr_ceremony_id_hex = ceremony_id_hex, dfr_my_index = my_index,
                     dfr_joint_pk_hex = hex_encode X joint_pk_bytes, dfr_qual = df_qual finalised,
                     dfr_share_persisted = share_persisted\<rparr>,
                 tlog C X J E (set_share record app2)
                   (DkgFinalize ceremony_id_hex my_index (hex_encode X joint_pk_bytes) (df_qual finalised))))))))"

section \<open>Rotation ceremonies\<close>

definition reshare_start_handler ::
    "('s::field, 'p::ab_group_add) crypto \<Rightarrow> ('r, 's) rng \<Rightarrow> libs \<Rightarrow> json \<Rightarrow> request_env \<Rightarrow> string \<Rightarrow> ('s, 'p, 'r) app_state
     \<Rightarrow> (ceremony_start_resp, 's, 'p, 'r) answer" where
  "reshare_start_handler C R X J E ceremony_id_hex app =
     or_return (decode_ceremony_id X ceremony_id_hex) app (\<lambda>cid.
     or_return (loaded_share app) app (\<lambda>share.
     let my_index = sr_my_index share; n = sr_n share; t = sr_t share
     in or_return (map_err (\<lambda>_. INTERNAL_SERVER_ERROR) (VssParameters_new n t)) app (\<lambda>params.
        or_return (map_err (\<lambda>_. BAD_REQUEST) (h_generator C)) app (\<lambda>h.
        or_return (map_err (\<lambda>_. BAD_REQUEST) (reshare_start C R cid my_index params h (app_rng app))) app (\<lambda>(round1, r').
        let resp = \<lparr>csr_ceremony_id_hex = ceremony_id_hex, csr_my_index = my_index, csr_n = n, csr_t = t,
              csr_broadcast_borsh_hex = hex_encode X (ser_reshare_broadcast C (ro_broadcast round1)),
              csr_shares_borsh_hex = map (\<lambda>sh. hex_encode X (ser_vss_share C sh)) (ro_shares round1)\<rparr>;
            session = \<lparr>rs_my_round1 = round1, rs_n = n, rs_peer_contributions = [], rs_created_at = re_instant E\<rparr>;
            (started, table) = ReshareSessions_start (app_reshare_sessions app) cid session;
            app1 = app\<lparr>app_rng := r', app_reshare_sessions := table\<rparr>
        in or_return (map_err (\<lambda>_. CONFLICT) started) app1 (\<lambda>_.
             (Ok resp, tlog C X J E app1 (ReshareStart ceremony_id_hex my_index n t))))))))"

definition reshare_contribute_handler ::
    "('s, 'p) crypto \<Rightarrow> libs \<Rightarrow> contribute_req \<Rightarrow> ('s, 'p, 'r) app_state \<Rightarrow> (nat, 's, 'p, 'r) answer" where
  "reshare_contribute_handler C X req app =
     or_return (decode_ceremony_id X (ctq_ceremony_id_hex req)) app (\<lambda>cid.
     or_return (ok_or BAD_REQUEST (hex_decode X (ctq_broadcast_borsh_hex req))) app (\<lambda>broadcast_bytes.
     or_return (ok_or BAD_REQUEST (try_from_slice (de_reshare_broadcast C) broadcast_bytes)) app (\<lambda>broadcast.
     or_return (ok_or BAD_REQUEST (hex_decode X (ctq_share_for_me_borsh_hex req))) app (\<lambda>share_bytes.
     or_return (ok_or BAD_REQUEST (try_from_slice (de_vss_share C) share_bytes)) app (\<lambda>share_for_me.
     let (received, table) = ReshareSessions_contribute (app_reshare_sessions app) cid (ctq_from_index req)
           \<lparr>rpc_broadcast = broadcast, rpc_share_for_me = share_for_me\<rparr>;
         app1 = app\<lparr>app_reshare_sessions := table\<rparr>
     in or_return (map_err (\<lambda>_. NOT_FOUND) received) app1 (\<lambda>num. (Ok num, app1)))))))"

record reshare_finalize_resp =
  rfr_ceremony_id_hex :: string
  rfr_my_index :: u16
  rfr_new_epoch :: u64
  rfr_share_persisted :: bool

definition reshare_finalize_handler ::
    "('s::field, 'p::ab_group_add) crypto \<Rightarrow> libs \<Rightarrow> json \<Rightarrow> request_env \<Rightarrow> string \<Rightarrow> ('s, 'p, 'r) app_state
     \<Rightarrow> (reshare_finalize_resp, 's, 'p, 'r) answer" where
  "reshare_finalize_handler C X J E ceremony_id_hex app =
     or_return (decode_ceremony_id X ceremony_id_hex) app (\<lambda>cid.
     let (taken, table) = ReshareSessions_take_finalisable (app_reshare_sessions app) cid;
         app1 = app\<lparr>app_reshare_sessions := table\<rparr>
     in or_return (map_err (\<lambda>_. NOT_FOUND) taken) app1 (\<lambda>(round1, contributions, n).
        or_return (loaded_share app1) app1 (\<lambda>cur.
        or_return (map_err (\<lambda>_. INTERNAL_SERVER_ERROR) (SecretKey_from_bytes C (sr_my_share_bytes cur))) app1 (\<lambda>old_share.
        or_return (map_err (\<lambda>_. UNPROCESSABLE_ENTITY) (h_generator C)) app1 (\<lambda>h.
        or_return (map_err (\<lambda>_. UNPROCESSABLE_ENTITY) (reshare_finalize C round1 old_share contributions h)) app1 (\<lambda>finalised.
        let new_epoch = saturating_add (sr_epoch cur) 1;
            record = \<lparr>sr_keyset_id = sr_keyset_id cur, sr_my_index = rf_my_index finalised, sr_n = n, sr_t = sr_t cur,
              sr_epoch = new_epoch, sr_joint_pk_bytes = sr_joint_pk_bytes cur,
              sr_my_share_bytes = SecretKey_to_bytes C (rf_new_share finalised), sr_qual = rf_qual finalised\<rparr>;
            (persisted, app2) = persist_share C X E record app1
        in or_return persisted app2 (\<lambda>share_persisted.
             (Ok \<lparr>rfr_ceremony_id_hex = ceremony_id_hex, rfr_my_index = rf_my_index finalised, rfr_new_epoch = new_epoch,
                  rfr_share_persisted = share_persisted\<rparr>,
              tlog C X J E (set_share record app2) (ReshareFinalize ceremony_id_hex (rf_my_index finalised) new_epoch)))))))))"

section \<open>Transparency and administration\<close>

definition transparency_log_handler :: "json \<Rightarrow> ('s, 'p, 'r) app_state \<Rightarrow> (log_entry list \<times> string, status_code) result" where
  "transparency_log_handler J app =
     rbind (ok_or NOT_FOUND (app_transparency app)) (\<lambda>lg. Ok (read_all J (tl_file lg), tl_last_event_id lg))"

record chain_verify_resp =
  cv_valid :: bool
  cv_entries_checked :: nat
  cv_failure_index :: "nat option"
  cv_failure_reason :: "chain_failure option"

definition transparency_verify_chain_handler ::
    "('s, 'p) crypto \<Rightarrow> libs \<Rightarrow> json \<Rightarrow> ('s, 'p, 'r) app_state \<Rightarrow> (chain_verify_resp, status_code) result" where
  "transparency_verify_chain_handler C X J app =
     rbind (ok_or NOT_FOUND (app_transparency app)) (\<lambda>lg.
       case verify_chain C X J (tl_file lg) of
         Ok num \<Rightarrow> Ok \<lparr>cv_valid = True, cv_entries_checked = num, cv_failure_index = None, cv_failure_reason = None\<rparr>
       | Err (idx, reason) \<Rightarrow>
           Ok \<lparr>cv_valid = False, cv_entries_checked = idx, cv_failure_index = Some idx, cv_failure_reason = Some reason\<rparr>
       | Panic \<Rightarrow> Panic)"

definition check_admin :: "validator_config \<Rightarrow> string option \<Rightarrow> (unit, status_code) result" where
  "check_admin cfg x_admin_token =
     rbind (ok_or FORBIDDEN (vcfg_admin_token cfg)) (\<lambda>expected.
     rbind (ok_or UNAUTHORIZED x_admin_token) (\<lambda>supplied.
       if supplied \<noteq> expected then Err UNAUTHORIZED else Ok ()))"

definition admin_sessions :: "string option \<Rightarrow> ('s, 'p, 'r) app_state \<Rightarrow> (nat \<times> nat, status_code) result" where
  "admin_sessions x_admin_token app =
     rbind (check_admin (app_config app) x_admin_token) (\<lambda>_.
       Ok (SignSessions_len (app_sign_sessions app), RefreshSessions_len (app_refresh_sessions app)))"

text \<open>The directory scan: the first share file decides, also when it cannot be read.\<close>

fun first_share ::
    "('s, 'p) crypto \<Rightarrow> libs \<Rightarrow> string \<Rightarrow> bytes \<Rightarrow> disk \<Rightarrow> path list \<Rightarrow> (validator_share_record option, status_code) result" where
  "first_share C X data_dir seed fs [] = Ok None"
| "first_share C X data_dir seed fs (path # paths) =
     (if is_share_file data_dir path
      then rbind (map_err (\<lambda>_. INTERNAL_SERVER_ERROR) (read_share_record C X path seed fs)) (\<lambda>record. Ok (Some record))
      else first_share C X data_dir seed fs paths)"

definition admin_reload_share ::
    "('s, 'p) crypto \<Rightarrow> libs \<Rightarrow> string option \<Rightarrow> ('s, 'p, 'r) app_state \<Rightarrow> ((string \<times> u64) option, 's, 'p, 'r) answer" where
  "admin_reload_share C X x_admin_token app =
     or_return (check_admin (app_config app) x_admin_token) app (\<lambda>_.
     or_return (ok_or SERVICE_UNAVAILABLE (vcfg_master_seed (app_config app))) app (\<lambda>seed.
     or_return (first_share C X (vcfg_data_dir (app_config app)) seed (app_disk app) (map fst (app_disk app))) app (\<lambda>loaded.
       case loaded of
         None \<Rightarrow> (Ok None, app)
       | Some record \<Rightarrow>
           (let app1 = set_share record app
            in (Ok (Some (hex_encode X (sr_keyset_id record), sr_epoch record)),
                app1\<lparr>app_state := (app_state app1)\<lparr>vst_share_reloads := saturating_add (vst_share_reloads (app_state app1)) 1\<rparr>\<rparr>)))))"

end
