(* ===== verification/Validator_Runs.thy ===== *)
theory Validator_Runs
  imports Validator
begin

text \<open>
  The life of a validator daemon: how it boots (\<open>main.rs\<close>), the routes of its API (\<open>router\<close> in
  \<open>api.rs\<close>) and the pruning tasks, and what holds over any sequence of requests.

  One step is one request or one tick of a pruning task; a transition records the state before, the
  reply and the state after. The main results: a nonce drawn in round 1 answers at most one
  challenge, for signing and for refresh sessions, and a session that is asked for in time is
  answered, whatever else the daemon is asked in between.
\<close>

section \<open>Boot\<close>

record validator_args =
  va_bind :: string
  va_data_dir :: string
  va_operator :: string
  va_master_seed_hex :: "string option"
  va_admin_token :: "string option"
  va_transparency_log :: "string option"
  va_solana_rpc_url :: "string option"
  va_nullifier_tree_pda_hex :: "string option"

definition parse_seed :: "libs \<Rightarrow> string \<Rightarrow> (bytes, unit) result" where
  "parse_seed X hex_str =
     rbind (ok_or () (hex_decode X hex_str)) (\<lambda>bs. if length bs \<noteq> 32 then Err () else Ok bs)"

definition transpose_opt :: "('a \<Rightarrow> ('b, 'e) result) \<Rightarrow> 'a option \<Rightarrow> ('b option, 'e) result" where
  "transpose_opt f x = (case x of None \<Rightarrow> Ok None | Some a \<Rightarrow> rbind (f a) (\<lambda>b. Ok (Some b)))"

text \<open>Every readable share file replaces the one before it; unreadable ones are skipped.\<close>

fun load_shares ::
    "('s, 'p) crypto \<Rightarrow> libs \<Rightarrow> string \<Rightarrow> bytes \<Rightarrow> disk \<Rightarrow> path list \<Rightarrow> validator_share_record option \<Rightarrow> validator_share_record option" where
  "load_shares C X data_dir seed fs [] share = share"
| "load_shares C X data_dir seed fs (path # paths) share =
     load_shares C X data_dir seed fs paths
       (if is_share_file data_dir path
        then case read_share_record C X path seed fs of Ok record \<Rightarrow> Some record | _ \<Rightarrow> share
        else share)"

definition boot ::
    "('s, 'p) crypto \<Rightarrow> libs \<Rightarrow> json \<Rightarrow> request_env \<Rightarrow> validator_args \<Rightarrow> disk \<Rightarrow> (string \<Rightarrow> string option) \<Rightarrow> 'r
     \<Rightarrow> (('s, 'p, 'r) app_state, unit) result" where
  "boot C X J E args fs log_at r =
     rbind (transpose_opt (parse_seed X) (va_master_seed_hex args)) (\<lambda>master_seed.
     rbind (transpose_opt (parse_seed X) (va_nullifier_tree_pda_hex args)) (\<lambda>nullifier_tree_pda.
     if va_solana_rpc_url args \<noteq> None \<and> nullifier_tree_pda = None then Err ()
     else
       (let config = \<lparr>vcfg_data_dir = va_data_dir args, vcfg_bind_addr = va_bind args, vcfg_operator_name = va_operator args,
              vcfg_master_seed = master_seed, vcfg_admin_token = va_admin_token args,
              vcfg_solana_rpc_url = va_solana_rpc_url args, vcfg_nullifier_tree_pda = nullifier_tree_pda\<rparr>;
            share = (case master_seed of
                       None \<Rightarrow> None
                     | Some seed \<Rightarrow> load_shares C X (va_data_dir args) seed fs (map fst fs) None);
            app = \<lparr>app_config = config, app_state = ValidatorState_default\<lparr>vst_share := share\<rparr>,
              app_sign_sessions = SignSessions_new, app_refresh_sessions = RefreshSessions_new,
              app_dkg_sessions = DkgSessions_new, app_reshare_sessions = ReshareSessions_new,
              app_transparency = map_option (\<lambda>path. TransparencyLogger_open J (log_at path)) (va_transparency_log args),
              app_disk = fs, app_rng = r\<rparr>
        in Ok (tlog C X J E app
             (Boot (va_operator args) (va_bind args) (share \<noteq> None)
                (map_option (\<lambda>rec. hex_encode X (sr_keyset_id rec)) share) (map_option sr_epoch share))))))"

section \<open>Requests and replies\<close>

datatype api_request =
    GetHealth
  | GetInfo
  | PostSignRound1 string
  | PostSignRound3 sign_round3_req
  | PostRefreshRound1 string u8
  | PostRefreshRound5 refresh_round5_req
  | PostDkgStart dkg_start_req
  | PostDkgContribute contribute_req
  | PostDkgFinalize string
  | PostReshareStart string
  | PostReshareContribute contribute_req
  | PostReshareFinalize string
  | GetTransparencyLog
  | GetTransparencyVerifyChain
  | GetAdminSessions "string option"
  | PostAdminReloadShare "string option"
  | SignPruneTick
  | RefreshPruneTick
  | DkgPruneTick
  | ResharePruneTick

datatype api_reply =
    HealthReply "(u64, status_code) result"
  | InfoReply info_response
  | SignRound1Reply "(sign_round1_resp, status_code) result"
  | SignRound3Reply "(sign_round3_resp, status_code) result"
  | RefreshRound1Reply "(refresh_round1_resp, status_code) result"
  | RefreshRound5Reply "(refresh_round5_resp, status_code) result"
  | CeremonyStartReply "(ceremony_start_resp, status_code) result"
  | ContributeReply "(nat, status_code) result"
  | DkgFinalizeReply "(dkg_finalize_resp, status_code) result"
  | ReshareFinalizeReply "(reshare_finalize_resp, status_code) result"
  | TransparencyLogReply "(log_entry list \<times> string, status_code) result"
  | ChainVerifyReply "(chain_verify_resp, status_code) result"
  | SessionsReply "(nat \<times> nat, status_code) result"
  | ReloadReply "((string \<times> u64) option, status_code) result"
  | Evicted nat

definition api_step ::
    "('s::field, 'p::ab_group_add) crypto \<Rightarrow> ('r, 's) rng \<Rightarrow> libs \<Rightarrow> json \<Rightarrow> request_env \<Rightarrow> api_request \<Rightarrow> ('s, 'p, 'r) app_state
     \<Rightarrow> api_reply \<times> ('s, 'p, 'r) app_state" where
  "api_step C R X J E req app =
     (case req of
        GetHealth \<Rightarrow> apfst HealthReply (health app)
      | GetInfo \<Rightarrow> (InfoReply (info X app), app)
      | PostSignRound1 sid \<Rightarrow> apfst SignRound1Reply (sign_round1 C R X J E sid app)
      | PostSignRound3 rq \<Rightarrow> apfst SignRound3Reply (sign_round3 C X rq app)
      | PostRefreshRound1 sid kappa \<Rightarrow> apfst RefreshRound1Reply (refresh_round1 C R X J E sid kappa app)
      | PostRefreshRound5 rq \<Rightarrow> apfst RefreshRound5Reply (refresh_round5 C X E rq app)
      | PostDkgStart rq \<Rightarrow> apfst CeremonyStartReply (dkg_start_handler C R X J E rq app)
      | PostDkgContribute rq \<Rightarrow> apfst ContributeReply (dkg_contribute_handler C X rq app)
      | PostDkgFinalize cid \<Rightarrow> apfst DkgFinalizeReply (dkg_finalize_handler C X J E cid app)
      | PostReshareStart cid \<Rightarrow> apfst CeremonyStartReply (reshare_start_handler C R X J E cid app)
      | PostReshareContribute rq \<Rightarrow> apfst ContributeReply (reshare_contribute_handler C X rq app)
      | PostReshareFinalize cid \<Rightarrow> apfst ReshareFinalizeReply (reshare_finalize_handler C X J E cid app)
      | GetTransparencyLog \<Rightarrow> (TransparencyLogReply (transparency_log_handler J app), app)
      | GetTransparencyVerifyChain \<Rightarrow> (ChainVerifyReply (transparency_verify_chain_handler C X J app), app)
      | GetAdminSessions token \<Rightarrow> (SessionsReply (admin_sessions token app), app)
      | PostAdminReloadShare token \<Rightarrow> apfst ReloadReply (admin_reload_share C X token app)
      | SignPruneTick \<Rightarrow>
          (let (n, table) = SignSessions_prune (app_sign_sessions app) (re_instant E) DEFAULT_SESSION_TTL
           in (Evicted n, app\<lparr>app_sign_sessions := table\<rparr>))
      | RefreshPruneTick \<Rightarrow>
          (let (n, table) = RefreshSessions_prune (app_refresh_sessions app) (re_instant E) DEFAULT_REFRESH_TTL
           in (Evicted n, app\<lparr>app_refresh_sessions := table\<rparr>))
      | DkgPruneTick \<Rightarrow>
          (let (n, table) = DkgSessions_prune (app_dkg_sessions app) (re_instant E) DEFAULT_DKG_TTL
           in (Evicted n, app\<lparr>app_dkg_sessions := table\<rparr>))
      | ResharePruneTick \<Rightarrow>
          (let (n, table) = ReshareSessions_prune (app_reshare_sessions app) (re_instant E) DEFAULT_RESHARE_TTL
           in (Evicted n, app\<lparr>app_reshare_sessions := table\<rparr>)))"

record ('s, 'p, 'r) transition =
  tr_before :: "('s, 'p, 'r) app_state"
  tr_request :: api_request
  tr_reply :: api_reply
  tr_after :: "('s, 'p, 'r) app_state"

fun api_run ::
    "('s::field, 'p::ab_group_add) crypto \<Rightarrow> ('r, 's) rng \<Rightarrow> libs \<Rightarrow> json \<Rightarrow> (request_env \<times> api_request) list \<Rightarrow> ('s, 'p, 'r) app_state
     \<Rightarrow> ('s, 'p, 'r) transition list \<times> ('s, 'p, 'r) app_state" where
  "api_run C R X J [] app = ([], app)"
| "api_run C R X J ((E, req) # reqs) app =
     (let (reply, app1) = api_step C R X J E req app;
          (trs, app2) = api_run C R X J reqs app1
      in (\<lparr>tr_before = app, tr_request = req, tr_reply = reply, tr_after = app1\<rparr> # trs, app2))"

section \<open>What a step leaves alone\<close>

lemma tlog_frame [simp]:
  "app_config (tlog C X J E app ev) = app_config app" "app_state (tlog C X J E app ev) = app_state app"
  "app_sign_sessions (tlog C X J E app ev) = app_sign_sessions app"
  "app_refresh_sessions (tlog C X J E app ev) = app_refresh_sessions app"
  "app_dkg_sessions (tlog C X J E app ev) = app_dkg_sessions app"
  "app_reshare_sessions (tlog C X J E app ev) = app_reshare_sessions app"
  "app_disk (tlog C X J E app ev) = app_disk app" "app_rng (tlog C X J E app ev) = app_rng app"
  by (auto simp: tlog_def split: option.splits)


text \<open>The part of the state that only the signing and refresh handlers and their pruning tasks change.\<close>

definition sessions_of :: "('s, 'p, 'r) app_state \<Rightarrow> validator_config \<times> 's sign_sessions \<times> 's refresh_sessions" where
  "sessions_of app = (app_config app, app_sign_sessions app, app_refresh_sessions app)"

lemma sessions_of_simps [simp]:
  "sessions_of (tlog C X J E app ev) = sessions_of app" "sessions_of (set_share rec app) = sessions_of app"
  "sessions_of (app\<lparr>app_rng := r\<rparr>) = sessions_of app" "sessions_of (app\<lparr>app_state := s\<rparr>) = sessions_of app"
  "sessions_of (app\<lparr>app_dkg_sessions := d\<rparr>) = sessions_of app" "sessions_of (app\<lparr>app_reshare_sessions := rs\<rparr>) = sessions_of app"
  "sessions_of (app\<lparr>app_disk := fs\<rparr>) = sessions_of app"
  by (simp_all add: sessions_of_def set_share_def)

lemmas sessions_frame = or_return_frame [where P = "\<lambda>a. sessions_of a = sessions_of app" for app]

lemma persist_share_sessions: "persist_share C X E rec app = (out, app') \<Longrightarrow> sessions_of app' = sessions_of app"
proof -
  have "sessions_of (snd (persist_share C X E rec app)) = sessions_of app"
    by (auto simp: persist_share_def Let_def intro!: sessions_frame split: option.splits prod.splits)
  then show "persist_share C X E rec app = (out, app') \<Longrightarrow> sessions_of app' = sessions_of app" by simp
qed

lemma ceremony_frames:
  "sessions_of (snd (dkg_start_handler C R X J E dreq app)) = sessions_of app"
  "sessions_of (snd (dkg_contribute_handler C X creq app)) = sessions_of app"
  "sessions_of (snd (dkg_finalize_handler C X J E cid app)) = sessions_of app"
  "sessions_of (snd (reshare_start_handler C R X J E cid app)) = sessions_of app"
  "sessions_of (snd (reshare_contribute_handler C X creq app)) = sessions_of app"
  "sessions_of (snd (reshare_finalize_handler C X J E cid app)) = sessions_of app"
  "sessions_of (snd (admin_reload_share C X token app)) = sessions_of app"
  "sessions_of (snd (health app)) = sessions_of app"
  unfolding dkg_start_handler_def dkg_contribute_handler_def dkg_finalize_handler_def reshare_start_handler_def
    reshare_contribute_handler_def reshare_finalize_handler_def admin_reload_share_def health_def Let_def
  by (auto intro!: sessions_frame split: prod.splits option.splits dest!: persist_share_sessions)


lemma sessions_ofD: "sessions_of app = sessions_of app' \<Longrightarrow> app_sign_sessions app = app_sign_sessions app'"
  by (simp add: sessions_of_def)

lemmas ceremony_sign_frames = ceremony_frames [THEN sessions_ofD]

section \<open>What the session handlers do\<close>

lemma sign_round1_Ok:
  assumes "sign_round1 C R X J E sid_hex app = (Ok resp, app')"
  shows "\<exists>sid share e. decode_session_id X sid_hex = Ok sid \<and> loaded_share app = Ok share \<and>
     e = \<lparr>sse_state = snd (fst (validator_round1 C R sid (sr_my_index share) (app_rng app))), sse_created_at = re_instant E\<rparr> \<and>
     fst (SignSessions_insert (app_sign_sessions app) e) = Ok () \<and>
     sessions_of app' = (app_config app, snd (SignSessions_insert (app_sign_sessions app) e), app_refresh_sessions app)"
  using assms by (auto simp: sign_round1_def Let_def case_prod_beta sessions_of_def)

text \<open>Round 1 that is refused keeps the tables.\<close>

definition kept :: "('s, 'p, 'r) app_state \<Rightarrow> ('a, 's, 'p, 'r) answer \<Rightarrow> bool" where
  "kept app res \<longleftrightarrow> (\<exists>y. fst res = Ok y) \<or> sessions_of (snd res) = sessions_of app"

lemma kept_simps [simp]: "kept app (Ok y, a)" "kept app (Err x, a) \<longleftrightarrow> sessions_of a = sessions_of app"
  "kept app (Panic, a) \<longleftrightarrow> sessions_of a = sessions_of app"
  by (simp_all add: kept_def)

lemmas kept_or_return = or_return_rule [where Q = "kept app" for app]

lemma sign_round1_kept: "kept app (sign_round1 C R X J E sid_hex app)"
  unfolding sign_round1_def Let_def case_prod_beta
  by (intro kept_or_return) (auto simp: SignSessions_insert_def sessions_of_def split: if_splits)

lemma sign_round3_Ok:
  assumes "sign_round3 C X req app = (Ok resp, app')"
  shows "\<exists>sid c share my_share e out. decode_session_id X (s3_session_id_hex req) = Ok sid \<and>
     decode_hex32 X (s3_challenge_hex req) = Ok c \<and> loaded_share app = Ok share \<and>
     SecretKey_from_bytes C (sr_my_share_bytes share) = Ok my_share \<and>
     fst (SignSessions_take (app_sign_sessions app) sid) = Some e \<and>
     partial_sign C (sse_state e) \<lparr>bch_c = c\<rparr> my_share (s3_signing_set req) = Ok out \<and>
     resp = \<lparr>s3r_from_index = r3o_from_index out, s3r_session_id_hex = hex_encode X (session_bytes (r3o_session_id out)),
       s3r_s_i_hex = hex_encode X (r3o_s_i out)\<rparr> \<and>
     sessions_of app' = (app_config app, snd (SignSessions_take (app_sign_sessions app) sid), app_refresh_sessions app)"
  using assms by (auto simp: sign_round3_def Let_def case_prod_beta sessions_of_def)

text \<open>Round 3 and round 5 take at most one session out of their table, also when they fail.\<close>

definition takes_one :: "('s, 'p, 'r) app_state \<Rightarrow> ('s, 'p, 'r) app_state \<Rightarrow> bool" where
  "takes_one app app' \<longleftrightarrow> sessions_of app' = sessions_of app \<or>
     (\<exists>sid. sessions_of app' = (app_config app, snd (SignSessions_take (app_sign_sessions app) sid), app_refresh_sessions app)) \<or>
     (\<exists>sid. sessions_of app' = (app_config app, app_sign_sessions app, snd (RefreshSessions_take (app_refresh_sessions app) sid)))"

lemma takes_one_simps [simp]: "takes_one app app"
  "takes_one app (app\<lparr>app_sign_sessions := snd (SignSessions_take (app_sign_sessions app) sid)\<rparr>)"
  "takes_one app (app\<lparr>app_refresh_sessions := snd (RefreshSessions_take (app_refresh_sessions app) sid)\<rparr>)"
  by (auto simp: takes_one_def sessions_of_def)

lemmas takes_one_frame = or_return_frame [where P = "takes_one app" for app]

lemma takes_one_handlers:
  "takes_one app (snd (sign_round3 C X req app))" "takes_one app (snd (refresh_round5 C X E rreq app))"
  unfolding sign_round3_def refresh_round5_def Let_def case_prod_beta
  by (auto intro!: takes_one_frame)

lemma refresh_round1_Ok:
  assumes "refresh_round1 C R X J E sid_hex kappa app = (Ok resp, app')"
  shows "\<exists>sid share out st r' e. decode_session_id X sid_hex = Ok sid \<and> loaded_share app = Ok share \<and>
     validator_refresh_round1 C R sid (sr_my_index share) kappa (app_rng app) = Ok ((out, st), r') \<and>
     e = \<lparr>rse_state = st, rse_created_at = re_instant E\<rparr> \<and>
     fst (RefreshSessions_insert (app_refresh_sessions app) e) = Ok () \<and>
     sessions_of app' = (app_config app, app_sign_sessions app, snd (RefreshSessions_insert (app_refresh_sessions app) e))"
  using assms by (auto simp: refresh_round1_def Let_def sessions_of_def case_prod_beta split: if_splits)

lemma refresh_round1_kept: "kept app (refresh_round1 C R X J E sid_hex kappa app)"
  unfolding refresh_round1_def Let_def case_prod_beta
  by (intro kept_or_return; auto intro!: kept_or_return simp: RefreshSessions_insert_def sessions_of_def split: if_splits)

lemma refresh_round5_Ok:
  assumes "refresh_round5 C X E req app = (Ok resp, app')"
  shows "\<exists>sid cs pk sig share my_share e out. decode_session_id X (f5_session_id_hex req) = Ok sid \<and>
     decode_all X (f5_user_challenges_hex req) = Ok cs \<and> decode_hex32 X (f5_melted_coin_pubkey_hex req) = Ok pk \<and>
     decode_hex64 X (f5_melted_coin_signature_hex req) = Ok sig \<and>
     nullifier_guard C E (app_config app) pk = Ok () \<and>
     loaded_share app = Ok share \<and> SecretKey_from_bytes C (sr_my_share_bytes share) = Ok my_share \<and>
     fst (RefreshSessions_take (app_refresh_sessions app) sid) = Some e \<and>
     validator_refresh_round5 C (rse_state e) \<lparr>ur2_session_id = sid, ur2_kappa = word_of_nat (length (f5_user_challenges_hex req)),
         ur2_challenges = cs, ur2_melted_coin_pubkey = pk, ur2_melted_coin_signature = Signature_from_bytes sig\<rparr>
       \<lparr>mr3_session_id = sid, mr3_gamma_star = f5_gamma_star req\<rparr> my_share (f5_signing_set req) = Ok out \<and>
     resp = \<lparr>f5r_from_index = vr5_from_index out, f5r_session_id_hex = hex_encode X (session_bytes (vr5_session_id out)),
       f5r_s_partial_hex = hex_encode X (vr5_s_partial out)\<rparr> \<and>
     sessions_of app' = (app_config app, app_sign_sessions app, snd (RefreshSessions_take (app_refresh_sessions app) sid))"
  using assms by (auto simp: refresh_round5_def Let_def case_prod_beta sessions_of_def split: if_splits)


section \<open>Nonces over a run\<close>

text \<open>The entries a transition drew in round 1, and the ones it answered with in round 3 or round 5.\<close>

definition sign_drawn :: "('s, 'p, 'r) transition \<Rightarrow> 's sign_session_entry multiset" where
  "sign_drawn tr =
     (case tr_reply tr of
        SignRound1Reply (Ok _) \<Rightarrow> hm_values (app_sign_sessions (tr_after tr)) - hm_values (app_sign_sessions (tr_before tr))
      | _ \<Rightarrow> {#})"

definition sign_answered :: "('s, 'p, 'r) transition \<Rightarrow> 's sign_session_entry multiset" where
  "sign_answered tr =
     (case tr_reply tr of
        SignRound3Reply (Ok _) \<Rightarrow> hm_values (app_sign_sessions (tr_before tr)) - hm_values (app_sign_sessions (tr_after tr))
      | _ \<Rightarrow> {#})"

definition refresh_drawn :: "('s, 'p, 'r) transition \<Rightarrow> 's refresh_session_entry multiset" where
  "refresh_drawn tr =
     (case tr_reply tr of
        RefreshRound1Reply (Ok _) \<Rightarrow> hm_values (app_refresh_sessions (tr_after tr)) - hm_values (app_refresh_sessions (tr_before tr))
      | _ \<Rightarrow> {#})"

definition refresh_answered :: "('s, 'p, 'r) transition \<Rightarrow> 's refresh_session_entry multiset" where
  "refresh_answered tr =
     (case tr_reply tr of
        RefreshRound5Reply (Ok _) \<Rightarrow> hm_values (app_refresh_sessions (tr_before tr)) - hm_values (app_refresh_sessions (tr_after tr))
      | _ \<Rightarrow> {#})"

lemmas nonce_defs = sign_drawn_def sign_answered_def refresh_drawn_def refresh_answered_def

definition tables_ok :: "('s, 'p, 'r) app_state \<Rightarrow> bool" where
  "tables_ok app \<longleftrightarrow> hm_ok (app_sign_sessions app) \<and> hm_ok (app_refresh_sessions app)"

text \<open>A step moves both tables as the session-table contract allows.\<close>

definition step_moves :: "('s, 'p, 'r) transition \<Rightarrow> bool" where
  "step_moves tr \<longleftrightarrow>
     sign_table.moves (app_sign_sessions (tr_before tr)) (sign_drawn tr) (sign_answered tr) (app_sign_sessions (tr_after tr)) \<and>
     refresh_table.moves (app_refresh_sessions (tr_before tr)) (refresh_drawn tr) (refresh_answered tr) (app_refresh_sessions (tr_after tr))"

lemma frame_moves:
  assumes "sessions_of app' = sessions_of app \<or> takes_one app app'"
    and "\<nexists>y. reply = SignRound1Reply (Ok y)" and "\<nexists>y. reply = SignRound3Reply (Ok y)"
    and "\<nexists>y. reply = RefreshRound1Reply (Ok y)" and "\<nexists>y. reply = RefreshRound5Reply (Ok y)"
  shows "step_moves \<lparr>tr_before = app, tr_request = req, tr_reply = reply, tr_after = app'\<rparr>"
  using assms unfolding step_moves_def nonce_defs
  by (auto simp: takes_one_def sessions_of_def sign_table.moves_def refresh_table.moves_def
    split: api_reply.splits result.splits)


lemma sign_handler_moves:
  assumes "tables_ok app"
  shows "sign_round1 C R X J E sid app = (out1, app1) \<Longrightarrow>
       step_moves \<lparr>tr_before = app, tr_request = req, tr_reply = SignRound1Reply out1, tr_after = app1\<rparr>"
    and "sign_round3 C X rq app = (out3, app3) \<Longrightarrow>
       step_moves \<lparr>tr_before = app, tr_request = req, tr_reply = SignRound3Reply out3, tr_after = app3\<rparr>"
proof -
  have T: "hm_ok (app_sign_sessions app)" using assms by (simp add: tables_ok_def)
  show "step_moves \<lparr>tr_before = app, tr_request = req, tr_reply = SignRound1Reply out1, tr_after = app1\<rparr>"
    if h: "sign_round1 C R X J E sid app = (out1, app1)"
  proof (cases out1)
    case (Ok y)
    obtain e where e: "fst (SignSessions_insert (app_sign_sessions app) e) = Ok ()"
      "sessions_of app1 = (app_config app, snd (SignSessions_insert (app_sign_sessions app) e), app_refresh_sessions app)"
      using sign_round1_Ok [OF h [unfolded Ok]] by blast
    then show ?thesis using sign_table.put_entries [OF T e(1)] Ok
      by (auto simp: step_moves_def nonce_defs sessions_of_def sign_table.moves_def)
  qed (use h sign_round1_kept [of app C R X J E sid] in \<open>auto simp: kept_def intro: frame_moves\<close>)
  show "step_moves \<lparr>tr_before = app, tr_request = req, tr_reply = SignRound3Reply out3, tr_after = app3\<rparr>"
    if h: "sign_round3 C X rq app = (out3, app3)"
  proof (cases out3)
    case (Ok y)
    obtain k e where e: "fst (SignSessions_take (app_sign_sessions app) k) = Some e"
      "sessions_of app3 = (app_config app, snd (SignSessions_take (app_sign_sessions app) k), app_refresh_sessions app)"
      using sign_round3_Ok [OF h [unfolded Ok]] by blast
    then show ?thesis using sign_table.get_entries [OF T e(1)] Ok
      by (auto simp: step_moves_def nonce_defs sessions_of_def sign_table.moves_def)
  qed (use h takes_one_handlers(1) [of app C X rq] in \<open>auto intro: frame_moves\<close>)
qed

lemma refresh_handler_moves:
  assumes "tables_ok app"
  shows "refresh_round1 C R X J E sid kappa app = (out1, app1) \<Longrightarrow>
       step_moves \<lparr>tr_before = app, tr_request = req, tr_reply = RefreshRound1Reply out1, tr_after = app1\<rparr>"
    and "refresh_round5 C X E rq app = (out5, app5) \<Longrightarrow>
       step_moves \<lparr>tr_before = app, tr_request = req, tr_reply = RefreshRound5Reply out5, tr_after = app5\<rparr>"
proof -
  have T: "hm_ok (app_refresh_sessions app)" using assms by (simp add: tables_ok_def)
  show "step_moves \<lparr>tr_before = app, tr_request = req, tr_reply = RefreshRound1Reply out1, tr_after = app1\<rparr>"
    if h: "refresh_round1 C R X J E sid kappa app = (out1, app1)"
  proof (cases out1)
    case (Ok y)
    obtain e where e: "fst (RefreshSessions_insert (app_refresh_sessions app) e) = Ok ()"
      "sessions_of app1 = (app_config app, app_sign_sessions app, snd (RefreshSessions_insert (app_refresh_sessions app) e))"
      using refresh_round1_Ok [OF h [unfolded Ok]] by blast
    then show ?thesis using refresh_table.put_entries [OF T e(1)] Ok
      by (auto simp: step_moves_def nonce_defs sessions_of_def refresh_table.moves_def)
  qed (use h refresh_round1_kept [of app C R X J E sid kappa] in \<open>auto simp: kept_def intro: frame_moves\<close>)
  show "step_moves \<lparr>tr_before = app, tr_request = req, tr_reply = RefreshRound5Reply out5, tr_after = app5\<rparr>"
    if h: "refresh_round5 C X E rq app = (out5, app5)"
  proof (cases out5)
    case (Ok y)
    obtain k e where e: "fst (RefreshSessions_take (app_refresh_sessions app) k) = Some e"
      "sessions_of app5 = (app_config app, app_sign_sessions app, snd (RefreshSessions_take (app_refresh_sessions app) k))"
      using refresh_round5_Ok [OF h [unfolded Ok]] by blast
    then show ?thesis using refresh_table.get_entries [OF T e(1)] Ok
      by (auto simp: step_moves_def nonce_defs sessions_of_def refresh_table.moves_def)
  qed (use h takes_one_handlers(2) [of app C X E rq] in \<open>auto intro: frame_moves\<close>)
qed

lemmas apfst_eq = apfst_def map_prod_def case_prod_beta

lemma api_step_moves:
  assumes "tables_ok app" and "api_step C R X J E req app = (reply, app')"
  shows "step_moves \<lparr>tr_before = app, tr_request = req, tr_reply = reply, tr_after = app'\<rparr>"
proof -
  note moves = sign_handler_moves [OF assms(1) prod.collapse [symmetric]] refresh_handler_moves [OF assms(1) prod.collapse [symmetric]]
  show ?thesis
  proof (cases req)
    case PostSignRound1
    then show ?thesis using assms(2) moves(1) by (auto simp: api_step_def apfst_eq)
  next
    case PostSignRound3
    then show ?thesis using assms(2) moves(2) by (auto simp: api_step_def apfst_eq)
  next
    case PostRefreshRound1
    then show ?thesis using assms(2) moves(3) by (auto simp: api_step_def apfst_eq)
  next
    case PostRefreshRound5
    then show ?thesis using assms(2) moves(4) by (auto simp: api_step_def apfst_eq)
  next
    case SignPruneTick
    then show ?thesis using assms(2) by (auto simp: api_step_def step_moves_def nonce_defs case_prod_beta Let_def)
  next
    case RefreshPruneTick
    then show ?thesis using assms(2) by (auto simp: api_step_def step_moves_def nonce_defs case_prod_beta Let_def)
  qed (use assms in \<open>auto simp: api_step_def apfst_eq Let_def ceremony_frames intro!: frame_moves\<close>)
qed

text \<open>The conservation law of the session tables, over a run.\<close>

definition nonces_conserved ::
    "('s, 'p, 'r) app_state \<Rightarrow> 's sign_session_entry multiset \<Rightarrow> 's sign_session_entry multiset
     \<Rightarrow> 's refresh_session_entry multiset \<Rightarrow> 's refresh_session_entry multiset \<Rightarrow> bool" where
  "nonces_conserved app sd sa rd ra \<longleftrightarrow>
     sign_table.conserved (app_sign_sessions app) sd sa \<and> refresh_table.conserved (app_refresh_sessions app) rd ra"

lemma nonces_conserved_tables: "nonces_conserved app sd sa rd ra \<Longrightarrow> tables_ok app"
  by (simp add: nonces_conserved_def tables_ok_def sign_table.conserved_def refresh_table.conserved_def)

lemma nonces_conserved_step:
  assumes "nonces_conserved (tr_before tr) sd sa rd ra" and "step_moves tr"
  shows "nonces_conserved (tr_after tr) (sd + sign_drawn tr) (sa + sign_answered tr) (rd + refresh_drawn tr) (ra + refresh_answered tr)"
  using assms unfolding nonces_conserved_def step_moves_def
  by (auto intro: sign_table.conserved_moves refresh_table.conserved_moves)

lemma api_run_conserved:
  assumes "nonces_conserved app sd sa rd ra" and "api_run C R X J reqs app = (trs, app')"
  shows "nonces_conserved app' (sd + (\<Sum>tr\<leftarrow>trs. sign_drawn tr)) (sa + (\<Sum>tr\<leftarrow>trs. sign_answered tr))
       (rd + (\<Sum>tr\<leftarrow>trs. refresh_drawn tr)) (ra + (\<Sum>tr\<leftarrow>trs. refresh_answered tr)) \<and>
     (\<forall>tr \<in> set trs. tables_ok (tr_before tr) \<and> (\<exists>E. api_step C R X J E (tr_request tr) (tr_before tr) = (tr_reply tr, tr_after tr)))"
  using assms
proof (induction reqs arbitrary: app sd sa rd ra trs)
  case (Cons x reqs)
  obtain E req where x: "x = (E, req)" by force
  obtain reply app1 where st: "api_step C R X J E req app = (reply, app1)" by force
  obtain trs1 where run: "api_run C R X J reqs app1 = (trs1, app')" and
    trs: "trs = \<lparr>tr_before = app, tr_request = req, tr_reply = reply, tr_after = app1\<rparr> # trs1"
    using Cons.prems(2) by (auto simp: x st split: prod.splits)
  have "step_moves (hd trs)"
    using api_step_moves [OF nonces_conserved_tables [OF Cons.prems(1)] st] by (simp add: trs)
  then have "nonces_conserved app1 (sd + sign_drawn (hd trs)) (sa + sign_answered (hd trs)) (rd + refresh_drawn (hd trs))
      (ra + refresh_answered (hd trs))"
    using nonces_conserved_step [of "hd trs" sd sa rd ra] Cons.prems(1) by (simp add: trs)
  from Cons.IH [OF this run] show ?case using st nonces_conserved_tables [OF Cons.prems(1)]
    by (auto simp: trs add.assoc)
qed auto

lemma boot_conserved:
  assumes "boot C X J E args fs log_at r = Ok app"
  shows "nonces_conserved app {#} {#} {#} {#}"
proof -
  have "sessions_of app = (app_config app, [], [])"
    using assms by (auto simp: boot_def Let_def sessions_of_def SignSessions_new_def RefreshSessions_new_def split: if_splits)
  then show ?thesis
    by (simp add: nonces_conserved_def sessions_of_def sign_table.conserved_def refresh_table.conserved_def hm_values_def)
qed


text \<open>An answer is the partial signature made from the one entry it used up.\<close>

definition answers_from_entry :: "('s::field, 'p) crypto \<Rightarrow> libs \<Rightarrow> ('s, 'p, 'r) transition \<Rightarrow> bool" where
  "answers_from_entry C X tr \<longleftrightarrow>
     (\<forall>resp. tr_reply tr = SignRound3Reply (Ok resp) \<longrightarrow>
        (\<exists>e c my_share S out. sign_answered tr = {#e#} \<and> partial_sign C (sse_state e) c my_share S = Ok out \<and>
           s3r_s_i_hex resp = hex_encode X (r3o_s_i out))) \<and>
     (\<forall>resp. tr_reply tr = RefreshRound5Reply (Ok resp) \<longrightarrow>
        (\<exists>e u ch my_share S out. refresh_answered tr = {#e#} \<and> validator_refresh_round5 C (rse_state e) u ch my_share S = Ok out \<and>
           f5r_s_partial_hex resp = hex_encode X (vr5_s_partial out)))"

lemma sign_round3_answers:
  assumes "tables_ok app" and "sign_round3 C X rq app = (Ok resp, app')"
  shows "\<exists>e c my_share S out. hm_values (app_sign_sessions app) - hm_values (app_sign_sessions app') = {#e#} \<and>
     partial_sign C (sse_state e) c my_share S = Ok out \<and> s3r_s_i_hex resp = hex_encode X (r3o_s_i out)"
proof -
  obtain sid c my_share e out where o: "fst (SignSessions_take (app_sign_sessions app) sid) = Some e"
      "partial_sign C (sse_state e) \<lparr>bch_c = c\<rparr> my_share (s3_signing_set rq) = Ok out"
      "s3r_s_i_hex resp = hex_encode X (r3o_s_i out)"
      "app_sign_sessions app' = snd (SignSessions_take (app_sign_sessions app) sid)"
    using sign_round3_Ok [OF assms(2)] by (elim exE conjE) (simp add: sessions_of_def)
  have "hm_ok (app_sign_sessions app)" using assms(1) by (simp add: tables_ok_def)
  then have "hm_values (app_sign_sessions app) - hm_values (app_sign_sessions app') = {#e#}"
    using sign_table.get_entries [OF _ o(1)] o(4) by simp
  then show ?thesis using o(2,3) by blast
qed

lemma refresh_round5_answers:
  assumes "tables_ok app" and "refresh_round5 C X E rq app = (Ok resp, app')"
  shows "\<exists>e u ch my_share S out. hm_values (app_refresh_sessions app) - hm_values (app_refresh_sessions app') = {#e#} \<and>
     validator_refresh_round5 C (rse_state e) u ch my_share S = Ok out \<and> f5r_s_partial_hex resp = hex_encode X (vr5_s_partial out)"
proof -
  obtain sid u ch my_share e out where o: "fst (RefreshSessions_take (app_refresh_sessions app) sid) = Some e"
      "validator_refresh_round5 C (rse_state e) u ch my_share (f5_signing_set rq) = Ok out"
      "f5r_s_partial_hex resp = hex_encode X (vr5_s_partial out)"
      "app_refresh_sessions app' = snd (RefreshSessions_take (app_refresh_sessions app) sid)"
    using refresh_round5_Ok [OF assms(2)] by (elim exE conjE) (simp add: sessions_of_def)
  have "hm_ok (app_refresh_sessions app)" using assms(1) by (simp add: tables_ok_def)
  then have "hm_values (app_refresh_sessions app) - hm_values (app_refresh_sessions app') = {#e#}"
    using refresh_table.get_entries [OF _ o(1)] o(4) by simp
  then show ?thesis using o(2,3) by blast
qed

lemma api_step_answers:
  assumes "tables_ok (tr_before tr)" and "api_step C R X J E (tr_request tr) (tr_before tr) = (tr_reply tr, tr_after tr)"
  shows "answers_from_entry C X tr"
proof -
  have "\<exists>rq. sign_round3 C X rq (tr_before tr) = (Ok resp, tr_after tr)" if "tr_reply tr = SignRound3Reply (Ok resp)" for resp
    using assms(2) that by (auto simp: api_step_def apfst_eq prod_eq_iff Let_def split: api_request.splits)
  moreover have "\<exists>rq. refresh_round5 C X E rq (tr_before tr) = (Ok resp, tr_after tr)" if "tr_reply tr = RefreshRound5Reply (Ok resp)" for resp
    using assms(2) that by (auto simp: api_step_def apfst_eq prod_eq_iff Let_def split: api_request.splits)
  ultimately show ?thesis
    using sign_round3_answers [OF assms(1)] refresh_round5_answers [OF assms(1)]
    unfolding answers_from_entry_def nonce_defs by (auto; blast)
qed

section \<open>Sessions stay available\<close>

text \<open>Requests that leave the session \<open>sid\<close>, opened at time \<open>t0\<close>, in the table.\<close>

definition leaves_session :: "libs \<Rightarrow> session_id \<Rightarrow> nat \<Rightarrow> request_env \<times> api_request \<Rightarrow> bool" where
  "leaves_session X sid t0 = (\<lambda>(E, req).
     case req of
       PostSignRound3 rq \<Rightarrow> decode_session_id X (s3_session_id_hex rq) \<noteq> Ok sid
     | SignPruneTick \<Rightarrow> re_instant E - t0 < DEFAULT_SESSION_TTL
     | _ \<Rightarrow> True)"

lemma sign_round3_other_session:
  assumes "decode_session_id X (s3_session_id_hex rq) \<noteq> Ok sid"
  shows "map_of (app_sign_sessions (snd (sign_round3 C X rq app))) sid = map_of (app_sign_sessions app) sid"
  unfolding sign_round3_def Let_def case_prod_beta
  by (intro or_return_frame [where P = "\<lambda>a. map_of (app_sign_sessions a) sid = map_of (app_sign_sessions app) sid"])
    (use assms in \<open>auto simp: SignSessions_take_def\<close>)

lemma refresh_round5_keeps_sign_table: "app_sign_sessions (snd (refresh_round5 C X E rq app)) = app_sign_sessions app"
  unfolding refresh_round5_def Let_def case_prod_beta
  by (auto intro!: or_return_frame [where P = "\<lambda>a. app_sign_sessions a = app_sign_sessions app"])

lemma sign_round1_keeps_session:
  assumes "map_of (app_sign_sessions app) sid = Some e"
  shows "map_of (app_sign_sessions (snd (sign_round1 C R X J E h app))) sid = Some e"
  unfolding sign_round1_def Let_def case_prod_beta
  by (intro or_return_frame [where P = "\<lambda>a. map_of (app_sign_sessions a) sid = Some e"])
    (use assms in \<open>auto simp: SignSessions_insert_def hm_contains_key_def\<close>)

lemma api_step_leaves_session:
  assumes "hm_ok (app_sign_sessions app)" and "map_of (app_sign_sessions app) sid = Some e"
    and "leaves_session X sid (sse_created_at e) (E, req)" and "api_step C R X J E req app = (reply, app')"
  shows "map_of (app_sign_sessions app') sid = Some e"
proof (cases req)
  case (PostSignRound1 h)
  then show ?thesis using assms(4) sign_round1_keeps_session [OF assms(2), of C R X J E h] by (auto simp: api_step_def apfst_eq)
next
  case (PostSignRound3 rq)
  then show ?thesis using assms sign_round3_other_session [of X rq sid C app] by (auto simp: api_step_def apfst_eq leaves_session_def)
next
  case SignPruneTick
  then show ?thesis using assms
    by (auto simp: api_step_def leaves_session_def SignSessions_prune_def Let_def map_of_hm_retain case_prod_beta)
next
  case (PostRefreshRound1 h kappa)
  then show ?thesis using assms refresh_round1_kept [of app C R X J E h kappa] refresh_round1_Ok [of C R X J E h kappa app]
    by (cases "refresh_round1 C R X J E h kappa app") (auto simp: api_step_def apfst_eq kept_def sessions_of_def)
next
  case (PostRefreshRound5 rq)
  then show ?thesis using assms by (auto simp: api_step_def apfst_eq refresh_round5_keeps_sign_table)
qed (use assms in \<open>auto simp: api_step_def apfst_eq Let_def ceremony_sign_frames\<close>)


lemma api_step_tables_ok:
  assumes "tables_ok app" and "api_step C R X J E req app = (reply, app')"
  shows "tables_ok app'"
proof -
  have "nonces_conserved app (hm_values (app_sign_sessions app)) {#} (hm_values (app_refresh_sessions app)) {#}"
    using assms(1) by (simp add: nonces_conserved_def tables_ok_def sign_table.conserved_def refresh_table.conserved_def)
  then show ?thesis
    using nonces_conserved_step [OF _ api_step_moves [OF assms]] nonces_conserved_tables by fastforce
qed

lemma api_run_leaves_session:
  assumes "tables_ok app" and "map_of (app_sign_sessions app) sid = Some e"
    and "\<forall>x \<in> set reqs. leaves_session X sid (sse_created_at e) x" and "api_run C R X J reqs app = (trs, app')"
  shows "map_of (app_sign_sessions app') sid = Some e"
  using assms
proof (induction reqs arbitrary: app trs)
  case (Cons x reqs)
  obtain E req where x: "x = (E, req)" by force
  obtain reply app1 where st: "api_step C R X J E req app = (reply, app1)" by force
  obtain trs1 where run: "api_run C R X J reqs app1 = (trs1, app')"
    using Cons.prems(4) by (auto simp: x st split: prod.splits)
  have "tables_ok app1" using api_step_tables_ok [OF Cons.prems(1) st] .
  moreover have "map_of (app_sign_sessions app1) sid = Some e"
    using api_step_leaves_session [OF _ Cons.prems(2) _ st] Cons.prems(1,3) by (simp add: x tables_ok_def)
  ultimately show ?case using Cons.IH [OF _ _ _ run] Cons.prems(3) by simp
qed simp

lemma sign_round3_reply:
  assumes "decode_session_id X (s3_session_id_hex rq) = Ok sid" and "decode_hex32 X (s3_challenge_hex rq) = Ok c"
    and "loaded_share app = Ok share" and "SecretKey_from_bytes C (sr_my_share_bytes share) = Ok my_share"
    and "map_of (app_sign_sessions app) sid = Some e"
    and "partial_sign C (sse_state e) \<lparr>bch_c = c\<rparr> my_share (s3_signing_set rq) = Ok out"
  shows "fst (sign_round3 C X rq app) = Ok \<lparr>s3r_from_index = r3o_from_index out,
     s3r_session_id_hex = hex_encode X (session_bytes (r3o_session_id out)), s3r_s_i_hex = hex_encode X (r3o_s_i out)\<rparr>"
  using assms by (simp add: sign_round3_def SignSessions_take_def hm_remove_def)

section \<open>A loaded daemon for the witnesses\<close>

definition sample_config :: validator_config where
  "sample_config = \<lparr>vcfg_data_dir = [], vcfg_bind_addr = [], vcfg_operator_name = [], vcfg_master_seed = None,
     vcfg_admin_token = None, vcfg_solana_rpc_url = None, vcfg_nullifier_tree_pda = None\<rparr>"

definition sample_share :: validator_share_record where
  "sample_share = ValidatorShareRecord_default\<lparr>sr_my_index := 2, sr_n := 3, sr_t := 1, sr_my_share_bytes := gf_bytes 5\<rparr>"

definition sample_app :: "(gf, gf, gf list) app_state" where
  "sample_app = \<lparr>app_config = sample_config, app_state = ValidatorState_default\<lparr>vst_share := Some sample_share\<rparr>,
     app_sign_sessions = [], app_refresh_sessions = [], app_dkg_sessions = [], app_reshare_sessions = [],
     app_transparency = None, app_disk = [], app_rng = [3, 4]\<rparr>"

definition sample_args :: validator_args where
  "sample_args = \<lparr>va_bind = [], va_data_dir = [], va_operator = [], va_master_seed_hex = None, va_admin_token = None,
     va_transparency_log = Some [], va_solana_rpc_url = None, va_nullifier_tree_pda_hex = None\<rparr>"

definition sample_env :: request_env where
  "sample_env = \<lparr>re_instant = 1000, re_unix_ms = 0, re_log_io = Written, re_fault = NoFault, re_nonce = replicate 12 0,
     re_rpc = (\<lambda>_ _. RpcNull)\<rparr>"

definition sample_sid_hex :: string where
  "sample_sid_hex = replicate 16 CHR ''a''"

section \<open>Properties\<close>



text \<open>
  C17. A session asked for in time is answered: after round 1 of a signing session, whatever other
  requests and pruning ticks the daemon serves in between, short of a round 3 for the same session
  and of pruning past its lifetime, round 3 answers a canonical challenge for a proper signing set
  with the nonce whose commitment round 1 returned and the share then loaded.
\<close>

theorem session_answered_in_time:
  fixes C :: "('s::field, 'p::ab_group_add) crypto"
  assumes "curve_ok C" and "large_field TYPE('s)" and "tables_ok app"
    and r1: "sign_round1 C R X J E sid_hex app = (Ok resp, app1)"
    and sid: "decode_session_id X sid_hex = Ok sid" and share: "loaded_share app = Ok share"
    and reqs: "\<forall>x \<in> set reqs. leaves_session X sid (re_instant E) x" and run: "api_run C R X J reqs app1 = (trs, app2)"
    and rq: "decode_session_id X (s3_session_id_hex rq) = Ok sid" "decode_hex32 X (s3_challenge_hex rq) = Ok (scalar_to_bytes C c)"
      "distinct (s3_signing_set rq)" "0 \<notin> set (s3_signing_set rq)" "sr_my_index share \<in> set (s3_signing_set rq)"
    and share2: "loaded_share app2 = Ok share2" "sr_my_share_bytes share2 = scalar_to_bytes C x"
  shows "s1_r_i_hex resp = hex_encode X (compress C (mulG C (fst (random_scalar R (app_rng app))))) \<and>
     fst (sign_round3 C X rq app2) = Ok \<lparr>s3r_from_index = sr_my_index share,
       s3r_session_id_hex = hex_encode X (session_bytes sid),
       s3r_s_i_hex = hex_encode X (scalar_to_bytes C (fst (random_scalar R (app_rng app)) +
         c * lagrange_basis (scalar_from ` set (s3_signing_set rq)) 0 (scalar_from (sr_my_index share)) * x))\<rparr>"
proof -
  let ?e = "\<lparr>sse_state = snd (fst (validator_round1 C R sid (sr_my_index share) (app_rng app))), sse_created_at = re_instant E\<rparr>"
  have ins: "fst (SignSessions_insert (app_sign_sessions app) ?e) = Ok ()"
    "app_sign_sessions app1 = snd (SignSessions_insert (app_sign_sessions app) ?e)"
    using sign_round1_Ok [OF r1] sid share by (auto simp: sessions_of_def)
  then have "map_of (app_sign_sessions app1) sid = Some ?e"
    by (auto simp: SignSessions_insert_def validator_round1_fst split: if_splits)
  moreover have "tables_ok app1"
    using api_step_tables_ok [OF assms(3), of C R X J E "PostSignRound1 sid_hex"] r1 by (simp add: api_step_def)
  ultimately have e: "map_of (app_sign_sessions app2) sid = Some ?e"
    using api_run_leaves_session [OF _ _ _ run, of sid ?e] reqs by simp
  have "s1_r_i_hex resp = hex_encode X (compress C (mulG C (fst (random_scalar R (app_rng app)))))"
    using r1 sid share by (auto simp: sign_round1_def Let_def case_prod_beta validator_round1_fst)
  moreover have ps: "partial_sign C (sse_state ?e) \<lparr>bch_c = scalar_to_bytes C c\<rparr> (SecretKey x) (s3_signing_set rq) =
      Ok \<lparr>r3o_from_index = sr_my_index share, r3o_session_id = sid, r3o_s_i = scalar_to_bytes C (fst (random_scalar R (app_rng app)) +
        c * lagrange_basis (scalar_from ` set (s3_signing_set rq)) 0 (scalar_from (sr_my_index share)) * x)\<rparr>"
    using partial_sign_honest [OF assms(1,2) rq(3,4,5)] by simp
  ultimately show ?thesis
    using sign_round3_reply [OF rq(1,2) share2(1) _ e ps] share2(2) assms(1) by simp
qed


theorem session_answered_in_time_witness:
  "\<exists>resp app1 trs app2.
     sign_round1 gf_curve tape_rng sample_libs sample_json sample_env sample_sid_hex sample_app = (Ok resp, app1) \<and>
     api_run gf_curve tape_rng sample_libs sample_json [(sample_env, GetHealth), (sample_env, SignPruneTick)] app1 = (trs, app2) \<and>
     s1_r_i_hex resp = hex_encode sample_libs (gf_bytes 3) \<and>
     fst (sign_round3 gf_curve sample_libs \<lparr>s3_session_id_hex = sample_sid_hex, s3_signing_set = [2],
        s3_challenge_hex = hex_encode sample_libs (gf_bytes 1)\<rparr> app2) =
       Ok \<lparr>s3r_from_index = 2, s3r_session_id_hex = sample_sid_hex, s3r_s_i_hex = hex_encode sample_libs (gf_bytes (3 + 5))\<rparr>"
proof -
  let ?rq = "\<lparr>s3_session_id_hex = sample_sid_hex, s3_signing_set = [2], s3_challenge_hex = hex_encode sample_libs (gf_bytes 1)\<rparr>"
  let ?sid = "SessionId (ascii sample_sid_hex)"
  let ?app1 = "sample_app\<lparr>app_rng := [4], app_state := (app_state sample_app)\<lparr>vst_sign_session_counter := saturating_add 0 1\<rparr>,
    app_sign_sessions := [(?sid, \<lparr>sse_state = \<lparr>r1s_session_id = ?sid, r1s_my_index = 2, r1s_k_i = 3\<rparr>, sse_created_at = 1000\<rparr>)]\<rparr>"
  have sid: "decode_session_id sample_libs sample_sid_hex = Ok ?sid"
    by (simp add: decode_session_id_def sample_libs_def sample_sid_hex_def ascii_def)
  have share: "loaded_share sample_app = Ok sample_share" by (simp add: loaded_share_def sample_app_def)
  have vr: "validator_round1 gf_curve tape_rng ?sid 2 [3, 4] = ((\<lparr>r1o_from_index = 2, r1o_session_id = ?sid, r1o_r_i = gf_bytes 3\<rparr>,
      \<lparr>r1s_session_id = ?sid, r1s_my_index = 2, r1s_k_i = 3\<rparr>), [4])"
    by (simp add: validator_round1_def tape_rng_def gf_curve_def)
  have idx: "sr_my_index sample_share = 2" "sr_my_share_bytes sample_share = gf_bytes 5" by (simp_all add: sample_share_def)
  obtain resp where r1: "sign_round1 gf_curve tape_rng sample_libs sample_json sample_env sample_sid_hex sample_app = (Ok resp, ?app1)"
    unfolding sign_round1_def sid share or_return.simps idx
    by (simp add: sample_app_def sample_env_def vr SignSessions_insert_def hm_contains_key_def hm_insert_def tlog_def ValidatorState_default_def)
  obtain trs app2 where run: "api_run gf_curve tape_rng sample_libs sample_json [(sample_env, GetHealth), (sample_env, SignPruneTick)] ?app1 = (trs, app2)"
    by force
  then have share2: "loaded_share app2 = Ok sample_share"
    by (auto simp: api_step_def health_def loaded_share_def sample_app_def Let_def case_prod_beta)
  have c: "decode_hex32 sample_libs (s3_challenge_hex ?rq) = Ok (scalar_to_bytes gf_curve 1)"
    using libs_ok_sample by (simp add: decode_hex32_def libs_ok_def gf_bytes_def gf_curve_def)
  have "hex_encode sample_libs (ascii sample_sid_hex) = sample_sid_hex"
    by (simp add: sample_libs_def sample_sid_hex_def ascii_def char_of_def bit_0)
  then show ?thesis
    using session_answered_in_time [OF curve_ok_gf large_field_gf _ r1 sid share _ run _ c _ _ _ share2, of 5] r1 run sid
    by (intro exI conjI) (auto simp: idx gf_curve_def tables_ok_def sample_app_def leaves_session_def sample_env_def DEFAULT_SESSION_TTL_def tape_rng_def lagrange_basis_def)
qed

end
