(* ===== verification/Precompile.thy ===== *)
theory Precompile
  imports Processor
begin

text \<open>
  The Solana runtime as the program sees it, and the check of the preceding signature precompile
  (\<open>ed25519_verifier.rs\<close>).

  The ledger maps addresses to accounts and an instruction receives a list of account references;
  two references with the same address share one account, as the runtime arranges. Everything the
  program calls outside its own sources is a field of the record \<open>runtime\<close>: address derivation, the
  instructions sysvar, rent and clock, the cross-program invocation of the system program and the
  reallocation of account data.

  The lemmas show that the check accepts exactly the canonical encoding of the expected key, message
  and signature, up to trailing bytes.
\<close>

section \<open>The runtime\<close>

type_synonym pubkey = bytes

datatype solana_error =
    InvalidInstructionData
  | InvalidAccountData
  | NotEnoughAccountKeys
  | MissingRequiredSignature
  | IncorrectProgramId
  | AccountDataTooSmall
  | InsufficientFunds
  | Custom u32
  | RuntimeError nat

record account =
  ac_lamports :: u64
  ac_data :: bytes
  ac_owner :: pubkey

record account_info =
  ai_key :: pubkey
  ai_is_signer :: bool

type_synonym ledger = "pubkey \<Rightarrow> account"

record sysvar_instruction =
  si_program_id :: pubkey
  si_data :: bytes

datatype system_instruction =
    Transfer pubkey pubkey u64
  | CreateAccount pubkey pubkey u64 u64 pubkey

record runtime =
  find_program_address :: "bytes list \<Rightarrow> pubkey \<Rightarrow> pubkey \<times> u8"
  system_program_id :: pubkey
  ed25519_program_id :: pubkey
  load_current_index_checked :: "pubkey \<Rightarrow> bytes \<Rightarrow> (u16, solana_error) result"
  load_instruction_at_checked :: "nat \<Rightarrow> pubkey \<Rightarrow> bytes \<Rightarrow> (sysvar_instruction, solana_error) result"
  rent_get :: "(u32 \<Rightarrow> u64, solana_error) result"
  clock_get :: "(u64, solana_error) result"
  invoke_signed :: "system_instruction \<Rightarrow> bytes list \<Rightarrow> ledger \<Rightarrow> (ledger, solana_error) result"
  realloc :: "pubkey \<Rightarrow> u32 \<Rightarrow> bool \<Rightarrow> ledger \<Rightarrow> (ledger, solana_error) result"

section \<open>The precompile check\<close>

definition SIG_OFFSET :: nat where
  "SIG_OFFSET = 16"

definition SIG_LEN :: nat where
  "SIG_LEN = 64"

definition PK_OFFSET :: nat where
  "PK_OFFSET = SIG_OFFSET + SIG_LEN"

definition PK_LEN :: nat where
  "PK_LEN = 32"

definition MSG_OFFSET :: nat where
  "MSG_OFFSET = PK_OFFSET + PK_LEN"

definition byte_slice :: "nat \<Rightarrow> nat \<Rightarrow> bytes \<Rightarrow> bytes" where
  "byte_slice a b bs = take (b - a) (drop a bs)"

definition u16_at :: "bytes \<Rightarrow> nat \<Rightarrow> u16" where
  "u16_at data i = from_le_bytes [data ! i, data ! (i + 1)]"

definition verify_precompile_data ::
    "bytes \<Rightarrow> bytes \<Rightarrow> bytes \<Rightarrow> signature \<Rightarrow> (unit, solana_error) result" where
  "verify_precompile_data data expected_pubkey expected_message expected_signature =
     (let expected_msg_len = length expected_message;
          total_expected = MSG_OFFSET + expected_msg_len
      in if length data < total_expected then Err (Custom 32)
         else if data ! 0 \<noteq> 1 \<or> data ! 1 \<noteq> 0 then Err (Custom 33)
         else if \<not> expected_msg_len < 2 ^ 16 then Err (Custom 37)
         else if u16_at data 2 \<noteq> word_of_nat SIG_OFFSET \<or> u16_at data 4 \<noteq> - 1 \<or>
                 u16_at data 6 \<noteq> word_of_nat PK_OFFSET \<or> u16_at data 8 \<noteq> - 1 \<or>
                 u16_at data 10 \<noteq> word_of_nat MSG_OFFSET \<or>
                 u16_at data 12 \<noteq> word_of_nat expected_msg_len \<or> u16_at data 14 \<noteq> - 1 then Err (Custom 37)
         else
           (let actual_sig_r = byte_slice SIG_OFFSET (SIG_OFFSET + 32) data;
                actual_sig_s = byte_slice (SIG_OFFSET + 32) (SIG_OFFSET + 64) data;
                actual_pk = byte_slice PK_OFFSET (PK_OFFSET + PK_LEN) data;
                actual_msg = byte_slice MSG_OFFSET (MSG_OFFSET + expected_msg_len) data
            in if actual_pk \<noteq> expected_pubkey then Err (Custom 34)
               else if actual_msg \<noteq> expected_message then Err (Custom 35)
               else if actual_sig_r \<noteq> sig_r expected_signature \<or> actual_sig_s \<noteq> sig_s expected_signature
                    then Err (Custom 36)
               else Ok ()))"

definition verify_ed25519_precompile ::
    "runtime \<Rightarrow> ledger \<Rightarrow> account_info \<Rightarrow> bytes \<Rightarrow> bytes \<Rightarrow> signature \<Rightarrow> (unit, solana_error) result" where
  "verify_ed25519_precompile rt L instructions_sysvar expected_pubkey expected_message expected_signature =
     (let key = ai_key instructions_sysvar; sysvar = ac_data (L key)
      in rbind (load_current_index_checked rt key sysvar) (\<lambda>current_idx.
         if current_idx = 0 then Err (Custom 30)
         else
           rbind (load_instruction_at_checked rt (unat (current_idx - 1)) key sysvar) (\<lambda>prev.
             if si_program_id prev \<noteq> ed25519_program_id rt then Err (Custom 31)
             else verify_precompile_data (si_data prev) expected_pubkey expected_message expected_signature)))"

section \<open>The canonical encoding\<close>

definition precompile_header :: "nat \<Rightarrow> bytes" where
  "precompile_header len = [1, 0] @ to_le_bytes 2 (16 :: u16) @ to_le_bytes 2 (- 1 :: u16) @
     to_le_bytes 2 (80 :: u16) @ to_le_bytes 2 (- 1 :: u16) @ to_le_bytes 2 (112 :: u16) @
     to_le_bytes 2 (word_of_nat len :: u16) @ to_le_bytes 2 (- 1 :: u16)"

definition precompile_payload :: "bytes \<Rightarrow> bytes \<Rightarrow> signature \<Rightarrow> bytes" where
  "precompile_payload pk msg sig = precompile_header (length msg) @ sig_r sig @ sig_s sig @ pk @ msg"

lemmas offsets = SIG_OFFSET_def SIG_LEN_def PK_OFFSET_def PK_LEN_def MSG_OFFSET_def

lemma le2: "to_le_bytes 2 w = [a, b] \<longleftrightarrow> (from_le_bytes [a, b] :: u16) = w"
proof
  assume "to_le_bytes 2 w = [a, b]"
  then show "from_le_bytes [a, b] = w" using from_to_le_bytes [of 2 w] by simp
next
  assume "(from_le_bytes [a, b] :: u16) = w"
  then show "to_le_bytes 2 w = [a, b]" using to_from_le_bytes [of 2 "[a, b]", where 'a = 16] by auto
qed

lemma le2_append: "a # b # xs = to_le_bytes 2 (w :: u16) @ ys \<longleftrightarrow> from_le_bytes [a, b] = w \<and> xs = ys"
proof -
  have "[a, b] @ xs = to_le_bytes 2 w @ ys \<longleftrightarrow> [a, b] = to_le_bytes 2 w \<and> xs = ys"
    by (rule append_eq_append_conv) simp
  then show ?thesis using le2 [of w a b] by auto
qed

text \<open>Cutting a byte string of sufficient length at the fixed offsets.\<close>

lemma take16:
  assumes "16 \<le> length data"
  shows "take 16 data = [data ! 0, data ! 1, data ! 2, data ! (2 + 1), data ! 4, data ! (4 + 1),
     data ! 6, data ! (6 + 1), data ! 8, data ! (8 + 1), data ! 10, data ! (10 + 1),
     data ! 12, data ! (12 + 1), data ! 14, data ! (14 + 1)]"
proof -
  have "take 16 data = map (\<lambda>i. data ! i) [0..<16]"
    using assms by (intro nth_equalityI) simp_all
  moreover have "[0..<16] = [0, 1, 2, 2 + 1, 4, 4 + 1, 6, 6 + 1, 8, 8 + 1, 10, 10 + 1, 12, 12 + 1, 14, 14 + 1 :: nat]"
    by code_simp
  ultimately show ?thesis by (simp only: list.map)
qed

lemma header_iff:
  assumes "16 \<le> length data"
  shows "take 16 data = precompile_header len \<longleftrightarrow>
     data ! 0 = 1 \<and> data ! 1 = 0 \<and> u16_at data 2 = 16 \<and> u16_at data 4 = - 1 \<and> u16_at data 6 = 80 \<and>
     u16_at data 8 = - 1 \<and> u16_at data 10 = 112 \<and> u16_at data 12 = word_of_nat len \<and> u16_at data 14 = - 1"
  unfolding take16 [OF assms] precompile_header_def u16_at_def append_Cons append_Nil list.inject le2_append
  by (simp only: eq_commute [of "[data ! 14, data ! (14 + 1)]"] le2)

lemma take_add_slice: "a \<le> b \<Longrightarrow> take b bs = take a bs @ byte_slice a b bs"
  by (metis le_add_diff_inverse byte_slice_def take_add)

lemma append_same_length: "length a = length b \<Longrightarrow> a @ c = b @ d \<longleftrightarrow> a = b \<and> c = d"
  by simp

lemma payload_iff:
  assumes "112 + length msg \<le> length data" and "length pk = 32" and "sig_wf sig"
  shows "take (112 + length msg) data = precompile_payload pk msg sig \<longleftrightarrow>
     take 16 data = precompile_header (length msg) \<and> byte_slice 16 48 data = sig_r sig \<and> byte_slice 48 80 data = sig_s sig \<and>
     byte_slice 80 112 data = pk \<and> byte_slice 112 (112 + length msg) data = msg"
proof -
  have "take (112 + length msg) data =
      take 16 data @ byte_slice 16 48 data @ byte_slice 48 80 data @ byte_slice 80 112 data @ byte_slice 112 (112 + length msg) data"
    using take_add_slice [of 112 "112 + length msg" data] take_add_slice [of 80 112 data]
      take_add_slice [of 48 80 data] take_add_slice [of 16 48 data] by simp
  moreover have "length (take 16 data) = length (precompile_header (length msg))"
    "length (byte_slice 16 48 data) = length (sig_r sig)" "length (byte_slice 48 80 data) = length (sig_s sig)"
    "length (byte_slice 80 112 data) = length pk"
    using assms by (simp_all add: precompile_header_def byte_slice_def sig_wf_def)
  ultimately show ?thesis
    unfolding precompile_payload_def by (simp only: append_same_length)
qed

lemma verify_precompile_data_iff:
  assumes "length pk = 32" and "sig_wf sig" and "length msg < 2 ^ 16"
  shows "verify_precompile_data data pk msg sig = Ok () \<longleftrightarrow>
         112 + length msg \<le> length data \<and> take (112 + length msg) data = precompile_payload pk msg sig"
proof (cases "112 + length msg \<le> length data")
  case True
  then have "16 \<le> length data" by simp
  from header_iff [OF this, of "length msg"] show ?thesis
    using True payload_iff [OF True assms(1,2)] assms(3)
    by (auto simp: verify_precompile_data_def offsets Let_def)
next
  case False
  then show ?thesis by (simp add: verify_precompile_data_def offsets Let_def)
qed

section \<open>A concrete runtime\<close>

text \<open>
  An executable runtime for the witnesses: addresses are the concatenated seeds, the instructions
  sysvar holds the data of the preceding instruction, and the system program and reallocation do
  what is documented of them.
\<close>

definition sample_invoke :: "system_instruction \<Rightarrow> ledger \<Rightarrow> (ledger, solana_error) result" where
  "sample_invoke ix L =
     (case ix of
        Transfer a b n \<Rightarrow>
          if ac_lamports (L a) < n then Err (RuntimeError 1)
          else if a = b then Ok L
          else Ok (L(a := (L a)\<lparr>ac_lamports := ac_lamports (L a) - n\<rparr>, b := (L b)\<lparr>ac_lamports := ac_lamports (L b) + n\<rparr>))
      | CreateAccount f t n sz ow \<Rightarrow>
          if ac_data (L t) \<noteq> [] then Err (RuntimeError 0)
          else Ok (L(t := \<lparr>ac_lamports = n, ac_data = replicate (unat sz) 0, ac_owner = ow\<rparr>)))"

definition sample_runtime :: runtime where
  "sample_runtime = \<lparr>find_program_address = (\<lambda>seeds _. (concat seeds, 255)), system_program_id = [0],
     ed25519_program_id = [1], load_current_index_checked = (\<lambda>_ _. Ok 1),
     load_instruction_at_checked = (\<lambda>_ _ data. Ok \<lparr>si_program_id = [1], si_data = data\<rparr>),
     rent_get = Ok (\<lambda>_. 0), clock_get = Ok 100, invoke_signed = (\<lambda>ix _ L. sample_invoke ix L),
     realloc = (\<lambda>k n _ L. Ok (L(k := (L k)\<lparr>ac_data := take (unat n) (ac_data (L k)) @
       replicate (unat n - length (ac_data (L k))) 0\<rparr>)))\<rparr>"

definition sample_account :: "bytes \<Rightarrow> account" where
  "sample_account data = \<lparr>ac_lamports = 5, ac_data = data, ac_owner = [9]\<rparr>"

definition account_ref :: "bytes \<Rightarrow> account_info" where
  "account_ref key = \<lparr>ai_key = key, ai_is_signer = True\<rparr>"

definition gf_payload :: bytes where
  "gf_payload = precompile_payload (gf_bytes 5) (gf_bytes 4) gf_sig"

lemma gf_sig_wf: "sig_wf gf_sig"
  using gf_sig_verifies by (simp add: sig_wf_def gf_sig_def schnorr_sign_def Let_def case_prod_beta)

section \<open>Properties\<close>

text \<open>
  C21. The precompile check is exact: it succeeds precisely when the transaction's preceding
  instruction is addressed to the signature precompile and starts with the canonical single-signature
  encoding of the expected key, message and signature. No other instruction can stand in for it.
\<close>

theorem precompile_check_exact:
  assumes "length pk = 32" and "sig_wf sig" and "length msg < 2 ^ 16"
  shows "verify_ed25519_precompile rt L sysvar pk msg sig = Ok () \<longleftrightarrow>
     (\<exists>idx prev rest.
        load_current_index_checked rt (ai_key sysvar) (ac_data (L (ai_key sysvar))) = Ok idx \<and> idx \<noteq> 0 \<and>
        load_instruction_at_checked rt (unat (idx - 1)) (ai_key sysvar) (ac_data (L (ai_key sysvar))) = Ok prev \<and>
        si_program_id prev = ed25519_program_id rt \<and> si_data prev = precompile_payload pk msg sig @ rest)"
proof -
  have len: "length (precompile_payload pk msg sig) = 112 + length msg"
    using assms by (simp add: precompile_payload_def precompile_header_def sig_wf_def)
  have "verify_precompile_data data pk msg sig = Ok () \<longleftrightarrow> (\<exists>rest. data = precompile_payload pk msg sig @ rest)" for data
    unfolding verify_precompile_data_iff [OF assms] using len
    by (metis append_eq_conv_conj append_take_drop_id le_add1 length_append)
  then show ?thesis by (auto simp: verify_ed25519_precompile_def Let_def split: if_splits)
qed


theorem precompile_check_exact_witness:
  "\<exists>idx prev rest.
     load_current_index_checked sample_runtime [2] gf_payload = Ok idx \<and> idx \<noteq> 0 \<and>
     load_instruction_at_checked sample_runtime (unat (idx - 1)) [2] gf_payload = Ok prev \<and>
     si_program_id prev = ed25519_program_id sample_runtime \<and>
     si_data prev = precompile_payload (gf_bytes 5) (gf_bytes 4) gf_sig @ rest"
proof -
  let ?L = "\<lambda>_. sample_account gf_payload"
  have len: "length (gf_bytes 5) = 32" "length (gf_bytes 4) < 2 ^ 16" by simp_all
  have "verify_ed25519_precompile sample_runtime ?L (account_ref [2]) (gf_bytes 5) (gf_bytes 4) gf_sig = Ok ()"
    by (simp add: precompile_check_exact [OF len(1) gf_sig_wf len(2)]) (simp add: sample_runtime_def sample_account_def gf_payload_def)
  then show ?thesis
    unfolding precompile_check_exact [OF len(1) gf_sig_wf len(2)] by (simp add: account_ref_def sample_account_def)
qed

end
