(* ===== verification/Sbf.thy ===== *)
theory Sbf
  imports Precompile
begin

text \<open>
  The Solana-facing instruction handlers (\<open>sbf_processor.rs\<close>) and the dispatcher (\<open>entrypoint.rs\<close>) over
  an explicit ledger. A handler returns its outcome and the ledger it leaves behind, also when it
  fails; the runtime commits the ledger of a successful transaction only.

  The lemmas show that account slots hold what was stored, that every handler keeps the nullifier
  account readable and only ever adds to it, that no coin is spent twice over any sequence of
  transactions, and what withdrawals and sponsor payouts move.
\<close>

section \<open>Errors\<close>

fun map_error :: "program_error \<Rightarrow> solana_error" where
  "map_error (ProgCore _) = Custom 1"
| "map_error UnknownKeysetId = Custom 2"
| "map_error KeysetRevoked = Custom 3"
| "map_error KeysetAlreadyRegistered = Custom 4"
| "map_error KeysetRegistryFull = Custom 5"
| "map_error ProgCoinSignatureInvalid = Custom 6"
| "map_error ProgCoinPubkeyMismatch = Custom 7"
| "map_error DoubleSpend = Custom 8"
| "map_error DepositAmountMismatch = Custom 9"
| "map_error RefreshDenominationMismatch = Custom 10"
| "map_error VaultInsufficientCollateral = Custom 11"
| "map_error VaultInvariantViolation = Custom 12"
| "map_error InsufficientThresholdAuth = Custom 13"
| "map_error InstructionMalformed = Custom 14"

type_synonym 'a handler_result = "('a, solana_error) result \<times> ledger"

definition set_data :: "ledger \<Rightarrow> pubkey \<Rightarrow> bytes \<Rightarrow> ledger" where
  "set_data L k bs = L(k := (L k)\<lparr>ac_data := bs\<rparr>)"

definition set_lamports :: "ledger \<Rightarrow> pubkey \<Rightarrow> u64 \<Rightarrow> ledger" where
  "set_lamports L k n = L(k := (L k)\<lparr>ac_lamports := n\<rparr>)"

section \<open>Account addresses\<close>

definition verify_keyset_registry_pda :: "runtime \<Rightarrow> pubkey \<Rightarrow> account_info \<Rightarrow> (u8, solana_error) result" where
  "verify_keyset_registry_pda rt program_id acc =
     (let (expected, bump) = find_program_address rt keyset_registry_seeds program_id
      in if ai_key acc \<noteq> expected then Err InvalidAccountData else Ok bump)"

definition verify_nullifier_tree_pda :: "runtime \<Rightarrow> pubkey \<Rightarrow> account_info \<Rightarrow> (u8, solana_error) result" where
  "verify_nullifier_tree_pda rt program_id acc =
     (let (expected, bump) = find_program_address rt nullifier_tree_seeds program_id
      in if ai_key acc \<noteq> expected then Err InvalidAccountData else Ok bump)"

definition verify_vault_pda :: "runtime \<Rightarrow> pubkey \<Rightarrow> account_info \<Rightarrow> u64 \<Rightarrow> (u8, solana_error) result" where
  "verify_vault_pda rt program_id acc denom =
     (let (expected, bump) = find_program_address rt (vault_seeds denom) program_id
      in if ai_key acc \<noteq> expected then Err InvalidAccountData else Ok bump)"

definition verify_sponsor_pool_pda :: "runtime \<Rightarrow> pubkey \<Rightarrow> ledger \<Rightarrow> account_info \<Rightarrow> (u8, solana_error) result" where
  "verify_sponsor_pool_pda rt program_id L acc =
     (let (expected, bump) = find_program_address rt sponsor_pool_seeds program_id
      in if ai_key acc \<noteq> expected then Err InvalidAccountData
         else if ac_owner (L (ai_key acc)) \<noteq> program_id then Err IncorrectProgramId
         else Ok bump)"

section \<open>Loading and storing state\<close>

definition load_registry :: "bytes \<Rightarrow> (keyset_registry, solana_error) result" where
  "load_registry data =
     (if list_all (\<lambda>b. b = 0) data then Ok KeysetRegistry_new
      else ok_or InvalidAccountData (map_option fst (de_registry data)))"

definition store_registry :: "keyset_registry \<Rightarrow> bytes \<Rightarrow> (bytes, solana_error) result" where
  "store_registry registry data =
     (let bs = ser_registry registry
      in if length bs > length data then Err AccountDataTooSmall else Ok (bs @ drop (length bs) data))"

definition load_nullifiers :: "bytes \<Rightarrow> (nullifier_set, solana_error) result" where
  "load_nullifiers data =
     (if list_all (\<lambda>b. b = 0) data then Ok NullifierSet_new
      else ok_or InvalidAccountData (map_option fst (de_nullifiers data)))"

definition store_nullifiers :: "nullifier_set \<Rightarrow> bytes \<Rightarrow> (bytes, solana_error) result" where
  "store_nullifiers nullifiers data =
     (let bs = ser_nullifiers nullifiers
      in if length bs > length data then Err AccountDataTooSmall else Ok (bs @ drop (length bs) data))"

definition load_sponsor_pool :: "bytes \<Rightarrow> (sponsor_pool, solana_error) result" where
  "load_sponsor_pool data =
     (if list_all (\<lambda>b. b = 0) data then Ok SponsorPool_default
      else ok_or InvalidAccountData (map_option fst (de_sponsor_pool data)))"

definition store_sponsor_pool :: "sponsor_pool \<Rightarrow> bytes \<Rightarrow> (bytes, solana_error) result" where
  "store_sponsor_pool pool data =
     (let bs = ser_sponsor_pool pool
      in if length bs > length data then Err AccountDataTooSmall else Ok (bs @ drop (length bs) data))"

section \<open>Handlers\<close>

definition register_keyset :: "runtime \<Rightarrow> pubkey \<Rightarrow> account_info list \<Rightarrow> instruction \<Rightarrow> ledger \<Rightarrow> unit handler_result" where
  "register_keyset rt program_id accounts ix L =
     (case accounts of
        [signer, registry_account] \<Rightarrow>
          if \<not> ai_is_signer signer then (Err MissingRequiredSignature, L)
          else
            or_return (verify_keyset_registry_pda rt program_id registry_account) L (\<lambda>_.
            or_return (load_registry (ac_data (L (ai_key registry_account)))) L (\<lambda>registry.
            let (r, registry') = process_register_keyset registry ix
            in or_return (map_err map_error r) L (\<lambda>_.
               or_return (store_registry registry' (ac_data (L (ai_key registry_account)))) L (\<lambda>data.
                 (Ok (), set_data L (ai_key registry_account) data)))))
      | _ \<Rightarrow> (Err NotEnoughAccountKeys, L))"

definition deposit :: "runtime \<Rightarrow> pubkey \<Rightarrow> account_info list \<Rightarrow> instruction \<Rightarrow> ledger \<Rightarrow> unit handler_result" where
  "deposit rt program_id accounts ix L =
     (case accounts of
        [signer, registry_account, vault_account] \<Rightarrow>
          if \<not> ai_is_signer signer then (Err MissingRequiredSignature, L)
          else
            or_return (verify_keyset_registry_pda rt program_id registry_account) L (\<lambda>_.
            case ix of
              Deposit denom lamports \<Rightarrow>
                or_return (verify_vault_pda rt program_id vault_account denom) L (\<lambda>_.
                or_return (load_registry (ac_data (L (ai_key registry_account)))) L (\<lambda>registry.
                let observed_lamports = ac_lamports (L (ai_key vault_account))
                in if observed_lamports < lamports then (Err InsufficientFunds, L)
                   else
                     (let shadow_vault = (Vault_new denom)\<lparr>v_collateral := observed_lamports\<rparr>
                      in or_return (map_err map_error (fst (process_deposit registry shadow_vault ix))) L (\<lambda>_.
                           (Ok (), L)))))
            | _ \<Rightarrow> (Err (Custom 14), L))
      | _ \<Rightarrow> (Err NotEnoughAccountKeys, L))"

text \<open>
  The part shared by refresh and withdrawal: find the keyset, check the precompile, enter the
  nullifier. The continuation receives the ledger with the nullifier stored.
\<close>

definition spend_coin ::
    "('s, 'p) crypto \<Rightarrow> runtime \<Rightarrow> account_info \<Rightarrow> account_info \<Rightarrow> account_info \<Rightarrow> bytes \<Rightarrow> signature \<Rightarrow> u64 \<Rightarrow> ledger
     \<Rightarrow> (ledger \<Rightarrow> unit handler_result) \<Rightarrow> unit handler_result" where
  "spend_coin C rt registry_account nullifier_account instructions_sysvar coin_pubkey coin_sig denom L cont =
     or_return (load_registry (ac_data (L (ai_key registry_account)))) L (\<lambda>registry.
     or_return (ok_or (Custom 2) (find_active_for_denom registry denom)) L (\<lambda>entry.
     if ke_status entry \<noteq> KActive then (Err (Custom 3), L)
     else
       or_return (verify_ed25519_precompile rt L instructions_sysvar (ke_joint_pk entry) coin_pubkey coin_sig) L (\<lambda>_.
       let nullifier = compute_nullifier C coin_pubkey
       in or_return (load_nullifiers (ac_data (L (ai_key nullifier_account)))) L (\<lambda>nullifiers.
          let (inserted, nullifiers') = NullifierSet_insert nullifiers nullifier
          in if \<not> inserted then (Err (Custom 8), L)
             else or_return (store_nullifiers nullifiers' (ac_data (L (ai_key nullifier_account)))) L (\<lambda>data.
                    cont (set_data L (ai_key nullifier_account) data))))))"

definition refresh :: "('s, 'p) crypto \<Rightarrow> runtime \<Rightarrow> pubkey \<Rightarrow> account_info list \<Rightarrow> instruction \<Rightarrow> ledger \<Rightarrow> unit handler_result" where
  "refresh C rt program_id accounts ix L =
     (case accounts of
        [signer, registry_account, nullifier_account, instructions_sysvar] \<Rightarrow>
          if \<not> ai_is_signer signer then (Err MissingRequiredSignature, L)
          else
            or_return (verify_keyset_registry_pda rt program_id registry_account) L (\<lambda>_.
            or_return (verify_nullifier_tree_pda rt program_id nullifier_account) L (\<lambda>_.
            case ix of
              Refresh coin_pubkey coin_sig denom \<Rightarrow>
                spend_coin C rt registry_account nullifier_account instructions_sysvar coin_pubkey coin_sig denom L
                  (\<lambda>L'. (Ok (), L'))
            | _ \<Rightarrow> (Err (Custom 14), L)))
      | _ \<Rightarrow> (Err NotEnoughAccountKeys, L))"

definition withdraw :: "('s, 'p) crypto \<Rightarrow> runtime \<Rightarrow> pubkey \<Rightarrow> account_info list \<Rightarrow> instruction \<Rightarrow> ledger \<Rightarrow> unit handler_result" where
  "withdraw C rt program_id accounts ix L =
     (case accounts of
        [signer, registry_account, vault_account, nullifier_account, recipient_account, system_program_account,
         instructions_sysvar] \<Rightarrow>
          if \<not> ai_is_signer signer then (Err MissingRequiredSignature, L)
          else
            (case ix of
               Withdraw coin_pubkey coin_sig denom recipient \<Rightarrow>
                 if ai_key recipient_account \<noteq> recipient then (Err InvalidAccountData, L)
                 else if ai_key system_program_account \<noteq> system_program_id rt then (Err IncorrectProgramId, L)
                 else
                   or_return (verify_keyset_registry_pda rt program_id registry_account) L (\<lambda>_.
                   or_return (verify_vault_pda rt program_id vault_account denom) L (\<lambda>v_bump.
                   or_return (verify_nullifier_tree_pda rt program_id nullifier_account) L (\<lambda>_.
                   spend_coin C rt registry_account nullifier_account instructions_sysvar coin_pubkey coin_sig denom L
                     (\<lambda>L'.
                       let observed_lamports = ac_lamports (L' (ai_key vault_account))
                       in if observed_lamports < denom then (Err (Custom 11), L')
                          else or_return (invoke_signed rt (Transfer (ai_key vault_account) (ai_key recipient_account) denom)
                                 (vault_seeds denom @ [[v_bump]]) L') L' (\<lambda>L''. (Ok (), L''))))))
             | _ \<Rightarrow> (Err (Custom 14), L))
      | _ \<Rightarrow> (Err NotEnoughAccountKeys, L))"

definition revoke :: "runtime \<Rightarrow> pubkey \<Rightarrow> account_info list \<Rightarrow> instruction \<Rightarrow> ledger \<Rightarrow> unit handler_result" where
  "revoke rt program_id accounts ix L =
     (case accounts of
        [signer, registry_account] \<Rightarrow>
          if \<not> ai_is_signer signer then (Err MissingRequiredSignature, L)
          else
            or_return (verify_keyset_registry_pda rt program_id registry_account) L (\<lambda>_.
            or_return (load_registry (ac_data (L (ai_key registry_account)))) L (\<lambda>registry.
            let (r, registry') = process_revoke registry ix
            in or_return (map_err map_error r) L (\<lambda>_.
               or_return (store_registry registry' (ac_data (L (ai_key registry_account)))) L (\<lambda>data.
                 (Ok (), set_data L (ai_key registry_account) data)))))
      | _ \<Rightarrow> (Err NotEnoughAccountKeys, L))"

definition BOOTSTRAP_MAX_SIZE :: u32 where
  "BOOTSTRAP_MAX_SIZE = 64 * 1024"

text \<open>Seeds, allocation size and owner for the requested account kind.\<close>

definition bootstrap_target ::
    "runtime \<Rightarrow> pubkey \<Rightarrow> bootstrap_kind \<Rightarrow> u32 \<Rightarrow> u64 \<Rightarrow> (bytes list \<times> u32 \<times> pubkey, solana_error) result" where
  "bootstrap_target rt program_id account_kind alloc denom =
     (case account_kind of
        BKeysetRegistry \<Rightarrow>
          if alloc = 0 \<or> alloc > BOOTSTRAP_MAX_SIZE then Err (Custom 16)
          else Ok (keyset_registry_seeds, alloc, program_id)
      | BNullifierTree \<Rightarrow>
          if alloc = 0 \<or> alloc > BOOTSTRAP_MAX_SIZE then Err (Custom 16)
          else Ok (nullifier_tree_seeds, alloc, program_id)
      | BVault \<Rightarrow> Ok (vault_seeds denom, 0, system_program_id rt)
      | BSponsorPool \<Rightarrow> Ok (sponsor_pool_seeds, 32, program_id))"

definition bootstrap :: "runtime \<Rightarrow> pubkey \<Rightarrow> account_info list \<Rightarrow> instruction \<Rightarrow> ledger \<Rightarrow> unit handler_result" where
  "bootstrap rt program_id accounts ix L =
     (case accounts of
        [funder, target_account, system_program_account] \<Rightarrow>
          if \<not> ai_is_signer funder then (Err MissingRequiredSignature, L)
          else if ai_key system_program_account \<noteq> system_program_id rt then (Err IncorrectProgramId, L)
          else
            (case ix of
               Bootstrap account_kind alloc denom \<Rightarrow>
                 or_return (bootstrap_target rt program_id account_kind alloc denom) L (\<lambda>(seeds, alloc_size, owner).
                 let (expected_pda, bump) = find_program_address rt seeds program_id
                 in if ai_key target_account \<noteq> expected_pda then (Err InvalidAccountData, L)
                    else if ac_lamports (L (ai_key target_account)) > 0 then (Err (Custom 15), L)
                    else
                      or_return (rent_get rt) L (\<lambda>minimum_balance.
                      or_return (invoke_signed rt (CreateAccount (ai_key funder) (ai_key target_account)
                          (minimum_balance alloc_size) (ucast alloc_size) owner) (seeds @ [[bump]]) L) L (\<lambda>L'.
                        (Ok (), L'))))
             | _ \<Rightarrow> (Err (Custom 14), L))
      | _ \<Rightarrow> (Err NotEnoughAccountKeys, L))"

definition resize_target :: "bootstrap_kind \<Rightarrow> (bytes list, solana_error) result" where
  "resize_target account_kind =
     (case account_kind of
        BKeysetRegistry \<Rightarrow> Ok keyset_registry_seeds
      | BNullifierTree \<Rightarrow> Ok nullifier_tree_seeds
      | BSponsorPool \<Rightarrow> Ok sponsor_pool_seeds
      | BVault \<Rightarrow> Err (Custom 14))"

definition resize_account :: "runtime \<Rightarrow> pubkey \<Rightarrow> account_info list \<Rightarrow> instruction \<Rightarrow> ledger \<Rightarrow> unit handler_result" where
  "resize_account rt program_id accounts ix L =
     (case accounts of
        [funder, target_account, system_program_account] \<Rightarrow>
          if \<not> ai_is_signer funder then (Err MissingRequiredSignature, L)
          else if ai_key system_program_account \<noteq> system_program_id rt then (Err IncorrectProgramId, L)
          else
            (case ix of
               ResizeAccount account_kind new_size denom \<Rightarrow>
                 if new_size = 0 \<or> new_size > BOOTSTRAP_MAX_SIZE then (Err (Custom 16), L)
                 else
                   or_return (resize_target account_kind) L (\<lambda>seeds.
                   let (expected, _) = find_program_address rt seeds program_id;
                       key = ai_key target_account
                   in if key \<noteq> expected then (Err InvalidAccountData, L)
                      else if ac_owner (L key) \<noteq> program_id then (Err IncorrectProgramId, L)
                      else if unat new_size \<le> length (ac_data (L key)) then (Err (Custom 16), L)
                      else
                        or_return (rent_get rt) L (\<lambda>minimum_balance.
                        if ac_lamports (L key) < minimum_balance new_size then (Err (Custom 11), L)
                        else or_return (realloc rt key new_size True L) L (\<lambda>L'. (Ok (), L'))))
             | _ \<Rightarrow> (Err (Custom 14), L))
      | _ \<Rightarrow> (Err NotEnoughAccountKeys, L))"

definition sponsor_deposit :: "runtime \<Rightarrow> pubkey \<Rightarrow> account_info list \<Rightarrow> instruction \<Rightarrow> ledger \<Rightarrow> unit handler_result" where
  "sponsor_deposit rt program_id accounts ix L =
     (case accounts of
        [funder, pool_account, _] \<Rightarrow>
          if \<not> ai_is_signer funder then (Err MissingRequiredSignature, L)
          else
            or_return (verify_sponsor_pool_pda rt program_id L pool_account) L (\<lambda>_.
            case ix of
              SponsorDeposit amount \<Rightarrow>
                or_return (load_sponsor_pool (ac_data (L (ai_key pool_account)))) L (\<lambda>pool.
                let pool' = pool\<lparr>sp_total_deposits := saturating_add (sp_total_deposits pool) amount\<rparr>
                in or_return (store_sponsor_pool pool' (ac_data (L (ai_key pool_account)))) L (\<lambda>data.
                     (Ok (), set_data L (ai_key pool_account) data)))
            | _ \<Rightarrow> (Err (Custom 14), L))
      | _ \<Rightarrow> (Err NotEnoughAccountKeys, L))"

definition sponsor_payout :: "runtime \<Rightarrow> pubkey \<Rightarrow> account_info list \<Rightarrow> instruction \<Rightarrow> ledger \<Rightarrow> unit handler_result" where
  "sponsor_payout rt program_id accounts ix L =
     (case accounts of
        [caller, pool_account, recipient_account, _] \<Rightarrow>
          if \<not> ai_is_signer caller then (Err MissingRequiredSignature, L)
          else
            or_return (verify_sponsor_pool_pda rt program_id L pool_account) L (\<lambda>_.
            case ix of
              SponsorPayout lamports recipient \<Rightarrow>
                if ai_key recipient_account \<noteq> recipient then (Err InvalidAccountData, L)
                else if lamports = 0 then (Err (Custom 14), L)
                else
                  or_return (clock_get rt) L (\<lambda>slot.
                  or_return (load_sponsor_pool (ac_data (L (ai_key pool_account)))) L (\<lambda>pool.
                  let elapsed = saturating_sub slot (sp_last_payout_slot pool)
                  in if sp_last_payout_slot pool \<noteq> 0 \<and> elapsed < MIN_SLOTS_BETWEEN_PAYOUTS then (Err (Custom 30), L)
                     else if ac_lamports (L (ai_key pool_account)) < lamports then (Err InsufficientFunds, L)
                     else
                       (let L1 = set_lamports L (ai_key pool_account)
                              (saturating_sub (ac_lamports (L (ai_key pool_account))) lamports);
                            L2 = set_lamports L1 (ai_key recipient_account)
                              (saturating_add (ac_lamports (L1 (ai_key recipient_account))) lamports);
                            pool' = pool\<lparr>sp_last_payout_slot := slot,
                                         sp_total_payouts := saturating_add (sp_total_payouts pool) lamports\<rparr>
                        in or_return (store_sponsor_pool pool' (ac_data (L2 (ai_key pool_account)))) L2 (\<lambda>data.
                             (Ok (), set_data L2 (ai_key pool_account) data)))))
            | _ \<Rightarrow> (Err (Custom 14), L))
      | _ \<Rightarrow> (Err NotEnoughAccountKeys, L))"

section \<open>Dispatch\<close>

definition process_instruction ::
    "('s, 'p) crypto \<Rightarrow> runtime \<Rightarrow> pubkey \<Rightarrow> account_info list \<Rightarrow> bytes \<Rightarrow> ledger \<Rightarrow> unit handler_result" where
  "process_instruction C rt program_id accounts instruction_data L =
     (case try_from_slice de_instruction instruction_data of
        None \<Rightarrow> (Err InvalidInstructionData, L)
      | Some ix \<Rightarrow>
          (case ix of
             RegisterKeyset _ _ _ _ _ \<Rightarrow> register_keyset rt program_id accounts ix L
           | Deposit _ _ \<Rightarrow> deposit rt program_id accounts ix L
           | Refresh _ _ _ \<Rightarrow> refresh C rt program_id accounts ix L
           | Withdraw _ _ _ _ \<Rightarrow> withdraw C rt program_id accounts ix L
           | Revoke _ _ \<Rightarrow> revoke rt program_id accounts ix L
           | Bootstrap _ _ _ \<Rightarrow> bootstrap rt program_id accounts ix L
           | SponsorDeposit _ \<Rightarrow> sponsor_deposit rt program_id accounts ix L
           | SponsorPayout _ _ \<Rightarrow> sponsor_payout rt program_id accounts ix L
           | ResizeAccount _ _ _ \<Rightarrow> resize_account rt program_id accounts ix L))"

section \<open>Account slots\<close>

lemma slot_store_iff:
  "(if length bs > length data then Err e else Ok (bs @ drop (length bs) data)) = Ok data' \<longleftrightarrow>
   length bs \<le> length data \<and> data' = bs @ drop (length bs) data"
  by auto

text \<open>Only the default value of each state is encoded by zeros.\<close>

lemma zero_nullifiers:
  assumes "nullifiers_wf ns" and "list_all (\<lambda>b. b = 0) (ser_nullifiers ns)"
  shows "ns = NullifierSet_new"
proof -
  have "list_all (\<lambda>b. b = 0) (to_le_bytes 4 (word_of_nat (length (leaves ns)) :: u32))"
    using assms(2) by (simp add: ser_nullifiers_def ser_seq_def)
  then have "(word_of_nat (length (leaves ns)) :: u32) = 0" by (rule to_le_bytes_all_zero [rotated]) simp
  then have "unat (word_of_nat (length (leaves ns)) :: u32) = 0" by simp
  moreover have "unat (word_of_nat (length (leaves ns)) :: u32) = length (leaves ns)"
    using assms(1) by (intro unat_word_of_nat) (simp add: nullifiers_wf_def)
  ultimately show ?thesis by (cases ns) (simp add: NullifierSet_new_def)
qed

lemma zero_sponsor_pool:
  assumes "list_all (\<lambda>b. b = 0) (ser_sponsor_pool p)"
  shows "p = SponsorPool_default"
proof -
  have z: "w = 0" if "list_all (\<lambda>b. b = 0) (to_le_bytes 8 (w :: u64))" for w
    using that by (rule to_le_bytes_all_zero [rotated]) simp
  show ?thesis
    using assms z [of "sp_last_payout_slot p"] z [of "sp_total_payouts p"] z [of "sp_total_deposits p"]
    by (cases p) (simp add: ser_sponsor_pool_def SponsorPool_default_def)
qed

interpretation registry_slot: account_slot ser_registry de_registry registry_wf KeysetRegistry_new
    load_registry store_registry
proof unfold_locales
  show "registry_wf KeysetRegistry_new"
    by (simp add: registry_wf_def KeysetRegistry_new_def KEYSET_REGISTRY_CAPACITY_def)
  fix v pad assume wf: "registry_wf v"
  then have "\<not> list_all (\<lambda>b. b = 0) (ser_registry v)" by (simp add: ser_registry_def registry_wf_def)
  then show "load_registry (ser_registry v @ pad) = Ok v"
    by (simp add: load_registry_def registry_codec.de_ser [OF wf])
qed (simp_all add: load_registry_def store_registry_def slot_store_iff Let_def)

interpretation nullifiers_slot: account_slot ser_nullifiers de_nullifiers nullifiers_wf NullifierSet_new
    load_nullifiers store_nullifiers
proof unfold_locales
  show "nullifiers_wf NullifierSet_new" by (simp add: nullifiers_wf_def NullifierSet_new_def)
  fix v pad assume wf: "nullifiers_wf v"
  then show "load_nullifiers (ser_nullifiers v @ pad) = Ok v"
    using zero_nullifiers [OF wf] nullifiers_codec.de_ser [OF wf] by (auto simp: load_nullifiers_def)
qed (simp_all add: load_nullifiers_def store_nullifiers_def slot_store_iff Let_def)

interpretation sponsor_slot: account_slot ser_sponsor_pool de_sponsor_pool "\<lambda>_. True" SponsorPool_default
    load_sponsor_pool store_sponsor_pool
proof unfold_locales
  fix v pad
  show "load_sponsor_pool (ser_sponsor_pool v @ pad) = Ok v"
    using zero_sponsor_pool [of v] sponsor_pool_codec.de_ser [of v] by (auto simp: load_sponsor_pool_def)
qed (simp_all add: load_sponsor_pool_def store_sponsor_pool_def slot_store_iff Let_def)

section \<open>What the program relies on in the runtime\<close>

definition pda :: "runtime \<Rightarrow> pubkey \<Rightarrow> bytes list \<Rightarrow> pubkey" where
  "pda rt program_id seeds = fst (find_program_address rt seeds program_id)"

text \<open>
  Derived addresses differ for different seeds of the program; a system transfer moves lamports only;
  an account is created only where there is no data, with zeroed data of the requested size; and
  growing an account appends zeros.
\<close>

definition runtime_ok :: "runtime \<Rightarrow> pubkey \<Rightarrow> bool" where
  "runtime_ok rt program_id \<longleftrightarrow>
     pda rt program_id keyset_registry_seeds \<noteq> pda rt program_id nullifier_tree_seeds \<and>
     pda rt program_id sponsor_pool_seeds \<noteq> pda rt program_id nullifier_tree_seeds \<and>
     pda rt program_id sponsor_pool_seeds \<noteq> pda rt program_id keyset_registry_seeds \<and>
     (\<forall>d. pda rt program_id (vault_seeds d) \<noteq> pda rt program_id nullifier_tree_seeds) \<and>
     (\<forall>a b n seeds L L'. invoke_signed rt (Transfer a b n) seeds L = Ok L' \<longrightarrow>
        n \<le> ac_lamports (L a) \<and>
        (a \<noteq> b \<longrightarrow> L' = set_lamports (set_lamports L a (ac_lamports (L a) - n)) b (ac_lamports (L b) + n)) \<and>
        (a = b \<longrightarrow> L' = L)) \<and>
     (\<forall>f t n sz ow seeds L L'. invoke_signed rt (CreateAccount f t n sz ow) seeds L = Ok L' \<longrightarrow>
        ac_data (L t) = [] \<and> ac_data (L' t) = replicate (unat sz) 0 \<and> ac_owner (L' t) = ow \<and>
        (\<forall>k. k \<noteq> t \<longrightarrow> ac_data (L' k) = ac_data (L k) \<and> ac_owner (L' k) = ac_owner (L k))) \<and>
     (\<forall>k n L L'. realloc rt k n True L = Ok L' \<longrightarrow> length (ac_data (L k)) < unat n \<longrightarrow>
        L' = set_data L k (ac_data (L k) @ replicate (unat n - length (ac_data (L k))) 0))"

lemma runtime_ok_pda:
  assumes "runtime_ok rt program_id"
  shows "pda rt program_id keyset_registry_seeds \<noteq> pda rt program_id nullifier_tree_seeds"
    and "pda rt program_id sponsor_pool_seeds \<noteq> pda rt program_id nullifier_tree_seeds"
    and "pda rt program_id sponsor_pool_seeds \<noteq> pda rt program_id keyset_registry_seeds"
    and "pda rt program_id (vault_seeds d) \<noteq> pda rt program_id nullifier_tree_seeds"
  using assms by (simp_all add: runtime_ok_def)

lemma runtime_ok_transfer:
  assumes "runtime_ok rt program_id" and "invoke_signed rt (Transfer a b n) seeds L = Ok L'"
  shows "n \<le> ac_lamports (L a)"
    and "L' = (if a = b then L else set_lamports (set_lamports L a (ac_lamports (L a) - n)) b (ac_lamports (L b) + n))"
  using assms by (auto simp: runtime_ok_def)

lemma runtime_ok_create:
  assumes "runtime_ok rt program_id" and "invoke_signed rt (CreateAccount f t n sz ow) seeds L = Ok L'"
  shows "ac_data (L t) = []" and "ac_data (L' t) = replicate (unat sz) 0"
    and "k \<noteq> t \<Longrightarrow> ac_data (L' k) = ac_data (L k)"
  using assms by (auto simp: runtime_ok_def)

lemma runtime_ok_realloc:
  assumes "runtime_ok rt program_id" and "realloc rt k n True L = Ok L'" and "length (ac_data (L k)) < unat n"
  shows "L' = set_data L k (ac_data (L k) @ replicate (unat n - length (ac_data (L k))) 0)"
  using assms by (auto simp: runtime_ok_def)

lemma guard_Ok [simp]: "(if b then (Err e, L) else r) = (Ok y, L') \<longleftrightarrow> \<not> b \<and> r = (Ok y, L')"
  by simp

lemma set_data_other [simp]: "k \<noteq> j \<Longrightarrow> set_data L k bs j = L j"
  by (simp add: set_data_def)

lemma set_data_same [simp]: "ac_data (set_data L k bs k) = bs" "ac_lamports (set_data L k bs j) = ac_lamports (L j)"
  by (simp_all add: set_data_def)

lemma set_lamports_data [simp]: "ac_data (set_lamports L k n j) = ac_data (L j)" "ac_owner (set_lamports L k n j) = ac_owner (L j)"
  by (simp_all add: set_lamports_def)

lemma verify_pda_Ok [simp]:
  "verify_keyset_registry_pda rt pid acc = Ok b \<longleftrightarrow>
     ai_key acc = pda rt pid keyset_registry_seeds \<and> b = snd (find_program_address rt keyset_registry_seeds pid)"
  "verify_nullifier_tree_pda rt pid acc = Ok b \<longleftrightarrow>
     ai_key acc = pda rt pid nullifier_tree_seeds \<and> b = snd (find_program_address rt nullifier_tree_seeds pid)"
  "verify_vault_pda rt pid acc d = Ok b \<longleftrightarrow>
     ai_key acc = pda rt pid (vault_seeds d) \<and> b = snd (find_program_address rt (vault_seeds d) pid)"
  "verify_sponsor_pool_pda rt pid L acc = Ok b \<longleftrightarrow>
     ai_key acc = pda rt pid sponsor_pool_seeds \<and> ac_owner (L (ai_key acc)) = pid \<and>
     b = snd (find_program_address rt sponsor_pool_seeds pid)"
  by (auto simp: verify_keyset_registry_pda_def verify_nullifier_tree_pda_def verify_vault_pda_def
      verify_sponsor_pool_pda_def pda_def split: prod.splits)


lemma store_state_Ok [simp]:
  "store_registry reg data = Ok data' \<longleftrightarrow>
     length (ser_registry reg) \<le> length data \<and> data' = ser_registry reg @ drop (length (ser_registry reg)) data"
  "store_sponsor_pool pool data = Ok data' \<longleftrightarrow>
     length (ser_sponsor_pool pool) \<le> length data \<and> data' = ser_sponsor_pool pool @ drop (length (ser_sponsor_pool pool)) data"
  by (simp_all add: registry_slot.store_Ok sponsor_slot.store_Ok)

lemmas handler_defs = register_keyset_def deposit_def refresh_def withdraw_def revoke_def bootstrap_def
  resize_account_def sponsor_deposit_def sponsor_payout_def

section \<open>The nullifier account\<close>

definition nullifier_data :: "runtime \<Rightarrow> pubkey \<Rightarrow> ledger \<Rightarrow> bytes" where
  "nullifier_data rt program_id L = ac_data (L (pda rt program_id nullifier_tree_seeds))"

text \<open>The account is absent, zeroed, or holds the encoding of a set, within the allocation bound.\<close>

definition nullifiers_ok :: "bytes \<Rightarrow> bool" where
  "nullifiers_ok data \<longleftrightarrow> length data \<le> 65536 \<and>
     (list_all (\<lambda>b. b = 0) data \<or> (\<exists>ns pad. nullifiers_wf ns \<and> data = ser_nullifiers ns @ pad))"

lemma nullifiers_ok_holds: "nullifiers_ok data \<longleftrightarrow> length data \<le> 65536 \<and> nullifiers_slot.holds data"
  by (simp add: nullifiers_ok_def nullifiers_slot.holds_def)

definition spent_in :: "bytes \<Rightarrow> bytes set" where
  "spent_in data = (case load_nullifiers data of Ok ns \<Rightarrow> set (leaves ns) | _ \<Rightarrow> {})"

lemma frame_register:
  assumes "runtime_ok rt pid" and "register_keyset rt pid accounts ix L = (Ok (), L')"
  shows "nullifier_data rt pid L' = nullifier_data rt pid L"
  using assms(2) runtime_ok_pda(1) [OF assms(1)]
  by (auto simp: register_keyset_def nullifier_data_def Let_def case_prod_beta split: list.splits if_splits)

lemma frame_revoke:
  assumes "runtime_ok rt pid" and "revoke rt pid accounts ix L = (Ok (), L')"
  shows "nullifier_data rt pid L' = nullifier_data rt pid L"
  using assms(2) runtime_ok_pda(1) [OF assms(1)]
  by (auto simp: revoke_def nullifier_data_def Let_def case_prod_beta split: list.splits if_splits)

lemma frame_deposit:
  assumes "deposit rt pid accounts ix L = (Ok (), L')"
  shows "L' = L"
  using assms by (auto simp: deposit_def Let_def split: list.splits if_splits instruction.splits)

lemma frame_sponsor_deposit:
  assumes "runtime_ok rt pid" and "sponsor_deposit rt pid accounts ix L = (Ok (), L')"
  shows "nullifier_data rt pid L' = nullifier_data rt pid L"
  using assms(2) runtime_ok_pda(2) [OF assms(1)]
  by (auto simp: sponsor_deposit_def nullifier_data_def Let_def split: list.splits if_splits instruction.splits)

lemma frame_sponsor_payout:
  assumes "runtime_ok rt pid" and "sponsor_payout rt pid accounts ix L = (Ok (), L')"
  shows "nullifier_data rt pid L' = nullifier_data rt pid L"
  using assms(2) runtime_ok_pda(2) [OF assms(1)]
  by (auto simp: sponsor_payout_def nullifier_data_def Let_def split: list.splits if_splits instruction.splits)


lemma BOOTSTRAP_MAX_SIZE_nat: "(w :: u32) \<le> BOOTSTRAP_MAX_SIZE \<Longrightarrow> unat w \<le> 65536"
  by (simp add: BOOTSTRAP_MAX_SIZE_def word_le_nat_alt)

text \<open>
  What an instruction may do to the nullifier account: nothing to the set it holds, or enter the
  nullifier of one coin that was not in it.
\<close>

definition nullifier_step :: "bytes list \<Rightarrow> bytes \<Rightarrow> bytes \<Rightarrow> bool" where
  "nullifier_step ns data data' \<longleftrightarrow> nullifiers_ok data' \<and> distinct ns \<and> set ns \<inter> spent_in data = {} \<and>
     spent_in data' = set ns \<union> spent_in data"

lemma nullifier_step_refl: "nullifiers_ok data \<Longrightarrow> nullifier_step [] data data"
  by (simp add: nullifier_step_def)

lemma nullifier_step_grow:
  assumes "nullifiers_ok data" and "length data + n \<le> 65536"
  shows "nullifier_step [] data (data @ replicate n 0)"
  using assms nullifiers_slot.load_grow [of data n]
  by (simp add: nullifier_step_def nullifiers_ok_holds spent_in_def)

lemma nullifier_step_create: "n \<le> 65536 \<Longrightarrow> nullifier_step [] [] (replicate n 0)"
  using nullifier_step_grow [of "[]" n] by (simp add: nullifiers_ok_def)

lemma step_bootstrap:
  assumes "runtime_ok rt pid" and "bootstrap rt pid accounts ix L = (Ok (), L')"
    and "nullifiers_ok (nullifier_data rt pid L)"
  shows "nullifier_step [] (nullifier_data rt pid L) (nullifier_data rt pid L')"
proof -
  obtain funder target kind alloc denom seeds signer_seeds sz owner minimum
    where t: "bootstrap_target rt pid kind alloc denom = Ok (seeds, sz, owner)"
      and cr: "invoke_signed rt (CreateAccount funder target minimum (ucast sz) owner) signer_seeds L = Ok L'"
    using assms(2) by (auto simp: bootstrap_def Let_def case_prod_beta split: list.splits if_splits instruction.splits)
  have sz: "unat sz \<le> 65536"
    using t by (auto simp: bootstrap_target_def not_less split: bootstrap_kind.splits if_splits
        dest: BOOTSTRAP_MAX_SIZE_nat)
  show ?thesis
  proof (cases "target = pda rt pid nullifier_tree_seeds")
    case True
    then show ?thesis
      using runtime_ok_create(1,2) [OF assms(1) cr] nullifier_step_create [OF sz]
      by (simp add: nullifier_data_def unat_ucast_up)
  next
    case False
    then show ?thesis
      using runtime_ok_create(3) [OF assms(1) cr, of "pda rt pid nullifier_tree_seeds"] assms(3)
      by (simp add: nullifier_data_def nullifier_step_refl)
  qed
qed

lemma step_resize:
  assumes "runtime_ok rt pid" and "resize_account rt pid accounts ix L = (Ok (), L')"
    and "nullifiers_ok (nullifier_data rt pid L)"
  shows "nullifier_step [] (nullifier_data rt pid L) (nullifier_data rt pid L')"
proof -
  obtain target n where n: "n \<le> BOOTSTRAP_MAX_SIZE" "length (ac_data (L target)) < unat n"
    and re: "realloc rt target n True L = Ok L'"
    using assms(2) by (auto simp: resize_account_def Let_def case_prod_beta not_less not_le split: list.splits if_splits instruction.splits)
  have L': "L' = set_data L target (ac_data (L target) @
      replicate (unat n - length (ac_data (L target))) 0)"
    by (rule runtime_ok_realloc [OF assms(1) re n(2)])
  show ?thesis
  proof (cases "target = pda rt pid nullifier_tree_seeds")
    case True
    then show ?thesis
      using nullifier_step_grow [OF assms(3), of "unat n - length (ac_data (L target))"]
        n(2) BOOTSTRAP_MAX_SIZE_nat [OF n(1)] by (simp add: nullifier_data_def L')
  next
    case False
    then show ?thesis using assms(3) by (simp add: nullifier_data_def L' nullifier_step_refl)
  qed
qed

lemma stored_leaves: "length (ser_nullifiers ns) = 4 + sum_list (map length (leaves ns))"
  by (simp add: ser_nullifiers_def ser_seq_def length_concat)

lemma loaded_nullifiers:
  assumes "nullifiers_ok data" and "load_nullifiers data = Ok ns"
  shows "nullifiers_wf ns" and "length (leaves ns) \<le> 65536"
proof -
  obtain ns' where ns': "nullifiers_wf ns'" "load_nullifiers data = Ok ns'"
    using assms(1) nullifiers_slot.holds_load by (auto simp: nullifiers_ok_holds)
  then show wf: "nullifiers_wf ns" using assms(2) by simp
  consider "list_all (\<lambda>b. b = 0) data" | v pad where "nullifiers_wf v" "data = ser_nullifiers v @ pad"
    using assms(1) by (auto simp: nullifiers_ok_def)
  then show "length (leaves ns) \<le> 65536"
  proof cases
    case 1
    then have "ns = NullifierSet_new" using assms(2) nullifiers_slot.load_zero [OF 1] by simp
    then show ?thesis by (simp add: NullifierSet_new_def)
  next
    case 2
    then have "ns = v" using assms(2) nullifiers_slot.load_ser [OF 2(1), of pad] by simp
    moreover have "map length (leaves v) = replicate (length (leaves v)) 32"
      using 2(1) by (intro nth_equalityI) (auto simp: nullifiers_wf_def list_all_length)
    ultimately show ?thesis
      using assms(1) 2(2) stored_leaves [of v] by (simp add: nullifiers_ok_def sum_list_replicate)
  qed
qed

lemma step_insert:
  assumes "nullifiers_ok data" and "load_nullifiers data = Ok ns" and "length n = 32"
    and "n \<notin> set (leaves ns)" and "store_nullifiers (NullifierSet (insort n (leaves ns))) data = Ok data'"
  shows "nullifier_step [n] data data'" and "load_nullifiers data' = Ok (NullifierSet (insort n (leaves ns)))"
proof -
  have wf: "nullifiers_wf (NullifierSet (insort n (leaves ns)))"
    using loaded_nullifiers [OF assms(1,2)] assms(3,4) by (intro nullifier_insert_fresh) auto
  note st = nullifiers_slot.load_store [OF wf assms(5)]
  show "load_nullifiers data' = Ok (NullifierSet (insort n (leaves ns)))" by (rule st(1))
  show "nullifier_step [n] data data'"
    using st assms(1,2,4) by (auto simp: nullifier_step_def nullifiers_ok_holds spent_in_def set_insort_key)
qed


lemma nullifier_length: "hash_ok C \<Longrightarrow> length (compute_nullifier C cp) = 32"
  by (simp add: hash_ok_def compute_nullifier_def)

lemma spend_coin_Ok:
  "spend_coin C rt ra na sv cp sig d L cont = (Ok (), L') \<longleftrightarrow>
     (\<exists>registry entry ns data. load_registry (ac_data (L (ai_key ra))) = Ok registry \<and>
        find_active_for_denom registry d = Some entry \<and>
        verify_ed25519_precompile rt L sv (ke_joint_pk entry) cp sig = Ok () \<and>
        load_nullifiers (ac_data (L (ai_key na))) = Ok ns \<and>
        compute_nullifier C cp \<notin> set (leaves ns) \<and>
        store_nullifiers (NullifierSet (insort (compute_nullifier C cp) (leaves ns))) (ac_data (L (ai_key na))) = Ok data \<and> cont (set_data L (ai_key na) data) = (Ok (), L'))"
  by (auto simp: spend_coin_def Let_def NullifierSet_insert_def dest: find_active_Some(3) split: if_splits)

lemma step_refresh:
  assumes "runtime_ok rt pid" and "hash_ok C" and "refresh C rt pid accounts (Refresh cp sig d) L = (Ok (), L')"
    and "nullifiers_ok (nullifier_data rt pid L)"
  shows "nullifier_step [compute_nullifier C cp] (nullifier_data rt pid L) (nullifier_data rt pid L')"
proof -
  obtain ns data where *: "load_nullifiers (nullifier_data rt pid L) = Ok ns"
      "compute_nullifier C cp \<notin> set (leaves ns)"
      "store_nullifiers (NullifierSet (insort (compute_nullifier C cp) (leaves ns))) (nullifier_data rt pid L) = Ok data" "nullifier_data rt pid L' = data"
    using assms(3) by (auto simp: refresh_def spend_coin_Ok nullifier_data_def split: list.splits if_splits)
  show ?thesis
    unfolding *(4) by (rule step_insert(1) [OF assms(4) *(1) nullifier_length [OF assms(2)] *(2,3)])
qed

lemma withdraw_Ok:
  "withdraw C rt pid accounts (Withdraw cp sig d r) L = (Ok (), L') \<longleftrightarrow>
     (\<exists>signer ra va na rc sp sv registry entry ns data. accounts = [signer, ra, va, na, rc, sp, sv] \<and>
        ai_is_signer signer \<and> ai_key rc = r \<and> ai_key sp = system_program_id rt \<and>
        ai_key ra = pda rt pid keyset_registry_seeds \<and> ai_key va = pda rt pid (vault_seeds d) \<and>
        ai_key na = pda rt pid nullifier_tree_seeds \<and>
        load_registry (ac_data (L (pda rt pid keyset_registry_seeds))) = Ok registry \<and>
        find_active_for_denom registry d = Some entry \<and>
        verify_ed25519_precompile rt L sv (ke_joint_pk entry) cp sig = Ok () \<and>
        load_nullifiers (nullifier_data rt pid L) = Ok ns \<and> compute_nullifier C cp \<notin> set (leaves ns) \<and>
        store_nullifiers (NullifierSet (insort (compute_nullifier C cp) (leaves ns))) (nullifier_data rt pid L) = Ok data \<and>
        d \<le> ac_lamports (L (pda rt pid (vault_seeds d))) \<and>
        invoke_signed rt (Transfer (pda rt pid (vault_seeds d)) r d)
          (vault_seeds d @ [[snd (find_program_address rt (vault_seeds d) pid)]])
          (set_data L (pda rt pid nullifier_tree_seeds) data) = Ok L')"
  by (auto simp: withdraw_def spend_coin_Ok nullifier_data_def Let_def not_less split: list.splits if_splits)

lemma step_withdraw:
  assumes "runtime_ok rt pid" and "hash_ok C" and "withdraw C rt pid accounts (Withdraw cp sig d r) L = (Ok (), L')"
    and "nullifiers_ok (nullifier_data rt pid L)"
  shows "nullifier_step [compute_nullifier C cp] (nullifier_data rt pid L) (nullifier_data rt pid L')"
proof -
  obtain ns data where *: "load_nullifiers (nullifier_data rt pid L) = Ok ns"
      "compute_nullifier C cp \<notin> set (leaves ns)"
      "store_nullifiers (NullifierSet (insort (compute_nullifier C cp) (leaves ns))) (nullifier_data rt pid L) = Ok data"
      "invoke_signed rt (Transfer (pda rt pid (vault_seeds d)) r d)
          (vault_seeds d @ [[snd (find_program_address rt (vault_seeds d) pid)]])
          (set_data L (pda rt pid nullifier_tree_seeds) data) = Ok L'"
    using assms(3) by (auto simp: withdraw_Ok)
  have "nullifier_data rt pid L' = data"
    using runtime_ok_transfer(2) [OF assms(1) *(4)] by (simp add: nullifier_data_def split: if_splits)
  then show ?thesis
    using step_insert(1) [OF assms(4) *(1) nullifier_length [OF assms(2)] *(2,3)] by simp
qed

section \<open>Transactions\<close>

text \<open>The coin an instruction spends, if it is a spending instruction.\<close>

definition coins_of :: "bytes \<Rightarrow> bytes list" where
  "coins_of instruction_data =
     (case try_from_slice de_instruction instruction_data of
        Some (Refresh cp _ _) \<Rightarrow> [cp]
      | Some (Withdraw cp _ _ _) \<Rightarrow> [cp]
      | _ \<Rightarrow> [])"

lemma process_instruction_step:
  assumes "runtime_ok rt pid" and "hash_ok C" and "process_instruction C rt pid accounts data L = (Ok (), L')"
    and "nullifiers_ok (nullifier_data rt pid L)"
  shows "nullifier_step (map (compute_nullifier C) (coins_of data)) (nullifier_data rt pid L) (nullifier_data rt pid L')"
proof -
  obtain ix where ix: "try_from_slice de_instruction data = Some ix"
    using assms(3) by (auto simp: process_instruction_def split: option.splits)
  note refl = nullifier_step_refl [OF assms(4)]
  show ?thesis
    using assms(3) ix frame_register [OF assms(1)] frame_revoke [OF assms(1)]
      frame_sponsor_deposit [OF assms(1)] frame_sponsor_payout [OF assms(1)]
      step_bootstrap [OF assms(1) _ assms(4)] step_resize [OF assms(1) _ assms(4)]
      step_refresh [OF assms(1,2) _ assms(4)] step_withdraw [OF assms(1,2) _ assms(4)] refl
    by (cases ix) (auto simp: process_instruction_def coins_of_def dest: frame_deposit)
qed

text \<open>
  A run of the chain: instructions of the program that commit, under whatever clock, rent and
  instructions sysvar the runtime presents, and steps of other programs, which cannot write to the
  data of the nullifier account. A transaction that fails leaves no trace.
\<close>

inductive chain :: "('s, 'p) crypto \<Rightarrow> runtime \<Rightarrow> pubkey \<Rightarrow> ledger \<Rightarrow> bytes list \<Rightarrow> ledger \<Rightarrow> bool" for C rt0 program_id where
  chain_init: "chain C rt0 program_id L [] L"
| chain_commit: "chain C rt0 program_id L coins L' \<Longrightarrow>
     runtime_ok rt program_id \<Longrightarrow> find_program_address rt = find_program_address rt0 \<Longrightarrow>
     process_instruction C rt program_id accounts data L' = (Ok (), L'') \<Longrightarrow>
     chain C rt0 program_id L (coins @ coins_of data) L''"
| chain_other: "chain C rt0 program_id L coins L' \<Longrightarrow>
     nullifier_data rt0 program_id L'' = nullifier_data rt0 program_id L' \<Longrightarrow> chain C rt0 program_id L coins L''"

lemma nullifier_step_trans:
  "nullifier_step xs d0 d1 \<Longrightarrow> nullifier_step ys d1 d2 \<Longrightarrow> nullifier_step (xs @ ys) d0 d2"
  by (auto simp: nullifier_step_def)

lemma nullifier_data_cong:
  "find_program_address rt = find_program_address rt0 \<Longrightarrow> nullifier_data rt pid = nullifier_data rt0 pid"
  by (simp add: nullifier_data_def pda_def fun_eq_iff)

lemma chain_nullifiers:
  assumes "chain C rt pid L coins L'" and "hash_ok C" and "nullifiers_ok (nullifier_data rt pid L)"
  shows "nullifier_step (map (compute_nullifier C) coins) (nullifier_data rt pid L) (nullifier_data rt pid L')"
  using assms(1,3)
proof induction
  case (chain_init L)
  then show ?case by (simp add: nullifier_step_refl)
next
  case (chain_commit L coins L' rt accounts data L'')
  note cong = nullifier_data_cong [OF chain_commit.hyps(3)]
  note IH = chain_commit.IH [OF chain_commit.prems]
  then have "nullifiers_ok (nullifier_data rt pid L')" unfolding cong by (simp add: nullifier_step_def)
  from nullifier_step_trans [OF IH process_instruction_step [OF chain_commit.hyps(2) assms(2) chain_commit.hyps(4) this,
      unfolded cong]]
  show ?case by simp
qed simp


section \<open>Outcomes of the other handlers\<close>

lemma refresh_dispatch:
  assumes "ai_is_signer signer" and "ai_key ra = pda rt pid keyset_registry_seeds"
    and "ai_key na = pda rt pid nullifier_tree_seeds"
  shows "refresh C rt pid [signer, ra, na, sv] (Refresh cp sig d) L =
    spend_coin C rt ra na sv cp sig d L (\<lambda>L'. (Ok (), L'))"
proof -
  have v: "verify_keyset_registry_pda rt pid ra = Ok (snd (find_program_address rt keyset_registry_seeds pid))"
    "verify_nullifier_tree_pda rt pid na = Ok (snd (find_program_address rt nullifier_tree_seeds pid))"
    using assms(2,3) by simp_all
  show ?thesis using assms(1) by (simp add: refresh_def v)
qed

lemma deposit_Ok:
  "deposit rt pid accounts (Deposit d l) L = (Ok (), L') \<longleftrightarrow>
     (\<exists>signer ra va registry. accounts = [signer, ra, va] \<and> ai_is_signer signer \<and>
        ai_key ra = pda rt pid keyset_registry_seeds \<and> ai_key va = pda rt pid (vault_seeds d) \<and>
        load_registry (ac_data (L (ai_key ra))) = Ok registry \<and> find_active_for_denom registry d \<noteq> None \<and>
        d = l \<and> l \<le> ac_lamports (L (ai_key va)) \<and> unat (ac_lamports (L (ai_key va))) + unat l < 2 ^ 64) \<and> L' = L"
proof -
  have *: "fst (process_deposit registry v (Deposit d l)) = Ok () \<longleftrightarrow>
      l = d \<and> v_denom v = d \<and> find_active_for_denom registry d \<noteq> None \<and> unat (v_collateral v) + unat l < 2 ^ 64"
    for registry v
    using process_deposit_Ok [of registry v "Deposit d l"] by (cases "process_deposit registry v (Deposit d l)") auto
  show ?thesis
    by (auto simp: deposit_def Let_def * not_less Vault_new_def split: list.splits if_splits)
qed

lemma sponsor_payout_Ok:
  "sponsor_payout rt pid accounts (SponsorPayout n r) L = (Ok (), L') \<longleftrightarrow>
     (\<exists>caller pa rc sp slot pool. accounts = [caller, pa, rc, sp] \<and> ai_is_signer caller \<and> ai_key rc = r \<and>
        ai_key pa = pda rt pid sponsor_pool_seeds \<and> ac_owner (L (ai_key pa)) = pid \<and> n \<noteq> 0 \<and>
        clock_get rt = Ok slot \<and> load_sponsor_pool (ac_data (L (ai_key pa))) = Ok pool \<and>
        (sp_last_payout_slot pool = 0 \<or> MIN_SLOTS_BETWEEN_PAYOUTS \<le> saturating_sub slot (sp_last_payout_slot pool)) \<and>
        n \<le> ac_lamports (L (ai_key pa)) \<and> 24 \<le> length (ac_data (L (ai_key pa))) \<and>
        (let L1 = set_lamports L (ai_key pa) (saturating_sub (ac_lamports (L (ai_key pa))) n);
             L2 = set_lamports L1 r (saturating_add (ac_lamports (L1 r)) n);
             bs = ser_sponsor_pool (pool\<lparr>sp_last_payout_slot := slot,
                 sp_total_payouts := saturating_add (sp_total_payouts pool) n\<rparr>)
         in L' = set_data L2 (ai_key pa) (bs @ drop 24 (ac_data (L (ai_key pa))))))"
proof -
  have len: "length (ser_sponsor_pool p) = 24" for p by (simp add: ser_sponsor_pool_def)
  show ?thesis
    by (auto simp: sponsor_payout_def Let_def len not_less split: list.splits)
qed


section \<open>All program accounts\<close>

text \<open>The three data accounts of the program hold well-formed state.\<close>

definition state_ok :: "runtime \<Rightarrow> pubkey \<Rightarrow> ledger \<Rightarrow> bool" where
  "state_ok rt program_id L \<longleftrightarrow> registry_slot.holds (ac_data (L (pda rt program_id keyset_registry_seeds))) \<and>
     nullifiers_ok (nullifier_data rt program_id L) \<and>
     sponsor_slot.holds (ac_data (L (pda rt program_id sponsor_pool_seeds)))"

definition grown :: "bytes \<Rightarrow> bytes \<Rightarrow> bool" where
  "grown data data' \<longleftrightarrow> (\<exists>n. data' = data @ replicate n 0)"

lemma grown_refl [simp]: "grown data data"
  unfolding grown_def by (rule exI [of _ 0]) simp

lemma bootstrap_grown:
  assumes "runtime_ok rt pid" and "bootstrap rt pid accounts ix L = (Ok (), L')"
  shows "grown (ac_data (L k)) (ac_data (L' k))"
proof -
  obtain funder target sz owner minimum signer_seeds
    where cr: "invoke_signed rt (CreateAccount funder target minimum sz owner) signer_seeds L = Ok L'"
    using assms(2) by (auto simp: bootstrap_def Let_def case_prod_beta split: list.splits if_splits instruction.splits)
  show ?thesis
    using runtime_ok_create(1,2) [OF assms(1) cr] runtime_ok_create(3) [OF assms(1) cr, of k] by (cases "k = target") (auto simp: grown_def)
qed

lemma resize_grown:
  assumes "runtime_ok rt pid" and "resize_account rt pid accounts ix L = (Ok (), L')"
  shows "grown (ac_data (L k)) (ac_data (L' k))"
proof -
  obtain target n where n: "length (ac_data (L target)) < unat n" and re: "realloc rt target n True L = Ok L'"
    using assms(2) by (auto simp: resize_account_def Let_def case_prod_beta not_le split: list.splits if_splits instruction.splits)
  show ?thesis
    using runtime_ok_realloc [OF assms(1) re n] by (cases "k = target") (auto simp: grown_def)
qed

lemma decoded_register:
  assumes "try_from_slice de_instruction data = Some (RegisterKeyset kid d pk e a)"
  shows "length kid = 33 \<and> length pk = 32"
  using assms by (auto simp: try_from_slice_Some de_instruction_def rd_kind_def rd_signature_def rd_bind_def read_exact_def
      split: if_splits option.splits)

lemma register_slot:
  assumes "register_keyset rt pid accounts (RegisterKeyset kid d pk e a) L = (Ok (), L')"
    and "length kid = 33" "length pk = 32" and "registry_slot.holds (ac_data (L (pda rt pid keyset_registry_seeds)))"
  shows "registry_slot.holds (ac_data (L' (pda rt pid keyset_registry_seeds)))"
    and "k \<noteq> pda rt pid keyset_registry_seeds \<Longrightarrow> L' k = L k"
proof -
  let ?k = "pda rt pid keyset_registry_seeds"
  obtain registry data where reg: "load_registry (ac_data (L ?k)) = Ok registry"
    and st: "store_registry (snd (process_register_keyset registry (RegisterKeyset kid d pk e []))) (ac_data (L ?k)) = Ok data"
    and L': "L' = set_data L ?k data"
    using assms(1) by (auto simp: register_keyset_def Let_def case_prod_beta process_register_keyset_def split: list.splits if_splits)
  have "registry_wf registry" using registry_slot.holds_load [OF assms(4)] reg by auto
  then have "registry_wf (snd (process_register_keyset registry (RegisterKeyset kid d pk e [])))"
    using assms(2,3) by (intro process_register_wf) simp_all
  from registry_slot.load_store(2) [OF this st]
  show "registry_slot.holds (ac_data (L' ?k))" by (simp add: L')
  show "k \<noteq> ?k \<Longrightarrow> L' k = L k" by (simp add: L')
qed

lemma revoke_slot:
  assumes "revoke rt pid accounts ix L = (Ok (), L')"
    and "registry_slot.holds (ac_data (L (pda rt pid keyset_registry_seeds)))"
  shows "registry_slot.holds (ac_data (L' (pda rt pid keyset_registry_seeds)))"
    and "k \<noteq> pda rt pid keyset_registry_seeds \<Longrightarrow> L' k = L k"
proof -
  let ?k = "pda rt pid keyset_registry_seeds"
  obtain registry data where reg: "load_registry (ac_data (L ?k)) = Ok registry"
    and st: "store_registry (snd (process_revoke registry ix)) (ac_data (L ?k)) = Ok data"
    and L': "L' = set_data L ?k data"
    using assms(1) by (auto simp: revoke_def Let_def case_prod_beta split: list.splits if_splits)
  have "registry_wf registry" using registry_slot.holds_load [OF assms(2)] reg by auto
  from registry_slot.load_store(2) [OF process_revoke_wf [OF this] st]
  show "registry_slot.holds (ac_data (L' ?k))" by (simp add: L')
  show "k \<noteq> ?k \<Longrightarrow> L' k = L k" by (simp add: L')
qed

lemma sponsor_slots:
  assumes "sponsor_deposit rt pid accounts ix L = (Ok (), L') \<or> sponsor_payout rt pid accounts ix L = (Ok (), L')"
  shows "sponsor_slot.holds (ac_data (L' (pda rt pid sponsor_pool_seeds)))"
    and "k \<noteq> pda rt pid sponsor_pool_seeds \<Longrightarrow> ac_data (L' k) = ac_data (L k)"
proof -
  let ?k = "pda rt pid sponsor_pool_seeds"
  obtain pool M pad where L': "L' = set_data M ?k (ser_sponsor_pool pool @ pad)" and M: "\<forall>k. ac_data (M k) = ac_data (L k)"
    using assms
    by (cases "sponsor_deposit rt pid accounts ix L = (Ok (), L')")
      (auto simp: sponsor_deposit_def sponsor_payout_def Let_def split: list.splits if_splits instruction.splits)
  then show "sponsor_slot.holds (ac_data (L' ?k))" by (auto simp: sponsor_slot.holds_def)
  show "k \<noteq> ?k \<Longrightarrow> ac_data (L' k) = ac_data (L k)" using M by (simp add: L')
qed

lemma spend_frame:
  assumes "runtime_ok rt pid"
    and "refresh C rt pid accounts (Refresh cp sig d) L = (Ok (), L') \<or> withdraw C rt pid accounts (Withdraw cp sig d r) L = (Ok (), L')"
    and "k \<noteq> pda rt pid nullifier_tree_seeds"
  shows "ac_data (L' k) = ac_data (L k)"
  using assms(2)
proof
  assume "refresh C rt pid accounts (Refresh cp sig d) L = (Ok (), L')"
  then show ?thesis using assms(3) by (auto simp: refresh_def spend_coin_Ok split: list.splits)
next
  assume "withdraw C rt pid accounts (Withdraw cp sig d r) L = (Ok (), L')"
  then obtain a n seeds data where
    "invoke_signed rt (Transfer a r n) seeds (set_data L (pda rt pid nullifier_tree_seeds) data) = Ok L'"
    by (auto simp: withdraw_Ok)
  from runtime_ok_transfer(2) [OF assms(1) this] show ?thesis using assms(3) by (simp split: if_splits)
qed

lemma holds_grown:
  "registry_slot.holds data \<Longrightarrow> grown data data' \<Longrightarrow> registry_slot.holds data'"
  "sponsor_slot.holds data \<Longrightarrow> grown data data' \<Longrightarrow> sponsor_slot.holds data'"
  by (auto simp: grown_def registry_slot.load_grow sponsor_slot.load_grow)

lemma state_ok_step:
  assumes rt: "runtime_ok rt pid" and C: "hash_ok C" and run: "process_instruction C rt pid accounts data L = (Ok (), L')"
    and ok: "state_ok rt pid L"
  shows "state_ok rt pid L'"
proof -
  let ?r = "pda rt pid keyset_registry_seeds" and ?s = "pda rt pid sponsor_pool_seeds"
  have n: "nullifiers_ok (nullifier_data rt pid L')"
    using process_instruction_step [OF rt C run] ok by (simp add: state_ok_def nullifier_step_def)
  obtain ix where ix: "try_from_slice de_instruction data = Some ix"
    using run by (auto simp: process_instruction_def split: option.splits)
  have r: "registry_slot.holds (ac_data (L ?r))" and s: "sponsor_slot.holds (ac_data (L ?s))"
    using ok by (simp_all add: state_ok_def)
  note ne = runtime_ok_pda [OF rt]
  have "registry_slot.holds (ac_data (L' ?r)) \<and> sponsor_slot.holds (ac_data (L' ?s))"
  proof (cases ix)
    case (RegisterKeyset kid d pk e a)
    then have "register_keyset rt pid accounts (RegisterKeyset kid d pk e a) L = (Ok (), L')"
      using run ix by (simp add: process_instruction_def)
    from register_slot [OF this _ _ r] show ?thesis using decoded_register [of data] ix RegisterKeyset s ne(3) by auto
  next
    case (Revoke kid a)
    then have "revoke rt pid accounts ix L = (Ok (), L')" using run ix by (simp add: process_instruction_def)
    from revoke_slot [OF this r] show ?thesis using s ne(3) by auto
  next
    case (Deposit d l)
    then show ?thesis using run ix r s by (auto simp: process_instruction_def dest!: frame_deposit)
  next
    case (Refresh cp sig d)
    then have "refresh C rt pid accounts (Refresh cp sig d) L = (Ok (), L')" using run ix by (simp add: process_instruction_def)
    from spend_frame [OF rt disjI1 [OF this]] show ?thesis using r s ne by simp
  next
    case (Withdraw cp sig d q)
    then have "withdraw C rt pid accounts (Withdraw cp sig d q) L = (Ok (), L')" using run ix by (simp add: process_instruction_def)
    from spend_frame [OF rt disjI2 [OF this]] show ?thesis using r s ne by simp
  next
    case (Bootstrap kind alloc d)
    then have "bootstrap rt pid accounts ix L = (Ok (), L')" using run ix by (simp add: process_instruction_def)
    from bootstrap_grown [OF rt this] show ?thesis using holds_grown r s by blast
  next
    case (ResizeAccount kind alloc d)
    then have "resize_account rt pid accounts ix L = (Ok (), L')" using run ix by (simp add: process_instruction_def)
    from resize_grown [OF rt this] show ?thesis using holds_grown r s by blast
  next
    case (SponsorDeposit a)
    then have "sponsor_deposit rt pid accounts ix L = (Ok (), L')" using run ix by (simp add: process_instruction_def)
    from sponsor_slots [OF disjI1 [OF this]] show ?thesis using r ne(3) by simp
  next
    case (SponsorPayout a q)
    then have "sponsor_payout rt pid accounts ix L = (Ok (), L')" using run ix by (simp add: process_instruction_def)
    from sponsor_slots [OF disjI2 [OF this]] show ?thesis using r ne(3) by simp
  qed
  then show ?thesis using n by (simp add: state_ok_def)
qed

section \<open>A concrete ledger\<close>

abbreviation "reg_key \<equiv> concat keyset_registry_seeds"
abbreviation "null_key \<equiv> concat nullifier_tree_seeds"
abbreviation "pool_key \<equiv> concat sponsor_pool_seeds"
abbreviation "vault_key \<equiv> concat (vault_seeds 1)"

lemma pda_sample [simp]: "pda sample_runtime pid seeds = concat seeds"
  by (simp add: pda_def sample_runtime_def)

lemma length_keys:
  "length reg_key = 21" "length null_key = 20" "length pool_key = 18" "length (concat (vault_seeds d)) = 19"
  by (simp_all add: keyset_registry_seeds_def nullifier_tree_seeds_def sponsor_pool_seeds_def vault_seeds_def
      TARDUS_PREFIX_def ascii_def)

lemma sample_keys [simp]:
  "reg_key \<noteq> null_key" "pool_key \<noteq> null_key" "pool_key \<noteq> reg_key" "concat (vault_seeds d) \<noteq> null_key"
  "reg_key \<noteq> concat (vault_seeds d)" "null_key \<noteq> concat (vault_seeds d)" "reg_key \<noteq> pool_key"
  "concat (vault_seeds d) \<noteq> reg_key" "concat (vault_seeds d) \<noteq> pool_key" "pool_key \<noteq> concat (vault_seeds d)"
  "null_key \<noteq> reg_key" "null_key \<noteq> pool_key"
  by (auto dest!: arg_cong [where f = length] simp add: length_keys)

lemma short_keys [simp]: "reg_key \<noteq> [x]" "null_key \<noteq> [x]" "pool_key \<noteq> [x]" "concat (vault_seeds d) \<noteq> [x]"
  by (auto dest!: arg_cong [where f = length] simp add: length_keys)

definition sample_recipient :: pubkey where
  "sample_recipient = replicate 32 7"

lemma recipient_key [simp]:
  "sample_recipient \<noteq> reg_key" "sample_recipient \<noteq> null_key" "sample_recipient \<noteq> pool_key"
  "sample_recipient \<noteq> concat (vault_seeds d)" "sample_recipient \<noteq> [x]"
  by (auto dest!: arg_cong [where f = length] simp add: length_keys sample_recipient_def)

definition sample_ledger :: ledger where
  "sample_ledger = (\<lambda>_. \<lparr>ac_lamports = 0, ac_data = [], ac_owner = [0]\<rparr>)
     (reg_key := sample_account (ser_registry gf_registry), null_key := sample_account (replicate 100 0),
      pool_key := sample_account (replicate 32 0), vault_key := sample_account [], [2] := sample_account gf_payload)"

lemma sample_ledger_simps [simp]:
  "sample_ledger reg_key = sample_account (ser_registry gf_registry)"
  "sample_ledger null_key = sample_account (replicate 100 0)" "sample_ledger pool_key = sample_account (replicate 32 0)"
  "sample_ledger vault_key = sample_account []" "sample_ledger [2] = sample_account gf_payload"
  "sample_ledger sample_recipient = \<lparr>ac_lamports = 0, ac_data = [], ac_owner = [0]\<rparr>"
  by (simp_all add: sample_ledger_def)

lemma sample_account_simps [simp]:
  "ac_data (sample_account d) = d" "ac_lamports (sample_account d) = 5" "ac_owner (sample_account d) = [9]"
  by (simp_all add: sample_account_def)

lemma runtime_ok_sample: "runtime_ok sample_runtime [9]"
proof -
  show ?thesis
    by (auto simp: runtime_ok_def) (auto simp: sample_runtime_def sample_invoke_def set_lamports_def set_data_def not_less
        split: if_splits)
qed

lemma gf_registry_wf: "registry_wf gf_registry"
  by (simp add: registry_wf_def gf_registry_def entry_wf_def KEYSET_REGISTRY_CAPACITY_def)

lemma load_gf_registry: "load_registry (ser_registry gf_registry) = Ok gf_registry"
  using registry_slot.load_ser [OF gf_registry_wf, of "[]"] by simp

lemma hash_ok_gf_nullifier: "length (compute_nullifier gf_curve cp) = 32"
  by (rule nullifier_length [OF hash_ok_gf])

lemma sample_precompile:
  "verify_ed25519_precompile sample_runtime sample_ledger (account_ref [2]) (gf_bytes 5) (gf_bytes 4) gf_sig = Ok ()"
proof -
  have len: "length (gf_payload) = 112 + 32"
    using gf_sig_wf by (simp add: gf_payload_def precompile_payload_def precompile_header_def sig_wf_def)
  have "verify_precompile_data gf_payload (gf_bytes 5) (gf_bytes 4) gf_sig = Ok ()"
    using len by (subst verify_precompile_data_iff) (simp_all add: gf_sig_wf gf_payload_def)
  then show ?thesis
    by (simp add: verify_ed25519_precompile_def account_ref_def sample_runtime_def)
qed

lemma sample_refresh:
  "\<exists>L'. refresh gf_curve sample_runtime [9] (map account_ref [[3], reg_key, null_key, [2]])
     (Refresh (gf_bytes 4) gf_sig 1) sample_ledger = (Ok (), L')"
proof -
  have pk: "ke_joint_pk (hd (kr_entries gf_registry)) = gf_bytes 5" by (simp add: gf_registry_def)
  have load: "load_nullifiers (replicate 100 0) = Ok NullifierSet_new" by (rule nullifiers_slot.load_zeros)
  have "length (ser_nullifiers (NullifierSet [compute_nullifier gf_curve (gf_bytes 4)])) \<le> 100"
    by (simp add: stored_leaves hash_ok_gf_nullifier)
  then have "\<exists>data. store_nullifiers (NullifierSet [compute_nullifier gf_curve (gf_bytes 4)]) (replicate 100 0) = Ok data"
    by (simp add: nullifiers_slot.store_Ok)
  then show ?thesis
    using sample_precompile gf_find_active load_gf_registry load pk
    by (auto simp: refresh_def account_ref_def spend_coin_Ok NullifierSet_new_def)
qed


lemma sample_null: "nullifier_data sample_runtime [9] sample_ledger = replicate 100 0"
  "nullifiers_ok (replicate 100 0)" "spent_in (replicate 100 0) = {}"
  using nullifiers_slot.holds_zeros [of 100] nullifiers_slot.load_zeros [of 100]
  by (simp_all add: nullifier_data_def nullifiers_ok_holds spent_in_def NullifierSet_new_def)

lemma sample_withdraw:
  "\<exists>L'. withdraw gf_curve sample_runtime [9] (map account_ref [[3], reg_key, vault_key, null_key, sample_recipient, [0], [2]])
     (Withdraw (gf_bytes 4) gf_sig 1 sample_recipient) sample_ledger = (Ok (), L')"
proof -
  let ?ns = "NullifierSet [compute_nullifier gf_curve (gf_bytes 4)]"
  have pk: "ke_joint_pk (hd (kr_entries gf_registry)) = gf_bytes 5" by (simp add: gf_registry_def)
  have load: "load_nullifiers (replicate 100 0) = Ok NullifierSet_new" by (rule nullifiers_slot.load_zeros)
  have "length (ser_nullifiers ?ns) \<le> 100" by (simp add: stored_leaves hash_ok_gf_nullifier)
  then obtain data where data: "store_nullifiers ?ns (replicate 100 0) = Ok data" by (simp add: nullifiers_slot.store_Ok)
  have "\<exists>L'. invoke_signed sample_runtime (Transfer vault_key sample_recipient 1) seeds (set_data sample_ledger null_key data) = Ok L'"
    for seeds by (simp add: sample_runtime_def sample_invoke_def set_data_def)
  moreover have "system_program_id sample_runtime = [0]" by (simp add: sample_runtime_def)
  ultimately show ?thesis
    using sample_precompile gf_find_active load_gf_registry load pk data sample_null(1)
    by (auto simp: withdraw_Ok account_ref_def NullifierSet_new_def)
qed

lemma sample_chain: "\<exists>L'. chain gf_curve sample_runtime [9] sample_ledger [gf_bytes 4] L'"
proof -
  let ?ix = "Refresh (gf_bytes 4) gf_sig 1"
  obtain L' where r: "refresh gf_curve sample_runtime [9] (map account_ref [[3], reg_key, null_key, [2]]) ?ix sample_ledger = (Ok (), L')"
    using sample_refresh by blast
  have de: "try_from_slice de_instruction (ser_instruction ?ix) = Some ?ix"
    by (rule instruction_codec.try_from_slice_ser) (simp add: gf_sig_wf)
  have "process_instruction gf_curve sample_runtime [9] (map account_ref [[3], reg_key, null_key, [2]])
      (ser_instruction ?ix) sample_ledger = (Ok (), L')"
    using r by (simp add: process_instruction_def de del: ser_instruction.simps)
  from chain_commit [OF chain_init runtime_ok_sample refl this]
  have "chain gf_curve sample_runtime [9] sample_ledger [gf_bytes 4] L'"
    by (simp add: coins_of_def de del: ser_instruction.simps)
  then show ?thesis by blast
qed

section \<open>Properties\<close>

text \<open>
  C2. No coin is spent twice on chain: over any run of committed instructions, decoded from arbitrary
  bytes with arbitrary accounts, interleaved with anything other programs do, the spent coins and
  their nullifiers are pairwise distinct, were not spent before the run, and all of them are recorded
  in the nullifier account, which stays readable. Creating and growing accounts cannot erase it.
\<close>

theorem chain_no_double_spend:
  assumes "chain C rt program_id L coins L'" and "hash_ok C" and "nullifiers_ok (nullifier_data rt program_id L)"
  shows "distinct coins \<and> distinct (map (compute_nullifier C) coins) \<and>
     set (map (compute_nullifier C) coins) \<inter> spent_in (nullifier_data rt program_id L) = {} \<and>
     spent_in (nullifier_data rt program_id L') =
       set (map (compute_nullifier C) coins) \<union> spent_in (nullifier_data rt program_id L) \<and>
     nullifiers_ok (nullifier_data rt program_id L')"
  using chain_nullifiers [OF assms] distinct_map [of "compute_nullifier C" coins] by (simp add: nullifier_step_def)

theorem chain_no_double_spend_witness:
  "\<exists>L'. chain gf_curve sample_runtime [9] sample_ledger [gf_bytes 4] L' \<and>
     spent_in (nullifier_data sample_runtime [9] L') = {compute_nullifier gf_curve (gf_bytes 4)}"
proof -
  obtain L' where run: "chain gf_curve sample_runtime [9] sample_ledger [gf_bytes 4] L'" using sample_chain by blast
  have ok: "nullifiers_ok (nullifier_data sample_runtime [9] sample_ledger)" by (simp add: sample_null)
  show ?thesis using run chain_no_double_spend [OF run hash_ok_gf ok] sample_null by auto
qed

text \<open>
  C23. What a withdrawal does: a successful withdrawal moves exactly the denomination from the vault of
  that denomination to the recipient named in the instruction, touches no other balance and no other
  account's data, and it happens only if the vault covers it, the transaction carries the precompile's
  check of the mint's signature on the coin, and the coin's nullifier was fresh and is now recorded.
\<close>

theorem withdraw_effect:
  assumes rt: "runtime_ok rt program_id" and "hash_ok C"
    and w: "withdraw C rt program_id accounts (Withdraw cp sig d r) L = (Ok (), L')"
    and ok: "nullifiers_ok (nullifier_data rt program_id L)" and r: "r \<noteq> pda rt program_id (vault_seeds d)"
  shows "let v = pda rt program_id (vault_seeds d) in
     d \<le> ac_lamports (L v) \<and> ac_lamports (L' v) = ac_lamports (L v) - d \<and> ac_lamports (L' r) = ac_lamports (L r) + d \<and>
     (\<forall>k. k \<noteq> v \<longrightarrow> k \<noteq> r \<longrightarrow> ac_lamports (L' k) = ac_lamports (L k)) \<and>
     (\<forall>k. k \<noteq> pda rt program_id nullifier_tree_seeds \<longrightarrow> ac_data (L' k) = ac_data (L k)) \<and>
     compute_nullifier C cp \<notin> spent_in (nullifier_data rt program_id L) \<and>
     compute_nullifier C cp \<in> spent_in (nullifier_data rt program_id L') \<and>
     (\<exists>registry entry sysvar. load_registry (ac_data (L (pda rt program_id keyset_registry_seeds))) = Ok registry \<and>
        find_active_for_denom registry d = Some entry \<and>
        verify_ed25519_precompile rt L sysvar (ke_joint_pk entry) cp sig = Ok ())"
proof -
  let ?v = "pda rt program_id (vault_seeds d)" and ?n = "pda rt program_id nullifier_tree_seeds"
  have st: "compute_nullifier C cp \<notin> spent_in (nullifier_data rt program_id L)"
    "compute_nullifier C cp \<in> spent_in (nullifier_data rt program_id L')"
    using step_withdraw [OF rt assms(2) w ok] by (auto simp: nullifier_step_def)
  obtain sysvar registry entry data seeds where d: "d \<le> ac_lamports (L ?v)"
    and c: "load_registry (ac_data (L (pda rt program_id keyset_registry_seeds))) = Ok registry"
      "find_active_for_denom registry d = Some entry"
      "verify_ed25519_precompile rt L sysvar (ke_joint_pk entry) cp sig = Ok ()"
    and t: "invoke_signed rt (Transfer ?v r d) seeds (set_data L ?n data) = Ok L'"
    using w by (auto simp: withdraw_Ok)
  have L': "L' = set_lamports (set_lamports (set_data L ?n data) ?v (ac_lamports (L ?v) - d)) r (ac_lamports (L r) + d)"
    using runtime_ok_transfer(2) [OF rt t] r by simp
  have lam: "ac_lamports (set_lamports M k x j) = (if j = k then x else ac_lamports (M j))" for M k x j
    by (simp add: set_lamports_def)
  have "ac_data (L' k) = ac_data (L k)" if "k \<noteq> ?n" for k using that by (simp add: L')
  moreover have "ac_lamports (L' k) = (if k = r then ac_lamports (L r) + d else if k = ?v then ac_lamports (L ?v) - d
      else ac_lamports (L k))" for k by (simp add: L' lam)
  ultimately show ?thesis using st d c r by (auto simp: Let_def)
qed

theorem withdraw_effect_witness:
  "\<exists>L'. withdraw gf_curve sample_runtime [9] (map account_ref [[3], reg_key, vault_key, null_key, sample_recipient, [0], [2]])
     (Withdraw (gf_bytes 4) gf_sig 1 sample_recipient) sample_ledger = (Ok (), L') \<and>
     ac_lamports (L' vault_key) = 4 \<and> ac_lamports (L' sample_recipient) = 1"
proof -
  obtain L' where L': "withdraw gf_curve sample_runtime [9]
      (map account_ref [[3], reg_key, vault_key, null_key, sample_recipient, [0], [2]])
      (Withdraw (gf_bytes 4) gf_sig 1 sample_recipient) sample_ledger = (Ok (), L')" using sample_withdraw by blast
  have ok: "nullifiers_ok (nullifier_data sample_runtime [9] sample_ledger)" by (simp add: sample_null)
  have ne: "sample_recipient \<noteq> pda sample_runtime [9] (vault_seeds 1)" by simp
  show ?thesis
    using L' withdraw_effect [OF runtime_ok_sample hash_ok_gf L' ok ne] by (auto simp: Let_def)
qed

text \<open>
  C38. The sponsor pool's rate limit: a payout succeeds only with a positive amount that the pool covers
  and only if no payout was recorded or at least five slots have passed since the last recorded one;
  it then moves exactly that amount, records the current slot and adds to the payout total, so the
  next payout has to wait.
\<close>

theorem sponsor_payout_rate_limited:
  assumes rt: "runtime_ok rt program_id" and "clock_get rt = Ok slot"
    and p: "sponsor_payout rt program_id accounts (SponsorPayout n r) L = (Ok (), L')"
    and r: "r \<noteq> pda rt program_id sponsor_pool_seeds"
    and no: "unat (ac_lamports (L r)) + unat n < 2 ^ 64"
  shows "let k = pda rt program_id sponsor_pool_seeds in
     \<exists>pool. load_sponsor_pool (ac_data (L k)) = Ok pool \<and>
       (sp_last_payout_slot pool = 0 \<or> unat (sp_last_payout_slot pool) + 5 \<le> unat slot) \<and>
       0 < n \<and> n \<le> ac_lamports (L k) \<and> ac_lamports (L' k) = ac_lamports (L k) - n \<and>
       ac_lamports (L' r) = ac_lamports (L r) + n \<and>
       load_sponsor_pool (ac_data (L' k)) = Ok (pool\<lparr>sp_last_payout_slot := slot,
         sp_total_payouts := saturating_add (sp_total_payouts pool) n\<rparr>)"
proof -
  let ?k = "pda rt program_id sponsor_pool_seeds"
  obtain pool where *: "n \<noteq> 0" "load_sponsor_pool (ac_data (L ?k)) = Ok pool"
      "sp_last_payout_slot pool = 0 \<or> MIN_SLOTS_BETWEEN_PAYOUTS \<le> saturating_sub slot (sp_last_payout_slot pool)"
      "n \<le> ac_lamports (L ?k)"
      "L' = (let L1 = set_lamports L ?k (saturating_sub (ac_lamports (L ?k)) n);
             L2 = set_lamports L1 r (saturating_add (ac_lamports (L1 r)) n);
             bs = ser_sponsor_pool (pool\<lparr>sp_last_payout_slot := slot,
                 sp_total_payouts := saturating_add (sp_total_payouts pool) n\<rparr>)
         in set_data L2 ?k (bs @ drop 24 (ac_data (L ?k))))"
    using p assms(2) by (auto simp: sponsor_payout_Ok Let_def)
  have "sp_last_payout_slot pool = 0 \<or> unat (sp_last_payout_slot pool) + 5 \<le> unat slot"
    using *(3) by (auto simp: MIN_SLOTS_BETWEEN_PAYOUTS_def saturating_sub_def word_le_nat_alt unat_sub split: if_splits)
  moreover have "saturating_sub (ac_lamports (L ?k)) n = ac_lamports (L ?k) - n"
    using *(4) by (simp add: saturating_sub_def)
  moreover have "saturating_add (ac_lamports (L r)) n = ac_lamports (L r) + n"
    using no by (simp add: saturating_add_def)
  ultimately show ?thesis
    using *(1,2,4) r by (simp add: *(5) Let_def set_lamports_def sponsor_slot.load_ser word_neq_0_conv)
qed

theorem sponsor_payout_rate_limited_witness:
  "\<exists>L'. sponsor_payout sample_runtime [9] (map account_ref [[3], pool_key, sample_recipient, [0]])
     (SponsorPayout 2 sample_recipient) sample_ledger = (Ok (), L') \<and>
     ac_lamports (L' pool_key) = 3 \<and> ac_lamports (L' sample_recipient) = 2"
proof -
  have clock: "clock_get sample_runtime = Ok 100" by (simp add: sample_runtime_def)
  have "load_sponsor_pool (replicate 32 0) = Ok SponsorPool_default" by (rule sponsor_slot.load_zeros)
  then obtain L' where L': "sponsor_payout sample_runtime [9] (map account_ref [[3], pool_key, sample_recipient, [0]])
      (SponsorPayout 2 sample_recipient) sample_ledger = (Ok (), L')"
    by (simp add: sponsor_payout_Ok account_ref_def clock SponsorPool_default_def Let_def)
  have "sample_recipient \<noteq> pda sample_runtime [9] sponsor_pool_seeds"
    "unat (ac_lamports (sample_ledger sample_recipient)) + unat (2 :: u64) < 2 ^ 64" by simp_all
  from sponsor_payout_rate_limited [OF runtime_ok_sample clock L' this] L' show ?thesis by (auto simp: Let_def)
qed



text \<open>
  C11. No instruction can make the program's accounts unreadable: if the registry, nullifier and sponsor
  accounts hold well-formed state (as absent and freshly created accounts do), then after any
  committed instruction they still do; all three load, and the loaded registry has unique
  identifiers of the right length within its capacity.
\<close>

theorem program_state_invariant:
  assumes "runtime_ok rt program_id" and "hash_ok C" and "state_ok rt program_id L"
    and "process_instruction C rt program_id accounts data L = (Ok (), L')"
  shows "state_ok rt program_id L' \<and>
     (\<exists>registry. registry_wf registry \<and> load_registry (ac_data (L' (pda rt program_id keyset_registry_seeds))) = Ok registry) \<and>
     (\<exists>ns. nullifiers_wf ns \<and> load_nullifiers (nullifier_data rt program_id L') = Ok ns) \<and>
     (\<exists>pool. load_sponsor_pool (ac_data (L' (pda rt program_id sponsor_pool_seeds))) = Ok pool)"
  using state_ok_step [OF assms(1,2,4,3)] registry_slot.holds_load nullifiers_slot.holds_load sponsor_slot.holds_load
  by (auto simp: state_ok_def nullifiers_ok_holds)

theorem program_state_invariant_witness:
  "\<exists>L'. process_instruction gf_curve sample_runtime [9] (map account_ref [[3], reg_key, null_key, [2]])
      (ser_instruction (Refresh (gf_bytes 4) gf_sig 1)) sample_ledger = (Ok (), L') \<and> state_ok sample_runtime [9] L'"
proof -
  let ?ix = "Refresh (gf_bytes 4) gf_sig 1"
  obtain L' where r: "refresh gf_curve sample_runtime [9] (map account_ref [[3], reg_key, null_key, [2]]) ?ix sample_ledger = (Ok (), L')"
    using sample_refresh by blast
  have de: "try_from_slice de_instruction (ser_instruction ?ix) = Some ?ix"
    by (rule instruction_codec.try_from_slice_ser) (simp add: gf_sig_wf)
  have p: "process_instruction gf_curve sample_runtime [9] (map account_ref [[3], reg_key, null_key, [2]])
      (ser_instruction ?ix) sample_ledger = (Ok (), L')"
    using r by (simp add: process_instruction_def de del: ser_instruction.simps)
  have "registry_slot.holds (ser_registry gf_registry)"
    unfolding registry_slot.holds_def using gf_registry_wf by (intro disjI2 exI [of _ gf_registry] exI [of _ "[]"]) simp
  then have "state_ok sample_runtime [9] sample_ledger"
    using sponsor_slot.holds_zeros [of 32] by (simp add: state_ok_def sample_null)
  from program_state_invariant [OF runtime_ok_sample hash_ok_gf this p] p show ?thesis by blast
qed

text \<open>
  What the deposit handler checks: the handler moves nothing, and it succeeds exactly when the
  denomination has an active keyset, the stated amount is the denomination and the vault's balance
  already covers it and leaves room for it. It cannot tell whether the transaction transferred
  anything: a deposit that succeeds once succeeds again on the same ledger.
\<close>

lemma deposit_handler_exact:
  "deposit rt program_id accounts (Deposit d l) L = (Ok (), L') \<longleftrightarrow>
     (\<exists>signer ra va registry. accounts = [signer, ra, va] \<and> ai_is_signer signer \<and>
        ai_key ra = pda rt program_id keyset_registry_seeds \<and> ai_key va = pda rt program_id (vault_seeds d) \<and>
        load_registry (ac_data (L (ai_key ra))) = Ok registry \<and> find_active_for_denom registry d \<noteq> None \<and>
        d = l \<and> l \<le> ac_lamports (L (ai_key va)) \<and> unat (ac_lamports (L (ai_key va))) + unat l < 2 ^ 64) \<and> L' = L"
  by (rule deposit_Ok)

end
