(* ===== verification/Invoice.thy ===== *)
theory Invoice
  imports Tardus_Prelude
begin

text \<open>
  Payment invoices as URIs (\<open>tardus-client/src/invoice.rs\<close>).

  A Rust string is its UTF-8 bytes; every separator and escape of the format is ASCII, so cutting
  bytes is cutting the string. The main result is that an invoice survives printing and parsing exactly
  when its parts are representable: relay URLs ASCII and not empty, the memo within its bound.
\<close>

section \<open>Strings of the standard library\<close>

definition byte :: "char \<Rightarrow> u8" where
  [simp]: "byte c = word_of_nat (of_char c)"

definition strip_prefix :: "bytes \<Rightarrow> bytes \<Rightarrow> bytes option" where
  "strip_prefix p s = (if take (length p) s = p then Some (drop (length p) s) else None)"

text \<open>\<open>str::split_once\<close> and \<open>str::split\<close> on a one-byte separator.\<close>

definition split_once :: "u8 \<Rightarrow> bytes \<Rightarrow> (bytes \<times> bytes) option" where
  "split_once c s =
     (case dropWhile (\<lambda>b. b \<noteq> c) s of [] \<Rightarrow> None | _ # rest \<Rightarrow> Some (takeWhile (\<lambda>b. b \<noteq> c) s, rest))"

fun split_on :: "u8 \<Rightarrow> bytes \<Rightarrow> bytes list" where
  "split_on c [] = [[]]"
| "split_on c (b # bs) =
     (if b = c then [] # split_on c bs
      else case split_on c bs of [] \<Rightarrow> [[b]] | p # ps \<Rightarrow> (b # p) # ps)"

fun join :: "bytes \<Rightarrow> bytes list \<Rightarrow> bytes" where
  "join sep [] = []"
| "join sep [p] = p"
| "join sep (p # ps) = p @ sep @ join sep ps"

text \<open>\<open>u64::from_str\<close>: an optional plus sign, at least one digit, no overflow; and \<open>Display\<close>.\<close>

fun parse_digits :: "nat \<Rightarrow> bytes \<Rightarrow> nat option" where
  "parse_digits acc [] = Some acc"
| "parse_digits acc (c # cs) =
     (if byte CHR ''0'' \<le> c \<and> c \<le> byte CHR ''9''
      then (let acc' = acc * 10 + unat (c - byte CHR ''0'')
            in if acc' < 2 ^ 64 then parse_digits acc' cs else None)
      else None)"

definition parse_u64 :: "bytes \<Rightarrow> u64 option" where
  "parse_u64 s =
     (let digits = (case s of c # rest \<Rightarrow> if c = byte CHR ''+'' then rest else s | [] \<Rightarrow> [])
      in if digits = [] then None else map_option word_of_nat (parse_digits 0 digits))"

fun decimal :: "nat \<Rightarrow> bytes" where
  "decimal n = (if n < 10 then [word_of_nat (48 + n)] else decimal (n div 10) @ [word_of_nat (48 + n mod 10)])"

declare decimal.simps [simp del]

section \<open>Helpers of the module\<close>

definition hex_nibble :: "u8 \<Rightarrow> u8 option" where
  "hex_nibble c =
     (if byte CHR ''0'' \<le> c \<and> c \<le> byte CHR ''9'' then Some (c - byte CHR ''0'')
      else if byte CHR ''a'' \<le> c \<and> c \<le> byte CHR ''f'' then Some (c - byte CHR ''a'' + 10)
      else if byte CHR ''A'' \<le> c \<and> c \<le> byte CHR ''F'' then Some (c - byte CHR ''A'' + 10)
      else None)"

definition hex_byte :: "u8 \<Rightarrow> u8 \<Rightarrow> u8 option" where
  "hex_byte h l =
     (case hex_nibble h of
        None \<Rightarrow> None
      | Some hi \<Rightarrow> (case hex_nibble l of None \<Rightarrow> None | Some lo \<Rightarrow> Some (push_bit 4 hi OR lo)))"

fun decode_hex_pairs :: "bytes \<Rightarrow> bytes option" where
  "decode_hex_pairs (h # l # rest) =
     (case hex_byte h l of
        None \<Rightarrow> None
      | Some b \<Rightarrow> map_option ((#) b) (decode_hex_pairs rest))"
| "decode_hex_pairs _ = Some []"

definition decode_hex_32 :: "bytes \<Rightarrow> bytes option" where
  "decode_hex_32 s = (if length s \<noteq> 64 then None else decode_hex_pairs s)"

definition HEX :: bytes where
  "HEX = ascii ''0123456789abcdef''"

definition encode_hex_32 :: "bytes \<Rightarrow> bytes" where
  "encode_hex_32 bs = concat (map (\<lambda>b. [HEX ! unat (drop_bit 4 b), HEX ! unat (b AND 0x0f)]) bs)"

text \<open>The loop of \<open>url_decode\<close>, on what is left of the input.\<close>

definition is_ascii :: "u8 \<Rightarrow> bool" where
  "is_ascii b \<longleftrightarrow> b < 128"

fun url_decode :: "bytes \<Rightarrow> bytes option" where
  "url_decode [] = Some []"
| "url_decode (c # s) =
     (if c = byte CHR ''%'' then
        (case s of
           h # l # rest \<Rightarrow>
             (case hex_byte h l of
                None \<Rightarrow> None
              | Some decoded \<Rightarrow> if \<not> is_ascii decoded then None else map_option ((#) decoded) (url_decode rest))
         | _ \<Rightarrow> None)
      else if c = byte CHR ''+'' then map_option ((#) (byte CHR '' '')) (url_decode s)
      else if is_ascii c then map_option ((#) c) (url_decode s)
      else None)"

definition HEX_UPPER :: bytes where
  "HEX_UPPER = ascii ''0123456789ABCDEF''"

definition url_plain :: "u8 \<Rightarrow> bool" where
  "url_plain b \<longleftrightarrow>
     (byte CHR ''a'' \<le> b \<and> b \<le> byte CHR ''z'') \<or> (byte CHR ''A'' \<le> b \<and> b \<le> byte CHR ''Z'') \<or>
     (byte CHR ''0'' \<le> b \<and> b \<le> byte CHR ''9'') \<or> b \<in> set (ascii ''-_.~/:'')"

definition url_encode :: "bytes \<Rightarrow> bytes" where
  "url_encode s = concat (map (\<lambda>b.
     if url_plain b then [b]
     else [byte CHR ''%'', HEX_UPPER ! unat (drop_bit 4 b), HEX_UPPER ! unat (b AND 0x0f)]) s)"

definition B64URL :: bytes where
  "B64URL = ascii ''ABCDEFGHIJKLMNOPQRSTUVWXYZabcdefghijklmnopqrstuvwxyz0123456789-_''"

definition b64url_index :: "u8 \<Rightarrow> u8 option" where
  "b64url_index c =
     (if byte CHR ''A'' \<le> c \<and> c \<le> byte CHR ''Z'' then Some (c - byte CHR ''A'')
      else if byte CHR ''a'' \<le> c \<and> c \<le> byte CHR ''z'' then Some (c - byte CHR ''a'' + 26)
      else if byte CHR ''0'' \<le> c \<and> c \<le> byte CHR ''9'' then Some (c - byte CHR ''0'' + 52)
      else if c = byte CHR ''-'' then Some 62
      else if c = byte CHR ''_'' then Some 63
      else None)"

definition sextet :: "nat \<Rightarrow> u32 \<Rightarrow> u8" where
  "sextet k n = B64URL ! unat (drop_bit k n AND 0x3f)"

fun b64url_encode :: "bytes \<Rightarrow> bytes" where
  "b64url_encode (a # b # c # rest) =
     (let n = push_bit 16 (ucast a) OR push_bit 8 (ucast b) OR ucast c
      in [sextet 18 n, sextet 12 n, sextet 6 n, sextet 0 n] @ b64url_encode rest)"
| "b64url_encode [a, b] =
     (let n = push_bit 16 (ucast a) OR push_bit 8 (ucast b)
      in [sextet 18 n, sextet 12 n, sextet 6 n])"
| "b64url_encode [a] =
     (let n = push_bit 16 (ucast a)
      in [sextet 18 n, sextet 12 n])"
| "b64url_encode [] = []"

fun chunk_value :: "u32 \<Rightarrow> bytes \<Rightarrow> u32 option" where
  "chunk_value v [] = Some v"
| "chunk_value v (c # cs) =
     (case b64url_index c of None \<Rightarrow> None | Some idx \<Rightarrow> chunk_value (push_bit 6 v OR ucast idx) cs)"

definition octet :: "nat \<Rightarrow> u32 \<Rightarrow> u8" where
  "octet k v = ucast (drop_bit k v AND 0xff)"

definition decode_chunk :: "bytes \<Rightarrow> bytes option" where
  "decode_chunk chunk =
     (case chunk_value 0 chunk of
        None \<Rightarrow> None
      | Some v \<Rightarrow>
          (let chunk_len = length chunk; value = push_bit ((4 - chunk_len) * 6) v
           in if chunk_len = 2 then Some [octet 16 value]
              else if chunk_len = 3 then Some [octet 16 value, octet 8 value]
              else if chunk_len = 4 then Some [octet 16 value, octet 8 value, octet 0 value]
              else None))"

function b64url_decode :: "bytes \<Rightarrow> bytes option" where
  "b64url_decode s =
     (if s = [] then Some []
      else case decode_chunk (take 4 s) of
             None \<Rightarrow> None
           | Some out \<Rightarrow> map_option ((@) out) (b64url_decode (drop 4 s)))"
  by pat_completeness auto
termination
  by (relation "measure length") auto

declare b64url_decode.simps [simp del]

section \<open>Invoices\<close>

datatype invoice_parse_error =
    WrongScheme
  | MissingRecipient
  | InvalidRecipientHex
  | MissingDenom
  | InvalidDenom
  | InvalidRelayUrl
  | MemoTooLong
  | MemoNotBase64

definition INVOICE_SCHEME :: bytes where
  "INVOICE_SCHEME = ascii ''tardus://''"

definition MEMO_MAX_BYTES :: nat where
  "MEMO_MAX_BYTES = 128"

record invoice =
  inv_recipient_pubkey :: bytes
  inv_denom :: u64
  inv_relays :: "bytes list"
  inv_memo :: "bytes option"

text \<open>The loop over the parameters, with its three accumulators.\<close>

fun parse_params ::
    "u64 option \<Rightarrow> bytes list \<Rightarrow> bytes option \<Rightarrow> bytes list
     \<Rightarrow> (u64 option \<times> bytes list \<times> bytes option, invoice_parse_error) result" where
  "parse_params denom relays memo [] = Ok (denom, relays, memo)"
| "parse_params denom relays memo (pair # pairs) =
     rbind (ok_or WrongScheme (split_once (byte CHR ''='') pair)) (\<lambda>(k, v).
       if k = ascii ''denom'' then
         rbind (ok_or InvalidDenom (parse_u64 v)) (\<lambda>d. parse_params (Some d) relays memo pairs)
       else if k = ascii ''relay'' then
         rbind (ok_or InvalidRelayUrl (url_decode v)) (\<lambda>decoded.
           if decoded = [] then Err InvalidRelayUrl else parse_params denom (relays @ [decoded]) memo pairs)
       else if k = ascii ''memo'' then
         rbind (ok_or MemoNotBase64 (b64url_decode v)) (\<lambda>decoded.
           if length decoded > MEMO_MAX_BYTES then Err MemoTooLong else parse_params denom relays (Some decoded) pairs)
       else parse_params denom relays memo pairs)"

definition Invoice_parse :: "bytes \<Rightarrow> (invoice, invoice_parse_error) result" where
  "Invoice_parse uri =
     rbind (ok_or WrongScheme (strip_prefix INVOICE_SCHEME uri)) (\<lambda>body.
       let (recipient_hex, query) = (case split_once (byte CHR ''?'') body of Some hq \<Rightarrow> hq | None \<Rightarrow> (body, []))
       in if recipient_hex = [] then Err MissingRecipient
          else
            rbind (ok_or InvalidRecipientHex (decode_hex_32 recipient_hex)) (\<lambda>recipient_pubkey.
            rbind (parse_params None [] None (filter (\<lambda>p. p \<noteq> []) (split_on (byte CHR ''&'') query))) (\<lambda>(denom_opt, relays, memo).
            rbind (ok_or MissingDenom denom_opt) (\<lambda>denom.
              Ok \<lparr>inv_recipient_pubkey = recipient_pubkey, inv_denom = denom, inv_relays = relays, inv_memo = memo\<rparr>))))"

definition Invoice_to_uri :: "invoice \<Rightarrow> bytes" where
  "Invoice_to_uri invoice =
     (let params = [ascii ''denom='' @ decimal (unat (inv_denom invoice))] @
            map (\<lambda>relay. ascii ''relay='' @ url_encode relay) (inv_relays invoice) @
            (case inv_memo invoice of None \<Rightarrow> [] | Some memo \<Rightarrow> [ascii ''memo='' @ b64url_encode memo])
      in INVOICE_SCHEME @ encode_hex_32 (inv_recipient_pubkey invoice) @ ascii ''?'' @ join (ascii ''&'') params)"

section \<open>Hexadecimal\<close>

lemma hex_tables:
  "list_all (\<lambda>i. hex_nibble (HEX ! i) = Some (word_of_nat i) \<and> hex_nibble (HEX_UPPER ! i) = Some (word_of_nat i) \<and>
     url_plain (HEX ! i) \<and> url_plain (HEX_UPPER ! i)) [0..<16]"
  by code_simp

lemma low_nibble: "unat ((b :: u8) AND 0x0f) < 16" and high_nibble: "unat (drop_bit 4 (b :: u8)) < 16"
proof -
  have "b AND 0x0f = take_bit 4 b" by (simp add: take_bit_eq_mask mask_eq_exp_minus_1)
  then show "unat (b AND 0x0f) < 16" by (simp add: unsigned_take_bit_eq) (simp add: take_bit_eq_mod)
  have "unat b < 256" using unat_less [of b] by simp
  then have "take_bit 8 (unat b) = unat b" by (simp add: take_bit_nat_eq_self)
  then show "unat (drop_bit 4 b) < 16" using \<open>unat b < 256\<close> by (simp add: unsigned_drop_bit_eq) (simp add: drop_bit_eq_div)
qed

lemma nibbles_join: "push_bit 4 (drop_bit 4 b) OR (b AND 0x0f) = (b :: u8)"
proof -
  have "b AND 0x0f = take_bit 4 b" by (simp add: take_bit_eq_mask mask_eq_exp_minus_1)
  then show ?thesis by (simp add: bit_eq_iff bit_simps) auto
qed

lemma hex_byte_roundtrip:
  "hex_byte (HEX ! unat (drop_bit 4 b)) (HEX ! unat (b AND 0x0f)) = Some b"
  "hex_byte (HEX_UPPER ! unat (drop_bit 4 b)) (HEX_UPPER ! unat (b AND 0x0f)) = Some b"
  using hex_tables low_nibble [of b] high_nibble [of b] nibbles_join [of b]
  by (simp_all add: hex_byte_def list_all_iff)


lemma decode_hex_pairs_encode: "decode_hex_pairs (encode_hex_32 bs) = Some bs"
  unfolding encode_hex_32_def by (induction bs) (simp_all add: hex_byte_roundtrip)

lemma length_encode_hex: "length (encode_hex_32 bs) = 2 * length bs"
  unfolding encode_hex_32_def by (induction bs) simp_all

lemma hex_plain: "b \<in> set (encode_hex_32 bs) \<Longrightarrow> url_plain b"
  using hex_tables low_nibble high_nibble by (auto simp: encode_hex_32_def list_all_iff)

section \<open>Percent encoding\<close>

lemma url_roundtrip: "url_decode (url_encode s) = (if list_all is_ascii s then Some s else None)"
proof (induction s)
  case (Cons b s)
  have "url_plain b \<Longrightarrow> b \<noteq> byte CHR ''%'' \<and> b \<noteq> byte CHR ''+'' \<and> is_ascii b"
    by (auto simp: url_plain_def ascii_def is_ascii_def intro: le_less_trans)
  then show ?case using Cons by (auto simp: url_encode_def hex_byte_roundtrip(2))
qed (simp add: url_encode_def)

lemma url_encode_plain: "b \<in> set (url_encode s) \<Longrightarrow> url_plain b \<or> b = byte CHR ''%''"
  using hex_tables low_nibble high_nibble by (auto simp: url_encode_def list_all_iff split: if_splits)

section \<open>Decimal numbers\<close>

lemma decimal_digits:
  "list_all (\<lambda>d. byte CHR ''0'' \<le> word_of_nat (48 + d) \<and> word_of_nat (48 + d) \<le> byte CHR ''9'' \<and>
     unat (word_of_nat (48 + d) - byte CHR ''0'') = d) [0..<10]"
  by code_simp

lemmas decimal_digit = decimal_digits [unfolded list_all_iff set_upt atLeastLessThan_iff Ball_def, rule_format, OF conjI, OF le0]

lemma decimal_chars: "b \<in> set (decimal n) \<Longrightarrow> byte CHR ''0'' \<le> b \<and> b \<le> byte CHR ''9''"
proof (induction n rule: decimal.induct)
  case (1 n)
  then show ?case using decimal_digit by (subst (asm) decimal.simps) (auto split: if_splits simp del: byte_def)
qed

lemma decimal_nonempty: "decimal n \<noteq> []"
  by (subst decimal.simps) simp

lemma parse_digits_append:
  "parse_digits acc (xs @ ys) = (case parse_digits acc xs of None \<Rightarrow> None | Some a \<Rightarrow> parse_digits a ys)"
  by (induction xs arbitrary: acc) (simp_all add: Let_def)

lemma parse_digits_decimal: "n < 2 ^ 64 \<Longrightarrow> parse_digits 0 (decimal n) = Some n"
proof (induction n rule: decimal.induct)
  case (1 n)
  have digit: "parse_digits a [word_of_nat (48 + d)] = (if a * 10 + d < 2 ^ 64 then Some (a * 10 + d) else None)" if "d < 10" for a d
    using decimal_digit [OF that] by (simp add: Let_def del: byte_def)
  show ?case
  proof (cases "n < 10")
    case True
    then show ?thesis using digit [of n 0] by (subst decimal.simps) simp
  next
    case False
    then have "n div 10 < 2 ^ 64" using 1 by linarith
    then show ?thesis using 1 False digit [of "n mod 10" "n div 10"]
      by (subst decimal.simps) (simp add: parse_digits_append)
  qed
qed

lemma parse_u64_decimal: "parse_u64 (decimal (unat d)) = Some d"
proof -
  obtain c cs where c: "decimal (unat d) = c # cs" by (meson decimal_nonempty neq_Nil_conv)
  then have "c \<noteq> byte CHR ''+''" using decimal_chars [of c "unat d"] by auto
  moreover have "unat d < 2 ^ 64" using unat_less [of d] by simp
  ultimately show ?thesis using parse_digits_decimal [of "unat d"] by (simp add: parse_u64_def c)
qed


section \<open>Base64\<close>

lemma b64_table: "map b64url_index B64URL = map (\<lambda>i. Some (word_of_nat i)) [0..<64]" "list_all url_plain B64URL"
  by (simp_all add: B64URL_def ascii_def b64url_index_def url_plain_def upt_rec)

lemma b64_nth:
  assumes "i < 64"
  shows "b64url_index (B64URL ! i) = Some (word_of_nat i)" and "url_plain (B64URL ! i)"
proof -
  have len: "length B64URL = 64" by (simp add: B64URL_def ascii_def)
  show "b64url_index (B64URL ! i) = Some (word_of_nat i)"
    using arg_cong [OF b64_table(1), of "\<lambda>xs. xs ! i"] assms len by simp
  show "url_plain (B64URL ! i)" using b64_table(2) assms len by (simp add: list_all_length)
qed

lemma sextet_bound: "unat (w AND 0x3f :: u32) < 64"
proof -
  have "w AND 0x3f = take_bit 6 w" by (simp add: take_bit_eq_mask mask_eq_exp_minus_1)
  then show ?thesis by (simp add: unsigned_take_bit_eq) (simp add: take_bit_eq_mod)
qed

lemma sextet_props:
  "b64url_index (sextet k n) = Some (ucast (drop_bit k n AND 0x3f))" "url_plain (sextet k n)"
  using b64_nth [OF sextet_bound [of "drop_bit k n"]] by (simp_all add: sextet_def)

lemma and_masks: "w AND 0x3f = take_bit 6 (w :: u32)" "w AND 0xff = take_bit 8 (w :: u32)"
  by (simp_all add: take_bit_eq_mask mask_eq_exp_minus_1)

text \<open>Four sextets of a 24-bit number give it back, and its three octets are the input.\<close>

lemma ucast_sextet: "ucast (ucast (w AND 0x3f :: u32) :: u8) = w AND 0x3f"
  unfolding and_masks by (rule bit_word_eqI) (auto simp: bit_simps)

lemma sextets_join:
  assumes "\<forall>m \<ge> 24. \<not> bit (n :: u32) m"
  shows "push_bit 6 (push_bit 6 (push_bit 6 (drop_bit 18 n AND 0x3f) OR (drop_bit 12 n AND 0x3f)) OR (drop_bit 6 n AND 0x3f)) OR (drop_bit 0 n AND 0x3f) = n"
  unfolding and_masks
proof (rule bit_word_eqI)
  fix m assume m: "m < LENGTH(32)"
  consider "m < 6" | "6 \<le> m" "m < 12" | "12 \<le> m" "m < 18" | "18 \<le> m" "m < 24" | "24 \<le> m" by linarith
  then show "bit (push_bit 6 (push_bit 6 (push_bit 6 (take_bit 6 (drop_bit 18 n)) OR take_bit 6 (drop_bit 12 n)) OR take_bit 6 (drop_bit 6 n)) OR take_bit 6 (drop_bit 0 n)) m = bit n m"
    by cases (use assms m in \<open>auto simp: bit_simps\<close>)
qed

lemma octets:
  fixes a b c :: u8
  defines "n \<equiv> push_bit 16 (ucast a) OR push_bit 8 (ucast b) OR ucast c :: u32"
  shows "octet 16 n = a" "octet 8 n = b" "octet 0 n = c" "\<forall>m \<ge> 24. \<not> bit n m"
proof -
  show "octet 16 n = a" "octet 8 n = b" "octet 0 n = c"
    unfolding octet_def and_masks n_def by (rule bit_word_eqI, auto simp: bit_simps dest: bit_imp_le_length)+
  show "\<forall>m \<ge> 24. \<not> bit n m" unfolding n_def by (auto simp: bit_simps dest: bit_imp_le_length)
qed


lemma low_sextets:
  fixes a b :: u8
  shows "drop_bit 0 (push_bit 16 (ucast a) OR push_bit 8 (ucast b) :: u32) AND 0x3f = 0"
    and "drop_bit 0 (push_bit 16 (ucast a) :: u32) AND 0x3f = 0" and "drop_bit 6 (push_bit 16 (ucast a) :: u32) AND 0x3f = 0"
  unfolding and_masks by (rule bit_word_eqI, auto simp: bit_simps)+

lemma chunk_value_sextet: "chunk_value v (sextet k n # cs) = chunk_value (push_bit 6 v OR (drop_bit k n AND 0x3f)) cs"
  by (simp add: sextet_props ucast_sextet)

lemmas chunk_value_sextets = chunk_value_sextet chunk_value.simps(1) push_bit_of_0 or.left_neutral

lemma decode_chunk_value:
  assumes "\<forall>m \<ge> 24. \<not> bit (n :: u32) m"
  shows "decode_chunk [sextet 18 n, sextet 12 n, sextet 6 n, sextet 0 n] = Some [octet 16 n, octet 8 n, octet 0 n]"
    and "drop_bit 0 n AND 0x3f = 0 \<Longrightarrow> decode_chunk [sextet 18 n, sextet 12 n, sextet 6 n] = Some [octet 16 n, octet 8 n]"
    and "drop_bit 0 n AND 0x3f = 0 \<Longrightarrow> drop_bit 6 n AND 0x3f = 0 \<Longrightarrow> decode_chunk [sextet 18 n, sextet 12 n] = Some [octet 16 n]"
proof -
  note join = sextets_join [OF assms]
  show "decode_chunk [sextet 18 n, sextet 12 n, sextet 6 n, sextet 0 n] = Some [octet 16 n, octet 8 n, octet 0 n]"
    unfolding decode_chunk_def chunk_value_sextets join by simp
  show "decode_chunk [sextet 18 n, sextet 12 n, sextet 6 n] = Some [octet 16 n, octet 8 n]" if "drop_bit 0 n AND 0x3f = 0"
    unfolding decode_chunk_def chunk_value_sextets using join [unfolded that or.right_neutral] by (simp only: option.case) simp
  show "decode_chunk [sextet 18 n, sextet 12 n] = Some [octet 16 n]" if z: "drop_bit 0 n AND 0x3f = 0" "drop_bit 6 n AND 0x3f = 0"
    unfolding decode_chunk_def chunk_value_sextets using join [unfolded z or.right_neutral push_bit_push_bit] by (simp only: option.case) simp
qed

lemma decode_chunk_sextets:
  fixes a b c :: u8
  shows "n = push_bit 16 (ucast a) OR push_bit 8 (ucast b) OR ucast c \<Longrightarrow>
           decode_chunk [sextet 18 n, sextet 12 n, sextet 6 n, sextet 0 n] = Some [a, b, c]"
    and "n = push_bit 16 (ucast a) OR push_bit 8 (ucast b) \<Longrightarrow> decode_chunk [sextet 18 n, sextet 12 n, sextet 6 n] = Some [a, b]"
    and "n = push_bit 16 (ucast a) \<Longrightarrow> decode_chunk [sextet 18 n, sextet 12 n] = Some [a]"
proof -
  note three = octets [of a b c] and two = octets [of a b 0, simplified] and one = octets [of a 0 0, simplified]
  show "n = push_bit 16 (ucast a) OR push_bit 8 (ucast b) OR ucast c \<Longrightarrow>
      decode_chunk [sextet 18 n, sextet 12 n, sextet 6 n, sextet 0 n] = Some [a, b, c]"
    using decode_chunk_value(1) [OF three(4)] three(1-3) by (simp only:)
  show "n = push_bit 16 (ucast a) OR push_bit 8 (ucast b) \<Longrightarrow> decode_chunk [sextet 18 n, sextet 12 n, sextet 6 n] = Some [a, b]"
    using decode_chunk_value(2) [OF two(4) low_sextets(1)] two(1,2) by (simp only:)
  show "n = push_bit 16 (ucast a) \<Longrightarrow> decode_chunk [sextet 18 n, sextet 12 n] = Some [a]"
    using decode_chunk_value(3) [OF one(4) low_sextets(2,3)] one(1) by (simp only:)
qed

lemma b64url_roundtrip: "b64url_decode (b64url_encode bs) = Some bs"
  by (induction bs rule: b64url_encode.induct)
    (simp_all add: Let_def b64url_decode.simps [of "_ # _"] b64url_decode.simps [of "[]"] decode_chunk_sextets)

lemma b64url_encode_plain: "b \<in> set (b64url_encode bs) \<Longrightarrow> url_plain b"
  by (induction bs rule: b64url_encode.induct) (auto simp: Let_def sextet_props)


section \<open>Cutting the URI\<close>

declare byte_def [simp del]

lemma split_once_first:
  assumes "c \<notin> set p"
  shows "split_once c (p @ c # q) = Some (p, q)"
proof -
  have "dropWhile (\<lambda>b. b \<noteq> c) (p @ c # q) = c # q" "takeWhile (\<lambda>b. b \<noteq> c) (p @ c # q) = p"
    using assms by (induction p) auto
  then show ?thesis by (simp add: split_once_def)
qed

lemma split_on_piece: "c \<notin> set p \<Longrightarrow> split_on c p = [p]"
  by (induction p) auto

lemma split_on_append: "c \<notin> set p \<Longrightarrow> split_on c (p @ c # q) = p # split_on c q"
  by (induction p) auto

lemma split_on_join: "ps \<noteq> [] \<Longrightarrow> \<forall>p \<in> set ps. c \<notin> set p \<Longrightarrow> split_on c (join [c] ps) = ps"
proof (induction "[c]" ps rule: join.induct)
  case (3 p q ps)
  then show ?case by (simp add: split_on_append)
qed (simp_all add: split_on_piece)

text \<open>The separators are none of the bytes the encoders produce.\<close>

lemma separators:
  "\<not> url_plain (byte CHR ''&'')" "\<not> url_plain (byte CHR ''?'')" "byte CHR ''&'' \<noteq> byte CHR ''%''"
  "\<not> (byte CHR ''0'' \<le> byte CHR ''&'')" "byte CHR ''='' \<notin> set (ascii ''denom'')" "byte CHR ''='' \<notin> set (ascii ''relay'')"
  "byte CHR ''='' \<notin> set (ascii ''memo'')" "byte CHR ''&'' \<notin> set (ascii ''denom='')" "byte CHR ''&'' \<notin> set (ascii ''relay='')"
  "byte CHR ''&'' \<notin> set (ascii ''memo='')"
  by (simp_all add: url_plain_def ascii_def byte_def)

lemma split_params:
  "split_once (byte CHR ''='') (ascii ''denom='' @ v) = Some (ascii ''denom'', v)"
  "split_once (byte CHR ''='') (ascii ''relay='' @ v) = Some (ascii ''relay'', v)"
  "split_once (byte CHR ''='') (ascii ''memo='' @ v) = Some (ascii ''memo'', v)"
  by (simp_all add: split_once_def ascii_def byte_def)

lemma keys_distinct: "ascii ''relay'' \<noteq> ascii ''denom''" "ascii ''memo'' \<noteq> ascii ''denom''" "ascii ''memo'' \<noteq> ascii ''relay''"
  by (simp_all add: ascii_def)

definition relays_ok :: "bytes list \<Rightarrow> bool" where
  "relays_ok relays \<longleftrightarrow> list_all (\<lambda>relay. relay \<noteq> [] \<and> list_all is_ascii relay) relays"

definition memo_fits :: "bytes option \<Rightarrow> bool" where
  "memo_fits memo \<longleftrightarrow> (case memo of None \<Rightarrow> True | Some m \<Rightarrow> length m \<le> MEMO_MAX_BYTES)"

lemma parse_relays:
  "parse_params d acc m (map (\<lambda>relay. ascii ''relay='' @ url_encode relay) rs @ rest) =
     (if relays_ok rs then parse_params d (acc @ rs) m rest else Err InvalidRelayUrl)"
  unfolding relays_ok_def by (induction rs arbitrary: acc) (auto simp: split_params keys_distinct url_roundtrip)

lemma params_clean:
  "byte CHR ''&'' \<notin> set (ascii ''denom='' @ decimal n)" "byte CHR ''&'' \<notin> set (ascii ''relay='' @ url_encode r)"
  "byte CHR ''&'' \<notin> set (ascii ''memo='' @ b64url_encode m)"
  using separators decimal_chars url_encode_plain b64url_encode_plain by auto

section \<open>Round trip\<close>

lemma uri_roundtrip:
  assumes "length (inv_recipient_pubkey invoice) = 32"
  shows "Invoice_parse (Invoice_to_uri invoice) =
     (if \<not> relays_ok (inv_relays invoice) then Err InvalidRelayUrl
      else if \<not> memo_fits (inv_memo invoice) then Err MemoTooLong
      else Ok invoice)"
proof -
  let ?hex = "encode_hex_32 (inv_recipient_pubkey invoice)"
  let ?memo = "case inv_memo invoice of None \<Rightarrow> [] | Some memo \<Rightarrow> [ascii ''memo='' @ b64url_encode memo]"
  let ?params = "(ascii ''denom='' @ decimal (unat (inv_denom invoice))) #
      map (\<lambda>relay. ascii ''relay='' @ url_encode relay) (inv_relays invoice) @ ?memo"
  have uri: "Invoice_to_uri invoice = INVOICE_SCHEME @ ?hex @ byte CHR ''?'' # join [byte CHR ''&''] ?params"
    by (simp add: Invoice_to_uri_def ascii_def byte_def)
  have "byte CHR ''?'' \<notin> set ?hex" using hex_plain separators(2) by metis
  then have cut: "split_once (byte CHR ''?'') (?hex @ byte CHR ''?'' # join [byte CHR ''&''] ?params) = Some (?hex, join [byte CHR ''&''] ?params)"
    by (rule split_once_first)
  have "\<forall>p \<in> set ?params. byte CHR ''&'' \<notin> set p \<and> p \<noteq> []"
    using params_clean by (auto simp: ascii_def split: option.splits)
  then have pieces: "filter (\<lambda>p. p \<noteq> []) (split_on (byte CHR ''&'') (join [byte CHR ''&''] ?params)) = ?params"
    by (subst split_on_join) (auto intro!: filter_True)
  have parsed: "parse_params None [] None ?params =
      (if \<not> relays_ok (inv_relays invoice) then Err InvalidRelayUrl
       else if \<not> memo_fits (inv_memo invoice) then Err MemoTooLong
       else Ok (Some (inv_denom invoice), inv_relays invoice, inv_memo invoice))"
    by (auto simp: memo_fits_def split_params keys_distinct parse_u64_decimal parse_relays b64url_roundtrip split: option.splits)
  have hex: "decode_hex_32 ?hex = Some (inv_recipient_pubkey invoice)" "?hex \<noteq> []"
    using assms length_encode_hex [of "inv_recipient_pubkey invoice"] by (auto simp: decode_hex_32_def decode_hex_pairs_encode)
  have body: "strip_prefix INVOICE_SCHEME (INVOICE_SCHEME @ xs) = Some xs" for xs by (simp add: strip_prefix_def)
  show ?thesis
    unfolding Invoice_parse_def uri body ok_or.simps rbind.simps cut option.case Let_def prod.case pieces hex(1) parsed
    using hex(2) by simp
qed

section \<open>Properties\<close>



end
