(* ===== verification/Client.thy ===== *)
theory Client
  imports Storage Invoice Processor
begin

text \<open>
  The user's side: the crate \<open>tardus-client\<close> (errors, coin store, coin issuance, sealed backups) and
  the wallet file of \<open>tardus-wallet\<close> (\<open>wallet_db.rs\<close>).

  The coin store is a list with pairwise different nullifiers, an invariant that every operation
  keeps; sums of balances wrap as \<open>u64\<close> does in a release build. Labels are UTF-8 byte strings.
\<close>

section \<open>Errors\<close>

datatype client_error =
    ClientCore core_error
  | ClientMint mint_error
  | ClientRefresh refresh_error
  | InvalidInvoice invoice_parse_error
  | ClientAeadFailure
  | CoinNotFound
  | DuplicateCoin
  | ClientCoinSignatureInvalid
  | BackupValidationFailed

section \<open>Coin store\<close>

datatype coin_status = Active | InFlight | Spent

record stored_coin =
  sc_secret_bytes :: bytes
  sc_pubkey_bytes :: bytes
  sc_signature_bytes :: bytes
  sc_denom :: u64
  sc_status :: coin_status
  sc_label :: "bytes option"

definition StoredCoin_nullifier :: "('s, 'p) crypto \<Rightarrow> stored_coin \<Rightarrow> bytes" where
  "StoredCoin_nullifier C c = Sha256 C (ascii ''TARDUS-nullifier-v1'' @ sc_pubkey_bytes c)"

record coin_store =
  cs_version :: u8
  cs_coins :: "stored_coin list"

definition CoinStore_new :: coin_store where
  "CoinStore_new = \<lparr>cs_version = 1, cs_coins = []\<rparr>"

definition CoinStore_add ::
    "('s, 'p) crypto \<Rightarrow> coin_store \<Rightarrow> stored_coin \<Rightarrow> (unit, client_error) result \<times> coin_store" where
  "CoinStore_add C st c =
     (let nullifier = StoredCoin_nullifier C c
      in if list_ex (\<lambda>c'. StoredCoin_nullifier C c' = nullifier) (cs_coins st) then (Err DuplicateCoin, st)
         else (Ok (), st\<lparr>cs_coins := cs_coins st @ [c]\<rparr>))"

text \<open>The first coin with the nullifier gets the status.\<close>

fun set_status ::
    "('s, 'p) crypto \<Rightarrow> bytes \<Rightarrow> coin_status \<Rightarrow> stored_coin list \<Rightarrow> stored_coin list option" where
  "set_status C n status [] = None"
| "set_status C n status (c # cs) =
     (if StoredCoin_nullifier C c = n then Some (c\<lparr>sc_status := status\<rparr> # cs)
      else map_option ((#) c) (set_status C n status cs))"

definition CoinStore_mark_in_flight ::
    "('s, 'p) crypto \<Rightarrow> coin_store \<Rightarrow> bytes \<Rightarrow> (unit, client_error) result \<times> coin_store" where
  "CoinStore_mark_in_flight C st n =
     (case set_status C n InFlight (cs_coins st) of
        None \<Rightarrow> (Err CoinNotFound, st)
      | Some cs \<Rightarrow> (Ok (), st\<lparr>cs_coins := cs\<rparr>))"

definition CoinStore_mark_spent ::
    "('s, 'p) crypto \<Rightarrow> coin_store \<Rightarrow> bytes \<Rightarrow> (unit, client_error) result \<times> coin_store" where
  "CoinStore_mark_spent C st n =
     (case set_status C n Spent (cs_coins st) of
        None \<Rightarrow> (Err CoinNotFound, st)
      | Some cs \<Rightarrow> (Ok (), st\<lparr>cs_coins := cs\<rparr>))"

definition active_balance_for_denom :: "coin_store \<Rightarrow> u64 \<Rightarrow> u64" where
  "active_balance_for_denom st denom =
     sum_list (map sc_denom (filter (\<lambda>c. sc_denom c = denom \<and> sc_status c = Active) (cs_coins st)))"

definition total_active_balance :: "coin_store \<Rightarrow> u64" where
  "total_active_balance st = sum_list (map sc_denom (filter (\<lambda>c. sc_status c = Active) (cs_coins st)))"

definition find_active :: "coin_store \<Rightarrow> u64 \<Rightarrow> stored_coin option" where
  "find_active st denom = List.find (\<lambda>c. sc_denom c = denom \<and> sc_status c = Active) (cs_coins st)"

section \<open>Issuance\<close>

record 's issue_session =
  iss_seed :: bytes
  iss_user_state :: "'s user_state"
  iss_cp_bytes :: bytes

definition issue_request ::
    "('s::field, 'p::ab_group_add) crypto \<Rightarrow> ('r, 's) rng \<Rightarrow> public_key \<Rightarrow> blind_commit \<Rightarrow> 'r
     \<Rightarrow> ((blind_challenge \<times> 's issue_session) \<times> 'r, client_error) result" where
  "issue_request C R joint_pk mint_commit r =
     (let (seed, r1) = fill_bytes R 32 r;
          x = derive_coin_secret C seed
      in rbind (expect_ok (SecretKey_from_bytes C (scalar_to_bytes C x))) (\<lambda>sk.
         let cp_bytes = pk_to_bytes (PublicKey_from_secret C sk)
         in rbind (map_err ClientCore (blind_request C R mint_commit joint_pk cp_bytes r1)) (\<lambda>((challenge, ust), r2).
              Ok ((challenge, \<lparr>iss_seed = seed, iss_user_state = ust, iss_cp_bytes = cp_bytes\<rparr>), r2))))"

definition issue_finalize ::
    "('s::field, 'p::ab_group_add) crypto \<Rightarrow> 's issue_session \<Rightarrow> blind_response \<Rightarrow> ('s coin, client_error) result" where
  "issue_finalize C session response =
     rbind (map_err ClientCore (unblind C (iss_user_state session) response)) (\<lambda>sig.
     let x = derive_coin_secret C (iss_seed session)
     in rbind (expect_ok (SecretKey_from_bytes C (scalar_to_bytes C x))) (\<lambda>sk.
          map_err ClientRefresh (Coin_new C sk (iss_cp_bytes session) sig)))"

section \<open>Backup\<close>

definition BACKUP_HKDF_SALT :: bytes where
  "BACKUP_HKDF_SALT = ascii ''TARDUS-wallet-backup-salt-v1''"

definition BACKUP_HKDF_INFO :: bytes where
  "BACKUP_HKDF_INFO = ascii ''TARDUS-wallet-backup-v1''"

definition BACKUP_NONCE_LEN :: nat where
  "BACKUP_NONCE_LEN = 12"

definition TAG_LEN :: nat where
  "TAG_LEN = 16"

definition derive_backup_key :: "('s, 'p) crypto \<Rightarrow> bytes \<Rightarrow> bytes" where
  "derive_backup_key C master_seed = hkdf_sha512 C BACKUP_HKDF_SALT master_seed BACKUP_HKDF_INFO 32"

definition seal_backup ::
    "('s, 'p) crypto \<Rightarrow> libs \<Rightarrow> ('r, 's) rng \<Rightarrow> bytes \<Rightarrow> bytes \<Rightarrow> 'r \<Rightarrow> (bytes, client_error) result \<times> 'r" where
  "seal_backup C X R master_seed plaintext r =
     (let key = derive_backup_key C master_seed;
          (nonce, r1) = fill_bytes R BACKUP_NONCE_LEN r
      in (rbind (ok_or ClientAeadFailure (aead_encrypt X key nonce plaintext)) (\<lambda>ciphertext. Ok (nonce @ ciphertext)), r1))"

definition open_backup :: "('s, 'p) crypto \<Rightarrow> libs \<Rightarrow> bytes \<Rightarrow> bytes \<Rightarrow> (bytes, client_error) result" where
  "open_backup C X master_seed sealed =
     (if length sealed < BACKUP_NONCE_LEN + TAG_LEN then Err BackupValidationFailed
      else ok_or BackupValidationFailed
        (aead_decrypt X (derive_backup_key C master_seed) (take BACKUP_NONCE_LEN sealed) (drop BACKUP_NONCE_LEN sealed)))"


section \<open>Borsh format of the coin store\<close>

text \<open>Valid UTF-8, as \<open>String\<close> requires it when a label is read.\<close>

definition utf8_cont :: "u8 \<Rightarrow> bool" where
  "utf8_cont b \<longleftrightarrow> 0x80 \<le> b \<and> b \<le> 0xBF"

fun utf8_valid :: "bytes \<Rightarrow> bool" where
  "utf8_valid [] \<longleftrightarrow> True"
| "utf8_valid (b # bs) \<longleftrightarrow>
     (if b < 0x80 then utf8_valid bs
      else if 0xC2 \<le> b \<and> b \<le> 0xDF then
        (case bs of c1 # rest \<Rightarrow> utf8_cont c1 \<and> utf8_valid rest | _ \<Rightarrow> False)
      else if 0xE0 \<le> b \<and> b \<le> 0xEF then
        (case bs of
           c1 # c2 # rest \<Rightarrow> utf8_cont c1 \<and> utf8_cont c2 \<and> (b = 0xE0 \<longrightarrow> 0xA0 \<le> c1) \<and> (b = 0xED \<longrightarrow> c1 \<le> 0x9F) \<and> utf8_valid rest
         | _ \<Rightarrow> False)
      else if 0xF0 \<le> b \<and> b \<le> 0xF4 then
        (case bs of
           c1 # c2 # c3 # rest \<Rightarrow> utf8_cont c1 \<and> utf8_cont c2 \<and> utf8_cont c3 \<and>
             (b = 0xF0 \<longrightarrow> 0x90 \<le> c1) \<and> (b = 0xF4 \<longrightarrow> c1 \<le> 0x8F) \<and> utf8_valid rest
         | _ \<Rightarrow> False)
      else False)"

definition ser_coin_status :: "coin_status \<Rightarrow> bytes" where
  "ser_coin_status s = (case s of Active \<Rightarrow> [0] | InFlight \<Rightarrow> [1] | Spent \<Rightarrow> [2])"

definition de_coin_status :: "coin_status reader" where
  "de_coin_status = rd_bind rd_byte (\<lambda>b.
     if b = 0 then rd_return Active else if b = 1 then rd_return InFlight else if b = 2 then rd_return Spent else rd_fail)"

definition ser_label :: "bytes option \<Rightarrow> bytes" where
  "ser_label l = (case l of None \<Rightarrow> [0] | Some s \<Rightarrow> 1 # ser_seq (\<lambda>b. [b]) s)"

definition de_label :: "bytes option reader" where
  "de_label = rd_bind rd_byte (\<lambda>b.
     if b = 0 then rd_return None
     else if b = 1 then rd_bind (de_seq rd_byte) (\<lambda>s. if utf8_valid s then rd_return (Some s) else rd_fail)
     else rd_fail)"

definition ser_stored_coin :: "stored_coin \<Rightarrow> bytes" where
  "ser_stored_coin c = sc_secret_bytes c @ sc_pubkey_bytes c @ sc_signature_bytes c @ to_le_bytes 8 (sc_denom c) @
     ser_coin_status (sc_status c) @ ser_label (sc_label c)"

definition de_stored_coin :: "stored_coin reader" where
  "de_stored_coin =
     rd_bind (read_exact 32) (\<lambda>secret. rd_bind (read_exact 32) (\<lambda>pk. rd_bind (read_exact 64) (\<lambda>sig.
     rd_bind (rd_word 8) (\<lambda>denom. rd_bind de_coin_status (\<lambda>status. rd_bind de_label (\<lambda>label.
       rd_return \<lparr>sc_secret_bytes = secret, sc_pubkey_bytes = pk, sc_signature_bytes = sig, sc_denom = denom,
         sc_status = status, sc_label = label\<rparr>))))))"

definition ser_coin_store :: "coin_store \<Rightarrow> bytes" where
  "ser_coin_store st = cs_version st # ser_seq ser_stored_coin (cs_coins st)"

definition de_coin_store :: "coin_store reader" where
  "de_coin_store = rd_bind rd_byte (\<lambda>v. rd_bind (de_seq de_stored_coin) (\<lambda>cs. rd_return \<lparr>cs_version = v, cs_coins = cs\<rparr>))"

definition stored_coin_wf :: "stored_coin \<Rightarrow> bool" where
  "stored_coin_wf c \<longleftrightarrow> length (sc_secret_bytes c) = 32 \<and> length (sc_pubkey_bytes c) = 32 \<and> length (sc_signature_bytes c) = 64 \<and>
     (case sc_label c of None \<Rightarrow> True | Some l \<Rightarrow> utf8_valid l \<and> length l < 2 ^ 32)"

definition coin_store_wf :: "coin_store \<Rightarrow> bool" where
  "coin_store_wf st \<longleftrightarrow> list_all stored_coin_wf (cs_coins st) \<and> length (cs_coins st) < 2 ^ 32"

interpretation coin_status_codec: codec ser_coin_status de_coin_status "\<lambda>_. True"
  by unfold_locales (simp add: ser_coin_status_def de_coin_status_def rd_bind_def split: coin_status.splits)

interpretation label_codec: codec ser_label de_label "\<lambda>l. case l of None \<Rightarrow> True | Some s \<Rightarrow> utf8_valid s \<and> length s < 2 ^ 32"
  by unfold_locales (auto simp: ser_label_def de_label_def rd_bind_def de_bytes_append split: option.splits)

interpretation stored_coin_codec: codec ser_stored_coin de_stored_coin stored_coin_wf
  by unfold_locales
    (simp add: ser_stored_coin_def de_stored_coin_def stored_coin_wf_def rd_bind_def coin_status_codec.de_ser label_codec.de_ser)

interpretation coin_store_codec: codec ser_coin_store de_coin_store coin_store_wf
  by unfold_locales
    (simp add: ser_coin_store_def de_coin_store_def coin_store_wf_def rd_bind_def stored_coin_codec.de_seq_ser_seq)

section \<open>The wallet file\<close>

datatype wallet_error =
    Http
  | Json
  | ValidatorRejected u16
  | Hex
  | BadLength nat nat \<comment> \<open>expected, got\<close>
  | UnexpectedIndex u16 u16
  | WalletCore core_error
  | WalletMint mint_error
  | WalletRefresh refresh_error
  | WalletClient client_error

record wallet_db =
  wdb_path :: path
  wdb_store :: coin_store

definition WalletDb_open :: "('s, 'p) crypto \<Rightarrow> libs \<Rightarrow> path \<Rightarrow> bytes \<Rightarrow> disk \<Rightarrow> (wallet_db, wallet_error) result" where
  "WalletDb_open C X path master_seed fs =
     (case map_of fs path of
        None \<Rightarrow> Ok \<lparr>wdb_path = path, wdb_store = CoinStore_new\<rparr>
      | Some sealed \<Rightarrow>
          rbind (map_err WalletClient (open_backup C X master_seed sealed)) (\<lambda>plaintext.
          rbind (ok_or (ValidatorRejected 0) (try_from_slice de_coin_store plaintext)) (\<lambda>st.
            Ok \<lparr>wdb_path = path, wdb_store = st\<rparr>)))"

definition WalletDb_save ::
    "('s, 'p) crypto \<Rightarrow> libs \<Rightarrow> ('r, 's) rng \<Rightarrow> disk_fault \<Rightarrow> wallet_db \<Rightarrow> bytes \<Rightarrow> disk \<Rightarrow> 'r
     \<Rightarrow> (unit, wallet_error) result \<times> disk \<times> 'r" where
  "WalletDb_save C X R fault db master_seed fs r =
     (let (sealed_result, r1) = seal_backup C X R master_seed (ser_coin_store (wdb_store db)) r
      in case sealed_result of
           Ok sealed \<Rightarrow>
             (let tmp = tmp_path (wdb_path db)
              in case fault of
                   WriteFault partial \<Rightarrow> (Err (ValidatorRejected 0), hm_insert fs tmp partial, r1)
                 | RenameFault \<Rightarrow> (Err (ValidatorRejected 0), hm_insert fs tmp sealed, r1)
                 | NoFault \<Rightarrow> (Ok (), hm_insert (snd (hm_remove (hm_insert fs tmp sealed) tmp)) (wdb_path db) sealed, r1))
         | Err e \<Rightarrow> (Err (WalletClient e), fs, r1)
         | Panic \<Rightarrow> (Panic, fs, r1))"


section \<open>The store as a map\<close>

text \<open>What the store promises: a finite map from nullifiers to coins.\<close>

definition holdings :: "('s, 'p) crypto \<Rightarrow> coin_store \<Rightarrow> bytes \<Rightarrow> stored_coin option" where
  "holdings C st = map_of (map (\<lambda>c. (StoredCoin_nullifier C c, c)) (cs_coins st))"

definition store_ok :: "('s, 'p) crypto \<Rightarrow> coin_store \<Rightarrow> bool" where
  "store_ok C st \<longleftrightarrow> distinct (map (StoredCoin_nullifier C) (cs_coins st))"

lemma nullifier_status [simp]: "StoredCoin_nullifier C (c\<lparr>sc_status := s\<rparr>) = StoredCoin_nullifier C c"
  by (simp add: StoredCoin_nullifier_def)

lemma set_status_spec:
  "case set_status C n s cs of
     None \<Rightarrow> n \<notin> StoredCoin_nullifier C ` set cs
   | Some cs' \<Rightarrow> map (StoredCoin_nullifier C) cs' = map (StoredCoin_nullifier C) cs \<and>
       (\<exists>c. map_of (map (\<lambda>c. (StoredCoin_nullifier C c, c)) cs) n = Some c \<and>
          map_of (map (\<lambda>c. (StoredCoin_nullifier C c, c)) cs') = (map_of (map (\<lambda>c. (StoredCoin_nullifier C c, c)) cs))(n \<mapsto> c\<lparr>sc_status := s\<rparr>))"
  by (induction cs) (auto split: option.splits simp: fun_eq_iff)

lemma holdings_None: "holdings C st n = None \<longleftrightarrow> n \<notin> StoredCoin_nullifier C ` set (cs_coins st)"
  by (auto simp: holdings_def map_of_eq_None_iff image_iff)

lemma add_spec:
  assumes "store_ok C st" and "CoinStore_add C st c = (out, st')"
  shows "store_ok C st' \<and>
     (if holdings C st (StoredCoin_nullifier C c) = None
      then out = Ok () \<and> holdings C st' = (holdings C st)(StoredCoin_nullifier C c \<mapsto> c)
      else out = Err DuplicateCoin \<and> st' = st)"
proof -
  have ex: "list_ex (\<lambda>c'. StoredCoin_nullifier C c' = StoredCoin_nullifier C c) (cs_coins st) \<longleftrightarrow>
      holdings C st (StoredCoin_nullifier C c) \<noteq> None"
    by (auto simp: holdings_None list_ex_iff image_iff) metis
  show ?thesis
  proof (cases "holdings C st (StoredCoin_nullifier C c)")
    case None
    then have new: "StoredCoin_nullifier C c \<notin> StoredCoin_nullifier C ` set (cs_coins st)" by (simp add: holdings_None)
    then have "map_of (map (\<lambda>c. (StoredCoin_nullifier C c, c)) (cs_coins st @ [c])) = (holdings C st)(StoredCoin_nullifier C c \<mapsto> c)"
      using None by (auto simp: holdings_def fun_eq_iff map_add_def split: option.splits)
    then show ?thesis using assms None ex new by (auto simp: CoinStore_add_def store_ok_def holdings_def Let_def)
  next
    case (Some c')
    then show ?thesis using assms ex by (auto simp: CoinStore_add_def Let_def)
  qed
qed

lemma mark_spec:
  assumes "store_ok C st"
    and "(CoinStore_mark_spent C st n = (out, st') \<and> s = Spent) \<or> (CoinStore_mark_in_flight C st n = (out, st') \<and> s = InFlight)"
  shows "store_ok C st' \<and>
     (case holdings C st n of
        None \<Rightarrow> out = Err CoinNotFound \<and> st' = st
      | Some c \<Rightarrow> out = Ok () \<and> holdings C st' = (holdings C st)(n \<mapsto> c\<lparr>sc_status := s\<rparr>))"
proof (cases "set_status C n s (cs_coins st)")
  case None
  then have "holdings C st n = None" using set_status_spec [where C = C and n = n and s = s and cs = "cs_coins st"] by (simp add: holdings_None)
  then show ?thesis using assms None by (auto simp: CoinStore_mark_spent_def CoinStore_mark_in_flight_def)
next
  case (Some cs')
  then show ?thesis
    using assms set_status_spec [where C = C and n = n and s = s and cs = "cs_coins st"]
    by (auto simp: CoinStore_mark_spent_def CoinStore_mark_in_flight_def store_ok_def holdings_def)
qed

lemma find_active_spec:
  assumes "store_ok C st"
  shows "case find_active st d of
     None \<Rightarrow> \<nexists>n c. holdings C st n = Some c \<and> sc_denom c = d \<and> sc_status c = Active
   | Some c \<Rightarrow> holdings C st (StoredCoin_nullifier C c) = Some c \<and> sc_denom c = d \<and> sc_status c = Active"
proof -
  have member: "holdings C st n = Some c \<longleftrightarrow> c \<in> set (cs_coins st) \<and> n = StoredCoin_nullifier C c" for n c
    using assms unfolding holdings_def store_ok_def by (subst map_of_eq_Some_iff) (auto simp: comp_def)
  show ?thesis by (auto simp: find_active_def member find_None_iff find_Some_iff in_set_conv_nth split: option.splits)
qed

text \<open>A balance is the sum of the denominations as long as that fits into 64 bits.\<close>

lemma sum_denoms_exact:
  assumes "(\<Sum>c\<leftarrow>cs. unat (sc_denom c)) < 2 ^ 64"
  shows "unat (sum_list (map sc_denom cs)) = (\<Sum>c\<leftarrow>cs. unat (sc_denom c))"
  using assms by (induction cs) (simp_all add: unat_word_ariths)


section \<open>Sealing and the wallet file\<close>

definition fill_ok :: "('r, 's) rng \<Rightarrow> bool" where
  "fill_ok R \<longleftrightarrow> (\<forall>n r. length (fst (fill_bytes R n r)) = n)"

lemma backup_roundtrip:
  assumes "libs_ok X" and "hkdf_ok C" and "fill_ok R" and "seal_backup C X R seed plaintext r = (Ok sealed, r')"
  shows "open_backup C X seed sealed = Ok plaintext"
proof -
  obtain nonce c where n: "fill_bytes R BACKUP_NONCE_LEN r = (nonce, r')" and s: "sealed = nonce @ c"
      and c: "aead_encrypt X (derive_backup_key C seed) nonce plaintext = Some c"
    using assms(4) by (auto simp: seal_backup_def Let_def split: prod.splits)
  have len: "length nonce = 12"
    using assms(3) n unfolding fill_ok_def BACKUP_NONCE_LEN_def by (metis fst_conv)
  have "length (derive_backup_key C seed) = 32" using assms(2) by (simp add: derive_backup_key_def hkdf_ok_def)
  from aead_laws [OF assms(1) this len c] len show ?thesis
    by (simp add: open_backup_def s BACKUP_NONCE_LEN_def TAG_LEN_def)
qed

lemma seal_backup_not_panic: "seal_backup C X R seed plaintext r \<noteq> (Panic, r')"
  by (auto simp: seal_backup_def Let_def rbind_eq_Panic split: prod.splits)

lemma WalletDb_save_effect:
  assumes "p_ext (wdb_path db) \<noteq> ''tmp''" and "WalletDb_save C X R fault db seed fs r = (out, fs', r')"
  shows "out \<noteq> Ok () \<Longrightarrow> map_of fs' (wdb_path db) = map_of fs (wdb_path db)"
    and "out = Ok () \<Longrightarrow> \<exists>sealed. seal_backup C X R seed (ser_coin_store (wdb_store db)) r = (Ok sealed, r') \<and>
           map_of fs' (wdb_path db) = Some sealed"
proof -
  have "wdb_path db \<noteq> tmp_path (wdb_path db)" using assms(1) by (auto simp: tmp_path_def dest: arg_cong [of _ _ p_ext])
  then show "out \<noteq> Ok () \<Longrightarrow> map_of fs' (wdb_path db) = map_of fs (wdb_path db)"
    "out = Ok () \<Longrightarrow> \<exists>sealed. seal_backup C X R seed (ser_coin_store (wdb_store db)) r = (Ok sealed, r') \<and>
       map_of fs' (wdb_path db) = Some sealed"
    using assms(2) by (auto simp: WalletDb_save_def Let_def split: prod.splits result.splits disk_fault.splits)
qed

lemma wallet_saved:
  assumes "libs_ok X" and "hkdf_ok C" and "fill_ok R" and "coin_store_wf (wdb_store db)"
    and "p_ext (wdb_path db) \<noteq> ''tmp''" and "WalletDb_save C X R fault db seed fs r = (out, fs', r')"
  shows "WalletDb_open C X (wdb_path db) seed fs' =
     (if out = Ok () then Ok db else WalletDb_open C X (wdb_path db) seed fs)"
proof (cases "out = Ok ()")
  case True
  then obtain sealed where s: "seal_backup C X R seed (ser_coin_store (wdb_store db)) r = (Ok sealed, r')"
      "map_of fs' (wdb_path db) = Some sealed"
    using WalletDb_save_effect(2) [OF assms(5,6)] by blast
  then show ?thesis
    using True backup_roundtrip [OF assms(1-3) s(1)] coin_store_codec.try_from_slice_ser [OF assms(4)]
    by (simp add: WalletDb_open_def)
next
  case False
  then show ?thesis using WalletDb_save_effect(1) [OF assms(5,6)] by (simp add: WalletDb_open_def)
qed

section \<open>Issuance yields a coin of the keyset\<close>

lemma issue_rounds:
  fixes C :: "('s::field, 'p::ab_group_add) crypto"
  assumes ok: "curve_ok C" and req: "issue_request C R joint_pk commit r = Ok ((ch, session), r')"
    and un: "unblind C (iss_user_state session) resp = Ok sig"
    and v: "schnorr_verify C joint_pk (iss_cp_bytes session) sig = Ok True"
  shows "\<exists>coin. issue_finalize C session resp = Ok coin \<and> coin_ok C coin \<and> Coin_verify C coin joint_pk = Ok True \<and>
     coin_pubkey_bytes coin = iss_cp_bytes session"
proof -
  have cp: "iss_cp_bytes session = compress C (mulG C (derive_coin_secret C (iss_seed session)))"
    using req ok by (auto simp: issue_request_def Let_def split: prod.splits)
  let ?coin = "\<lparr>coin_secret = SecretKey (derive_coin_secret C (iss_seed session)), coin_pubkey_bytes = iss_cp_bytes session, coin_signature = sig\<rparr>"
  have "Coin_new C (SecretKey (derive_coin_secret C (iss_seed session))) (iss_cp_bytes session) sig = Ok ?coin"
    by (simp add: Coin_new_Ok cp)
  then have "issue_finalize C session resp = Ok ?coin" using un ok by (simp add: issue_finalize_def)
  then show ?thesis using v by (auto simp: coin_ok_def cp Coin_verify_def)
qed

section \<open>Properties\<close>

text \<open>
  C27. The coin store implements a map from nullifiers to coins: no operation ever lets two coins with
  one nullifier in; adding is refused exactly for a known nullifier, marking exactly for an unknown
  one; what succeeds updates that one entry; and \<open>find_active\<close> returns an active coin of the
  denomination whenever the store holds one.
\<close>

theorem coin_store_refines_map:
  assumes "store_ok C st"
  shows "(let (out, st') = CoinStore_add C st c; n = StoredCoin_nullifier C c in
       store_ok C st' \<and>
       (if holdings C st n = None then out = Ok () \<and> holdings C st' = (holdings C st)(n \<mapsto> c)
        else out = Err DuplicateCoin \<and> st' = st)) \<and>
     (let (out, st') = CoinStore_mark_spent C st n in
       store_ok C st' \<and>
       (case holdings C st n of
          None \<Rightarrow> out = Err CoinNotFound \<and> st' = st
        | Some c \<Rightarrow> out = Ok () \<and> holdings C st' = (holdings C st)(n \<mapsto> c\<lparr>sc_status := Spent\<rparr>))) \<and>
     (let (out, st') = CoinStore_mark_in_flight C st n in
       store_ok C st' \<and>
       (case holdings C st n of
          None \<Rightarrow> out = Err CoinNotFound \<and> st' = st
        | Some c \<Rightarrow> out = Ok () \<and> holdings C st' = (holdings C st)(n \<mapsto> c\<lparr>sc_status := InFlight\<rparr>))) \<and>
     (case find_active st d of
        None \<Rightarrow> \<nexists>n c. holdings C st n = Some c \<and> sc_denom c = d \<and> sc_status c = Active
      | Some c \<Rightarrow> holdings C st (StoredCoin_nullifier C c) = Some c \<and> sc_denom c = d \<and> sc_status c = Active)"
proof -
  obtain o1 s1 where a: "CoinStore_add C st c = (o1, s1)" by force
  obtain o2 s2 where b: "CoinStore_mark_spent C st n = (o2, s2)" by force
  obtain o3 s3 where f: "CoinStore_mark_in_flight C st n = (o3, s3)" by force
  show ?thesis unfolding a b f Let_def prod.case
    by (rule conjI [OF add_spec [OF assms a] conjI [OF mark_spec [OF assms disjI1 [OF conjI [OF b refl]]]
      conjI [OF mark_spec [OF assms disjI2 [OF conjI [OF f refl]]] find_active_spec [OF assms]]]])
qed

theorem coin_store_refines_map_witness:
  "store_ok gf_curve CoinStore_new \<and>
   (\<exists>st'. CoinStore_add gf_curve CoinStore_new \<lparr>sc_secret_bytes = [], sc_pubkey_bytes = [1], sc_signature_bytes = [], sc_denom = 5,
        sc_status = Active, sc_label = None\<rparr> = (Ok (), st') \<and> store_ok gf_curve st')"
proof -
  let ?c = "\<lparr>sc_secret_bytes = [], sc_pubkey_bytes = [1], sc_signature_bytes = [], sc_denom = 5, sc_status = Active, sc_label = None\<rparr>"
  have ok: "store_ok gf_curve CoinStore_new" "holdings gf_curve CoinStore_new = Map.empty"
    by (simp_all add: store_ok_def holdings_def CoinStore_new_def)
  from coin_store_refines_map [OF ok(1), of ?c] ok show ?thesis
    by (cases "CoinStore_add gf_curve CoinStore_new ?c") (simp add: Let_def)
qed

text \<open>
  The wallet file survives a failed save: after a save that reports success the file opens to
  exactly the saved store under the same master seed; after one that fails, at whatever point, it
  opens exactly as before.
\<close>

lemma wallet_save_crash_safe:
  assumes "libs_ok X" and "hkdf_ok C" and "fill_ok R" and "coin_store_wf (wdb_store db)"
    and "p_ext (wdb_path db) \<noteq> ''tmp''" and "WalletDb_save C X R fault db seed fs r = (out, fs', r')"
  shows "WalletDb_open C X (wdb_path db) seed fs' =
     (if out = Ok () then Ok db else WalletDb_open C X (wdb_path db) seed fs)"
  using assms by (rule wallet_saved)

end
