(* ===== verification/System.thy ===== *)
theory System
  imports Validator_Runs Sbf Client
begin

text \<open>
  Where the components meet: the validator's nullifier guard against the program's nullifier account,
  and the life of a coin from key generation to the chain.

  \<open>verify_nullifier_finalized\<close> in \<open>api.rs\<close> reads the account by hand, from the bytes an RPC node
  returns; the lemmas show that it decides membership in exactly the set that the program's handlers
  in \<open>sbf_processor.rs\<close> maintain, also for an account that was created and never written.
\<close>

section \<open>The guard reads the program's set\<close>

lemma chunks_exact32_concat:
  "list_all (\<lambda>n. length n = 32) ns \<Longrightarrow> chunks_exact32 (concat ns) = ns"
  by (induction ns) (subst chunks_exact32.simps; simp)+

lemma length_concat32: "list_all (\<lambda>n. length n = 32) ns \<Longrightarrow> length (concat ns) = length ns * 32"
  by (induction ns) auto

lemma guard_on_set:
  assumes "nullifiers_wf ns"
  shows "verify_nullifier_finalized C (RpcData (ser_nullifiers ns @ pad)) pk = Ok () \<longleftrightarrow> compute_nullifier C pk \<in> set (leaves ns)"
proof -
  let ?ls = "leaves ns"
  have wf: "list_all (\<lambda>n. length n = 32) ?ls" "length ?ls < 2 ^ 32" using assms by (simp_all add: nullifiers_wf_def)
  have n: "unat (word_of_nat (length ?ls) :: u32) = length ?ls"
    using wf(2) by (simp add: unat_of_nat)
  show ?thesis
    unfolding verify_nullifier_finalized_def ser_nullifiers_def ser_seq_def
    by (simp add: n chunks_exact32_concat [OF wf(1)] length_concat32 [OF wf(1)] Let_def compute_nullifier_def
      NULLIFIER_DOMAIN_def list_ex_iff)
qed

lemma guard_on_zeros:
  assumes "list_all (\<lambda>b. b = 0) data"
  shows "verify_nullifier_finalized C (RpcData data) pk \<noteq> Ok ()"
proof -
  have "data = replicate (length data) 0" using assms by (simp add: list_all_iff replicate_length_same)
  then have "take 4 data = replicate 4 0" if "\<not> length data < 4" using that by (metis min.absorb1 not_less take_replicate)
  moreover have "(from_le_bytes (replicate 4 0) :: u32) = 0" by (simp add: numeral_eq_Suc)
  moreover have "chunks_exact32 [] = []" by (subst chunks_exact32.simps) simp
  ultimately show ?thesis by (auto simp: verify_nullifier_finalized_def Let_def)
qed

lemma guard_exact:
  assumes "nullifiers_ok data"
  shows "verify_nullifier_finalized C (RpcData data) pk = Ok () \<longleftrightarrow> compute_nullifier C pk \<in> spent_in data"
proof -
  consider "list_all (\<lambda>b. b = 0) data" | ns pad where "nullifiers_wf ns" "data = ser_nullifiers ns @ pad"
    using assms unfolding nullifiers_ok_def by blast
  then show ?thesis
  proof cases
    case 1
    then show ?thesis using guard_on_zeros [OF 1] by (simp add: spent_in_def load_nullifiers_def NullifierSet_new_def)
  next
    case 2
    then show ?thesis using guard_on_set [OF 2(1)] nullifiers_slot.load_ser [OF 2(1)] by (simp add: spent_in_def)
  qed
qed

section \<open>The life of a coin\<close>

text \<open>What validator \<open>j\<close> receives from its peers in an honest ceremony.\<close>

definition peer_contributions ::
    "(u16 \<Rightarrow> ('s, 'p) dkg_round1_output) \<Rightarrow> u16 \<Rightarrow> u16 \<Rightarrow> ('s, 'p) peer_contribution list" where
  "peer_contributions out n j =
     map (\<lambda>i. \<lparr>pc_broadcast = do_broadcast (out i), pc_share_for_me = do_shares (out i) ! unat (j - 1)\<rparr>)
       (removeAll j (members n))"

lemma coin_issuance:
  fixes C :: "('s::field, 'p::ab_group_add) crypto"
  assumes ok: "curve_ok C" and big: "large_field TYPE('s)"
    and S: "distinct S" "0 \<notin> set S" "length F \<le> length S"
    and pk: "pk = PublicKey (compress C (mulG C (horner_eval_scalar F 0)))"
  shows "\<exists>commit ch session r2 r3 resp coin.
     aggregate_commitments C sid S (map (\<lambda>i. fst (fst (validator_round1 C R sid i (rs i)))) S) = Ok commit \<and>
     issue_request C R pk commit r = Ok ((ch, session), r2) \<and>
     (\<forall>i \<in> set S. partial_sign C (snd (fst (validator_round1 C R sid i (rs i)))) ch
        (SecretKey (horner_eval_scalar F (scalar_from i))) S = Ok (r3 i)) \<and>
     aggregate_responses C sid S (map r3 S) = Ok resp \<and>
     issue_finalize C session resp = Ok coin \<and> coin_ok C coin \<and> Coin_verify C coin pk = Ok True"
proof -
  obtain seed r1 where seed: "fill_bytes R 32 r = (seed, r1)" by force
  let ?cp = "compress C (mulG C (derive_coin_secret C seed))"
  obtain commit ch ust r2 resp sig r3 where run:
    "aggregate_commitments C sid S (map (\<lambda>i. fst (fst (validator_round1 C R sid i (rs i)))) S) = Ok commit"
    "blind_request C R commit pk ?cp r1 = Ok ((ch, ust), r2)"
    "\<forall>i \<in> set S. partial_sign C (snd (fst (validator_round1 C R sid i (rs i)))) ch
        (SecretKey (horner_eval_scalar F (scalar_from i))) S = Ok (r3 i)"
    "aggregate_responses C sid S (map r3 S) = Ok resp"
    and sig: "unblind C ust resp = Ok sig" "schnorr_verify C pk ?cp sig = Ok True"
    using threshold_signing [OF ok big S S(1) refl S(1) refl pk, of sid R rs ?cp r1] by (elim exE conjE) 
  let ?session = "\<lparr>iss_seed = seed, iss_user_state = ust, iss_cp_bytes = ?cp\<rparr>"
  have req: "issue_request C R pk commit r = Ok ((ch, ?session), r2)"
    using run(2) ok by (simp add: issue_request_def seed)
  obtain coin where "issue_finalize C ?session resp = Ok coin" "coin_ok C coin" "Coin_verify C coin pk = Ok True"
    using issue_rounds [OF ok req, of resp sig] sig by auto
  with run(1,3,4) req show ?thesis by blast
qed

section \<open>What the guard does not bind\<close>

text \<open>
  Once past the guard, the melted coin plays no role: two requests that differ only in the coin they
  name get the same answer. Any coin the chain has burnt, however often it was named before and by
  whomever, passes the guard of every session.
\<close>

lemma burnt_coin_serves_every_session:
  assumes "decode_hex32 X (f5_melted_coin_pubkey_hex rq) = Ok pk" and "nullifier_guard C E (app_config app) pk = Ok ()"
    and "decode_hex64 X (f5_melted_coin_signature_hex rq) = Ok sig"
    and "decode_hex32 X pk_hex' = Ok pk'" and "nullifier_guard C E (app_config app) pk' = Ok ()" and "decode_hex64 X sig_hex' = Ok sig'"
  shows "refresh_round5 C X E (rq\<lparr>f5_melted_coin_pubkey_hex := pk_hex', f5_melted_coin_signature_hex := sig_hex'\<rparr>) app =
     refresh_round5 C X E rq app"
  using assms by (simp add: refresh_round5_def validator_refresh_round5_def Let_def cong: if_cong)

section \<open>Properties\<close>




text \<open>
  C3. The life of a coin: after an honest key generation of \<open>n\<close> validators with threshold \<open>t\<close>, all
  validators hold the same joint key; any \<open>t\<close> or more of them issue a coin to a user without any step
  failing; and the program accepts that coin under every keyset registered with the joint key,
  recording the nullifier the wallet computes, unless that nullifier was already spent.
\<close>

theorem coin_life_cycle:
  fixes C :: "('s::field, 'p::ab_group_add) crypto"
  assumes ok: "curve_ok C" and big: "large_field TYPE('s)" and h: "is_torsion_free C h"
    and params: "VssParameters_new n t = Ok params"
    and S: "distinct S" "set S \<subseteq> set (members n)" "unat t \<le> length S"
  shows "\<exists>out rs' fin joint_pk commit ch session r2 r3 resp coin.
     (\<forall>i \<in> set (members n). dkg_start C R cid i params h (rs i) = Ok (out i, rs' i)) \<and>
     (\<forall>j \<in> set (members n). dkg_finalize C (out j) (peer_contributions out n j) h = Ok (fin j) \<and> df_joint_pk (fin j) = joint_pk) \<and>
     aggregate_commitments C sid S (map (\<lambda>i. fst (fst (validator_round1 C R sid i (rs' i)))) S) = Ok commit \<and>
     issue_request C R joint_pk commit r = Ok ((ch, session), r2) \<and>
     (\<forall>i \<in> set S. partial_sign C (snd (fst (validator_round1 C R sid i (rs' i)))) ch (df_my_share (fin i)) S = Ok (r3 i)) \<and>
     aggregate_responses C sid S (map r3 S) = Ok resp \<and>
     issue_finalize C session resp = Ok coin \<and>
     (\<forall>reg ns d e. find_active_for_denom reg d = Some e \<and> ke_joint_pk e = pk_to_bytes joint_pk \<longrightarrow>
        process_refresh C reg ns (Refresh (coin_pubkey_bytes coin) (coin_signature coin) d) =
          (if nullifier C coin \<in> set (leaves ns) then (Err DoubleSpend, ns)
           else (Ok (nullifier C coin), NullifierSet (insort (nullifier C coin) (leaves ns)))))"
proof -
  obtain out rs' and F :: "'s list" where dkg: "length F = unat t"
     "\<forall>i \<in> set (members n). dkg_start C R cid i params h (rs i) = Ok (out i, rs' i)"
     "\<forall>j \<in> set (members n). \<forall>Q. distinct Q \<and> set Q = set (members n) - {j} \<longrightarrow>
        dkg_finalize C (out j)
          (map (\<lambda>i. \<lparr>pc_broadcast = do_broadcast (out i), pc_share_for_me = do_shares (out i) ! unat (j - 1)\<rparr>) Q) h =
        Ok \<lparr>df_my_index = j, df_joint_pk = PublicKey (compress C (mulG C (horner_eval_scalar F 0))),
            df_my_share = SecretKey (horner_eval_scalar F (scalar_from j)), df_qual = members n\<rparr>"
    using dkg_ceremony [OF ok h params, of R cid rs] by (elim exE conjE)
  define pk where "pk = PublicKey (compress C (mulG C (horner_eval_scalar F 0)))"
  define fin where "fin j = \<lparr>df_my_index = j, df_joint_pk = pk, df_my_share = SecretKey (horner_eval_scalar F (scalar_from j)),
     df_qual = members n\<rparr>" for j
  have fin: "\<forall>j \<in> set (members n). dkg_finalize C (out j) (peer_contributions out n j) h = Ok (fin j) \<and> df_joint_pk (fin j) = pk"
  proof
    fix j assume "j \<in> set (members n)"
    moreover have "distinct (removeAll j (members n))" "set (removeAll j (members n)) = set (members n) - {j}"
      by (simp_all add: distinct_removeAll distinct_members)
    ultimately show "dkg_finalize C (out j) (peer_contributions out n j) h = Ok (fin j) \<and> df_joint_pk (fin j) = pk"
      using dkg(3) unfolding peer_contributions_def fin_def pk_def by simp
  qed
  have S': "0 \<notin> set S" "length F \<le> length S" using S(2,3) dkg(1) members_iff [of 0 n] by auto
  obtain commit ch session r2 r3 resp coin where run:
    "aggregate_commitments C sid S (map (\<lambda>i. fst (fst (validator_round1 C R sid i (rs' i)))) S) = Ok commit"
    "issue_request C R pk commit r = Ok ((ch, session), r2)"
    "\<forall>i \<in> set S. partial_sign C (snd (fst (validator_round1 C R sid i (rs' i)))) ch
        (SecretKey (horner_eval_scalar F (scalar_from i))) S = Ok (r3 i)"
    "aggregate_responses C sid S (map r3 S) = Ok resp" "issue_finalize C session resp = Ok coin"
    and coin: "coin_ok C coin" "Coin_verify C coin pk = Ok True"
    using coin_issuance [OF ok big S(1) S' pk_def, of sid R rs' r] by (elim exE conjE)
  have chain: "\<forall>reg ns d e. find_active_for_denom reg d = Some e \<and> ke_joint_pk e = pk_to_bytes pk \<longrightarrow>
        process_refresh C reg ns (Refresh (coin_pubkey_bytes coin) (coin_signature coin) d) =
          (if nullifier C coin \<in> set (leaves ns) then (Err DoubleSpend, ns)
           else (Ok (nullifier C coin), NullifierSet (insort (nullifier C coin) (leaves ns))))"
    using refresh_accepts_valid_coin [OF ok coin(1)] coin(2) ok by (auto simp: pk_def)
  have "\<forall>i \<in> set S. partial_sign C (snd (fst (validator_round1 C R sid i (rs' i)))) ch (df_my_share (fin i)) S = Ok (r3 i)"
    using run(3) by (simp add: fin_def)
  then show ?thesis
    using dkg(2) fin run(1,2,4,5) chain by (intro exI conjI) assumption+
qed


theorem coin_life_cycle_witness:
  "\<exists>out rs' fin joint_pk commit ch session r2 r3 resp coin.
     (\<forall>i \<in> set (members 3). dkg_start gf_curve tape_rng (CeremonyId []) i \<lparr>vp_n = 3, vp_t = 2\<rparr> 7
        [scalar_from i, 2, 3, 4, 5, 6] = Ok (out i, rs' i)) \<and>
     (\<forall>j \<in> set (members 3). dkg_finalize gf_curve (out j) (peer_contributions out 3 j) 7 = Ok (fin j) \<and> df_joint_pk (fin j) = joint_pk) \<and>
     aggregate_commitments gf_curve (SessionId []) [3, 1]
       (map (\<lambda>i. fst (fst (validator_round1 gf_curve tape_rng (SessionId []) i (rs' i)))) [3, 1]) = Ok commit \<and>
     issue_request gf_curve tape_rng joint_pk commit [8, 9] = Ok ((ch, session), r2) \<and>
     (\<forall>i \<in> set [3, 1]. partial_sign gf_curve (snd (fst (validator_round1 gf_curve tape_rng (SessionId []) i (rs' i)))) ch
        (df_my_share (fin i)) [3, 1] = Ok (r3 i)) \<and>
     aggregate_responses gf_curve (SessionId []) [3, 1] (map r3 [3, 1]) = Ok resp \<and>
     issue_finalize gf_curve session resp = Ok coin \<and>
     (\<forall>reg ns d e. find_active_for_denom reg d = Some e \<and> ke_joint_pk e = pk_to_bytes joint_pk \<longrightarrow>
        process_refresh gf_curve reg ns (Refresh (coin_pubkey_bytes coin) (coin_signature coin) d) =
          (if nullifier gf_curve coin \<in> set (leaves ns) then (Err DoubleSpend, ns)
           else (Ok (nullifier gf_curve coin), NullifierSet (insort (nullifier gf_curve coin) (leaves ns)))))"
proof -
  have p: "VssParameters_new 3 2 = Ok \<lparr>vp_n = 3, vp_t = 2\<rparr>" by code_simp
  have m: "set [3, 1] \<subseteq> set (members 3)" by code_simp
  show ?thesis by (rule coin_life_cycle [OF curve_ok_gf large_field_gf gf_curve_simps(1) p _ m]) simp_all
qed

end
