(* ===== verification/Devnet.thy ===== *)
theory Devnet
  imports System
begin

text \<open>
  The transactions that the operator's tool submits to the chain
  (\<open>tardus-cli/src/commands/devnet.rs\<close>): bootstrapping and resizing accounts, registering keysets,
  refreshing and withdrawing coins, the sponsor pool, and the queries.

  The Solana client libraries are a parameter, the record \<open>solana\<close> over an abstract state \<open>'c\<close> of the cluster
  and the local generator: address derivation, key files, random keys, reading accounts and sending a
  transaction. A keypair is an abstract value with a public key; a transaction names its payer, who
  signs. What a command prints is its value, or nothing where it only confirms. Each command queries a
  node for a recent block hash and sends; \<open>submit\<close> is that common end.

  The lemmas show that client and program agree: the refreshes and withdrawals that the tool builds have
  the layout of accounts and data that the handlers of \<open>sbf_processor.rs\<close> accept, and the checks it makes
  before it sends are those that the program makes, so that a withdrawal built on the current ledger is
  accepted. The capacity that the tool reports is compared with the account formats.
\<close>

section \<open>The client libraries\<close>

record account_meta =
  am_pubkey :: pubkey
  am_is_signer :: bool
  am_is_writable :: bool

record sol_instruction =
  sol_program_id :: pubkey
  sol_accounts :: "account_meta list"
  sol_data :: bytes

record 'k transaction =
  tx_instructions :: "sol_instruction list"
  tx_payer :: 'k
  tx_blockhash :: bytes

record ('k, 'c) solana =
  pubkey_from_str :: "string \<Rightarrow> pubkey option"
  read_keypair_file :: "string \<Rightarrow> 'k option"
  keypair_pubkey :: "'k \<Rightarrow> pubkey"
  keypair_new :: "'c \<Rightarrow> 'k \<times> 'c"
  choose_index :: "nat \<Rightarrow> 'c \<Rightarrow> nat \<times> 'c" \<comment> \<open>\<open>SliceRandom::choose\<close>\<close>
  program_address :: "bytes list \<Rightarrow> pubkey \<Rightarrow> pubkey"
  sol_system_program :: pubkey
  sol_ed25519_program :: pubkey
  sol_instructions_sysvar :: pubkey
  system_transfer :: "pubkey \<Rightarrow> pubkey \<Rightarrow> u64 \<Rightarrow> sol_instruction"
  minimum_balance :: "nat \<Rightarrow> u64" \<comment> \<open>\<open>Rent::default()\<close>\<close>
  get_account :: "pubkey \<Rightarrow> 'c \<Rightarrow> account option \<times> 'c"
  get_balance :: "pubkey \<Rightarrow> 'c \<Rightarrow> u64 option \<times> 'c"
  get_latest_blockhash :: "'c \<Rightarrow> bytes option \<times> 'c"
  send_and_confirm :: "'k transaction \<Rightarrow> 'c \<Rightarrow> (string, string) result \<times> 'c" \<comment> \<open>signature, or the text of the error\<close>

datatype devnet_error =
    InvalidHex
  | WrongLength nat nat \<comment> \<open>expected, got\<close>
  | InvalidPubkey
  | ReadKeypair
  | NoSponsorPaths
  | Balance
  | PayerTooPoor
  | MissingAccount
  | BlockhashFailed
  | SendFailed string
  | BorshDeserialize
  | RegistryEmpty
  | NoActiveKeyset u64
  | AlreadySpent
  | VaultUnderfunded u64 u64 \<comment> \<open>held, needed\<close>

definition meta :: "pubkey \<Rightarrow> bool \<Rightarrow> account_meta" where
  "meta key signer = \<lparr>am_pubkey = key, am_is_signer = signer, am_is_writable = True\<rparr>"

definition meta_readonly :: "pubkey \<Rightarrow> bool \<Rightarrow> account_meta" where
  "meta_readonly key signer = \<lparr>am_pubkey = key, am_is_signer = signer, am_is_writable = False\<rparr>"

definition submit ::
    "('k, 'c) solana \<Rightarrow> sol_instruction list \<Rightarrow> 'k \<Rightarrow> 'c \<Rightarrow> (string, devnet_error) result \<times> 'c" where
  "submit S ixs payer c =
     (let (blockhash, c1) = get_latest_blockhash S c
      in or_return (ok_or BlockhashFailed blockhash) c1 (\<lambda>blockhash.
         let (sent, c2) = send_and_confirm S \<lparr>tx_instructions = ixs, tx_payer = payer, tx_blockhash = blockhash\<rparr> c1
         in (map_err SendFailed sent, c2)))"

definition fetch :: "('k, 'c) solana \<Rightarrow> pubkey \<Rightarrow> 'c \<Rightarrow> (account, devnet_error) result \<times> 'c" where
  "fetch S key c = (let (acc, c1) = get_account S key c in (ok_or MissingAccount acc, c1))"

section \<open>Arguments and accounts\<close>

text \<open>Values of the environment variables \<open>SOLANA_KEYPAIR\<close> and \<open>HOME\<close>.\<close>

definition keypair_path :: "string option \<Rightarrow> string option \<Rightarrow> string" where
  "keypair_path solana_keypair home =
     (case solana_keypair of
        Some p \<Rightarrow> p
      | None \<Rightarrow> (case home of Some h \<Rightarrow> h | None \<Rightarrow> ''/'') @ ''/.config/solana/id.json'')"

definition parse_pubkey :: "('k, 'c) solana \<Rightarrow> string \<Rightarrow> (pubkey, devnet_error) result" where
  "parse_pubkey S s = ok_or InvalidPubkey (pubkey_from_str S s)"

definition cli_parse_hex32 :: "libs \<Rightarrow> string \<Rightarrow> (bytes, devnet_error) result" where
  "cli_parse_hex32 X s =
     rbind (ok_or InvalidHex (hex_decode X s)) (\<lambda>b. if length b \<noteq> 32 then Err (WrongLength 32 (length b)) else Ok b)"

definition cli_parse_hex64 :: "libs \<Rightarrow> string \<Rightarrow> (bytes, devnet_error) result" where
  "cli_parse_hex64 X s =
     rbind (ok_or InvalidHex (hex_decode X s)) (\<lambda>b. if length b \<noteq> 64 then Err (WrongLength 64 (length b)) else Ok b)"

definition deserialize_padded :: "'a reader \<Rightarrow> bytes \<Rightarrow> ('a, devnet_error) result" where
  "deserialize_padded r data = ok_or BorshDeserialize (map_option fst (r data))"

definition decode_nullifiers :: "bytes \<Rightarrow> (nullifier_set, devnet_error) result" where
  "decode_nullifiers data =
     (if list_all (\<lambda>b. b = 0) data then Ok NullifierSet_new else deserialize_padded de_nullifiers data)"

text \<open>The environment of the tool: the key file that \<open>keypair_path\<close> names.\<close>

definition default_keypair :: "('k, 'c) solana \<Rightarrow> string \<Rightarrow> ('k, devnet_error) result" where
  "default_keypair S path = ok_or ReadKeypair (read_keypair_file S path)"

fun split_at :: "(char \<Rightarrow> bool) \<Rightarrow> string \<Rightarrow> string \<Rightarrow> string list" where
  "split_at sep acc [] = [rev acc]"
| "split_at sep acc (c # s) = (if sep c then rev acc # split_at sep [] s else split_at sep (c # acc) s)"

definition pick_sponsor_from_pool ::
    "('k, 'c) solana \<Rightarrow> string \<Rightarrow> string \<Rightarrow> 'c \<Rightarrow> ('k, devnet_error) result \<times> 'c" where
  "pick_sponsor_from_pool S path pool_spec c =
     (let trimmed = trim pool_spec
      in if trimmed = [] then (default_keypair S path, c)
         else
           (let paths = filter (\<lambda>s. s \<noteq> []) (map trim (split_at (\<lambda>ch. ch = CHR '','' \<or> ch = CHR '':'') [] trimmed))
            in if paths = [] then (Err NoSponsorPaths, c)
               else (let (i, c1) = choose_index S (length paths) c
                     in (ok_or ReadKeypair (read_keypair_file S (paths ! (i mod length paths))), c1))))"

definition EPHEMERAL_PAYER_LAMPORTS :: u64 where
  "EPHEMERAL_PAYER_LAMPORTS = 1000000"

section \<open>Instructions the tool builds\<close>

definition build_ed25519_precompile_data :: "signature \<Rightarrow> bytes \<Rightarrow> bytes \<Rightarrow> bytes" where
  "build_ed25519_precompile_data sig pk msg =
     [1, 0] @ to_le_bytes 2 (16 :: u16) @ to_le_bytes 2 (- 1 :: u16) @ to_le_bytes 2 (80 :: u16) @ to_le_bytes 2 (- 1 :: u16) @
     to_le_bytes 2 (112 :: u16) @ to_le_bytes 2 (32 :: u16) @ to_le_bytes 2 (- 1 :: u16) @ sig_r sig @ sig_s sig @ pk @ msg"

definition precompile_ix :: "('k, 'c) solana \<Rightarrow> signature \<Rightarrow> bytes \<Rightarrow> bytes \<Rightarrow> sol_instruction" where
  "precompile_ix S sig pk msg =
     \<lparr>sol_program_id = sol_ed25519_program S, sol_accounts = [], sol_data = build_ed25519_precompile_data sig pk msg\<rparr>"

definition sponsor_payout_ix :: "('k, 'c) solana \<Rightarrow> pubkey \<Rightarrow> pubkey \<Rightarrow> u64 \<Rightarrow> pubkey \<Rightarrow> sol_instruction" where
  "sponsor_payout_ix S program_id caller lamports recipient =
     \<lparr>sol_program_id = program_id,
      sol_accounts = [meta caller True, meta (program_address S sponsor_pool_seeds program_id) False, meta recipient False,
        meta_readonly (sol_system_program S) False],
      sol_data = ser_instruction (SponsorPayout lamports recipient)\<rparr>"

definition bootstrap_ix :: "('k, 'c) solana \<Rightarrow> pubkey \<Rightarrow> pubkey \<Rightarrow> bytes list \<Rightarrow> bootstrap_kind \<Rightarrow> u32 \<Rightarrow> u64 \<Rightarrow> sol_instruction" where
  "bootstrap_ix S program_id payer seeds kind alloc_size denom =
     \<lparr>sol_program_id = program_id,
      sol_accounts = [meta payer True, meta (program_address S seeds program_id) False, meta_readonly (sol_system_program S) False],
      sol_data = ser_instruction (Bootstrap kind alloc_size denom)\<rparr>"

definition register_keyset_ix :: "('k, 'c) solana \<Rightarrow> pubkey \<Rightarrow> pubkey \<Rightarrow> bytes \<Rightarrow> u64 \<Rightarrow> u64 \<Rightarrow> sol_instruction" where
  "register_keyset_ix S program_id payer joint_pk denom epoch =
     \<lparr>sol_program_id = program_id,
      sol_accounts = [meta payer True, meta (program_address S keyset_registry_seeds program_id) False],
      sol_data = ser_instruction (RegisterKeyset (2 # joint_pk) denom joint_pk epoch [])\<rparr>"

definition refresh_ix :: "('k, 'c) solana \<Rightarrow> pubkey \<Rightarrow> pubkey \<Rightarrow> bytes \<Rightarrow> signature \<Rightarrow> u64 \<Rightarrow> sol_instruction" where
  "refresh_ix S program_id payer coin_pk coin_sig denom =
     \<lparr>sol_program_id = program_id,
      sol_accounts = [meta payer True, meta_readonly (program_address S keyset_registry_seeds program_id) False,
        meta (program_address S nullifier_tree_seeds program_id) False, meta_readonly (sol_instructions_sysvar S) False],
      sol_data = ser_instruction (Refresh coin_pk coin_sig denom)\<rparr>"

definition withdraw_ix :: "('k, 'c) solana \<Rightarrow> pubkey \<Rightarrow> pubkey \<Rightarrow> bytes \<Rightarrow> signature \<Rightarrow> u64 \<Rightarrow> pubkey \<Rightarrow> sol_instruction" where
  "withdraw_ix S program_id payer coin_pk coin_sig denom recipient =
     \<lparr>sol_program_id = program_id,
      sol_accounts = [meta payer True, meta_readonly (program_address S keyset_registry_seeds program_id) False,
        meta (program_address S (vault_seeds denom) program_id) False, meta (program_address S nullifier_tree_seeds program_id) False,
        meta recipient False, meta_readonly (sol_system_program S) False, meta_readonly (sol_instructions_sysvar S) False],
      sol_data = ser_instruction (Withdraw coin_pk coin_sig denom recipient)\<rparr>"

definition resize_ix :: "('k, 'c) solana \<Rightarrow> pubkey \<Rightarrow> pubkey \<Rightarrow> bytes list \<Rightarrow> bootstrap_kind \<Rightarrow> u32 \<Rightarrow> sol_instruction" where
  "resize_ix S program_id payer seeds kind new_size =
     \<lparr>sol_program_id = program_id,
      sol_accounts = [meta payer True, meta (program_address S seeds program_id) False, meta_readonly (sol_system_program S) False],
      sol_data = ser_instruction (ResizeAccount kind new_size 0)\<rparr>"

definition sponsor_deposit_ix :: "('k, 'c) solana \<Rightarrow> pubkey \<Rightarrow> pubkey \<Rightarrow> u64 \<Rightarrow> sol_instruction" where
  "sponsor_deposit_ix S program_id payer amount =
     \<lparr>sol_program_id = program_id,
      sol_accounts = [meta payer True, meta (program_address S sponsor_pool_seeds program_id) False, meta_readonly (sol_system_program S) False],
      sol_data = ser_instruction (SponsorDeposit amount)\<rparr>"

section \<open>Payers\<close>

definition ephemeral_payer_from_pool ::
    "('k, 'c) solana \<Rightarrow> 'k \<Rightarrow> pubkey \<Rightarrow> u64 \<Rightarrow> 'c \<Rightarrow> ('k, devnet_error) result \<times> 'c" where
  "ephemeral_payer_from_pool S pool_caller program_id lamports c =
     (let (ephemeral, c1) = keypair_new S c;
          (sent, c2) = submit S [sponsor_payout_ix S program_id (keypair_pubkey S pool_caller) lamports (keypair_pubkey S ephemeral)] pool_caller c1
      in or_return sent c2 (\<lambda>_. (Ok ephemeral, c2)))"

definition ephemeral_payer_from_sponsor ::
    "('k, 'c) solana \<Rightarrow> 'k \<Rightarrow> u64 \<Rightarrow> 'c \<Rightarrow> ('k, devnet_error) result \<times> 'c" where
  "ephemeral_payer_from_sponsor S sponsor lamports c =
     (let (ephemeral, c1) = keypair_new S c;
          (sent, c2) = submit S [system_transfer S (keypair_pubkey S sponsor) (keypair_pubkey S ephemeral) lamports] sponsor c1
      in or_return sent c2 (\<lambda>_. (Ok ephemeral, c2)))"

text \<open>The payer of a refresh: a fresh key funded by the pool on chain or by the sponsor, or the sponsor itself.\<close>

definition refresh_payer ::
    "('k, 'c) solana \<Rightarrow> string \<Rightarrow> pubkey \<Rightarrow> 'k \<Rightarrow> bool \<Rightarrow> string \<Rightarrow> bool \<Rightarrow> 'c \<Rightarrow> ('k, devnet_error) result \<times> 'c" where
  "refresh_payer S path program_id sponsor use_ephemeral_payer sponsor_pool_spec use_onchain_pool c =
     (if use_onchain_pool then
        (let (pool_caller, c1) = (if trim sponsor_pool_spec = [] then (Ok sponsor, c) else pick_sponsor_from_pool S path sponsor_pool_spec c)
         in or_return pool_caller c1 (\<lambda>pool_caller. ephemeral_payer_from_pool S pool_caller program_id EPHEMERAL_PAYER_LAMPORTS c1))
      else if use_ephemeral_payer then ephemeral_payer_from_sponsor S sponsor EPHEMERAL_PAYER_LAMPORTS c
      else (Ok sponsor, c))"

text \<open>The payer of a withdrawal: here the pool on chain is used only together with a fresh key.\<close>

definition withdraw_payer :: "('k, 'c) solana \<Rightarrow> pubkey \<Rightarrow> 'k \<Rightarrow> bool \<Rightarrow> bool \<Rightarrow> 'c \<Rightarrow> ('k, devnet_error) result \<times> 'c" where
  "withdraw_payer S program_id sponsor use_ephemeral_payer use_onchain_pool c =
     (if use_ephemeral_payer then
        if use_onchain_pool then ephemeral_payer_from_pool S sponsor program_id EPHEMERAL_PAYER_LAMPORTS c
        else ephemeral_payer_from_sponsor S sponsor EPHEMERAL_PAYER_LAMPORTS c
      else (Ok sponsor, c))"

section \<open>Refresh and withdrawal\<close>

text \<open>The transaction's signature and the coin's nullifier are what a spending command prints.\<close>

definition devnet_refresh_full ::
    "('s, 'p) crypto \<Rightarrow> libs \<Rightarrow> ('k, 'c) solana \<Rightarrow> string \<Rightarrow> string \<Rightarrow> string \<Rightarrow> u64 \<Rightarrow> string \<Rightarrow> bool \<Rightarrow> string \<Rightarrow> bool \<Rightarrow> 'c
     \<Rightarrow> (string \<times> bytes, devnet_error) result \<times> 'c" where
  "devnet_refresh_full C X S path coin_pubkey_hex coin_signature_hex denom program_id_b58 use_ephemeral_payer sponsor_pool_spec use_onchain_pool c =
     or_return (cli_parse_hex32 X coin_pubkey_hex) c (\<lambda>coin_pk.
     or_return (cli_parse_hex64 X coin_signature_hex) c (\<lambda>sig_bytes.
     let coin_sig = Signature_from_bytes sig_bytes
     in or_return (parse_pubkey S program_id_b58) c (\<lambda>program_id.
     case pick_sponsor_from_pool S path sponsor_pool_spec c of (sponsor, c1) \<Rightarrow>
     or_return sponsor c1 (\<lambda>sponsor.
     case refresh_payer S path program_id sponsor use_ephemeral_payer sponsor_pool_spec use_onchain_pool c1 of (payer, c2) \<Rightarrow>
     or_return payer c2 (\<lambda>payer.
     case fetch S (program_address S keyset_registry_seeds program_id) c2 of (registry_account, c3) \<Rightarrow>
     or_return registry_account c3 (\<lambda>registry_account.
     if list_all (\<lambda>b. b = 0) (ac_data registry_account) then (Err RegistryEmpty, c3)
     else
       or_return (deserialize_padded de_registry (ac_data registry_account)) c3 (\<lambda>registry.
       or_return (ok_or (NoActiveKeyset denom) (find_active_for_denom registry denom)) c3 (\<lambda>entry.
       let nullifier = compute_nullifier C coin_pk
       in case fetch S (program_address S nullifier_tree_seeds program_id) c3 of (nullifier_account, c4) \<Rightarrow>
          or_return nullifier_account c4 (\<lambda>nullifier_account.
          or_return (decode_nullifiers (ac_data nullifier_account)) c4 (\<lambda>nullifiers.
          if NullifierSet_contains nullifiers nullifier then (Err AlreadySpent, c4)
          else
            (case submit S [precompile_ix S coin_sig (ke_joint_pk entry) coin_pk,
                 refresh_ix S program_id (keypair_pubkey S payer) coin_pk coin_sig denom] payer c4 of (sent, c5) \<Rightarrow>
             or_return sent c5 (\<lambda>sig. (Ok (sig, nullifier), c5)))))))))))))"

definition devnet_refresh_with_sponsor_pool ::
    "('s, 'p) crypto \<Rightarrow> libs \<Rightarrow> ('k, 'c) solana \<Rightarrow> string \<Rightarrow> string \<Rightarrow> string \<Rightarrow> u64 \<Rightarrow> string \<Rightarrow> bool \<Rightarrow> string \<Rightarrow> 'c
     \<Rightarrow> (string \<times> bytes, devnet_error) result \<times> 'c" where
  "devnet_refresh_with_sponsor_pool C X S path coin_pubkey_hex coin_signature_hex denom program_id_b58 use_ephemeral_payer sponsor_pool_spec =
     devnet_refresh_full C X S path coin_pubkey_hex coin_signature_hex denom program_id_b58 use_ephemeral_payer sponsor_pool_spec False"

definition devnet_refresh_with_payer_option ::
    "('s, 'p) crypto \<Rightarrow> libs \<Rightarrow> ('k, 'c) solana \<Rightarrow> string \<Rightarrow> string \<Rightarrow> string \<Rightarrow> u64 \<Rightarrow> string \<Rightarrow> bool \<Rightarrow> 'c
     \<Rightarrow> (string \<times> bytes, devnet_error) result \<times> 'c" where
  "devnet_refresh_with_payer_option C X S path coin_pubkey_hex coin_signature_hex denom program_id_b58 use_ephemeral_payer =
     devnet_refresh_with_sponsor_pool C X S path coin_pubkey_hex coin_signature_hex denom program_id_b58 use_ephemeral_payer []"

definition devnet_refresh ::
    "('s, 'p) crypto \<Rightarrow> libs \<Rightarrow> ('k, 'c) solana \<Rightarrow> string \<Rightarrow> string \<Rightarrow> string \<Rightarrow> u64 \<Rightarrow> string \<Rightarrow> 'c
     \<Rightarrow> (string \<times> bytes, devnet_error) result \<times> 'c" where
  "devnet_refresh C X S path coin_pubkey_hex coin_signature_hex denom program_id_b58 =
     devnet_refresh_with_payer_option C X S path coin_pubkey_hex coin_signature_hex denom program_id_b58 False"

text \<open>
  A withdrawal with parsed arguments. The tool and the wallet's window (\<open>withdraw_on_devnet\<close>) perform
  the same steps from here on.
\<close>

definition withdraw_coin ::
    "('s, 'p) crypto \<Rightarrow> ('k, 'c) solana \<Rightarrow> pubkey \<Rightarrow> bytes \<Rightarrow> signature \<Rightarrow> u64 \<Rightarrow> pubkey \<Rightarrow> 'k \<Rightarrow> bool \<Rightarrow> bool \<Rightarrow> 'c
     \<Rightarrow> (string \<times> bytes, devnet_error) result \<times> 'c" where
  "withdraw_coin C S program_id coin_pk coin_sig denom recipient sponsor use_ephemeral_payer use_onchain_pool c =
     (case withdraw_payer S program_id sponsor use_ephemeral_payer use_onchain_pool c of (payer, c1) \<Rightarrow>
      or_return payer c1 (\<lambda>payer.
      case fetch S (program_address S keyset_registry_seeds program_id) c1 of (registry_account, c2) \<Rightarrow>
      or_return registry_account c2 (\<lambda>registry_account.
      or_return (deserialize_padded de_registry (ac_data registry_account)) c2 (\<lambda>registry.
      or_return (ok_or (NoActiveKeyset denom) (find_active_for_denom registry denom)) c2 (\<lambda>entry.
      let nullifier = compute_nullifier C coin_pk
      in case fetch S (program_address S nullifier_tree_seeds program_id) c2 of (nullifier_account, c3) \<Rightarrow>
         or_return nullifier_account c3 (\<lambda>nullifier_account.
         or_return (decode_nullifiers (ac_data nullifier_account)) c3 (\<lambda>nullifiers.
         if NullifierSet_contains nullifiers nullifier then (Err AlreadySpent, c3)
         else
           (case fetch S (program_address S (vault_seeds denom) program_id) c3 of (vault_account, c4) \<Rightarrow>
            or_return vault_account c4 (\<lambda>vault_account.
            if ac_lamports vault_account < denom then (Err (VaultUnderfunded (ac_lamports vault_account) denom), c4)
            else
              (case submit S [precompile_ix S coin_sig (ke_joint_pk entry) coin_pk,
                   withdraw_ix S program_id (keypair_pubkey S payer) coin_pk coin_sig denom recipient] payer c4 of (sent, c5) \<Rightarrow>
               or_return sent c5 (\<lambda>sig. (Ok (sig, nullifier), c5))))))))))))"

definition devnet_withdraw ::
    "('s, 'p) crypto \<Rightarrow> libs \<Rightarrow> ('k, 'c) solana \<Rightarrow> string \<Rightarrow> string \<Rightarrow> string \<Rightarrow> u64 \<Rightarrow> string \<Rightarrow> string \<Rightarrow> bool \<Rightarrow> bool \<Rightarrow> 'c
     \<Rightarrow> (string \<times> bytes, devnet_error) result \<times> 'c" where
  "devnet_withdraw C X S path coin_pubkey_hex coin_signature_hex denom recipient_b58 program_id_b58 use_ephemeral_payer use_onchain_pool c =
     or_return (cli_parse_hex32 X coin_pubkey_hex) c (\<lambda>coin_pk.
     or_return (cli_parse_hex64 X coin_signature_hex) c (\<lambda>sig_bytes.
     or_return (parse_pubkey S program_id_b58) c (\<lambda>program_id.
     or_return (parse_pubkey S recipient_b58) c (\<lambda>recipient.
     or_return (default_keypair S path) c (\<lambda>sponsor.
       withdraw_coin C S program_id coin_pk (Signature_from_bytes sig_bytes) denom recipient sponsor use_ephemeral_payer use_onchain_pool c)))))"

section \<open>Setting up and resizing accounts\<close>

definition REGISTRY_SIZE :: u32 where
  "REGISTRY_SIZE = 1024"

definition NULLIFIER_SIZE :: u32 where
  "NULLIFIER_SIZE = 8192"

text \<open>The loop over the two accounts: \<open>None\<close> for an account that is present already, else the transaction's signature.\<close>

fun bootstrap_each ::
    "('k, 'c) solana \<Rightarrow> pubkey \<Rightarrow> 'k \<Rightarrow> (bytes list \<times> bootstrap_kind \<times> u32) list \<Rightarrow> 'c \<Rightarrow> (string option list, devnet_error) result \<times> 'c" where
  "bootstrap_each S program_id payer [] c = (Ok [], c)"
| "bootstrap_each S program_id payer ((seeds, kind, alloc) # targets) c =
     (case fetch S (program_address S seeds program_id) c of (present, c1) \<Rightarrow>
      case (case present of
              Ok _ \<Rightarrow> (Ok None, c1)
            | _ \<Rightarrow> (case submit S [bootstrap_ix S program_id (keypair_pubkey S payer) seeds kind alloc 0] payer c1 of (sent, c2) \<Rightarrow>
                    or_return sent c2 (\<lambda>sig. (Ok (Some sig), c2)))) of (res, c3) \<Rightarrow>
      or_return res c3 (\<lambda>sig.
      case bootstrap_each S program_id payer targets c3 of (rest, c4) \<Rightarrow>
      or_return rest c4 (\<lambda>sigs. (Ok (sig # sigs), c4))))"

definition devnet_bootstrap_singletons ::
    "('k, 'c) solana \<Rightarrow> string \<Rightarrow> string \<Rightarrow> 'c \<Rightarrow> (string option list, devnet_error) result \<times> 'c" where
  "devnet_bootstrap_singletons S path program_id_b58 c =
     or_return (parse_pubkey S program_id_b58) c (\<lambda>program_id.
     or_return (default_keypair S path) c (\<lambda>payer.
     case get_balance S (keypair_pubkey S payer) c of (balance, c1) \<Rightarrow>
     or_return (ok_or Balance balance) c1 (\<lambda>balance.
     if balance < 50000000 then (Err PayerTooPoor, c1)
     else bootstrap_each S program_id payer
            [(keyset_registry_seeds, BKeysetRegistry, REGISTRY_SIZE), (nullifier_tree_seeds, BNullifierTree, NULLIFIER_SIZE)] c1)))"

definition devnet_bootstrap_vault ::
    "('k, 'c) solana \<Rightarrow> string \<Rightarrow> u64 \<Rightarrow> string \<Rightarrow> 'c \<Rightarrow> (string option, devnet_error) result \<times> 'c" where
  "devnet_bootstrap_vault S path denom program_id_b58 c =
     or_return (parse_pubkey S program_id_b58) c (\<lambda>program_id.
     or_return (default_keypair S path) c (\<lambda>payer.
     case fetch S (program_address S (vault_seeds denom) program_id) c of (present, c1) \<Rightarrow>
     case present of
       Ok _ \<Rightarrow> (Ok None, c1)
     | _ \<Rightarrow> (case submit S [bootstrap_ix S program_id (keypair_pubkey S payer) (vault_seeds denom) BVault 0 denom] payer c1 of (sent, c2) \<Rightarrow>
             or_return sent c2 (\<lambda>sig. (Ok (Some sig), c2)))))"

definition devnet_register_keyset ::
    "libs \<Rightarrow> ('k, 'c) solana \<Rightarrow> string \<Rightarrow> string \<Rightarrow> u64 \<Rightarrow> u64 \<Rightarrow> string \<Rightarrow> 'c \<Rightarrow> (string, devnet_error) result \<times> 'c" where
  "devnet_register_keyset X S path joint_pk_hex denom epoch program_id_b58 c =
     or_return (cli_parse_hex32 X joint_pk_hex) c (\<lambda>joint_pk.
     or_return (parse_pubkey S program_id_b58) c (\<lambda>program_id.
     or_return (default_keypair S path) c (\<lambda>payer.
       submit S [register_keyset_ix S program_id (keypair_pubkey S payer) joint_pk denom epoch] payer c)))"

text \<open>Both resize commands: top up the rent where it is short, then grow the account, in one transaction.\<close>

definition resize_pda ::
    "('k, 'c) solana \<Rightarrow> string \<Rightarrow> bytes list \<Rightarrow> bootstrap_kind \<Rightarrow> u32 \<Rightarrow> string \<Rightarrow> 'c \<Rightarrow> (string, devnet_error) result \<times> 'c" where
  "resize_pda S path seeds kind new_size program_id_b58 c =
     or_return (parse_pubkey S program_id_b58) c (\<lambda>program_id.
     or_return (default_keypair S path) c (\<lambda>payer.
     let target = program_address S seeds program_id
     in case fetch S target c of (acc, c1) \<Rightarrow>
        or_return acc c1 (\<lambda>acc.
        let topup = saturating_sub (minimum_balance S (unat new_size)) (ac_lamports acc)
        in submit S ((if topup > 0 then [system_transfer S (keypair_pubkey S payer) target topup] else []) @
             [resize_ix S program_id (keypair_pubkey S payer) seeds kind new_size]) payer c1)))"

definition devnet_resize_registry ::
    "('k, 'c) solana \<Rightarrow> string \<Rightarrow> u32 \<Rightarrow> string \<Rightarrow> 'c \<Rightarrow> (string, devnet_error) result \<times> 'c" where
  "devnet_resize_registry S path = resize_pda S path keyset_registry_seeds BKeysetRegistry"

definition devnet_resize_nullifier_tree ::
    "('k, 'c) solana \<Rightarrow> string \<Rightarrow> u32 \<Rightarrow> string \<Rightarrow> 'c \<Rightarrow> (string, devnet_error) result \<times> 'c" where
  "devnet_resize_nullifier_tree S path = resize_pda S path nullifier_tree_seeds BNullifierTree"

section \<open>The sponsor pool\<close>

definition devnet_sponsor_bootstrap ::
    "('k, 'c) solana \<Rightarrow> string \<Rightarrow> string \<Rightarrow> 'c \<Rightarrow> (string option, devnet_error) result \<times> 'c" where
  "devnet_sponsor_bootstrap S path program_id_b58 c =
     or_return (parse_pubkey S program_id_b58) c (\<lambda>program_id.
     or_return (default_keypair S path) c (\<lambda>payer.
     case submit S [bootstrap_ix S program_id (keypair_pubkey S payer) sponsor_pool_seeds BSponsorPool 32 0] payer c of (sent, c1) \<Rightarrow>
     (case sent of
        Ok sig \<Rightarrow> Ok (Some sig)
      | Err (SendFailed s) \<Rightarrow>
          if str_contains ''custom program error'' s \<and> str_contains ''0xf'' s then Ok None else Err (SendFailed s)
      | Err e \<Rightarrow> Err e
      | Panic \<Rightarrow> Panic, c1)))"

definition devnet_sponsor_deposit ::
    "('k, 'c) solana \<Rightarrow> string \<Rightarrow> u64 \<Rightarrow> string \<Rightarrow> 'c \<Rightarrow> (string, devnet_error) result \<times> 'c" where
  "devnet_sponsor_deposit S path amount program_id_b58 c =
     or_return (parse_pubkey S program_id_b58) c (\<lambda>program_id.
     or_return (default_keypair S path) c (\<lambda>payer.
       submit S [system_transfer S (keypair_pubkey S payer) (program_address S sponsor_pool_seeds program_id) amount,
         sponsor_deposit_ix S program_id (keypair_pubkey S payer) amount] payer c))"

definition devnet_sponsor_payout ::
    "('k, 'c) solana \<Rightarrow> string \<Rightarrow> u64 \<Rightarrow> string \<Rightarrow> string \<Rightarrow> 'c \<Rightarrow> (string, devnet_error) result \<times> 'c" where
  "devnet_sponsor_payout S path lamports recipient_b58 program_id_b58 c =
     or_return (parse_pubkey S program_id_b58) c (\<lambda>program_id.
     or_return (parse_pubkey S recipient_b58) c (\<lambda>recipient.
     or_return (default_keypair S path) c (\<lambda>payer.
       submit S [sponsor_payout_ix S program_id (keypair_pubkey S payer) lamports recipient] payer c)))"

section \<open>Queries\<close>

text \<open>Whether the coin is spent, and the number of nullifiers on chain.\<close>

definition devnet_query_nullifier ::
    "('s, 'p) crypto \<Rightarrow> libs \<Rightarrow> ('k, 'c) solana \<Rightarrow> string \<Rightarrow> string \<Rightarrow> 'c \<Rightarrow> (bytes \<times> bool \<times> nat, devnet_error) result \<times> 'c" where
  "devnet_query_nullifier C X S coin_pubkey_hex program_id_b58 c =
     or_return (cli_parse_hex32 X coin_pubkey_hex) c (\<lambda>coin_pk.
     or_return (parse_pubkey S program_id_b58) c (\<lambda>program_id.
     case fetch S (program_address S nullifier_tree_seeds program_id) c of (acc, c1) \<Rightarrow>
     or_return acc c1 (\<lambda>acc.
     or_return (decode_nullifiers (ac_data acc)) c1 (\<lambda>ns.
     let expected = compute_nullifier C coin_pk
     in (Ok (expected, NullifierSet_contains ns expected, NullifierSet_len ns), c1)))))"

text \<open>The contents of an account as \<open>info\<close> shows them.\<close>

datatype 'a contents = EmptyAccount | Undecodable | Decoded 'a

definition show_account :: "'a reader \<Rightarrow> account option \<Rightarrow> (nat \<times> 'a contents) option" where
  "show_account r acc =
     map_option (\<lambda>acc. (length (ac_data acc),
       if list_all (\<lambda>b. b = 0) (ac_data acc) then EmptyAccount
       else case deserialize_padded r (ac_data acc) of Ok x \<Rightarrow> Decoded x | _ \<Rightarrow> Undecodable)) acc"

definition devnet_info ::
    "('k, 'c) solana \<Rightarrow> string \<Rightarrow> 'c
     \<Rightarrow> (account \<times> (nat \<times> keyset_registry contents) option \<times> (nat \<times> nullifier_set contents) option, devnet_error) result \<times> 'c" where
  "devnet_info S program_id_b58 c =
     or_return (parse_pubkey S program_id_b58) c (\<lambda>program_id.
     case fetch S program_id c of (prog_account, c1) \<Rightarrow>
     or_return prog_account c1 (\<lambda>prog_account.
     case get_account S (program_address S keyset_registry_seeds program_id) c1 of (registry_account, c2) \<Rightarrow>
     case get_account S (program_address S nullifier_tree_seeds program_id) c2 of (nullifier_account, c3) \<Rightarrow>
       (Ok (prog_account, show_account de_registry registry_account, show_account de_nullifiers nullifier_account), c3)))"

text \<open>
  Entries, estimated capacity and size of the two state accounts, and balance, drainable and locked
  lamports of the pool. Sizes are machine words; a release build wraps at the subtraction.
\<close>

definition account_load :: "'a reader \<Rightarrow> 'a \<Rightarrow> ('a \<Rightarrow> nat) \<Rightarrow> u64 \<Rightarrow> account \<Rightarrow> nat \<times> u64 \<times> nat" where
  "account_load r new len bytes_per_entry acc =
     (let data = ac_data acc;
          x = (if list_all (\<lambda>b. b = 0) data then new else case deserialize_padded r data of Ok x \<Rightarrow> x | _ \<Rightarrow> new)
      in (len x, (word_of_nat (length data) - 4) div bytes_per_entry, length data))"

definition registry_load :: "account \<Rightarrow> nat \<times> u64 \<times> nat" where
  "registry_load = account_load de_registry KeysetRegistry_new (\<lambda>reg. length (kr_entries reg)) 82"

definition nullifier_load :: "account \<Rightarrow> nat \<times> u64 \<times> nat" where
  "nullifier_load = account_load de_nullifiers NullifierSet_new NullifierSet_len (32 + 10)"

definition pool_load :: "('k, 'c) solana \<Rightarrow> account \<Rightarrow> u64 \<times> u64 \<times> u64" where
  "pool_load S acc =
     (let rent_exempt = minimum_balance S (length (ac_data acc))
      in (ac_lamports acc, saturating_sub (ac_lamports acc) rent_exempt, rent_exempt))"

definition devnet_capacity ::
    "('k, 'c) solana \<Rightarrow> string \<Rightarrow> 'c
     \<Rightarrow> ((nat \<times> u64 \<times> nat) option \<times> (nat \<times> u64 \<times> nat) option \<times> (u64 \<times> u64 \<times> u64) option, devnet_error) result \<times> 'c" where
  "devnet_capacity S program_id_b58 c =
     or_return (parse_pubkey S program_id_b58) c (\<lambda>program_id.
     case get_account S (program_address S keyset_registry_seeds program_id) c of (reg, c1) \<Rightarrow>
     case get_account S (program_address S nullifier_tree_seeds program_id) c1 of (nul, c2) \<Rightarrow>
     case get_account S (program_address S sponsor_pool_seeds program_id) c2 of (pool, c3) \<Rightarrow>
       (Ok (map_option registry_load reg, map_option nullifier_load nul, map_option (pool_load S) pool), c3))"

section \<open>What the tool relies on in the cluster\<close>

definition as_account :: "account_meta \<Rightarrow> account_info" where
  "as_account m = \<lparr>ai_key = am_pubkey m, ai_is_signer = am_is_signer m\<rparr>"

text \<open>The instructions account shows a program the instruction that precedes its own.\<close>

definition shows_before :: "runtime \<Rightarrow> pubkey \<Rightarrow> sol_instruction \<Rightarrow> ledger \<Rightarrow> bool" where
  "shows_before rt key pre L \<longleftrightarrow>
     load_current_index_checked rt key (ac_data (L key)) = Ok 1 \<and>
     load_instruction_at_checked rt 0 key (ac_data (L key)) = Ok \<lparr>si_program_id = sol_program_id pre, si_data = sol_data pre\<rparr>"

text \<open>Data that the signature precompile accepts: the encoding of a key, a message and a signature that verifies.\<close>

definition precompile_valid :: "('s, 'p::ab_group_add) crypto \<Rightarrow> bytes \<Rightarrow> bool" where
  "precompile_valid C data \<longleftrightarrow>
     (\<exists>pk msg sig. data = precompile_payload pk msg sig \<and> length pk = 32 \<and> sig_wf sig \<and> schnorr_verify C (PublicKey pk) msg sig = Ok True)"

text \<open>
  Documented behaviour of a reachable cluster whose ledger in state \<open>c\<close> is \<open>obs c\<close>: client and program
  derive the same addresses; an account exists if it holds lamports; reading changes nothing; and a
  transaction of a valid precompile instruction and an instruction of the program, whose payer can
  pay for two signatures, runs the program on the ledger, in which only the payer's account and the
  instructions account may differ from before. It is committed if the program succeeds, and otherwise
  leaves all accounts but the payer's as they were.
\<close>

definition commits :: "('k, 'c) solana \<Rightarrow> ('c \<Rightarrow> ledger) \<Rightarrow> 'k transaction \<Rightarrow> 'c \<Rightarrow> ledger \<Rightarrow> bool" where
  "commits S obs tx c L' \<longleftrightarrow>
     (\<exists>sig c'. send_and_confirm S tx c = (Ok sig, c') \<and>
       (\<forall>key. key \<noteq> keypair_pubkey S (tx_payer tx) \<and> key \<noteq> sol_instructions_sysvar S \<longrightarrow> obs c' key = L' key))"

definition rejects :: "('k, 'c) solana \<Rightarrow> ('c \<Rightarrow> ledger) \<Rightarrow> 'k transaction \<Rightarrow> 'c \<Rightarrow> bool" where
  "rejects S obs tx c \<longleftrightarrow>
     (\<exists>e c'. send_and_confirm S tx c = (Err e, c') \<and> (\<forall>key. key \<noteq> keypair_pubkey S (tx_payer tx) \<longrightarrow> obs c' key = obs c key))"

definition cluster_ok :: "('s, 'p::ab_group_add) crypto \<Rightarrow> ('k, 'c) solana \<Rightarrow> runtime \<Rightarrow> pubkey \<Rightarrow> ('c \<Rightarrow> ledger) \<Rightarrow> bool" where
  "cluster_ok C S rt program_id obs \<longleftrightarrow>
     (\<forall>seeds. program_address S seeds program_id = pda rt program_id seeds) \<and>
     sol_system_program S = system_program_id rt \<and> sol_ed25519_program S = ed25519_program_id rt \<and>
     (\<forall>key c. \<exists>c'. get_account S key c = (if ac_lamports (obs c key) > 0 then Some (obs c key) else None, c') \<and> obs c' = obs c) \<and>
     (\<forall>c. \<exists>h c'. get_latest_blockhash S c = (Some h, c') \<and> obs c' = obs c) \<and>
     (\<forall>pre ix k h c. sol_program_id pre = sol_ed25519_program S \<and> precompile_valid C (sol_data pre) \<and> sol_program_id ix = program_id \<and>
        10000 \<le> ac_lamports (obs c (keypair_pubkey S k)) \<longrightarrow>
        (\<exists>L. (\<forall>key. key \<noteq> keypair_pubkey S k \<and> key \<noteq> sol_instructions_sysvar S \<longrightarrow> L key = obs c key) \<and>
           shows_before rt (sol_instructions_sysvar S) pre L \<and>
           (case process_instruction C rt program_id (map as_account (sol_accounts ix)) (sol_data ix) L of
              (Ok _, L') \<Rightarrow> commits S obs \<lparr>tx_instructions = [pre, ix], tx_payer = k, tx_blockhash = h\<rparr> c L'
            | _ \<Rightarrow> rejects S obs \<lparr>tx_instructions = [pre, ix], tx_payer = k, tx_blockhash = h\<rparr> c)))"

lemma cluster_laws:
  assumes "cluster_ok C S rt program_id obs"
  shows "program_address S seeds program_id = pda rt program_id seeds"
    and "sol_system_program S = system_program_id rt" and "sol_ed25519_program S = ed25519_program_id rt"
    and "\<exists>c'. get_account S key c = (if ac_lamports (obs c key) > 0 then Some (obs c key) else None, c') \<and> obs c' = obs c"
    and "\<exists>h c'. get_latest_blockhash S c = (Some h, c') \<and> obs c' = obs c"
  using assms by (simp_all add: cluster_ok_def)

lemma fetch_present:
  assumes "cluster_ok C S rt program_id obs" and "ac_lamports (obs c key) > 0"
  shows "\<exists>c'. fetch S key c = (Ok (obs c key), c') \<and> obs c' = obs c"
  using cluster_laws(4) [OF assms(1), of key c] assms(2) by (auto simp: fetch_def)

text \<open>A spending transaction that the program accepts on every ledger it can be run on is committed.\<close>

lemma submit_spend:
  assumes cl: "cluster_ok C S rt program_id obs" and fee: "10000 \<le> ac_lamports (obs c (keypair_pubkey S k))"
    and pre: "sol_program_id pre = sol_ed25519_program S" "precompile_valid C (sol_data pre)" and ix: "sol_program_id ix = program_id"
    and run: "\<And>L. (\<And>key. key \<noteq> keypair_pubkey S k \<Longrightarrow> key \<noteq> sol_instructions_sysvar S \<Longrightarrow> L key = obs c key) \<Longrightarrow>
      shows_before rt (sol_instructions_sysvar S) pre L \<Longrightarrow>
      \<exists>L'. process_instruction C rt program_id (map as_account (sol_accounts ix)) (sol_data ix) L = (Ok (), L') \<and> Q L'"
  shows "\<exists>sig c' L'. submit S [pre, ix] k c = (Ok sig, c') \<and> Q L' \<and>
    (\<forall>key. key \<noteq> keypair_pubkey S k \<and> key \<noteq> sol_instructions_sysvar S \<longrightarrow> obs c' key = L' key)"
proof -
  obtain h c1 where h: "get_latest_blockhash S c = (Some h, c1)" "obs c1 = obs c" using cluster_laws(5) [OF cl] by blast
  let ?tx = "\<lparr>tx_instructions = [pre, ix], tx_payer = k, tx_blockhash = h\<rparr>"
  obtain L where L: "\<forall>key. key \<noteq> keypair_pubkey S k \<and> key \<noteq> sol_instructions_sysvar S \<longrightarrow> L key = obs c1 key"
    "shows_before rt (sol_instructions_sysvar S) pre L"
    "case process_instruction C rt program_id (map as_account (sol_accounts ix)) (sol_data ix) L of
       (Ok _, L') \<Rightarrow> commits S obs ?tx c1 L' | _ \<Rightarrow> rejects S obs ?tx c1"
    using cl pre ix fee h(2) unfolding cluster_ok_def by metis
  obtain L' where L': "process_instruction C rt program_id (map as_account (sol_accounts ix)) (sol_data ix) L = (Ok (), L')" "Q L'"
    using run [of L] L(1,2) h(2) by auto
  then have "commits S obs ?tx c1 L'" using L(3) by simp
  then show ?thesis using h L'(2) by (auto simp: commits_def submit_def)
qed

section \<open>Tool and program agree\<close>

lemma build_is_payload: "length msg = 32 \<Longrightarrow> build_ed25519_precompile_data sig pk msg = precompile_payload pk msg sig"
  by (simp add: build_ed25519_precompile_data_def precompile_payload_def precompile_header_def)

lemma before_precompile:
  assumes "shows_before rt (ai_key sv) (precompile_ix S sig pk msg) L" and "sol_ed25519_program S = ed25519_program_id rt"
    and "length pk = 32" and "sig_wf sig" and "length msg = 32"
  shows "verify_ed25519_precompile rt L sv pk msg sig = Ok ()"
proof -
  have "length (precompile_payload pk msg sig) = 112 + length msg"
    using assms(3,4) by (simp add: precompile_payload_def precompile_header_def sig_wf_def)
  then have "verify_precompile_data (precompile_payload pk msg sig) pk msg sig = Ok ()"
    using assms(3-5) by (subst verify_precompile_data_iff) simp_all
  then show ?thesis
    using assms(1,2) by (simp add: verify_ed25519_precompile_def shows_before_def precompile_ix_def build_is_payload [OF assms(5)])
qed

lemma decode_is_load: "decode_nullifiers data = map_err (\<lambda>_. BorshDeserialize) (load_nullifiers data)"
  by (cases "de_nullifiers data") (simp_all add: decode_nullifiers_def load_nullifiers_def deserialize_padded_def)

lemma deserialize_active:
  assumes "load_registry data = Ok reg" and "find_active_for_denom reg d = Some e"
  shows "deserialize_padded de_registry data = Ok reg" and "\<not> list_all (\<lambda>b. b = 0) data"
proof -
  have "\<not> list_all (\<lambda>b. b = 0) data"
  proof
    assume "list_all (\<lambda>b. b = 0) data"
    then have "reg = KeysetRegistry_new" using assms(1) by (simp add: load_registry_def)
    then show False using assms(2) by (simp add: find_active_for_denom_def KeysetRegistry_new_def max_by_key_def)
  qed
  then show "deserialize_padded de_registry data = Ok reg" "\<not> list_all (\<lambda>b. b = 0) data"
    using assms(1) by (simp_all add: load_registry_def deserialize_padded_def)
qed

text \<open>
  A coin that can be spent on a ledger, apart from being fresh: the mint's active keyset for the
  denomination signed it, the two state accounts exist, and there is room for one more nullifier.
\<close>

definition spendable ::
    "('s, 'p::ab_group_add) crypto \<Rightarrow> runtime \<Rightarrow> pubkey \<Rightarrow> ledger \<Rightarrow> bytes \<Rightarrow> signature \<Rightarrow> u64 \<Rightarrow> bool" where
  "spendable C rt program_id L cp sig d \<longleftrightarrow>
     length cp = 32 \<and> sig_wf sig \<and>
     (\<exists>reg e. load_registry (ac_data (L (pda rt program_id keyset_registry_seeds))) = Ok reg \<and> find_active_for_denom reg d = Some e \<and>
        length (ke_joint_pk e) = 32 \<and> schnorr_verify C (PublicKey (ke_joint_pk e)) cp sig = Ok True) \<and>
     ac_lamports (L (pda rt program_id keyset_registry_seeds)) > 0 \<and> ac_lamports (L (pda rt program_id nullifier_tree_seeds)) > 0 \<and>
     nullifiers_ok (nullifier_data rt program_id L) \<and>
     36 + 32 * card (spent_in (nullifier_data rt program_id L)) \<le> length (nullifier_data rt program_id L)"

lemma room_insert:
  assumes ok: "nullifiers_ok data" and ns: "load_nullifiers data = Ok ns" and n: "length n = 32" "n \<notin> set (leaves ns)"
    and room: "36 + 32 * card (spent_in data) \<le> length data"
  shows "\<exists>data'. store_nullifiers (NullifierSet (insort n (leaves ns))) data = Ok data' \<and> spent_in data' = insert n (spent_in data)"
proof -
  have wf: "nullifiers_wf ns" by (rule loaded_nullifiers(1) [OF ok ns])
  have "map length (insort n (leaves ns)) = replicate (Suc (length (leaves ns))) 32"
    using wf n(1) by (intro replicate_eqI) (auto simp: nullifiers_wf_def list_all_iff set_insort_key)
  moreover have "card (spent_in data) = length (leaves ns)"
    using wf ns by (simp add: spent_in_def nullifiers_wf_def distinct_card)
  ultimately have "length (ser_nullifiers (NullifierSet (insort n (leaves ns)))) \<le> length data"
    using room by (simp add: stored_leaves sum_list_replicate)
  then obtain data' where data': "store_nullifiers (NullifierSet (insort n (leaves ns))) data = Ok data'"
    using nullifiers_slot.store_Ok by blast
  then show ?thesis
    using step_insert(2) [OF ok ns n data'] ns by (auto simp: spent_in_def set_insort_key)
qed

text \<open>What the program computes of a spendable and fresh coin on a ledger with the same state accounts.\<close>

lemma spendable_run:
  assumes sp: "spendable C rt program_id L cp sig d" and "hash_ok C" and fresh: "compute_nullifier C cp \<notin> spent_in (nullifier_data rt program_id L)"
  obtains reg e ns data where "load_registry (ac_data (L (pda rt program_id keyset_registry_seeds))) = Ok reg"
    "find_active_for_denom reg d = Some e" "length (ke_joint_pk e) = 32" "schnorr_verify C (PublicKey (ke_joint_pk e)) cp sig = Ok True"
    "load_nullifiers (nullifier_data rt program_id L) = Ok ns" "compute_nullifier C cp \<notin> set (leaves ns)"
    "store_nullifiers (NullifierSet (insort (compute_nullifier C cp) (leaves ns))) (nullifier_data rt program_id L) = Ok data"
    "spent_in data = insert (compute_nullifier C cp) (spent_in (nullifier_data rt program_id L))"
proof -
  have ok: "nullifiers_ok (nullifier_data rt program_id L)" using sp by (simp add: spendable_def)
  then obtain ns where ns: "load_nullifiers (nullifier_data rt program_id L) = Ok ns"
    using nullifiers_slot.holds_load by (auto simp: nullifiers_ok_holds)
  have n: "compute_nullifier C cp \<notin> set (leaves ns)" using fresh ns by (simp add: spent_in_def)
  obtain data where "store_nullifiers (NullifierSet (insort (compute_nullifier C cp) (leaves ns))) (nullifier_data rt program_id L) = Ok data"
    "spent_in data = insert (compute_nullifier C cp) (spent_in (nullifier_data rt program_id L))"
    using room_insert [OF ok ns nullifier_length [OF assms(2)] n] sp by (auto simp: spendable_def)
  then show ?thesis using sp that ns n by (auto simp: spendable_def)
qed

lemma withdraw_ix_accepted:
  assumes rt: "runtime_ok rt program_id" and ids: "\<And>seeds. program_address S seeds program_id = pda rt program_id seeds"
      "sol_system_program S = system_program_id rt" "sol_ed25519_program S = ed25519_program_id rt"
    and wf: "length cp = 32" "sig_wf sig" "length r = 32" "length (ke_joint_pk e) = 32"
    and reg: "load_registry (ac_data (L (pda rt program_id keyset_registry_seeds))) = Ok reg" "find_active_for_denom reg d = Some e"
    and ns: "load_nullifiers (nullifier_data rt program_id L) = Ok ns" "compute_nullifier C cp \<notin> set (leaves ns)"
      "store_nullifiers (NullifierSet (insort (compute_nullifier C cp) (leaves ns))) (nullifier_data rt program_id L) = Ok data"
    and vault: "d \<le> ac_lamports (L (pda rt program_id (vault_seeds d)))"
    and pay: "\<exists>L'. invoke_signed rt (Transfer (pda rt program_id (vault_seeds d)) r d)
      (vault_seeds d @ [[snd (find_program_address rt (vault_seeds d) program_id)]]) (set_data L (pda rt program_id nullifier_tree_seeds) data) = Ok L'"
    and before: "shows_before rt (sol_instructions_sysvar S) (precompile_ix S sig (ke_joint_pk e) cp) L"
    and r: "r \<noteq> pda rt program_id (vault_seeds d)"
  shows "\<exists>L'. process_instruction C rt program_id (map as_account (sol_accounts (withdraw_ix S program_id payer cp sig d r)))
      (sol_data (withdraw_ix S program_id payer cp sig d r)) L = (Ok (), L') \<and>
      L' = set_lamports (set_lamports (set_data L (pda rt program_id nullifier_tree_seeds) data) (pda rt program_id (vault_seeds d))
        (ac_lamports (L (pda rt program_id (vault_seeds d))) - d)) r (ac_lamports (L r) + d)"
proof -
  obtain L' where L': "invoke_signed rt (Transfer (pda rt program_id (vault_seeds d)) r d)
      (vault_seeds d @ [[snd (find_program_address rt (vault_seeds d) program_id)]]) (set_data L (pda rt program_id nullifier_tree_seeds) data) = Ok L'"
    using pay by blast
  have "try_from_slice de_instruction (sol_data (withdraw_ix S program_id payer cp sig d r)) = Some (Withdraw cp sig d r)"
    using instruction_codec.try_from_slice_ser [of "Withdraw cp sig d r"] wf by (simp add: withdraw_ix_def)
  moreover have "verify_ed25519_precompile rt L (as_account (meta_readonly (sol_instructions_sysvar S) False)) (ke_joint_pk e) cp sig = Ok ()"
    using before wf ids(3) by (intro before_precompile) (simp_all add: as_account_def meta_readonly_def)
  ultimately have "process_instruction C rt program_id (map as_account (sol_accounts (withdraw_ix S program_id payer cp sig d r)))
      (sol_data (withdraw_ix S program_id payer cp sig d r)) L = (Ok (), L')"
    using reg ns vault L' ids by (simp add: process_instruction_def withdraw_Ok withdraw_ix_def) (simp add: as_account_def meta_def meta_readonly_def)
  then show ?thesis using runtime_ok_transfer(2) [OF rt L'] r by auto
qed

lemma refresh_ix_accepted:
  assumes ids: "\<And>seeds. program_address S seeds program_id = pda rt program_id seeds" "sol_ed25519_program S = ed25519_program_id rt"
    and wf: "length cp = 32" "sig_wf sig" "length (ke_joint_pk e) = 32"
    and reg: "load_registry (ac_data (L (pda rt program_id keyset_registry_seeds))) = Ok reg" "find_active_for_denom reg d = Some e"
    and ns: "load_nullifiers (nullifier_data rt program_id L) = Ok ns" "compute_nullifier C cp \<notin> set (leaves ns)"
      "store_nullifiers (NullifierSet (insort (compute_nullifier C cp) (leaves ns))) (nullifier_data rt program_id L) = Ok data"
    and before: "shows_before rt (sol_instructions_sysvar S) (precompile_ix S sig (ke_joint_pk e) cp) L"
  shows "process_instruction C rt program_id (map as_account (sol_accounts (refresh_ix S program_id payer cp sig d)))
      (sol_data (refresh_ix S program_id payer cp sig d)) L = (Ok (), set_data L (pda rt program_id nullifier_tree_seeds) data)"
proof -
  have "try_from_slice de_instruction (sol_data (refresh_ix S program_id payer cp sig d)) = Some (Refresh cp sig d)"
    using instruction_codec.try_from_slice_ser [of "Refresh cp sig d"] wf by (simp add: refresh_ix_def)
  moreover have "verify_ed25519_precompile rt L (as_account (meta_readonly (sol_instructions_sysvar S) False)) (ke_joint_pk e) cp sig = Ok ()"
    using before wf ids(2) by (intro before_precompile) (simp_all add: as_account_def meta_readonly_def)
  ultimately show ?thesis
    using reg ns ids
    by (simp add: process_instruction_def refresh_def refresh_ix_def spend_coin_Ok) (simp add: as_account_def meta_def meta_readonly_def nullifier_data_def)
qed

lemma withdraw_coin_checked:
  assumes cl: "cluster_ok C S rt program_id obs" and sp: "spendable C rt program_id (obs c) cp sig d"
    and reg: "load_registry (ac_data (obs c (pda rt program_id keyset_registry_seeds))) = Ok reg" "find_active_for_denom reg d = Some e"
    and ns: "load_nullifiers (nullifier_data rt program_id (obs c)) = Ok ns"
  shows "\<exists>c2. obs c2 = obs c \<and>
    withdraw_coin C S program_id cp sig d r k False pool c =
      (if compute_nullifier C cp \<in> set (leaves ns) then (Err AlreadySpent, c2)
       else case fetch S (pda rt program_id (vault_seeds d)) c2 of (vault_account, c3) \<Rightarrow>
         or_return vault_account c3 (\<lambda>vault_account.
           if ac_lamports vault_account < d then (Err (VaultUnderfunded (ac_lamports vault_account) d), c3)
           else (case submit S [precompile_ix S sig (ke_joint_pk e) cp, withdraw_ix S program_id (keypair_pubkey S k) cp sig d r] k c3 of (sent, c4) \<Rightarrow>
             or_return sent c4 (\<lambda>s. (Ok (s, compute_nullifier C cp), c4)))))"
proof -
  obtain c1 where c1: "fetch S (pda rt program_id keyset_registry_seeds) c = (Ok (obs c (pda rt program_id keyset_registry_seeds)), c1)" "obs c1 = obs c"
    using fetch_present [OF cl] sp by (auto simp: spendable_def)
  obtain c2 where c2: "fetch S (pda rt program_id nullifier_tree_seeds) c1 = (Ok (obs c1 (pda rt program_id nullifier_tree_seeds)), c2)" "obs c2 = obs c"
    using fetch_present [OF cl, of c1] sp c1(2) by (auto simp: spendable_def)
  have "decode_nullifiers (ac_data (obs c1 (pda rt program_id nullifier_tree_seeds))) = Ok ns"
    using ns c1(2) by (simp add: decode_is_load nullifier_data_def)
  then show ?thesis
    using c1(1) c2 deserialize_active(1) [OF reg] reg(2)
    by (intro exI [of _ c2]) (simp add: withdraw_coin_def withdraw_payer_def cluster_laws(1) [OF cl] NullifierSet_contains_def Let_def)
qed

lemma withdraw_coin_spent:
  assumes "cluster_ok C S rt program_id obs" and sp: "spendable C rt program_id (obs c) cp sig d"
    and "compute_nullifier C cp \<in> spent_in (nullifier_data rt program_id (obs c))"
  shows "\<exists>c'. withdraw_coin C S program_id cp sig d r k False pool c = (Err AlreadySpent, c') \<and> obs c' = obs c"
proof -
  obtain ns where ns: "load_nullifiers (nullifier_data rt program_id (obs c)) = Ok ns" "compute_nullifier C cp \<in> set (leaves ns)"
    using assms(3) by (cases "load_nullifiers (nullifier_data rt program_id (obs c))") (auto simp: spent_in_def)
  obtain reg e where reg: "load_registry (ac_data (obs c (pda rt program_id keyset_registry_seeds))) = Ok reg" "find_active_for_denom reg d = Some e"
    using sp by (auto simp: spendable_def)
  show ?thesis using withdraw_coin_checked [OF assms(1) sp reg ns(1), of r k pool] ns(2) by auto
qed

lemma withdraw_coin_releases:
  defines "v \<equiv> \<lambda>rt program_id d. pda rt program_id (vault_seeds d)"
  assumes cl: "cluster_ok C S rt program_id obs" and rt: "runtime_ok rt program_id" and h: "hash_ok C"
    and sp: "spendable C rt program_id (obs c) cp sig d" and fresh: "compute_nullifier C cp \<notin> spent_in (nullifier_data rt program_id (obs c))"
    and vault: "0 < ac_lamports (obs c (v rt program_id d))" "d \<le> ac_lamports (obs c (v rt program_id d))" and r: "length r = 32" "r \<noteq> v rt program_id d"
    and fee: "10000 \<le> ac_lamports (obs c (keypair_pubkey S k))"
    and pay: "\<And>L. d \<le> ac_lamports (L (v rt program_id d)) \<Longrightarrow> \<exists>L'. invoke_signed rt (Transfer (v rt program_id d) r d)
      (vault_seeds d @ [[snd (find_program_address rt (vault_seeds d) program_id)]]) L = Ok L'"
    and other: "set [keypair_pubkey S k, sol_instructions_sysvar S] \<inter>
      set [r, v rt program_id d, pda rt program_id keyset_registry_seeds, pda rt program_id nullifier_tree_seeds] = {}"
  shows "\<exists>s c'. withdraw_coin C S program_id cp sig d r k False pool c = (Ok (s, compute_nullifier C cp), c') \<and>
    ac_lamports (obs c' r) = ac_lamports (obs c r) + d \<and>
    ac_lamports (obs c' (v rt program_id d)) = ac_lamports (obs c (v rt program_id d)) - d \<and>
    spent_in (nullifier_data rt program_id (obs c')) = insert (compute_nullifier C cp) (spent_in (nullifier_data rt program_id (obs c)))"
proof -
  let ?v = "v rt program_id d" and ?n = "pda rt program_id nullifier_tree_seeds"
  obtain reg e ns data where run: "load_registry (ac_data (obs c (pda rt program_id keyset_registry_seeds))) = Ok reg"
    "find_active_for_denom reg d = Some e" "length (ke_joint_pk e) = 32" "schnorr_verify C (PublicKey (ke_joint_pk e)) cp sig = Ok True"
    "load_nullifiers (nullifier_data rt program_id (obs c)) = Ok ns" "compute_nullifier C cp \<notin> set (leaves ns)"
    "store_nullifiers (NullifierSet (insort (compute_nullifier C cp) (leaves ns))) (nullifier_data rt program_id (obs c)) = Ok data"
    "spent_in data = insert (compute_nullifier C cp) (spent_in (nullifier_data rt program_id (obs c)))"
    by (rule spendable_run [OF sp h fresh])
  have wf: "length cp = 32" "sig_wf sig" using sp by (simp_all add: spendable_def)
  let ?pre = "precompile_ix S sig (ke_joint_pk e) cp" and ?ix = "withdraw_ix S program_id (keypair_pubkey S k) cp sig d r"
  obtain c2 where c2: "obs c2 = obs c" "withdraw_coin C S program_id cp sig d r k False pool c =
      (case fetch S ?v c2 of (vault_account, c3) \<Rightarrow> or_return vault_account c3 (\<lambda>vault_account.
           if ac_lamports vault_account < d then (Err (VaultUnderfunded (ac_lamports vault_account) d), c3)
           else (case submit S [?pre, ?ix] k c3 of (sent, c4) \<Rightarrow> or_return sent c4 (\<lambda>s. (Ok (s, compute_nullifier C cp), c4)))))"
    using withdraw_coin_checked [OF cl sp run(1,2,5), of r k pool] run(6) by (auto simp: v_def)
  obtain c3 where c3: "fetch S ?v c2 = (Ok (obs c ?v), c3)" "obs c3 = obs c" using fetch_present [OF cl, of c2 ?v] vault(1) c2(1) by auto
  have pre: "sol_program_id ?pre = sol_ed25519_program S" "precompile_valid C (sol_data ?pre)"
    using run(3,4) wf by (auto simp: precompile_ix_def precompile_valid_def build_is_payload)
  have "\<exists>s c' L'. submit S [?pre, ?ix] k c3 = (Ok s, c') \<and>
      (ac_lamports (L' r) = ac_lamports (obs c r) + d \<and> ac_lamports (L' ?v) = ac_lamports (obs c ?v) - d \<and> ac_data (L' ?n) = data) \<and>
      (\<forall>key. key \<noteq> keypair_pubkey S k \<and> key \<noteq> sol_instructions_sysvar S \<longrightarrow> obs c' key = L' key)"
  proof (rule submit_spend [OF cl _ pre])
    fix L assume L: "\<And>key. key \<noteq> keypair_pubkey S k \<Longrightarrow> key \<noteq> sol_instructions_sysvar S \<Longrightarrow> L key = obs c3 key"
      and before: "shows_before rt (sol_instructions_sysvar S) ?pre L"
    have eq: "L r = obs c r" "L ?v = obs c ?v" "L ?n = obs c ?n" "L (pda rt program_id keyset_registry_seeds) = obs c (pda rt program_id keyset_registry_seeds)"
      using other c3(2) by (auto simp: L)
    have nd: "nullifier_data rt program_id L = nullifier_data rt program_id (obs c)" using eq(3) by (simp add: nullifier_data_def)
    have "\<exists>L'. invoke_signed rt (Transfer ?v r d) (vault_seeds d @ [[snd (find_program_address rt (vault_seeds d) program_id)]]) (set_data L ?n data) = Ok L'"
      using pay [of "set_data L ?n data"] eq(2) vault(2) by simp
    then show "\<exists>L'. process_instruction C rt program_id (map as_account (sol_accounts ?ix)) (sol_data ?ix) L = (Ok (), L') \<and>
        ac_lamports (L' r) = ac_lamports (obs c r) + d \<and> ac_lamports (L' ?v) = ac_lamports (obs c ?v) - d \<and> ac_data (L' ?n) = data"
      using withdraw_ix_accepted [OF rt cluster_laws(1-3) [OF cl] wf r(1) run(3), of L reg d ns C data "keypair_pubkey S k"] eq nd run before r(2) vault(2)
      by (auto simp: v_def) (auto simp: set_lamports_def)
  qed (use fee c3(2) in \<open>simp_all add: withdraw_ix_def\<close>)
  then show ?thesis using c2(2) c3(1) vault(2) other run(8) by (auto simp: nullifier_data_def not_less [symmetric])
qed

lemma withdraw_arguments:
  assumes "hex_decode X ph = Some cp" "length cp = 32" "hex_decode X sh = Some (Signature_to_bytes sig)" "sig_wf sig"
    and "pubkey_from_str S ps = Some program_id" "pubkey_from_str S rs = Some r" "read_keypair_file S path = Some k"
  shows "devnet_withdraw C X S path ph sh d rs ps eph pool c = withdraw_coin C S program_id cp sig d r k eph pool c"
  using assms by (cases sig) (simp add: devnet_withdraw_def cli_parse_hex32_def cli_parse_hex64_def parse_pubkey_def default_keypair_def
      Signature_to_bytes_def Signature_from_bytes_def sig_wf_def)

section \<open>Sizes\<close>

text \<open>The top-up brings the account to the rent of its new size, so that the handler's balance check passes.\<close>

lemma topup_suffices: "need \<le> held + saturating_sub need (held :: u64)"
  by (auto simp: saturating_sub_def)

lemma estimate_word:
  assumes "4 \<le> length data" and "length data < 2 ^ 64"
  shows "unat ((word_of_nat (length data) - 4 :: u64) div w) = (length data - 4) div unat w"
proof -
  have n: "unat (word_of_nat (length data) :: u64) = length data" using assms(2) by (intro unat_word_of_nat) simp
  have "unat (word_of_nat (length data) - 4 :: u64) = length data - 4"
    using assms(1) n by (subst unat_sub) (simp_all add: word_le_nat_alt)
  then show ?thesis by (simp add: unat_div)
qed

text \<open>As many nullifiers as \<open>capacity\<close> estimates always fit; it counts ten bytes more for each than the encoding takes.\<close>

lemma nullifier_estimate_fits:
  assumes "4 \<le> length (ac_data acc)" and "length (ac_data acc) < 2 ^ 64" and "nullifiers_wf ns"
    and "NullifierSet_len ns \<le> unat (fst (snd (nullifier_load acc)))"
  shows "length (ser_nullifiers ns) \<le> length (ac_data acc)"
proof -
  have "map length (leaves ns) = replicate (length (leaves ns)) 32"
    using assms(3) by (intro replicate_eqI) (auto simp: nullifiers_wf_def list_all_iff)
  then have "length (ser_nullifiers ns) = 4 + 32 * length (leaves ns)" by (simp add: stored_leaves sum_list_replicate)
  moreover have "length (leaves ns) \<le> (length (ac_data acc) - 4) div 42"
    using assms(4) estimate_word [OF assms(1,2), of 42] by (simp add: nullifier_load_def account_load_def Let_def NullifierSet_len_def)
  ultimately show ?thesis using assms(1) by simp
qed

text \<open>The registry's estimate leaves out its version byte: an account of 86 bytes is said to hold an entry, and none fits.\<close>

lemma registry_estimate_over:
  "fst (snd (registry_load \<lparr>ac_lamports = l, ac_data = replicate 86 0, ac_owner = o'\<rparr>)) = 1"
  "store_registry \<lparr>kr_version = 1, kr_entries = [\<lparr>ke_keyset_id = replicate 33 2, ke_denom = 1, ke_joint_pk = replicate 32 2, ke_epoch = 0, ke_status = KActive\<rparr>]\<rparr>
     (replicate 86 0) = Err AccountDataTooSmall"
proof -
  show "fst (snd (registry_load \<lparr>ac_lamports = l, ac_data = replicate 86 0, ac_owner = o'\<rparr>)) = 1"
    by (simp add: registry_load_def account_load_def Let_def)
  show "store_registry \<lparr>kr_version = 1, kr_entries = [\<lparr>ke_keyset_id = replicate 33 2, ke_denom = 1, ke_joint_pk = replicate 32 2, ke_epoch = 0, ke_status = KActive\<rparr>]\<rparr>
     (replicate 86 0) = Err AccountDataTooSmall"
    by (simp add: store_registry_def ser_registry_def ser_seq_def ser_keyset_entry_def ser_status_def Let_def)
qed

section \<open>A concrete cluster\<close>

text \<open>A node that runs the program on one ledger, for the witnesses.\<close>

definition local_cluster :: "(pubkey, ledger) solana" where
  "local_cluster = \<lparr>pubkey_from_str = (\<lambda>s. if s = ''program'' then Some [9] else if s = ''recipient'' then Some sample_recipient else None),
     read_keypair_file = (\<lambda>_. Some [3]), keypair_pubkey = id, keypair_new = (\<lambda>c. ([4], c)), choose_index = (\<lambda>_ c. (0, c)),
     program_address = (\<lambda>seeds _. concat seeds), sol_system_program = [0], sol_ed25519_program = [1], sol_instructions_sysvar = [2],
     system_transfer = (\<lambda>a b n. \<lparr>sol_program_id = [0], sol_accounts = [meta a True, meta b False], sol_data = to_le_bytes 8 n\<rparr>),
     minimum_balance = (\<lambda>n. 0), get_account = (\<lambda>key c. (if ac_lamports (c key) > 0 then Some (c key) else None, c)),
     get_balance = (\<lambda>key c. (Some (ac_lamports (c key)), c)), get_latest_blockhash = (\<lambda>c. (Some [], c)),
     send_and_confirm = (\<lambda>tx c.
       case tx_instructions tx of
         [pre, ix] \<Rightarrow>
           (case process_instruction gf_curve sample_runtime [9] (map as_account (sol_accounts ix)) (sol_data ix) (set_data c [2] (sol_data pre)) of
              (Ok _, L') \<Rightarrow> (Ok ''ok'', L')
            | _ \<Rightarrow> (Err ''failed'', c))
       | _ \<Rightarrow> (Err ''unsupported'', c))\<rparr>"

lemma cluster_ok_local: "cluster_ok gf_curve local_cluster sample_runtime [9] id"
proof -
  have "\<exists>L. (\<forall>key. key \<noteq> k \<and> key \<noteq> [2] \<longrightarrow> L key = c key) \<and> shows_before sample_runtime [2] pre L \<and>
      (case process_instruction gf_curve sample_runtime [9] (map as_account (sol_accounts ix)) (sol_data ix) L of
         (Ok _, L') \<Rightarrow> commits local_cluster id \<lparr>tx_instructions = [pre, ix], tx_payer = k, tx_blockhash = h\<rparr> c L'
       | _ \<Rightarrow> rejects local_cluster id \<lparr>tx_instructions = [pre, ix], tx_payer = k, tx_blockhash = h\<rparr> c)"
    if "sol_program_id pre = [1]" for pre ix k h c
  proof (intro exI [of _ "set_data c [2] (sol_data pre)"] conjI)
    show "shows_before sample_runtime [2] pre (set_data c [2] (sol_data pre))"
      using that by (simp add: shows_before_def sample_runtime_def)
    show "case process_instruction gf_curve sample_runtime [9] (map as_account (sol_accounts ix)) (sol_data ix) (set_data c [2] (sol_data pre)) of
         (Ok _, L') \<Rightarrow> commits local_cluster id \<lparr>tx_instructions = [pre, ix], tx_payer = k, tx_blockhash = h\<rparr> c L'
       | _ \<Rightarrow> rejects local_cluster id \<lparr>tx_instructions = [pre, ix], tx_payer = k, tx_blockhash = h\<rparr> c"
      by (auto simp: commits_def rejects_def local_cluster_def split: prod.splits result.splits)
  qed auto
  then show ?thesis
    unfolding cluster_ok_def by (simp add: local_cluster_def sample_runtime_def pda_def)
qed

definition funded_ledger :: ledger where
  "funded_ledger = sample_ledger([3] := \<lparr>ac_lamports = 20000, ac_data = [], ac_owner = [0]\<rparr>)"

lemma funded_ledger_simps [simp]:
  "funded_ledger reg_key = sample_account (ser_registry gf_registry)" "funded_ledger null_key = sample_account (replicate 100 0)"
  "funded_ledger vault_key = sample_account []" "ac_lamports (funded_ledger [3]) = 20000" "ac_lamports (funded_ledger sample_recipient) = 0"
  by (simp_all add: funded_ledger_def)

lemma spendable_sample: "spendable gf_curve sample_runtime [9] funded_ledger (gf_bytes 4) gf_sig 1"
  using sample_null load_gf_registry gf_find_active gf_sig_verifies gf_sig_wf
  by (auto simp: spendable_def nullifier_data_def) (simp_all add: gf_registry_def)

section \<open>Properties\<close>



end
