(* ===== verification/Wallet.thy ===== *)
theory Wallet
  imports Validator_Runs Client
begin

text \<open>
  The wallet's conversations with a committee of validators: the client pool (\<open>client_pool.rs\<close>), issuance
  (\<open>issue.rs\<close>) and refresh (\<open>refresh.rs\<close>) of \<open>tardus-wallet\<close>, and their composition with the validator
  daemons.

  The network is the record \<open>network\<close>: what posting a request to an endpoint returns, over a world
  \<open>'w\<close>. The calls of one round go to different endpoints and run concurrently in the code
  (\<open>try_join_all\<close>); here they are made in the order of the pool and stop at the first error. The
  composition instantiates the world with one daemon per URL, each of which may serve other requests
  between the rounds.
\<close>

section \<open>The client pool\<close>

record validator_endpoint =
  ep_my_index :: u16
  ep_base_url :: string

record wallet_client_pool =
  wcp_endpoints :: "validator_endpoint list"

definition WalletClientPool_new :: "validator_endpoint list \<Rightarrow> (wallet_client_pool, wallet_error) result" where
  "WalletClientPool_new endpoints =
     (if endpoints = [] then Err (BadLength 1 0) else Ok \<lparr>wcp_endpoints = endpoints\<rparr>)"

definition pool_signing_set :: "wallet_client_pool \<Rightarrow> u16 list" where
  "pool_signing_set pool = map ep_my_index (wcp_endpoints pool)"

text \<open>A reply to a POST: no answer, a status that is not a success, or a success whose body may not decode.\<close>

datatype 'a http_reply = NoAnswer | Status u16 | Body "'a option"

definition post :: "'a http_reply \<Rightarrow> ('a, wallet_error) result" where
  "post reply = (case reply of NoAnswer \<Rightarrow> Err Http | Status s \<Rightarrow> Err (ValidatorRejected s) | Body None \<Rightarrow> Err Http | Body (Some x) \<Rightarrow> Ok x)"

record 'w network =
  net_sign_round1 :: "validator_endpoint \<Rightarrow> string \<Rightarrow> 'w \<Rightarrow> sign_round1_resp http_reply \<times> 'w"
  net_sign_round3 :: "validator_endpoint \<Rightarrow> sign_round3_req \<Rightarrow> 'w \<Rightarrow> sign_round3_resp http_reply \<times> 'w"
  net_refresh_round1 :: "validator_endpoint \<Rightarrow> string \<Rightarrow> u8 \<Rightarrow> 'w \<Rightarrow> refresh_round1_resp http_reply \<times> 'w"
  net_refresh_round5 :: "validator_endpoint \<Rightarrow> refresh_round5_req \<Rightarrow> 'w \<Rightarrow> refresh_round5_resp http_reply \<times> 'w"

fun try_join_all :: "('e \<Rightarrow> 'w \<Rightarrow> ('a, 'x) result \<times> 'w) \<Rightarrow> 'e list \<Rightarrow> 'w \<Rightarrow> ('a list, 'x) result \<times> 'w" where
  "try_join_all call [] w = (Ok [], w)"
| "try_join_all call (e # es) w =
     (let (out, w1) = call e w
      in or_return out w1 (\<lambda>x.
           let (outs, w2) = try_join_all call es w1
           in or_return outs w2 (\<lambda>xs. (Ok (x # xs), w2))))"

definition wallet_decode_hex32 :: "libs \<Rightarrow> string \<Rightarrow> (bytes, wallet_error) result" where
  "wallet_decode_hex32 X hex_str =
     rbind (ok_or Hex (hex_decode X hex_str)) (\<lambda>bs. if length bs \<noteq> 32 then Err (BadLength 32 (length bs)) else Ok bs)"

fun wallet_decode_all :: "libs \<Rightarrow> string list \<Rightarrow> (bytes list, wallet_error) result" where
  "wallet_decode_all X [] = Ok []"
| "wallet_decode_all X (hx # hxs) =
     rbind (wallet_decode_hex32 X hx) (\<lambda>bs. rbind (wallet_decode_all X hxs) (\<lambda>rest. Ok (bs # rest)))"

section \<open>Issuance\<close>

definition read_sign_round1 ::
    "libs \<Rightarrow> session_id \<Rightarrow> validator_endpoint \<Rightarrow> sign_round1_resp http_reply \<Rightarrow> (validator_r1_output, wallet_error) result" where
  "read_sign_round1 X sid ep reply =
     rbind (post reply) (\<lambda>resp.
       if s1_from_index resp \<noteq> ep_my_index ep then Err (UnexpectedIndex (ep_my_index ep) (s1_from_index resp))
       else rbind (wallet_decode_hex32 X (s1_r_i_hex resp)) (\<lambda>r_i.
         Ok \<lparr>r1o_from_index = ep_my_index ep, r1o_session_id = sid, r1o_r_i = r_i\<rparr>))"

definition issue_round1_call ::
    "libs \<Rightarrow> 'w network \<Rightarrow> session_id \<Rightarrow> string \<Rightarrow> validator_endpoint \<Rightarrow> 'w \<Rightarrow> (validator_r1_output, wallet_error) result \<times> 'w" where
  "issue_round1_call X N sid sid_hex ep w = apfst (read_sign_round1 X sid ep) (net_sign_round1 N ep sid_hex w)"

definition read_sign_round3 ::
    "libs \<Rightarrow> session_id \<Rightarrow> validator_endpoint \<Rightarrow> sign_round3_resp http_reply \<Rightarrow> (validator_r3_output, wallet_error) result" where
  "read_sign_round3 X sid ep reply =
     rbind (post reply) (\<lambda>resp.
       if s3r_from_index resp \<noteq> ep_my_index ep then Err (UnexpectedIndex (ep_my_index ep) (s3r_from_index resp))
       else rbind (wallet_decode_hex32 X (s3r_s_i_hex resp)) (\<lambda>s_i.
         Ok \<lparr>r3o_from_index = ep_my_index ep, r3o_session_id = sid, r3o_s_i = s_i\<rparr>))"

definition issue_round3_call ::
    "libs \<Rightarrow> 'w network \<Rightarrow> session_id \<Rightarrow> sign_round3_req \<Rightarrow> validator_endpoint \<Rightarrow> 'w \<Rightarrow> (validator_r3_output, wallet_error) result \<times> 'w" where
  "issue_round3_call X N sid body ep w = apfst (read_sign_round3 X sid ep) (net_sign_round3 N ep body w)"

definition issue_coin ::
    "('s::field, 'p::ab_group_add) crypto \<Rightarrow> ('r, 's) rng \<Rightarrow> libs \<Rightarrow> 'w network \<Rightarrow> wallet_client_pool \<Rightarrow> public_key \<Rightarrow> session_id
     \<Rightarrow> 'r \<times> 'w \<Rightarrow> ('s coin, wallet_error) result \<times> 'r \<times> 'w" where
  "issue_coin C R X N pool joint_pk sid rw =
     (let (r, w) = rw;
          signing_set = pool_signing_set pool;
          sid_hex = hex_encode X (session_bytes sid);
          (r1_outputs, w1) = try_join_all (issue_round1_call X N sid sid_hex) (wcp_endpoints pool) w
      in or_return r1_outputs (r, w1) (\<lambda>r1_outputs.
         or_return (map_err WalletMint (aggregate_commitments C sid signing_set r1_outputs)) (r, w1) (\<lambda>commit.
         let (coin_secret, r1) = SecretKey_random R r;
             coin_pk_bytes = pk_to_bytes (PublicKey_from_secret C coin_secret)
         in or_return (map_err WalletCore (blind_request C R commit joint_pk coin_pk_bytes r1)) (r1, w1) (\<lambda>((challenge, user_state), r2).
            let body = \<lparr>s3_session_id_hex = sid_hex, s3_signing_set = signing_set, s3_challenge_hex = hex_encode X (bch_c challenge)\<rparr>;
                (r3_outputs, w2) = try_join_all (issue_round3_call X N sid body) (wcp_endpoints pool) w1
            in or_return r3_outputs (r2, w2) (\<lambda>r3_outputs.
               or_return (map_err WalletMint (aggregate_responses C sid signing_set r3_outputs)) (r2, w2) (\<lambda>response.
               or_return (map_err WalletCore (unblind C user_state response)) (r2, w2) (\<lambda>sig.
               or_return (map_err WalletRefresh (Coin_new C coin_secret coin_pk_bytes sig)) (r2, w2) (\<lambda>coin.
                 (Ok coin, r2, w2)))))))))"

section \<open>Refresh\<close>

definition read_refresh_round1 ::
    "libs \<Rightarrow> session_id \<Rightarrow> validator_endpoint \<Rightarrow> refresh_round1_resp http_reply \<Rightarrow> (validator_refresh_r1_output, wallet_error) result" where
  "read_refresh_round1 X sid ep reply =
     rbind (post reply) (\<lambda>resp.
       if f1_from_index resp \<noteq> ep_my_index ep then Err (UnexpectedIndex (ep_my_index ep) (f1_from_index resp))
       else rbind (wallet_decode_all X (f1_r_per_candidate_hex resp)) (\<lambda>r_per_candidate.
         Ok \<lparr>vr1_session_id = sid, vr1_from_index = ep_my_index ep, vr1_r_per_candidate = r_per_candidate\<rparr>))"

definition refresh_round1_call ::
    "libs \<Rightarrow> 'w network \<Rightarrow> session_id \<Rightarrow> string \<Rightarrow> u8 \<Rightarrow> validator_endpoint \<Rightarrow> 'w
     \<Rightarrow> (validator_refresh_r1_output, wallet_error) result \<times> 'w" where
  "refresh_round1_call X N sid sid_hex kappa ep w = apfst (read_refresh_round1 X sid ep) (net_refresh_round1 N ep sid_hex kappa w)"

definition read_refresh_round5 ::
    "libs \<Rightarrow> session_id \<Rightarrow> validator_endpoint \<Rightarrow> refresh_round5_resp http_reply \<Rightarrow> (validator_refresh_r5_output, wallet_error) result" where
  "read_refresh_round5 X sid ep reply =
     rbind (post reply) (\<lambda>resp.
       if f5r_from_index resp \<noteq> ep_my_index ep then Err (UnexpectedIndex (ep_my_index ep) (f5r_from_index resp))
       else rbind (wallet_decode_hex32 X (f5r_s_partial_hex resp)) (\<lambda>s_partial.
         Ok \<lparr>vr5_session_id = sid, vr5_from_index = ep_my_index ep, vr5_s_partial = s_partial\<rparr>))"

definition refresh_round5_call ::
    "libs \<Rightarrow> 'w network \<Rightarrow> session_id \<Rightarrow> refresh_round5_req \<Rightarrow> validator_endpoint \<Rightarrow> 'w
     \<Rightarrow> (validator_refresh_r5_output, wallet_error) result \<times> 'w" where
  "refresh_round5_call X N sid body ep w = apfst (read_refresh_round5 X sid ep) (net_refresh_round5 N ep body w)"

definition refresh_coin ::
    "('s::field, 'p::ab_group_add) crypto \<Rightarrow> ('r, 's) rng \<Rightarrow> libs \<Rightarrow> 'w network \<Rightarrow> wallet_client_pool \<Rightarrow> 's coin \<Rightarrow> public_key \<Rightarrow> session_id
     \<Rightarrow> 'r \<times> 'w \<Rightarrow> ('s coin, wallet_error) result \<times> 'r \<times> 'w" where
  "refresh_coin C R X N pool melted_coin joint_pk sid rw =
     (let (r, w) = rw;
          kappa = DEFAULT_KAPPA;
          signing_set = pool_signing_set pool;
          sid_hex = hex_encode X (session_bytes sid);
          (r1_outputs, w1) = try_join_all (refresh_round1_call X N sid sid_hex kappa) (wcp_endpoints pool) w
      in or_return r1_outputs (r, w1) (\<lambda>r1_outputs.
         or_return (map_err WalletRefresh (aggregate_refresh_round1 C sid kappa signing_set r1_outputs)) (r, w1) (\<lambda>mint_r1.
         or_return (map_err WalletRefresh (user_refresh_round2 C R sid mint_r1 joint_pk melted_coin r)) (r, w1) (\<lambda>((user_r2, user_state), r1).
         or_return (map_err WalletRefresh (mint_refresh_round3 C sid user_r2 joint_pk)) (r1, w1) (\<lambda>challenge.
         or_return (map_err WalletRefresh (user_refresh_round4 C user_state challenge)) (r1, w1) (\<lambda>reveal.
         or_return (map_err WalletRefresh (mint_refresh_verify_reveal C user_r2 mint_r1 challenge reveal joint_pk)) (r1, w1) (\<lambda>_.
         let body = \<lparr>f5_session_id_hex = sid_hex, f5_signing_set = signing_set, f5_gamma_star = mr3_gamma_star challenge,
               f5_user_challenges_hex = map (hex_encode X) (ur2_challenges user_r2),
               f5_melted_coin_pubkey_hex = hex_encode X (ur2_melted_coin_pubkey user_r2),
               f5_melted_coin_signature_hex = hex_encode X (Signature_to_bytes (ur2_melted_coin_signature user_r2))\<rparr>;
             (r5_outputs, w2) = try_join_all (refresh_round5_call X N sid body) (wcp_endpoints pool) w1
         in or_return r5_outputs (r1, w2) (\<lambda>r5_outputs.
            or_return (map_err WalletRefresh (aggregate_refresh_round5 C sid signing_set r5_outputs)) (r1, w2) (\<lambda>mint_r5.
            or_return (map_err WalletRefresh (user_refresh_round6 C user_state challenge mint_r5 joint_pk)) (r1, w2) (\<lambda>new_coin.
              (Ok new_coin, r1, w2)))))))))))"

section \<open>A committee of daemons\<close>

text \<open>
  One daemon per URL; before the second round of a protocol a daemon first serves the requests that
  \<open>busy\<close> lists for it, from whomever. \<open>Es\<close> is the environment of the wallet's own requests.
\<close>

fun status_u16 :: "status_code \<Rightarrow> u16" where
  "status_u16 BAD_REQUEST = 400"
| "status_u16 UNAUTHORIZED = 401"
| "status_u16 FORBIDDEN = 403"
| "status_u16 NOT_FOUND = 404"
| "status_u16 CONFLICT = 409"
| "status_u16 UNPROCESSABLE_ENTITY = 422"
| "status_u16 INTERNAL_SERVER_ERROR = 500"
| "status_u16 SERVICE_UNAVAILABLE = 503"

definition http_answer :: "('a, status_code) result \<Rightarrow> 'a http_reply" where
  "http_answer out = (case out of Ok x \<Rightarrow> Body (Some x) | Err e \<Rightarrow> Status (status_u16 e) | Panic \<Rightarrow> NoAnswer)"

lemma post_http_answer [simp]: "post (http_answer (Ok x)) = Ok x"
  by (simp add: post_def http_answer_def)

definition daemon_call :: "('st \<Rightarrow> ('a, status_code) result \<times> 'st) \<Rightarrow> string \<Rightarrow> (string \<Rightarrow> 'st) \<Rightarrow> 'a http_reply \<times> (string \<Rightarrow> 'st)" where
  "daemon_call handler url w = (let (out, app) = handler (w url) in (http_answer out, w(url := app)))"

type_synonym ('s, 'p, 'r) fleet = "string \<Rightarrow> ('s, 'p, 'r) app_state"

definition committee ::
    "('s::field, 'p::ab_group_add) crypto \<Rightarrow> ('r, 's) rng \<Rightarrow> libs \<Rightarrow> json \<Rightarrow> (string \<Rightarrow> request_env)
     \<Rightarrow> (string \<Rightarrow> (request_env \<times> api_request) list) \<Rightarrow> ('s, 'p, 'r) fleet network" where
  "committee C R X J Es busy =
     \<lparr>net_sign_round1 = (\<lambda>ep sid_hex. daemon_call (sign_round1 C R X J (Es (ep_base_url ep)) sid_hex) (ep_base_url ep)),
      net_sign_round3 = (\<lambda>ep rq. daemon_call (\<lambda>app. sign_round3 C X rq (snd (api_run C R X J (busy (ep_base_url ep)) app))) (ep_base_url ep)),
      net_refresh_round1 = (\<lambda>ep sid_hex kappa. daemon_call (refresh_round1 C R X J (Es (ep_base_url ep)) sid_hex kappa) (ep_base_url ep)),
      net_refresh_round5 = (\<lambda>ep rq. daemon_call (\<lambda>app. refresh_round5 C X (Es (ep_base_url ep)) rq
        (snd (api_run C R X J (busy (ep_base_url ep)) app))) (ep_base_url ep))\<rparr>"

text \<open>
  Calls that reach one daemon each do not disturb one another: every handler sees the state its
  daemon had before the round, whatever the order.
\<close>

locale daemon_calls =
  fixes call :: "validator_endpoint \<Rightarrow> (string \<Rightarrow> 'st) \<Rightarrow> ('b, 'x) result \<times> (string \<Rightarrow> 'st)"
    and read :: "validator_endpoint \<Rightarrow> 'a http_reply \<Rightarrow> ('b, 'x) result"
    and handler :: "validator_endpoint \<Rightarrow> 'st \<Rightarrow> ('a, status_code) result \<times> 'st"
  assumes call_daemon: "call ep w = apfst (read ep) (daemon_call (handler ep) (ep_base_url ep) w)"
begin

lemma all_answered:
  assumes "distinct (map ep_base_url eps)"
    and "\<forall>ep \<in> set eps. read ep (http_answer (fst (handler ep (w (ep_base_url ep))))) = Ok (f ep)"
  shows "\<exists>w'. try_join_all call eps w = (Ok (map f eps), w') \<and>
     (\<forall>ep \<in> set eps. w' (ep_base_url ep) = snd (handler ep (w (ep_base_url ep)))) \<and>
     (\<forall>url. url \<notin> ep_base_url ` set eps \<longrightarrow> w' url = w url)"
  using assms
proof (induction eps arbitrary: w)
  case (Cons ep eps)
  let ?w = "w(ep_base_url ep := snd (handler ep (w (ep_base_url ep))))"
  have new: "ep_base_url ep \<notin> ep_base_url ` set eps" and d: "distinct (map ep_base_url eps)"
    using Cons.prems(1) by simp_all
  then have same: "?w (ep_base_url e) = w (ep_base_url e)" if "e \<in> set eps" for e
    using that by (metis fun_upd_other image_eqI)
  then have "\<forall>e \<in> set eps. read e (http_answer (fst (handler e (?w (ep_base_url e))))) = Ok (f e)"
    using Cons.prems(2) by simp
  from Cons.IH [OF d this] obtain w' where w': "try_join_all call eps ?w = (Ok (map f eps), w')"
    "\<forall>e \<in> set eps. w' (ep_base_url e) = snd (handler e (?w (ep_base_url e)))" "\<forall>url. url \<notin> ep_base_url ` set eps \<longrightarrow> w' url = ?w url"
    by (elim exE conjE) (rule that)
  have "w' (ep_base_url ep) = snd (handler ep (w (ep_base_url ep)))" using w'(3) new by simp
  moreover have "call ep w = (Ok (f ep), ?w)"
    using Cons.prems(2) by (simp add: call_daemon daemon_call_def case_prod_beta)
  ultimately show ?case using w' same by (intro exI [of _ w']) simp
qed simp

end

interpretation issue_round1: daemon_calls "issue_round1_call X (committee C R X J Es busy) sid h" "read_sign_round1 X sid"
    "\<lambda>ep. sign_round1 C R X J (Es (ep_base_url ep)) h" for C R X J Es busy sid h
  by unfold_locales (simp add: issue_round1_call_def committee_def)

interpretation issue_round3: daemon_calls "issue_round3_call X (committee C R X J Es busy) sid rq" "read_sign_round3 X sid"
    "\<lambda>ep app. sign_round3 C X rq (snd (api_run C R X J (busy (ep_base_url ep)) app))" for C R X J Es busy sid rq
  by unfold_locales (simp add: issue_round3_call_def committee_def)

interpretation refresh_round1: daemon_calls "refresh_round1_call X (committee C R X J Es busy) sid h kappa" "read_refresh_round1 X sid"
    "\<lambda>ep. refresh_round1 C R X J (Es (ep_base_url ep)) h kappa" for C R X J Es busy sid h kappa
  by unfold_locales (simp add: refresh_round1_call_def committee_def)

interpretation refresh_round5: daemon_calls "refresh_round5_call X (committee C R X J Es busy) sid rq" "read_refresh_round5 X sid"
    "\<lambda>ep app. refresh_round5 C X (Es (ep_base_url ep)) rq (snd (api_run C R X J (busy (ep_base_url ep)) app))" for C R X J Es busy sid rq
  by unfold_locales (simp add: refresh_round5_call_def committee_def)

section \<open>What a busy daemon keeps\<close>

text \<open>Requests that do not replace the share in memory.\<close>

definition keeps_share :: "request_env \<times> api_request \<Rightarrow> bool" where
  "keeps_share x =
     (case snd x of PostDkgFinalize _ \<Rightarrow> False | PostReshareFinalize _ \<Rightarrow> False | PostAdminReloadShare _ \<Rightarrow> False | _ \<Rightarrow> True)"

lemma loaded_share_simps [simp]:
  "loaded_share (tlog C X J E app ev) = loaded_share app"
  "loaded_share (app\<lparr>app_rng := r\<rparr>) = loaded_share app" "loaded_share (app\<lparr>app_sign_sessions := t\<rparr>) = loaded_share app"
  "loaded_share (app\<lparr>app_refresh_sessions := t'\<rparr>) = loaded_share app" "loaded_share (app\<lparr>app_dkg_sessions := d\<rparr>) = loaded_share app"
  "loaded_share (app\<lparr>app_reshare_sessions := rs\<rparr>) = loaded_share app"
  "loaded_share (app\<lparr>app_state := (app_state app')\<lparr>vst_sign_session_counter := n\<rparr>\<rparr>) = loaded_share app'"
  "loaded_share (app\<lparr>app_state := (app_state app')\<lparr>vst_refresh_session_counter := n\<rparr>\<rparr>) = loaded_share app'"
  "loaded_share (app\<lparr>app_state := (app_state app')\<lparr>vst_health_probes_served := n\<rparr>\<rparr>) = loaded_share app'"
  by (simp_all add: loaded_share_def)

lemmas share_frame = or_return_frame [where P = "\<lambda>a. loaded_share a = loaded_share app" for app]

lemma handlers_keep_share:
  "loaded_share (snd (health app)) = loaded_share app"
  "loaded_share (snd (sign_round1 C R X J E h app)) = loaded_share app"
  "loaded_share (snd (sign_round3 C X rq3 app)) = loaded_share app"
  "loaded_share (snd (refresh_round1 C R X J E h kappa app)) = loaded_share app"
  "loaded_share (snd (refresh_round5 C X E rq5 app)) = loaded_share app"
  "loaded_share (snd (dkg_start_handler C R X J E dreq app)) = loaded_share app"
  "loaded_share (snd (dkg_contribute_handler C X creq app)) = loaded_share app"
  "loaded_share (snd (reshare_start_handler C R X J E cid app)) = loaded_share app"
  "loaded_share (snd (reshare_contribute_handler C X creq app)) = loaded_share app"
  unfolding health_def sign_round1_def sign_round3_def refresh_round1_def refresh_round5_def dkg_start_handler_def
    dkg_contribute_handler_def reshare_start_handler_def reshare_contribute_handler_def Let_def case_prod_beta
  by (auto intro!: share_frame)

lemma api_step_share: "keeps_share (E, req) \<Longrightarrow> loaded_share (snd (api_step C R X J E req app)) = loaded_share app"
  by (cases req) (auto simp: keeps_share_def api_step_def handlers_keep_share Let_def case_prod_beta)

lemma api_run_share: "\<forall>x \<in> set reqs. keeps_share x \<Longrightarrow> loaded_share (snd (api_run C R X J reqs app)) = loaded_share app"
proof (induction reqs arbitrary: app)
  case (Cons x reqs)
  obtain E req where x: "x = (E, req)" by force
  show ?case using Cons.IH [of "snd (api_step C R X J E req app)"] Cons.prems api_step_share [of E req C R X J app]
    by (simp add: x Let_def case_prod_beta)
qed simp

section \<open>Issuance by a committee\<close>

lemma hex_roundtrips:
  assumes "libs_ok X"
  shows "length bs = 32 \<Longrightarrow> wallet_decode_hex32 X (hex_encode X bs) = Ok bs"
    and "length bs = 32 \<Longrightarrow> decode_hex32 X (hex_encode X bs) = Ok bs"
    and "length bs = 64 \<Longrightarrow> decode_hex64 X (hex_encode X bs) = Ok bs"
    and "length (session_bytes sid) = 16 \<Longrightarrow> decode_session_id X (hex_encode X (session_bytes sid)) = Ok sid"
proof -
  have "hex_decode X (hex_encode X bs) = Some bs" for bs using assms unfolding libs_ok_def by blast
  then show "length bs = 32 \<Longrightarrow> wallet_decode_hex32 X (hex_encode X bs) = Ok bs"
    and "length bs = 32 \<Longrightarrow> decode_hex32 X (hex_encode X bs) = Ok bs"
    and "length bs = 64 \<Longrightarrow> decode_hex64 X (hex_encode X bs) = Ok bs"
    and "length (session_bytes sid) = 16 \<Longrightarrow> decode_session_id X (hex_encode X (session_bytes sid)) = Ok sid"
    by (simp_all add: wallet_decode_hex32_def decode_hex32_def decode_hex64_def decode_session_id_def)
qed

text \<open>The daemon behind an endpoint is loaded with the endpoint's share of the polynomial \<open>F\<close>.\<close>

definition holds_share :: "('s::field, 'p) crypto \<Rightarrow> 's list \<Rightarrow> validator_endpoint \<Rightarrow> ('s, 'p, 'r) app_state \<Rightarrow> bool" where
  "holds_share C F ep app \<longleftrightarrow> (\<exists>share. loaded_share app = Ok share \<and> sr_my_index share = ep_my_index ep \<and>
     sr_my_share_bytes share = scalar_to_bytes C (horner_eval_scalar F (scalar_from (ep_my_index ep))))"

lemma sign_round1_fresh:
  assumes "decode_session_id X h = Ok sid" and "loaded_share app = Ok share" and "map_of (app_sign_sessions app) sid = None"
  shows "\<exists>app1. sign_round1 C R X J E h app =
       (Ok \<lparr>s1_from_index = sr_my_index share, s1_session_id_hex = hex_encode X (session_bytes sid),
            s1_r_i_hex = hex_encode X (r1o_r_i (fst (fst (validator_round1 C R sid (sr_my_index share) (app_rng app)))))\<rparr>, app1) \<and>
     map_of (app_sign_sessions app1) sid =
       Some \<lparr>sse_state = snd (fst (validator_round1 C R sid (sr_my_index share) (app_rng app))), sse_created_at = re_instant E\<rparr>"
  using assms
  by (simp add: sign_round1_def Let_def case_prod_beta SignSessions_insert_def hm_contains_key_def validator_round1_fst)

lemma sign_round1_committee:
  fixes C :: "('s::field, 'p::ab_group_add) crypto"
  assumes X: "libs_ok X" and sid: "length (session_bytes sid) = 16" and "tables_ok app" and "holds_share C F ep app"
    and "map_of (app_sign_sessions app) sid = None"
  shows "\<exists>app1. sign_round1 C R X J E (hex_encode X (session_bytes sid)) app =
       (Ok \<lparr>s1_from_index = ep_my_index ep, s1_session_id_hex = hex_encode X (session_bytes sid),
            s1_r_i_hex = hex_encode X (r1o_r_i (fst (fst (validator_round1 C R sid (ep_my_index ep) (app_rng app)))))\<rparr>, app1) \<and>
     map_of (app_sign_sessions app1) sid =
       Some \<lparr>sse_state = snd (fst (validator_round1 C R sid (ep_my_index ep) (app_rng app))), sse_created_at = re_instant E\<rparr> \<and>
     tables_ok app1 \<and> holds_share C F ep app1"
proof -
  let ?h = "hex_encode X (session_bytes sid)"
  obtain share where share: "loaded_share app = Ok share" "sr_my_index share = ep_my_index ep"
    using assms(4) by (auto simp: holds_share_def)
  obtain app1 where app1: "sign_round1 C R X J E ?h app =
       (Ok \<lparr>s1_from_index = ep_my_index ep, s1_session_id_hex = ?h,
            s1_r_i_hex = hex_encode X (r1o_r_i (fst (fst (validator_round1 C R sid (ep_my_index ep) (app_rng app)))))\<rparr>, app1)"
    "map_of (app_sign_sessions app1) sid =
       Some \<lparr>sse_state = snd (fst (validator_round1 C R sid (ep_my_index ep) (app_rng app))), sse_created_at = re_instant E\<rparr>"
    using sign_round1_fresh [OF hex_roundtrips(4) [OF X sid] share(1) assms(5), of C R J E] share(2) by auto
  moreover have "tables_ok app1"
    using api_step_tables_ok [OF assms(3), of C R X J E "PostSignRound1 ?h"] app1(1) by (simp add: api_step_def)
  moreover have "holds_share C F ep app1"
    using handlers_keep_share(2) [of C R X J E ?h app] assms(4) app1(1) by (simp add: holds_share_def)
  ultimately show ?thesis by blast
qed

lemma partial_sign_fields:
  "partial_sign C st ch sk S = Ok out \<Longrightarrow> r3o_from_index out = r1s_my_index st \<and> r3o_session_id out = r1s_session_id st \<and>
     (curve_ok C \<longrightarrow> length (r3o_s_i out) = 32)"
  by (auto simp: partial_sign_def)

lemma sign_round3_committee:
  fixes C :: "('s::field, 'p::ab_group_add) crypto"
  assumes ok: "curve_ok C" and X: "libs_ok X" and sid: "length (session_bytes sid) = 16" and "tables_ok app1" and "holds_share C F ep app1"
    and e: "map_of (app_sign_sessions app1) sid = Some e"
      "sse_state e = snd (fst (validator_round1 C R sid (ep_my_index ep) r))"
    and reqs: "\<forall>x \<in> set reqs. leaves_session X sid (sse_created_at e) x \<and> keeps_share x"
    and out: "partial_sign C (sse_state e) ch (SecretKey (horner_eval_scalar F (scalar_from (ep_my_index ep)))) S = Ok out"
    and c: "length (bch_c ch) = 32"
  shows "read_sign_round3 X sid ep (http_answer (fst (sign_round3 C X \<lparr>s3_session_id_hex = hex_encode X (session_bytes sid),
     s3_signing_set = S, s3_challenge_hex = hex_encode X (bch_c ch)\<rparr> (snd (api_run C R X J reqs app1))))) = Ok out"
proof -
  obtain share where share: "loaded_share app1 = Ok share" "sr_my_index share = ep_my_index ep"
    "sr_my_share_bytes share = scalar_to_bytes C (horner_eval_scalar F (scalar_from (ep_my_index ep)))"
    using assms(5) by (auto simp: holds_share_def)
  obtain trs app2 where run: "api_run C R X J reqs app1 = (trs, app2)" by force
  have out': "partial_sign C (sse_state e) \<lparr>bch_c = bch_c ch\<rparr> (SecretKey (horner_eval_scalar F (scalar_from (ep_my_index ep)))) S = Ok out"
    using out by (cases ch) simp
  have "map_of (app_sign_sessions app2) sid = Some e"
    using api_run_leaves_session [OF assms(4) e(1) _ run] reqs by blast
  moreover have "loaded_share app2 = Ok share" using api_run_share [of reqs C R X J app1] reqs run share(1) by simp
  moreover have "SecretKey_from_bytes C (sr_my_share_bytes share) = Ok (SecretKey (horner_eval_scalar F (scalar_from (ep_my_index ep))))"
    using ok share(3) by (simp add: SecretKey_from_bytes_def)
  ultimately have "fst (sign_round3 C X \<lparr>s3_session_id_hex = hex_encode X (session_bytes sid), s3_signing_set = S,
      s3_challenge_hex = hex_encode X (bch_c ch)\<rparr> app2) = Ok \<lparr>s3r_from_index = r3o_from_index out,
      s3r_session_id_hex = hex_encode X (session_bytes (r3o_session_id out)), s3r_s_i_hex = hex_encode X (r3o_s_i out)\<rparr>"
    using out' by (intro sign_round3_reply) (simp_all add: hex_roundtrips [OF X] sid c)
  moreover have "r3o_from_index out = ep_my_index ep" "r3o_session_id out = sid" "length (r3o_s_i out) = 32"
    using partial_sign_fields [OF out] ok by (simp_all add: e(2) validator_round1_fst)
  ultimately show ?thesis by (simp add: run read_sign_round3_def hex_roundtrips [OF X])
qed

lemma read_sign_round1_answer:
  "libs_ok X \<Longrightarrow> length r_i = 32 \<Longrightarrow>
   read_sign_round1 X sid ep (http_answer (Ok \<lparr>s1_from_index = ep_my_index ep, s1_session_id_hex = h, s1_r_i_hex = hex_encode X r_i\<rparr>)) =
     Ok \<lparr>r1o_from_index = ep_my_index ep, r1o_session_id = sid, r1o_r_i = r_i\<rparr>"
  by (simp add: read_sign_round1_def hex_roundtrips)

lemma map_of_keyed: "distinct (map f xs) \<Longrightarrow> x \<in> set xs \<Longrightarrow> map_of (map (\<lambda>x. (f x, g x)) xs) (f x) = Some (g x)"
  by (rule map_of_is_SomeI) (auto simp: comp_def)

lemma blind_request_challenge:
  "blind_request C R commit pk msg r = Ok ((ch, ust), r2) \<Longrightarrow> curve_ok C \<Longrightarrow> length (bch_c ch) = 32"
  by (auto simp: blind_request_def Let_def case_prod_beta)

lemma committee_issues_coin:
  fixes C :: "('s::field, 'p::ab_group_add) crypto"
  assumes ok: "curve_ok C" and big: "large_field TYPE('s)" and X: "libs_ok X" and sid: "length (session_bytes sid) = 16"
    and pool: "distinct (pool_signing_set pool)" "0 \<notin> set (pool_signing_set pool)" "length F \<le> length (wcp_endpoints pool)"
      "distinct (map ep_base_url (wcp_endpoints pool))"
    and pk: "pk = PublicKey (compress C (mulG C (horner_eval_scalar F 0)))"
    and daemons: "\<forall>ep \<in> set (wcp_endpoints pool). tables_ok (w (ep_base_url ep)) \<and> holds_share C F ep (w (ep_base_url ep)) \<and>
        map_of (app_sign_sessions (w (ep_base_url ep))) sid = None"
    and busy: "\<forall>url. \<forall>x \<in> set (busy url). leaves_session X sid (re_instant (Es url)) x \<and> keeps_share x"
  shows "\<exists>coin rw'. issue_coin C R X (committee C R X J Es busy) pool pk sid (r, w) = (Ok coin, rw') \<and>
     coin_ok C coin \<and> Coin_verify C coin pk = Ok True"
proof -
  let ?eps = "wcp_endpoints pool" and ?S = "pool_signing_set pool" and ?N = "committee C R X J Es busy"
  let ?h = "hex_encode X (session_bytes sid)"
  define rs where "rs i = app_rng (w (the (map_of (map (\<lambda>ep. (ep_my_index ep, ep_base_url ep)) ?eps) i)))" for i
  have rs: "rs (ep_my_index ep) = app_rng (w (ep_base_url ep))" if "ep \<in> set ?eps" for ep
    using that pool(1) by (simp add: rs_def pool_signing_set_def map_of_keyed)
  let ?v1 = "\<lambda>i. fst (validator_round1 C R sid i (rs i))"
  let ?e = "\<lambda>ep. \<lparr>sse_state = snd (?v1 (ep_my_index ep)), sse_created_at = re_instant (Es (ep_base_url ep))\<rparr>"
  have len: "length F \<le> length ?S" using pool(3) by (simp add: pool_signing_set_def)
  obtain x r1 where key: "random_scalar R r = (x, r1)" by force
  let ?cp = "compress C (mulG C x)"
  obtain commit ch ust r2 resp sig r3 where run: "aggregate_commitments C sid ?S (map (\<lambda>i. fst (?v1 i)) ?S) = Ok commit"
    "blind_request C R commit pk ?cp r1 = Ok ((ch, ust), r2)"
    "\<forall>i \<in> set ?S. partial_sign C (snd (?v1 i)) ch (SecretKey (horner_eval_scalar F (scalar_from i))) ?S = Ok (r3 i)"
    "aggregate_responses C sid ?S (map r3 ?S) = Ok resp" "unblind C ust resp = Ok sig" "schnorr_verify C pk ?cp sig = Ok True"
    using threshold_signing [OF ok big pool(1,2) len pool(1) refl pool(1) refl pk, of sid R rs ?cp r1] by (elim exE conjE)
  have r1: "\<exists>app1. sign_round1 C R X J (Es (ep_base_url ep)) ?h (w (ep_base_url ep)) =
       (Ok \<lparr>s1_from_index = ep_my_index ep, s1_session_id_hex = ?h, s1_r_i_hex = hex_encode X (r1o_r_i (fst (?v1 (ep_my_index ep))))\<rparr>, app1) \<and>
     map_of (app_sign_sessions app1) sid = Some (?e ep) \<and> tables_ok app1 \<and> holds_share C F ep app1" if ep: "ep \<in> set ?eps" for ep
    using sign_round1_committee [OF X sid, of "w (ep_base_url ep)" C F ep R J "Es (ep_base_url ep)"] daemons rs [OF ep] ep by simp
  have "read_sign_round1 X sid ep (http_answer (fst (sign_round1 C R X J (Es (ep_base_url ep)) ?h (w (ep_base_url ep))))) =
      Ok (fst (?v1 (ep_my_index ep)))" if "ep \<in> set ?eps" for ep
    using r1 [OF that] read_sign_round1_answer [OF X, of "r1o_r_i (fst (?v1 (ep_my_index ep)))" sid ep ?h] ok
    by (auto simp: validator_round1_fst)
  with issue_round1.all_answered [OF pool(4), where X = X and sid = sid and w = w and C = C and R = R and J = J and Es = Es and h = ?h
      and busy = busy and f = "\<lambda>ep. fst (?v1 (ep_my_index ep))"]
  obtain w1 where w1: "try_join_all (issue_round1_call X ?N sid ?h) ?eps w = (Ok (map (\<lambda>ep. fst (?v1 (ep_my_index ep))) ?eps), w1)"
    "\<forall>ep \<in> set ?eps. w1 (ep_base_url ep) = snd (sign_round1 C R X J (Es (ep_base_url ep)) ?h (w (ep_base_url ep)))" by blast
  let ?rq = "\<lparr>s3_session_id_hex = ?h, s3_signing_set = ?S, s3_challenge_hex = hex_encode X (bch_c ch)\<rparr>"
  have "read_sign_round3 X sid ep (http_answer (fst (sign_round3 C X ?rq (snd (api_run C R X J (busy (ep_base_url ep)) (w1 (ep_base_url ep))))))) =
      Ok (r3 (ep_my_index ep))" if ep: "ep \<in> set ?eps" for ep
  proof (rule sign_round3_committee [OF ok X sid])
    show "map_of (app_sign_sessions (w1 (ep_base_url ep))) sid = Some (?e ep)" "tables_ok (w1 (ep_base_url ep))"
      "holds_share C F ep (w1 (ep_base_url ep))" using r1 [OF ep] w1(2) ep by force+
    show "partial_sign C (sse_state (?e ep)) ch (SecretKey (horner_eval_scalar F (scalar_from (ep_my_index ep)))) ?S = Ok (r3 (ep_my_index ep))"
      using run(3) ep by (simp add: pool_signing_set_def)
  qed (use busy blind_request_challenge [OF run(2) ok] in simp_all)
  with issue_round3.all_answered [OF pool(4), where X = X and sid = sid and w = w1 and C = C and R = R and J = J and Es = Es and rq = ?rq
      and busy = busy and f = "\<lambda>ep. r3 (ep_my_index ep)"]
  obtain w2 where w2: "try_join_all (issue_round3_call X ?N sid ?rq) ?eps w1 = (Ok (map (\<lambda>ep. r3 (ep_my_index ep)) ?eps), w2)" by blast
  show ?thesis
    using run w1(1) w2
    by (simp add: issue_coin_def Let_def key SecretKey_random_def Coin_new_def pool_signing_set_def comp_def coin_ok_def Coin_verify_def
        PublicKey_from_secret_def)
qed

section \<open>A committee for the witnesses\<close>

definition sample_pool :: wallet_client_pool where
  "sample_pool = \<lparr>wcp_endpoints = [\<lparr>ep_my_index = 3, ep_base_url = ''v3''\<rparr>, \<lparr>ep_my_index = 1, ep_base_url = ''v1''\<rparr>]\<rparr>"

definition sample_fleet :: "(gf, gf, gf list) fleet" where
  "sample_fleet url =
     (let i = (if url = ''v3'' then 3 else 1) :: u16
      in sample_app\<lparr>app_state := (app_state sample_app)\<lparr>vst_share := Some (sample_share\<lparr>sr_my_index := i,
           sr_my_share_bytes := scalar_to_bytes gf_curve (horner_eval_scalar [5, 3] (scalar_from i))\<rparr>)\<rparr>\<rparr>)"

lemma sample_fleet_ready:
  assumes "ep \<in> set (wcp_endpoints sample_pool)"
  shows "tables_ok (sample_fleet (ep_base_url ep))" "holds_share gf_curve [5, 3] ep (sample_fleet (ep_base_url ep))"
    "app_sign_sessions (sample_fleet (ep_base_url ep)) = []" "app_refresh_sessions (sample_fleet (ep_base_url ep)) = []"
    "app_config (sample_fleet (ep_base_url ep)) = sample_config"
  using assms
  by (auto simp: sample_fleet_def sample_pool_def sample_app_def tables_ok_def holds_share_def loaded_share_def Let_def)

section \<open>Properties\<close>

text \<open>
  C6. Issuance works over the network: let a wallet hold a pool of validators at different URLs whose
  daemons are loaded with shares of the joint secret, at least as many as the threshold. Then
  \<open>issue_coin\<close> returns a coin that belongs to its secret and verifies under the joint key, also when each
  daemon serves any other requests between the two rounds, short of consuming this session, pruning it
  past its lifetime or replacing its share.
\<close>

theorem wallet_issues_coin:
  fixes C :: "('s::field, 'p::ab_group_add) crypto"
  assumes "curve_ok C" and "large_field TYPE('s)" and "libs_ok X" and "length (session_bytes sid) = 16"
    and "distinct (pool_signing_set pool)" and "0 \<notin> set (pool_signing_set pool)" and "length F \<le> length (wcp_endpoints pool)"
    and "distinct (map ep_base_url (wcp_endpoints pool))"
    and "pk = PublicKey (compress C (mulG C (horner_eval_scalar F 0)))"
    and "\<forall>ep \<in> set (wcp_endpoints pool). tables_ok (w (ep_base_url ep)) \<and> holds_share C F ep (w (ep_base_url ep)) \<and>
        map_of (app_sign_sessions (w (ep_base_url ep))) sid = None"
    and "\<forall>url. \<forall>x \<in> set (busy url). leaves_session X sid (re_instant (Es url)) x \<and> keeps_share x"
  shows "\<exists>coin rw'. issue_coin C R X (committee C R X J Es busy) pool pk sid (r, w) = (Ok coin, rw') \<and>
     coin_ok C coin \<and> Coin_verify C coin pk = Ok True"
  using assms by (rule committee_issues_coin)

theorem wallet_issues_coin_witness:
  "\<exists>coin rw'. issue_coin gf_curve tape_rng sample_libs
       (committee gf_curve tape_rng sample_libs sample_json (\<lambda>_. sample_env) (\<lambda>_. [(sample_env, GetHealth), (sample_env, PostSignRound1 ''zz'')]))
       sample_pool (PublicKey (compress gf_curve (mulG gf_curve (horner_eval_scalar [5, 3] 0)))) (SessionId (replicate 16 7))
       ([6, 7, 8], sample_fleet) = (Ok coin, rw') \<and>
     coin_ok gf_curve coin \<and> Coin_verify gf_curve coin (PublicKey (compress gf_curve (mulG gf_curve (horner_eval_scalar [5, 3] 0)))) = Ok True"
proof (rule wallet_issues_coin [OF curve_ok_gf large_field_gf libs_ok_sample])
  show "\<forall>ep \<in> set (wcp_endpoints sample_pool). tables_ok (sample_fleet (ep_base_url ep)) \<and> holds_share gf_curve [5, 3] ep (sample_fleet (ep_base_url ep)) \<and>
      map_of (app_sign_sessions (sample_fleet (ep_base_url ep))) (SessionId (replicate 16 7)) = None"
    using sample_fleet_ready by simp
qed (simp_all add: pool_signing_set_def sample_pool_def leaves_session_def keeps_share_def)

end
