(* ===== verification/Wallet_Refresh.thy ===== *)
theory Wallet_Refresh
  imports Wallet
begin

text \<open>
  The refresh conversation of a wallet with a committee of daemons (\<open>refresh.rs\<close> of \<open>tardus-wallet\<close> with
  the handlers of \<open>api.rs\<close>): what a daemon keeps of an open refresh session while it serves others, and
  that the conversation of an honest wallet ends with a valid coin.
\<close>

section \<open>Open refresh sessions\<close>

text \<open>Requests that leave the refresh session \<open>sid\<close>, opened at time \<open>t0\<close>, in the table.\<close>

definition leaves_refresh_session :: "libs \<Rightarrow> session_id \<Rightarrow> nat \<Rightarrow> request_env \<times> api_request \<Rightarrow> bool" where
  "leaves_refresh_session X sid t0 = (\<lambda>(E, req).
     case req of
       PostRefreshRound5 rq \<Rightarrow> decode_session_id X (f5_session_id_hex rq) \<noteq> Ok sid
     | RefreshPruneTick \<Rightarrow> re_instant E - t0 < DEFAULT_REFRESH_TTL
     | _ \<Rightarrow> True)"

lemma refresh_round5_other_session:
  assumes "decode_session_id X (f5_session_id_hex rq) \<noteq> Ok sid"
  shows "map_of (app_refresh_sessions (snd (refresh_round5 C X E rq app))) sid = map_of (app_refresh_sessions app) sid"
  unfolding refresh_round5_def Let_def case_prod_beta
  by (intro or_return_frame [where P = "\<lambda>a. map_of (app_refresh_sessions a) sid = map_of (app_refresh_sessions app) sid"])
    (use assms in \<open>auto simp: RefreshSessions_take_def
       intro!: or_return_frame [where P = "\<lambda>a. map_of (app_refresh_sessions a) sid = map_of (app_refresh_sessions app) sid"]\<close>)

lemma sign_handlers_keep_refresh_table:
  "app_refresh_sessions (snd (sign_round1 C R X J E h app)) = app_refresh_sessions app"
  "app_refresh_sessions (snd (sign_round3 C X rq app)) = app_refresh_sessions app"
  unfolding sign_round1_def sign_round3_def Let_def case_prod_beta
  by (auto intro!: or_return_frame [where P = "\<lambda>a. app_refresh_sessions a = app_refresh_sessions app"])

lemma refresh_round1_keeps_session:
  assumes "map_of (app_refresh_sessions app) sid = Some e"
  shows "map_of (app_refresh_sessions (snd (refresh_round1 C R X J E h kappa app))) sid = Some e"
  unfolding refresh_round1_def Let_def case_prod_beta
  by (intro or_return_frame [where P = "\<lambda>a. map_of (app_refresh_sessions a) sid = Some e"])
    (use assms in \<open>auto simp: RefreshSessions_insert_def hm_contains_key_def
       intro!: or_return_frame [where P = "\<lambda>a. map_of (app_refresh_sessions a) sid = Some e"]\<close>)

lemma ceremony_refresh_frames:
  "sessions_of app = sessions_of app' \<Longrightarrow> app_refresh_sessions app = app_refresh_sessions app'"
  by (simp add: sessions_of_def)

lemmas ceremony_keeps_refresh_table = ceremony_frames [THEN ceremony_refresh_frames]

lemma api_step_leaves_refresh_session:
  assumes "hm_ok (app_refresh_sessions app)" and "map_of (app_refresh_sessions app) sid = Some e"
    and "leaves_refresh_session X sid (rse_created_at e) (E, req)"
  shows "map_of (app_refresh_sessions (snd (api_step C R X J E req app))) sid = Some e"
proof (cases req)
  case (PostRefreshRound1 h kappa)
  then show ?thesis using refresh_round1_keeps_session [OF assms(2)] by (simp add: api_step_def)
next
  case (PostRefreshRound5 rq)
  then show ?thesis using assms refresh_round5_other_session [of X rq sid C E app] by (simp add: api_step_def leaves_refresh_session_def)
next
  case RefreshPruneTick
  then show ?thesis using assms
    by (simp add: api_step_def leaves_refresh_session_def RefreshSessions_prune_def Let_def map_of_hm_retain case_prod_beta)
qed (use assms in \<open>simp_all add: api_step_def Let_def case_prod_beta sign_handlers_keep_refresh_table ceremony_keeps_refresh_table\<close>)

lemma api_run_leaves_refresh_session:
  assumes "tables_ok app" and "map_of (app_refresh_sessions app) sid = Some e"
    and "\<forall>x \<in> set reqs. leaves_refresh_session X sid (rse_created_at e) x"
  shows "map_of (app_refresh_sessions (snd (api_run C R X J reqs app))) sid = Some e"
  using assms
proof (induction reqs arbitrary: app)
  case (Cons x reqs)
  obtain E req where x: "x = (E, req)" by force
  obtain reply app1 where st: "api_step C R X J E req app = (reply, app1)" by force
  have "tables_ok app1" using api_step_tables_ok [OF Cons.prems(1) st] .
  moreover have "map_of (app_refresh_sessions app1) sid = Some e"
    using api_step_leaves_refresh_session [of app sid e X E req C R J] Cons.prems st by (simp add: x tables_ok_def)
  ultimately show ?case using Cons.IH [of app1] Cons.prems(3) by (simp add: x st Let_def case_prod_beta)
qed simp

section \<open>The configuration never changes\<close>

lemma sessions_of_config: "sessions_of app = sessions_of app' \<Longrightarrow> app_config app = app_config app'"
  by (simp add: sessions_of_def)

lemma handlers_keep_config:
  "app_config (snd (sign_round1 C R X J E h app)) = app_config app"
  "app_config (snd (sign_round3 C X rq3 app)) = app_config app"
  "app_config (snd (refresh_round1 C R X J E h kappa app)) = app_config app"
  "app_config (snd (refresh_round5 C X E rq5 app)) = app_config app"
  unfolding sign_round1_def sign_round3_def refresh_round1_def refresh_round5_def Let_def case_prod_beta
  by (auto intro!: or_return_frame [where P = "\<lambda>a. app_config a = app_config app"])

lemma api_step_config: "app_config (snd (api_step C R X J E req app)) = app_config app"
  by (cases req)
    (simp_all add: api_step_def Let_def case_prod_beta handlers_keep_config ceremony_frames [THEN sessions_of_config])

lemma api_run_config: "app_config (snd (api_run C R X J reqs app)) = app_config app"
proof (induction reqs arbitrary: app)
  case (Cons x reqs)
  obtain E req where x: "x = (E, req)" by force
  then show ?case using Cons.IH [of "snd (api_step C R X J E req app)"] by (simp add: x Let_def case_prod_beta api_step_config)
qed simp

section \<open>The rounds at one daemon\<close>

lemma decode_lists:
  assumes "libs_ok X" and "\<forall>bs \<in> set bss. length bs = 32"
  shows "wallet_decode_all X (map (hex_encode X) bss) = Ok bss" and "decode_all X (map (hex_encode X) bss) = Ok bss"
  using assms(2) by (induction bss) (simp_all add: hex_roundtrips [OF assms(1)])

lemma refresh_round1_committee:
  fixes C :: "('s::field, 'p::ab_group_add) crypto"
  assumes X: "libs_ok X" and sid: "length (session_bytes sid) = 16" and "tables_ok app" and share: "holds_share C F ep app"
    and "map_of (app_refresh_sessions app) sid = None" and kappa: "kappa \<noteq> 0"
    and v1: "validator_refresh_round1 C R sid (ep_my_index ep) kappa (app_rng app) = Ok ((out, st), r')"
  shows "\<exists>app1. refresh_round1 C R X J E (hex_encode X (session_bytes sid)) kappa app =
       (Ok \<lparr>f1_from_index = ep_my_index ep, f1_session_id_hex = hex_encode X (session_bytes sid), f1_kappa = kappa,
            f1_r_per_candidate_hex = map (hex_encode X) (vr1_r_per_candidate out)\<rparr>, app1) \<and>
     map_of (app_refresh_sessions app1) sid = Some \<lparr>rse_state = st, rse_created_at = re_instant E\<rparr> \<and>
     tables_ok app1 \<and> holds_share C F ep app1 \<and> app_config app1 = app_config app"
proof -
  let ?h = "hex_encode X (session_bytes sid)"
  obtain share where "loaded_share app = Ok share" "sr_my_index share = ep_my_index ep"
    using share by (auto simp: holds_share_def)
  moreover have "vrs_session_id st = sid" "vr1_session_id out = sid" "vr1_from_index out = ep_my_index ep"
    using v1 by (auto simp: validator_refresh_round1_def Let_def split: if_splits prod.splits)
  ultimately obtain app1 where app1: "refresh_round1 C R X J E ?h kappa app =
       (Ok \<lparr>f1_from_index = ep_my_index ep, f1_session_id_hex = ?h, f1_kappa = kappa,
            f1_r_per_candidate_hex = map (hex_encode X) (vr1_r_per_candidate out)\<rparr>, app1)"
    "map_of (app_refresh_sessions app1) sid = Some \<lparr>rse_state = st, rse_created_at = re_instant E\<rparr>"
    using assms by (simp add: refresh_round1_def hex_roundtrips Let_def case_prod_beta RefreshSessions_insert_def hm_contains_key_def)
  moreover have "tables_ok app1"
    using api_step_tables_ok [OF assms(3), of C R X J E "PostRefreshRound1 ?h kappa"] app1(1) by (simp add: api_step_def)
  moreover have "holds_share C F ep app1" "app_config app1 = app_config app"
    using handlers_keep_share(4) [of C R X J E ?h kappa app] handlers_keep_config(3) [of C R X J E ?h kappa app] share app1(1)
    by (simp_all add: holds_share_def)
  ultimately show ?thesis by blast
qed

lemma refresh_round5_committee:
  fixes C :: "('s::field, 'p::ab_group_add) crypto"
  assumes ok: "curve_ok C" and X: "libs_ok X" and sid: "length (session_bytes sid) = 16" and tok: "tables_ok app1"
    and share: "holds_share C F ep app1"
    and e: "map_of (app_refresh_sessions app1) sid = Some \<lparr>rse_state = st, rse_created_at = t0\<rparr>"
    and st: "vrs_session_id st = sid" "vrs_my_index st = ep_my_index ep"
    and reqs: "\<forall>x \<in> set reqs. leaves_refresh_session X sid t0 x \<and> keeps_share x"
    and guard: "nullifier_guard C E (app_config app1) (ur2_melted_coin_pubkey ur2) = Ok ()"
    and ur2: "ur2_session_id ur2 = sid" "length (ur2_challenges ur2) = unat (ur2_kappa ur2)" "\<forall>c \<in> set (ur2_challenges ur2). length c = 32"
      "length (ur2_melted_coin_pubkey ur2) = 32" "length (sig_r (ur2_melted_coin_signature ur2)) = 32" "length (sig_s (ur2_melted_coin_signature ur2)) = 32"
    and ch: "mr3_session_id ch = sid" "1 \<le> unat (mr3_gamma_star ch)" "unat (mr3_gamma_star ch) \<le> unat (ur2_kappa ur2)"
    and out: "validator_refresh_round5 C st ur2 ch (SecretKey (horner_eval_scalar F (scalar_from (ep_my_index ep)))) S = Ok out"
  shows "read_refresh_round5 X sid ep (http_answer (fst (refresh_round5 C X E
     \<lparr>f5_session_id_hex = hex_encode X (session_bytes sid), f5_signing_set = S, f5_gamma_star = mr3_gamma_star ch,
      f5_user_challenges_hex = map (hex_encode X) (ur2_challenges ur2),
      f5_melted_coin_pubkey_hex = hex_encode X (ur2_melted_coin_pubkey ur2),
      f5_melted_coin_signature_hex = hex_encode X (Signature_to_bytes (ur2_melted_coin_signature ur2))\<rparr>
     (snd (api_run C R X J reqs app1))))) = Ok out"
proof -
  let ?app = "snd (api_run C R X J reqs app1)"
  let ?sk = "SecretKey (horner_eval_scalar F (scalar_from (ep_my_index ep)))"
  let ?out = "\<lparr>f5r_from_index = vr5_from_index out, f5r_session_id_hex = hex_encode X (session_bytes (vr5_session_id out)),
      f5r_s_partial_hex = hex_encode X (vr5_s_partial out)\<rparr>"
  obtain rec where rec: "loaded_share ?app = Ok rec" "sr_my_share_bytes rec = scalar_to_bytes C (horner_eval_scalar F (scalar_from (ep_my_index ep)))"
    using share api_run_share [of reqs C R X J app1] reqs by (auto simp: holds_share_def)
  have sk: "SecretKey_from_bytes C (sr_my_share_bytes rec) = Ok ?sk" using ok rec(2) by (simp add: SecretKey_from_bytes_def)
  have entry: "map_of (app_refresh_sessions ?app) sid = Some \<lparr>rse_state = st, rse_created_at = t0\<rparr>"
    using api_run_leaves_refresh_session [OF tok e] reqs by simp
  have sig: "length (Signature_to_bytes (ur2_melted_coin_signature ur2)) = 64"
    "Signature_from_bytes (Signature_to_bytes (ur2_melted_coin_signature ur2)) = ur2_melted_coin_signature ur2"
    using ur2(5,6) by (simp_all add: Signature_to_bytes_def Signature_from_bytes_def)
  have bounds: "unat (ur2_kappa ur2) < 256" "mr3_gamma_star ch \<noteq> 0" "\<not> ur2_kappa ur2 < mr3_gamma_star ch" "ur2_kappa ur2 \<noteq> 0"
    using unat_less [of "ur2_kappa ur2"] ch(2,3) by (auto simp: word_less_nat_alt)
  have ur2_eta: "\<lparr>ur2_session_id = sid, ur2_kappa = ur2_kappa ur2, ur2_challenges = ur2_challenges ur2,
      ur2_melted_coin_pubkey = ur2_melted_coin_pubkey ur2, ur2_melted_coin_signature = ur2_melted_coin_signature ur2\<rparr> = ur2"
    using ur2(1) by (cases ur2) simp
  have ch_eta: "\<lparr>mr3_session_id = sid, mr3_gamma_star = mr3_gamma_star ch\<rparr> = ch" using ch(1) by (cases ch) simp
  have "fst (refresh_round5 C X E
     \<lparr>f5_session_id_hex = hex_encode X (session_bytes sid), f5_signing_set = S, f5_gamma_star = mr3_gamma_star ch,
      f5_user_challenges_hex = map (hex_encode X) (ur2_challenges ur2),
      f5_melted_coin_pubkey_hex = hex_encode X (ur2_melted_coin_pubkey ur2),
      f5_melted_coin_signature_hex = hex_encode X (Signature_to_bytes (ur2_melted_coin_signature ur2))\<rparr> ?app) = Ok ?out"
    using sid ur2(2-4) sig bounds guard rec(1) sk entry out
    by (simp add: refresh_round5_def hex_roundtrips [OF X] decode_lists [OF X ur2(3)] api_run_config RefreshSessions_take_def
      hm_remove_def ur2_eta ch_eta Let_def)
  moreover have "vr5_from_index out = ep_my_index ep" "vr5_session_id out = sid" "length (vr5_s_partial out) = 32"
    using out st ok by (auto simp: validator_refresh_round5_def Let_def split: if_splits)
  ultimately show ?thesis by (simp add: read_refresh_round5_def hex_roundtrips [OF X])
qed

section \<open>Refresh by a committee\<close>

lemma user_refresh_candidates_length:
  "user_refresh_candidates C R agg P b gs r = Ok (cands, r') \<Longrightarrow> length cands = length gs"
  by (induction gs arbitrary: r cands r') (auto simp: Let_def case_prod_beta)

lemma user_refresh_round2_fields:
  assumes "user_refresh_round2 C R sid mr1 pk melted r = Ok ((ur2, ust), r')" and "curve_ok C"
  shows "ur2_session_id ur2 = sid \<and> ur2_kappa ur2 = mr1_kappa mr1 \<and> length (ur2_challenges ur2) = unat (ur2_kappa ur2) \<and>
     (\<forall>c \<in> set (ur2_challenges ur2). length c = 32) \<and> ur2_melted_coin_pubkey ur2 = coin_pubkey_bytes melted \<and>
     ur2_melted_coin_signature ur2 = coin_signature melted"
  using assms by (auto simp: user_refresh_round2_def Let_def dest!: user_refresh_candidates_length split: if_splits)

lemma mint_refresh_round3_fields:
  assumes "mint_refresh_round3 C sid ur2 pk = Ok ch" and "hash_ok C" and "ur2_kappa ur2 \<noteq> 0"
  shows "mr3_session_id ch = sid \<and> 1 \<le> unat (mr3_gamma_star ch) \<and> unat (mr3_gamma_star ch) \<le> unat (ur2_kappa ur2)"
  using assms compute_gamma_star_range [OF assms(2,3), of sid] by (auto simp: mint_refresh_round3_def split: if_splits)

lemma validator_refresh_round1_fields:
  assumes "validator_refresh_round1 C R sid i kappa r = Ok (x, r')"
  shows "vrs_session_id (snd x) = sid \<and> vrs_my_index (snd x) = i \<and> vr1_session_id (fst x) = sid \<and> vr1_from_index (fst x) = i \<and>
     (curve_ok C \<longrightarrow> (\<forall>bs \<in> set (vr1_r_per_candidate (fst x)). length bs = 32))"
  using assms by (auto simp: validator_refresh_round1_def Let_def split: if_splits prod.splits)

lemma read_refresh_round1_answer:
  "libs_ok X \<Longrightarrow> vr1_session_id out = sid \<Longrightarrow> vr1_from_index out = ep_my_index ep \<Longrightarrow> \<forall>bs \<in> set (vr1_r_per_candidate out). length bs = 32 \<Longrightarrow>
   read_refresh_round1 X sid ep (http_answer (Ok \<lparr>f1_from_index = ep_my_index ep, f1_session_id_hex = h, f1_kappa = kappa,
     f1_r_per_candidate_hex = map (hex_encode X) (vr1_r_per_candidate out)\<rparr>)) = Ok out"
  by (cases out) (simp add: read_refresh_round1_def decode_lists)

text \<open>The melted coin is the wallet's own, with a signature of the right size, and every daemon's guard lets it pass.\<close>

definition meltable ::
    "('s, 'p::plus) crypto \<Rightarrow> public_key \<Rightarrow> (string \<Rightarrow> request_env) \<Rightarrow> ('s, 'p, 'r) fleet \<Rightarrow> wallet_client_pool \<Rightarrow> 's coin \<Rightarrow> bool" where
  "meltable C pk Es w pool melted \<longleftrightarrow> coin_ok C melted \<and> Coin_verify C melted pk = Ok True \<and>
     length (sig_r (coin_signature melted)) = 32 \<and> length (sig_s (coin_signature melted)) = 32 \<and>
     (\<forall>ep \<in> set (wcp_endpoints pool). nullifier_guard C (Es (ep_base_url ep)) (app_config (w (ep_base_url ep))) (coin_pubkey_bytes melted) = Ok ())"

text \<open>The daemon behind \<open>ep\<close> has opened the session with the state \<open>st\<close>.\<close>

definition refresh_opened ::
    "('s::field, 'p) crypto \<Rightarrow> 's list \<Rightarrow> session_id \<Rightarrow> 's validator_refresh_state \<Rightarrow> nat \<Rightarrow> validator_config \<Rightarrow> validator_endpoint
     \<Rightarrow> ('s, 'p, 'r) app_state \<Rightarrow> bool" where
  "refresh_opened C F sid st t0 cfg ep app \<longleftrightarrow> tables_ok app \<and> holds_share C F ep app \<and> app_config app = cfg \<and>
     map_of (app_refresh_sessions app) sid = Some \<lparr>rse_state = st, rse_created_at = t0\<rparr>"

lemma pool_refresh_round1:
  fixes C :: "('s::field, 'p::ab_group_add) crypto"
  assumes ok: "curve_ok C" and X: "libs_ok X" and sid: "length (session_bytes sid) = 16" and kappa: "kappa \<noteq> 0"
    and urls: "distinct (map ep_base_url eps)"
    and daemons: "\<forall>ep \<in> set eps. tables_ok (w (ep_base_url ep)) \<and> holds_share C F ep (w (ep_base_url ep)) \<and>
        map_of (app_refresh_sessions (w (ep_base_url ep))) sid = None"
    and v1: "\<forall>ep \<in> set eps. validator_refresh_round1 C R sid (ep_my_index ep) kappa (app_rng (w (ep_base_url ep))) =
        Ok (v1 (ep_my_index ep), rs' (ep_my_index ep))"
  shows "\<exists>w1. try_join_all (refresh_round1_call X (committee C R X J Es busy) sid (hex_encode X (session_bytes sid)) kappa) eps w =
       (Ok (map (\<lambda>ep. fst (v1 (ep_my_index ep))) eps), w1) \<and>
     (\<forall>ep \<in> set eps. refresh_opened C F sid (snd (v1 (ep_my_index ep))) (re_instant (Es (ep_base_url ep)))
        (app_config (w (ep_base_url ep))) ep (w1 (ep_base_url ep)))"
proof -
  let ?h = "hex_encode X (session_bytes sid)"
  have r1: "\<exists>app1. refresh_round1 C R X J (Es (ep_base_url ep)) ?h kappa (w (ep_base_url ep)) =
       (Ok \<lparr>f1_from_index = ep_my_index ep, f1_session_id_hex = ?h, f1_kappa = kappa,
            f1_r_per_candidate_hex = map (hex_encode X) (vr1_r_per_candidate (fst (v1 (ep_my_index ep))))\<rparr>, app1) \<and>
     refresh_opened C F sid (snd (v1 (ep_my_index ep))) (re_instant (Es (ep_base_url ep))) (app_config (w (ep_base_url ep))) ep app1"
    if ep: "ep \<in> set eps" for ep
  proof -
    have "validator_refresh_round1 C R sid (ep_my_index ep) kappa (app_rng (w (ep_base_url ep))) =
      Ok ((fst (v1 (ep_my_index ep)), snd (v1 (ep_my_index ep))), rs' (ep_my_index ep))" using v1 ep by simp
    then show ?thesis
      using refresh_round1_committee [OF X sid, of "w (ep_base_url ep)" C F ep kappa R] daemons ep kappa
      unfolding refresh_opened_def by blast
  qed
  have "read_refresh_round1 X sid ep (http_answer (fst (refresh_round1 C R X J (Es (ep_base_url ep)) ?h kappa (w (ep_base_url ep))))) =
      Ok (fst (v1 (ep_my_index ep)))" if ep: "ep \<in> set eps" for ep
    using r1 [OF ep] v1 ep validator_refresh_round1_fields [of C R sid "ep_my_index ep" kappa] ok
      read_refresh_round1_answer [OF X, of "fst (v1 (ep_my_index ep))" sid ep ?h kappa] by fastforce
  with refresh_round1.all_answered [OF urls, where X = X and sid = sid and w = w and C = C and R = R and J = J and Es = Es
      and h = ?h and kappa = kappa and busy = busy and f = "\<lambda>ep. fst (v1 (ep_my_index ep))"]
  obtain w1 where w1: "try_join_all (refresh_round1_call X (committee C R X J Es busy) sid ?h kappa) eps w =
      (Ok (map (\<lambda>ep. fst (v1 (ep_my_index ep))) eps), w1)"
    "\<forall>ep \<in> set eps. w1 (ep_base_url ep) = snd (refresh_round1 C R X J (Es (ep_base_url ep)) ?h kappa (w (ep_base_url ep)))" by blast
  then show ?thesis using r1 by (intro exI [of _ w1] conjI ballI) force+
qed

lemma pool_refresh_round5:
  fixes C :: "('s::field, 'p::ab_group_add) crypto"
  assumes ok: "curve_ok C" and X: "libs_ok X" and sid: "length (session_bytes sid) = 16"
    and urls: "distinct (map ep_base_url eps)"
    and opened: "\<forall>ep \<in> set eps. refresh_opened C F sid (st (ep_my_index ep)) (re_instant (Es (ep_base_url ep))) (cfg ep) ep (w (ep_base_url ep))"
    and st: "\<forall>ep \<in> set eps. vrs_session_id (st (ep_my_index ep)) = sid \<and> vrs_my_index (st (ep_my_index ep)) = ep_my_index ep \<and>
      validator_refresh_round5 C (st (ep_my_index ep)) ur2 ch (SecretKey (horner_eval_scalar F (scalar_from (ep_my_index ep)))) S =
        Ok (r5 (ep_my_index ep))"
    and busy: "\<forall>url. \<forall>x \<in> set (busy url). leaves_refresh_session X sid (re_instant (Es url)) x \<and> keeps_share x"
    and guard: "\<forall>ep \<in> set eps. nullifier_guard C (Es (ep_base_url ep)) (cfg ep) (ur2_melted_coin_pubkey ur2) = Ok ()"
    and ur2: "ur2_session_id ur2 = sid" "length (ur2_challenges ur2) = unat (ur2_kappa ur2)" "\<forall>c \<in> set (ur2_challenges ur2). length c = 32"
      "length (ur2_melted_coin_pubkey ur2) = 32" "length (sig_r (ur2_melted_coin_signature ur2)) = 32" "length (sig_s (ur2_melted_coin_signature ur2)) = 32"
    and ch: "mr3_session_id ch = sid" "1 \<le> unat (mr3_gamma_star ch)" "unat (mr3_gamma_star ch) \<le> unat (ur2_kappa ur2)"
  shows "\<exists>w'. try_join_all (refresh_round5_call X (committee C R X J Es busy) sid
     \<lparr>f5_session_id_hex = hex_encode X (session_bytes sid), f5_signing_set = S, f5_gamma_star = mr3_gamma_star ch,
      f5_user_challenges_hex = map (hex_encode X) (ur2_challenges ur2),
      f5_melted_coin_pubkey_hex = hex_encode X (ur2_melted_coin_pubkey ur2),
      f5_melted_coin_signature_hex = hex_encode X (Signature_to_bytes (ur2_melted_coin_signature ur2))\<rparr>) eps w =
     (Ok (map (\<lambda>ep. r5 (ep_my_index ep)) eps), w')"
proof -
  let ?rq = "\<lparr>f5_session_id_hex = hex_encode X (session_bytes sid), f5_signing_set = S, f5_gamma_star = mr3_gamma_star ch,
      f5_user_challenges_hex = map (hex_encode X) (ur2_challenges ur2),
      f5_melted_coin_pubkey_hex = hex_encode X (ur2_melted_coin_pubkey ur2),
      f5_melted_coin_signature_hex = hex_encode X (Signature_to_bytes (ur2_melted_coin_signature ur2))\<rparr>"
  have "read_refresh_round5 X sid ep (http_answer (fst (refresh_round5 C X (Es (ep_base_url ep)) ?rq
      (snd (api_run C R X J (busy (ep_base_url ep)) (w (ep_base_url ep))))))) = Ok (r5 (ep_my_index ep))" if ep: "ep \<in> set eps" for ep
  proof -
    have a: "tables_ok (w (ep_base_url ep))" "holds_share C F ep (w (ep_base_url ep))"
      "map_of (app_refresh_sessions (w (ep_base_url ep))) sid = Some \<lparr>rse_state = st (ep_my_index ep), rse_created_at = re_instant (Es (ep_base_url ep))\<rparr>"
      "app_config (w (ep_base_url ep)) = cfg ep"
      using opened ep by (simp_all add: refresh_opened_def)
    show ?thesis using busy guard st ep ur2 ch a(4) by (intro refresh_round5_committee [OF ok X sid a(1-3)]) simp_all
  qed
  with refresh_round5.all_answered [OF urls, where X = X and sid = sid and w = w and C = C and R = R and J = J and Es = Es
      and rq = ?rq and busy = busy and f = "\<lambda>ep. r5 (ep_my_index ep)"]
  show ?thesis by blast
qed

lemma committee_refreshes_coin:
  fixes C :: "('s::field, 'p::ab_group_add) crypto"
  assumes ok: "curve_ok C" and hok: "hash_ok C" and big: "large_field TYPE('s)" and X: "libs_ok X" and sid: "length (session_bytes sid) = 16"
    and pool: "distinct (pool_signing_set pool)" "0 \<notin> set (pool_signing_set pool)" "length F \<le> length (wcp_endpoints pool)"
      "distinct (map ep_base_url (wcp_endpoints pool))"
    and pk: "pk = PublicKey (compress C (mulG C (horner_eval_scalar F 0)))"
    and melted: "meltable C pk Es w pool melted"
    and daemons: "\<forall>ep \<in> set (wcp_endpoints pool). tables_ok (w (ep_base_url ep)) \<and> holds_share C F ep (w (ep_base_url ep)) \<and>
        map_of (app_refresh_sessions (w (ep_base_url ep))) sid = None"
    and busy: "\<forall>url. \<forall>x \<in> set (busy url). leaves_refresh_session X sid (re_instant (Es url)) x \<and> keeps_share x"
  shows "\<exists>coin rw'. refresh_coin C R X (committee C R X J Es busy) pool melted pk sid (r, w) = (Ok coin, rw') \<and>
     coin_ok C coin \<and> Coin_verify C coin pk = Ok True"
proof -
  let ?eps = "wcp_endpoints pool" and ?S = "pool_signing_set pool" and ?N = "committee C R X J Es busy"
  let ?h = "hex_encode X (session_bytes sid)" and ?k = DEFAULT_KAPPA
  have k: "?k \<noteq> 0" by (simp add: DEFAULT_KAPPA_def)
  define rs where "rs i = app_rng (w (the (map_of (map (\<lambda>ep. (ep_my_index ep, ep_base_url ep)) ?eps) i)))" for i
  have rs: "rs (ep_my_index ep) = app_rng (w (ep_base_url ep))" if "ep \<in> set ?eps" for ep
    using that pool(1) by (simp add: rs_def pool_signing_set_def map_of_keyed)
  have len: "length F \<le> length ?S" using pool(3) by (simp add: pool_signing_set_def)
  have mv: "Coin_verify C melted pk = Ok True" using melted by (simp add: meltable_def)
  obtain v1 rs' mr1 ur2 ust r' ch reveal r5 resp coin where
    v1: "\<forall>i. validator_refresh_round1 C R sid i ?k (rs i) = Ok (v1 i, rs' i)"
    and agg: "aggregate_refresh_round1 C sid ?k ?S (map (\<lambda>i. fst (v1 i)) ?S) = Ok mr1"
    and ur2: "user_refresh_round2 C R sid mr1 pk melted r = Ok ((ur2, ust), r')"
    and ch: "mint_refresh_round3 C sid ur2 pk = Ok ch"
    and reveal: "user_refresh_round4 C ust ch = Ok reveal" "mint_refresh_verify_reveal C ur2 mr1 ch reveal pk = Ok ()"
    and r5: "\<forall>i \<in> set ?S. validator_refresh_round5 C (snd (v1 i)) ur2 ch (SecretKey (horner_eval_scalar F (scalar_from i))) ?S = Ok (r5 i)"
    and fin: "aggregate_refresh_round5 C sid ?S (map r5 ?S) = Ok resp" "user_refresh_round6 C ust ch resp pk = Ok coin"
      "coin_ok C coin" "Coin_verify C coin pk = Ok True"
    using refresh_rounds [OF ok hok big pool(1,2) len pool(1) refl pool(1) refl pk k mv, of R sid rs r] by (elim exE conjE)
  have "mr1_kappa mr1 = ?k" using agg by (auto simp: aggregate_refresh_round1_def split: if_splits)
  with user_refresh_round2_fields [OF ur2 ok] have u: "ur2_session_id ur2 = sid" "ur2_kappa ur2 = ?k"
    "length (ur2_challenges ur2) = unat (ur2_kappa ur2)" "\<forall>c \<in> set (ur2_challenges ur2). length c = 32"
    "ur2_melted_coin_pubkey ur2 = coin_pubkey_bytes melted" "ur2_melted_coin_signature ur2 = coin_signature melted" by simp_all
  note c = mint_refresh_round3_fields [OF ch hok] u(2) k
  note v = validator_refresh_round1_fields [OF v1 [rule_format]]
  have "\<forall>ep \<in> set ?eps. validator_refresh_round1 C R sid (ep_my_index ep) ?k (app_rng (w (ep_base_url ep))) =
      Ok (v1 (ep_my_index ep), rs' (ep_my_index ep))" using v1 rs by metis
  from pool_refresh_round1 [OF ok X sid k pool(4) daemons this, of J Es busy] obtain w1 where
    w1: "try_join_all (refresh_round1_call X ?N sid ?h ?k) ?eps w = (Ok (map (\<lambda>ep. fst (v1 (ep_my_index ep))) ?eps), w1)"
    "\<forall>ep \<in> set ?eps. refresh_opened C F sid (snd (v1 (ep_my_index ep))) (re_instant (Es (ep_base_url ep)))
        (app_config (w (ep_base_url ep))) ep (w1 (ep_base_url ep))" by (elim exE conjE)
  let ?rq = "\<lparr>f5_session_id_hex = ?h, f5_signing_set = ?S, f5_gamma_star = mr3_gamma_star ch,
      f5_user_challenges_hex = map (hex_encode X) (ur2_challenges ur2),
      f5_melted_coin_pubkey_hex = hex_encode X (ur2_melted_coin_pubkey ur2),
      f5_melted_coin_signature_hex = hex_encode X (Signature_to_bytes (ur2_melted_coin_signature ur2))\<rparr>"
  have st: "\<forall>ep \<in> set ?eps. vrs_session_id (snd (v1 (ep_my_index ep))) = sid \<and> vrs_my_index (snd (v1 (ep_my_index ep))) = ep_my_index ep \<and>
      validator_refresh_round5 C (snd (v1 (ep_my_index ep))) ur2 ch (SecretKey (horner_eval_scalar F (scalar_from (ep_my_index ep)))) ?S =
        Ok (r5 (ep_my_index ep))"
    using v r5 by (simp add: pool_signing_set_def)
  have m: "length (coin_pubkey_bytes melted) = 32" using melted ok by (simp add: meltable_def coin_ok_def)
  from pool_refresh_round5 [OF ok X sid pool(4) w1(2) st busy, of R J] obtain w2 where
    w2: "try_join_all (refresh_round5_call X ?N sid ?rq) ?eps w1 = (Ok (map (\<lambda>ep. r5 (ep_my_index ep)) ?eps), w2)"
    using melted m u c by (auto simp: meltable_def)
  show ?thesis
    using agg ur2 ch reveal fin w1(1) w2
    by (simp add: refresh_coin_def Let_def pool_signing_set_def comp_def)
qed

section \<open>Properties\<close>

text \<open>
  C7. Refresh works over the network: a wallet that melts its own valid coin, past the nullifier guard
  of every daemon, gets from \<open>refresh_coin\<close> a coin that belongs to its secret and verifies under the joint
  key, also when each daemon serves other requests between the rounds, short of consuming this
  session, pruning it past its lifetime or replacing its share.
\<close>

theorem wallet_refreshes_coin:
  fixes C :: "('s::field, 'p::ab_group_add) crypto"
  assumes "curve_ok C" and "hash_ok C" and "large_field TYPE('s)" and "libs_ok X" and "length (session_bytes sid) = 16"
    and "distinct (pool_signing_set pool)" and "0 \<notin> set (pool_signing_set pool)" and "length F \<le> length (wcp_endpoints pool)"
    and "distinct (map ep_base_url (wcp_endpoints pool))"
    and "pk = PublicKey (compress C (mulG C (horner_eval_scalar F 0)))"
    and "meltable C pk Es w pool melted"
    and "\<forall>ep \<in> set (wcp_endpoints pool). tables_ok (w (ep_base_url ep)) \<and> holds_share C F ep (w (ep_base_url ep)) \<and>
        map_of (app_refresh_sessions (w (ep_base_url ep))) sid = None"
    and "\<forall>url. \<forall>x \<in> set (busy url). leaves_refresh_session X sid (re_instant (Es url)) x \<and> keeps_share x"
  shows "\<exists>coin rw'. refresh_coin C R X (committee C R X J Es busy) pool melted pk sid (r, w) = (Ok coin, rw') \<and>
     coin_ok C coin \<and> Coin_verify C coin pk = Ok True"
  using assms by (rule committee_refreshes_coin)

definition sample_melted :: "gf coin" where
  "sample_melted = \<lparr>coin_secret = SecretKey 4, coin_pubkey_bytes = gf_bytes 4,
     coin_signature = fst (schnorr_sign gf_curve tape_rng (SecretKey 5) (PublicKey (gf_bytes 5)) (gf_bytes 4) [6])\<rparr>"

theorem wallet_refreshes_coin_witness:
  "\<exists>coin rw'. refresh_coin gf_curve tape_rng sample_libs
       (committee gf_curve tape_rng sample_libs sample_json (\<lambda>_. sample_env) (\<lambda>_. [(sample_env, GetInfo), (sample_env, PostSignRound1 ''zz'')]))
       sample_pool sample_melted (PublicKey (compress gf_curve (mulG gf_curve (horner_eval_scalar [5, 3] 0)))) (SessionId (replicate 16 7))
       ([6, 7, 8], sample_fleet) = (Ok coin, rw') \<and>
     coin_ok gf_curve coin \<and> Coin_verify gf_curve coin (PublicKey (compress gf_curve (mulG gf_curve (horner_eval_scalar [5, 3] 0)))) = Ok True"
proof (rule wallet_refreshes_coin [OF curve_ok_gf hash_ok_gf large_field_gf libs_ok_sample])
  show "\<forall>ep \<in> set (wcp_endpoints sample_pool). tables_ok (sample_fleet (ep_base_url ep)) \<and> holds_share gf_curve [5, 3] ep (sample_fleet (ep_base_url ep)) \<and>
      map_of (app_refresh_sessions (sample_fleet (ep_base_url ep))) (SessionId (replicate 16 7)) = None"
    using sample_fleet_ready by simp
  have v: "schnorr_verify gf_curve (PublicKey (gf_bytes 5)) (gf_bytes 4) (coin_signature sample_melted) = Ok True"
    using schnorr_sign_complete [OF curve_ok_gf, of "PublicKey (gf_bytes 5)" "SecretKey 5" "gf_bytes 4" tape_rng "[6]"]
    by (simp add: sample_melted_def)
  have "length (sig_r (coin_signature sample_melted)) = 32" "length (sig_s (coin_signature sample_melted)) = 32"
    using curve_ok_gf by (simp_all add: sample_melted_def schnorr_sign_def Let_def case_prod_beta)
  then show "meltable gf_curve (PublicKey (compress gf_curve (mulG gf_curve (horner_eval_scalar [5, 3] 0)))) (\<lambda>_. sample_env) sample_fleet sample_pool sample_melted"
    using v sample_fleet_ready(5)
    by (simp add: meltable_def coin_ok_def Coin_verify_def sample_melted_def nullifier_guard_def sample_config_def)
qed (simp_all add: pool_signing_set_def sample_pool_def leaves_refresh_session_def keeps_share_def)

end
