(* ===== verification/Wallet_Store.thy ===== *)
theory Wallet_Store
  imports Client Program_State
begin

text \<open>
  The parts of \<open>tardus-wallet\<close> that keep and derive keys: named keysets and their file (\<open>keysets.rs\<close>),
  mnemonics and the receiving identity (\<open>mnemonic.rs\<close>), and the sealed box (\<open>sealed_box.rs\<close>).

  Rust strings that are stored are their UTF-8 bytes. The BIP-39 crate and the X25519 operations are the
  parameters \<open>bip39\<close> and \<open>x25519\<close>; \<open>x25519_ok\<close> says that the Montgomery ladder agrees with the Edwards
  curve on multiples of the base point and commutes there.
\<close>

section \<open>Keysets\<close>

record keyset_info =
  ki_joint_pk_hex :: bytes
  ki_denom :: u64
  ki_validators :: "bytes list"
  ki_ca_cert_path :: "bytes option"
  ki_client_cert_path :: "bytes option"

text \<open>A \<open>BTreeMap\<close> is its entries in the order of the keys.\<close>

type_synonym keyset_store = "(bytes \<times> keyset_info) list"

fun btree_insert :: "'k::linorder \<Rightarrow> 'v \<Rightarrow> ('k \<times> 'v) list \<Rightarrow> ('k \<times> 'v) list" where
  "btree_insert k v [] = [(k, v)]"
| "btree_insert k v ((k', v') # m) =
     (if k = k' then (k, v) # m else if k < k' then (k, v) # (k', v') # m else (k', v') # btree_insert k v m)"

definition KeysetStore_new :: keyset_store where
  "KeysetStore_new = []"

definition KeysetStore_upsert :: "keyset_store \<Rightarrow> bytes \<Rightarrow> keyset_info \<Rightarrow> keyset_store" where
  "KeysetStore_upsert st name info = btree_insert name info st"

definition KeysetStore_remove :: "keyset_store \<Rightarrow> bytes \<Rightarrow> keyset_info option \<times> keyset_store" where
  "KeysetStore_remove st name = (map_of st name, AList.delete name st)"

definition KeysetStore_get :: "keyset_store \<Rightarrow> bytes \<Rightarrow> keyset_info option" where
  "KeysetStore_get st name = map_of st name"

definition KeysetStore_len :: "keyset_store \<Rightarrow> nat" where
  "KeysetStore_len st = length st"

definition KeysetStore_is_empty :: "keyset_store \<Rightarrow> bool" where
  "KeysetStore_is_empty st \<longleftrightarrow> st = []"

definition ser_string :: "bytes \<Rightarrow> bytes" where
  "ser_string s = ser_seq (\<lambda>b. [b]) s"

definition de_string :: "bytes reader" where
  "de_string = rd_bind (de_seq rd_byte) (\<lambda>s. if utf8_valid s then rd_return s else rd_fail)"

definition string_wf :: "bytes \<Rightarrow> bool" where
  "string_wf s \<longleftrightarrow> utf8_valid s \<and> length s < 2 ^ 32"

definition ser_keyset_info :: "keyset_info \<Rightarrow> bytes" where
  "ser_keyset_info i = ser_string (ki_joint_pk_hex i) @ to_le_bytes 8 (ki_denom i) @ ser_seq ser_string (ki_validators i) @
     ser_label (ki_ca_cert_path i) @ ser_label (ki_client_cert_path i)"

definition de_keyset_info :: "keyset_info reader" where
  "de_keyset_info =
     rd_bind de_string (\<lambda>pk. rd_bind (rd_word 8) (\<lambda>denom. rd_bind (de_seq de_string) (\<lambda>vs.
     rd_bind de_label (\<lambda>ca. rd_bind de_label (\<lambda>cl.
       rd_return \<lparr>ki_joint_pk_hex = pk, ki_denom = denom, ki_validators = vs, ki_ca_cert_path = ca, ki_client_cert_path = cl\<rparr>)))))"

definition ser_keyset_store :: "keyset_store \<Rightarrow> bytes" where
  "ser_keyset_store st = ser_seq (\<lambda>(name, info). ser_string name @ ser_keyset_info info) st"

definition de_keyset_entry :: "(bytes \<times> keyset_info) reader" where
  "de_keyset_entry = rd_bind de_string (\<lambda>name. rd_bind de_keyset_info (\<lambda>info. rd_return (name, info)))"

definition de_keyset_store :: "keyset_store reader" where
  "de_keyset_store = rd_bind (de_seq de_keyset_entry) (\<lambda>es. rd_return (fold (\<lambda>(k, v) m. btree_insert k v m) es []))"

record keyset_db =
  kdb_path :: path
  kdb_store :: keyset_store

definition KeysetDb_open :: "('s, 'p) crypto \<Rightarrow> libs \<Rightarrow> path \<Rightarrow> bytes \<Rightarrow> disk \<Rightarrow> (keyset_db, wallet_error) result" where
  "KeysetDb_open C X path master_seed fs =
     (case map_of fs path of
        None \<Rightarrow> Ok \<lparr>kdb_path = path, kdb_store = KeysetStore_new\<rparr>
      | Some sealed \<Rightarrow>
          rbind (map_err WalletClient (open_backup C X master_seed sealed)) (\<lambda>plaintext.
          rbind (ok_or (ValidatorRejected 0) (try_from_slice de_keyset_store plaintext)) (\<lambda>st.
            Ok \<lparr>kdb_path = path, kdb_store = st\<rparr>)))"

definition KeysetDb_save ::
    "('s, 'p) crypto \<Rightarrow> libs \<Rightarrow> ('r, 's) rng \<Rightarrow> disk_fault \<Rightarrow> keyset_db \<Rightarrow> bytes \<Rightarrow> disk \<Rightarrow> 'r
     \<Rightarrow> (unit, wallet_error) result \<times> disk \<times> 'r" where
  "KeysetDb_save C X R fault db master_seed fs r =
     (let (sealed_result, r1) = seal_backup C X R master_seed (ser_keyset_store (kdb_store db)) r
      in case sealed_result of
           Ok sealed \<Rightarrow>
             (let tmp = tmp_path (kdb_path db)
              in case fault of
                   WriteFault partial \<Rightarrow> (Err (ValidatorRejected 0), hm_insert fs tmp partial, r1)
                 | RenameFault \<Rightarrow> (Err (ValidatorRejected 0), hm_insert fs tmp sealed, r1)
                 | NoFault \<Rightarrow> (Ok (), hm_insert (snd (hm_remove (hm_insert fs tmp sealed) tmp)) (kdb_path db) sealed, r1))
         | Err e \<Rightarrow> (Err (WalletClient e), fs, r1)
         | Panic \<Rightarrow> (Panic, fs, r1))"

section \<open>Mnemonics\<close>

record 'm bip39 =
  from_entropy_in :: "bytes \<Rightarrow> 'm option"
  parse_in :: "string \<Rightarrow> 'm option"
  to_seed :: "'m \<Rightarrow> string \<Rightarrow> bytes" \<comment> \<open>64 bytes\<close>

datatype word_count = Twelve | TwentyFour

fun entropy_bytes :: "word_count \<Rightarrow> nat" where
  "entropy_bytes Twelve = 16"
| "entropy_bytes TwentyFour = 32"

definition generate_mnemonic :: "'m bip39 \<Rightarrow> ('r, 's) rng \<Rightarrow> word_count \<Rightarrow> 'r \<Rightarrow> ('m, wallet_error) result \<times> 'r" where
  "generate_mnemonic M R wc r =
     (let (entropy, r1) = fill_bytes R (entropy_bytes wc) r in (ok_or (ValidatorRejected 0) (from_entropy_in M entropy), r1))"

definition RECV_SALT :: bytes where
  "RECV_SALT = ascii ''TARDUS-recv-id-v1''"

definition RECV_INFO :: bytes where
  "RECV_INFO = ascii ''ed25519-keypair''"

definition derive_receiving_keypair :: "('s, 'p) crypto \<Rightarrow> bytes \<Rightarrow> bytes \<times> bytes" where
  "derive_receiving_keypair C master_seed =
     (let sk = from_bytes_mod_order_wide C (hkdf_sha512 C RECV_SALT master_seed RECV_INFO 64)
      in (scalar_to_bytes C sk, compress C (point_mul C sk (ED25519_BASEPOINT_POINT C))))"

definition derive_master_seed :: "'m bip39 \<Rightarrow> 'm \<Rightarrow> string \<Rightarrow> bytes" where
  "derive_master_seed M mnemonic passphrase = take 32 (to_seed M mnemonic passphrase)"

definition parse_mnemonic :: "'m bip39 \<Rightarrow> string \<Rightarrow> ('m, wallet_error) result" where
  "parse_mnemonic M phrase = ok_or (ValidatorRejected 0) (parse_in M phrase)"

section \<open>Sealed boxes\<close>

record ('s, 'p, 'q) x25519 =
  to_montgomery :: "'p \<Rightarrow> 'q"
  mont_mul :: "'s \<Rightarrow> 'q \<Rightarrow> 'q"
  X25519_BASEPOINT :: 'q
  mont_to_bytes :: "'q \<Rightarrow> bytes"
  MontgomeryPoint :: "bytes \<Rightarrow> 'q"
  from_bytes_mod_order :: "bytes \<Rightarrow> 's"
  hkdf_sha256 :: "bytes \<Rightarrow> bytes \<Rightarrow> bytes \<Rightarrow> nat \<Rightarrow> bytes" \<comment> \<open>salt, key material, info, length\<close>

definition x25519_ok :: "('s::field, 'p) crypto \<Rightarrow> ('s, 'p, 'q) x25519 \<Rightarrow> bool" where
  "x25519_ok C B \<longleftrightarrow>
     (\<forall>a. to_montgomery B (mulG C a) = mont_mul B a (X25519_BASEPOINT B)) \<and>
     (\<forall>a b. mont_mul B a (mont_mul B b (X25519_BASEPOINT B)) = mont_mul B (a * b) (X25519_BASEPOINT B)) \<and>
     (\<forall>P. MontgomeryPoint B (mont_to_bytes B P) = P) \<and> (\<forall>P. length (mont_to_bytes B P) = 32) \<and>
     (\<forall>salt ikm info n. length (hkdf_sha256 B salt ikm info n) = n)"

datatype sealed_box_error =
    BoxBadRecipient
  | BadSecret
  | SealedTooShort nat nat
  | BoxAeadFailure

definition HKDF_SALT :: bytes where
  "HKDF_SALT = ascii ''TARDUS-sealed-box-v1''"

definition NONCE_INFO :: bytes where
  "NONCE_INFO = ascii ''chacha20poly1305-nonce''"

definition KEY_INFO :: bytes where
  "KEY_INFO = ascii ''chacha20poly1305-key''"

definition EPHEMERAL_KEY_LEN :: nat where
  "EPHEMERAL_KEY_LEN = 32"

definition ed25519_pub_to_x25519 :: "('s, 'p) crypto \<Rightarrow> ('s, 'p, 'q) x25519 \<Rightarrow> bytes \<Rightarrow> ('q, sealed_box_error) result" where
  "ed25519_pub_to_x25519 C B pk = rbind (ok_or BoxBadRecipient (decompress C pk)) (\<lambda>edwards. Ok (to_montgomery B edwards))"

definition ed25519_secret_to_x25519 :: "('s, 'p) crypto \<Rightarrow> bytes \<Rightarrow> ('s, sealed_box_error) result" where
  "ed25519_secret_to_x25519 C sk = ok_or BadSecret (from_canonical_bytes C sk)"

definition derive_key_and_nonce :: "('s, 'p, 'q) x25519 \<Rightarrow> bytes \<Rightarrow> bytes \<Rightarrow> bytes \<Rightarrow> bytes \<times> bytes" where
  "derive_key_and_nonce B shared info1 info2 =
     (hkdf_sha256 B HKDF_SALT shared (KEY_INFO @ info1 @ info2) 32, hkdf_sha256 B HKDF_SALT shared (NONCE_INFO @ info1 @ info2) 12)"

definition clamp :: "bytes \<Rightarrow> bytes" where
  "clamp b = (let b1 = b[0 := and (b ! 0) 0xF8] in b1[31 := or (and (b1 ! 31) 0x7F) 0x40])"

definition seal ::
    "('s, 'p) crypto \<Rightarrow> ('s, 'p, 'q) x25519 \<Rightarrow> libs \<Rightarrow> ('r, 's) rng \<Rightarrow> bytes \<Rightarrow> bytes \<Rightarrow> 'r \<Rightarrow> (bytes, sealed_box_error) result \<times> 'r" where
  "seal C B X R plaintext recipient_ed25519_pk r =
     or_return (ed25519_pub_to_x25519 C B recipient_ed25519_pk) r (\<lambda>recipient_x.
     let (esk_bytes, r1) = fill_bytes R 32 r;
         esk = from_bytes_mod_order B (clamp esk_bytes);
         epk = mont_to_bytes B (mont_mul B esk (X25519_BASEPOINT B));
         shared = mont_to_bytes B (mont_mul B esk recipient_x);
         (key, nonce_bytes) = derive_key_and_nonce B shared epk (mont_to_bytes B recipient_x)
     in or_return (ok_or BoxAeadFailure (aead_encrypt X key nonce_bytes plaintext)) r1 (\<lambda>ct. (Ok (epk @ ct), r1)))"

definition open_box ::
    "('s, 'p) crypto \<Rightarrow> ('s, 'p, 'q) x25519 \<Rightarrow> libs \<Rightarrow> bytes \<Rightarrow> bytes \<Rightarrow> (bytes, sealed_box_error) result" where
  "open_box C B X sealed recipient_ed25519_sk =
     (if length sealed < EPHEMERAL_KEY_LEN + 16 then Err (SealedTooShort (length sealed) (EPHEMERAL_KEY_LEN + 16))
      else
        (let ct = drop EPHEMERAL_KEY_LEN sealed;
             epk = MontgomeryPoint B (take EPHEMERAL_KEY_LEN sealed)
         in rbind (ed25519_secret_to_x25519 C recipient_ed25519_sk) (\<lambda>sk_scalar.
            let shared = mont_to_bytes B (mont_mul B sk_scalar epk);
                recipient_pub_x = mont_to_bytes B (mont_mul B sk_scalar (X25519_BASEPOINT B));
                (key, nonce_bytes) = derive_key_and_nonce B shared (mont_to_bytes B epk) recipient_pub_x
            in ok_or BoxAeadFailure (aead_decrypt X key nonce_bytes ct))))"

section \<open>Ordered maps\<close>

definition btree_ok :: "('k::linorder \<times> 'v) list \<Rightarrow> bool" where
  "btree_ok m \<longleftrightarrow> sorted_wrt (<) (map fst m)"

lemma fst_btree_insert: "fst ` set (btree_insert k v m) = insert k (fst ` set m)"
  by (induction k v m rule: btree_insert.induct) auto

lemma btree_ok_insert: "btree_ok m \<Longrightarrow> btree_ok (btree_insert k v m)"
proof (induction k v m rule: btree_insert.induct)
  case (2 k v k' v' m)
  then have IH: "\<not> k < k' \<Longrightarrow> k \<noteq> k' \<Longrightarrow> btree_ok (btree_insert k v m)" by (simp add: btree_ok_def)
  then show ?case using 2(2) fst_btree_insert [of k v m] by (fastforce simp: btree_ok_def)
qed (simp add: btree_ok_def)

lemma map_of_btree_insert: "btree_ok m \<Longrightarrow> map_of (btree_insert k v m) = (map_of m)(k \<mapsto> v)"
  by (induction k v m rule: btree_insert.induct) (auto simp: btree_ok_def fun_eq_iff)

lemma btree_insert_last: "\<forall>x \<in> fst ` set m. x < k \<Longrightarrow> btree_insert k v m = m @ [(k, v)]"
  by (induction k v m rule: btree_insert.induct) auto

lemma btree_of_sorted: "btree_ok (acc @ es) \<Longrightarrow> fold (\<lambda>(k, v) m. btree_insert k v m) es acc = acc @ es"
proof (induction es arbitrary: acc)
  case (Cons e es)
  obtain k v where e: "e = (k, v)" by force
  have "btree_insert k v acc = acc @ [(k, v)]"
    using Cons.prems by (intro btree_insert_last) (auto simp: btree_ok_def e sorted_wrt_append)
  then show ?case using Cons.IH [of "acc @ [(k, v)]"] Cons.prems by (simp add: e)
qed simp

lemma btree_ok_fold: "btree_ok acc \<Longrightarrow> btree_ok (fold (\<lambda>(k, v) m. btree_insert k v m) es acc)"
  by (induction es arbitrary: acc) (auto simp: btree_ok_insert split: prod.splits)

lemma btree_ok_delete: "btree_ok m \<Longrightarrow> btree_ok (AList.delete k m)"
  unfolding btree_ok_def by (simp add: AList.delete_eq sorted_wrt_map sorted_wrt_filter)

section \<open>Formats and files\<close>

interpretation string_codec: codec ser_string de_string string_wf
  by unfold_locales (auto simp: ser_string_def de_string_def string_wf_def rd_bind_def de_bytes_append)

definition label_wf :: "bytes option \<Rightarrow> bool" where
  "label_wf l \<longleftrightarrow> (case l of None \<Rightarrow> True | Some s \<Rightarrow> utf8_valid s \<and> length s < 2 ^ 32)"

definition keyset_info_wf :: "keyset_info \<Rightarrow> bool" where
  "keyset_info_wf i \<longleftrightarrow> string_wf (ki_joint_pk_hex i) \<and> list_all string_wf (ki_validators i) \<and> length (ki_validators i) < 2 ^ 32 \<and>
     label_wf (ki_ca_cert_path i) \<and> label_wf (ki_client_cert_path i)"

definition keyset_store_wf :: "keyset_store \<Rightarrow> bool" where
  "keyset_store_wf st \<longleftrightarrow> btree_ok st \<and> list_all (\<lambda>(name, info). string_wf name \<and> keyset_info_wf info) st \<and> length st < 2 ^ 32"

interpretation keyset_info_codec: codec ser_keyset_info de_keyset_info keyset_info_wf
  by unfold_locales
    (simp add: ser_keyset_info_def de_keyset_info_def keyset_info_wf_def rd_bind_def string_codec.de_ser string_codec.de_seq_ser_seq
      label_codec.de_ser label_wf_def)

interpretation keyset_entry_codec: codec "\<lambda>(name, info). ser_string name @ ser_keyset_info info" de_keyset_entry
    "\<lambda>(name, info). string_wf name \<and> keyset_info_wf info"
  by unfold_locales (auto simp: de_keyset_entry_def rd_bind_def string_codec.de_ser keyset_info_codec.de_ser)

interpretation keyset_store_codec: codec ser_keyset_store de_keyset_store keyset_store_wf
  by unfold_locales
    (simp add: ser_keyset_store_def de_keyset_store_def keyset_store_wf_def rd_bind_def keyset_entry_codec.de_seq_ser_seq
      btree_of_sorted [of "[]", simplified])

text \<open>
  A sealed file: a save that reports success is what the next \<open>open\<close> returns, a save that fails changes
  nothing that \<open>open\<close> returns. Over any saves and failures the file holds the last store saved.
\<close>

locale sealed_file =
  fixes opened :: "disk \<Rightarrow> ('db, 'e) result" and save :: "disk_fault \<Rightarrow> 'db \<Rightarrow> disk \<Rightarrow> 'r \<Rightarrow> (unit, 'e) result \<times> disk \<times> 'r"
    and wf :: "'db \<Rightarrow> bool"
  assumes saved: "wf db \<Longrightarrow> save fault db fs r = (out, fs', r') \<Longrightarrow> opened fs' = (if out = Ok () then Ok db else opened fs)"
begin

fun run_saves :: "(disk_fault \<times> 'db) list \<Rightarrow> disk \<Rightarrow> 'r \<Rightarrow> disk \<times> 'db list" where
  "run_saves [] fs r = (fs, [])"
| "run_saves ((fault, db) # rest) fs r =
     (let (out, fs1, r1) = save fault db fs r; (fs2, dbs) = run_saves rest fs1 r1
      in (fs2, if out = Ok () then db # dbs else dbs))"

lemma last_saved:
  assumes "run_saves xs fs r = (fs', dbs)" and "\<forall>(fault, db) \<in> set xs. wf db"
  shows "opened fs' = (if dbs = [] then opened fs else Ok (last dbs))"
  using assms
proof (induction xs arbitrary: fs r dbs)
  case (Cons x xs)
  obtain fault db where x: "x = (fault, db)" by force
  obtain out fs1 r1 where s: "save fault db fs r = (out, fs1, r1)" by (metis prod_cases3)
  obtain dbs1 where run: "run_saves xs fs1 r1 = (fs', dbs1)" "dbs = (if out = Ok () then db # dbs1 else dbs1)"
    using Cons.prems(1) by (auto simp: x s split: prod.splits)
  have "opened fs' = (if dbs1 = [] then opened fs1 else Ok (last dbs1))" using Cons.IH [OF run(1)] Cons.prems(2) by simp
  moreover have "opened fs1 = (if out = Ok () then Ok db else opened fs)" using saved [OF _ s] Cons.prems(2) by (simp add: x)
  ultimately show ?case using run(2) by auto
qed auto

end

lemma KeysetDb_save_effect:
  assumes "p_ext (kdb_path db) \<noteq> ''tmp''" and "KeysetDb_save C X R fault db seed fs r = (out, fs', r')"
  shows "out \<noteq> Ok () \<Longrightarrow> map_of fs' (kdb_path db) = map_of fs (kdb_path db)"
    and "out = Ok () \<Longrightarrow> \<exists>sealed. seal_backup C X R seed (ser_keyset_store (kdb_store db)) r = (Ok sealed, r') \<and>
           map_of fs' (kdb_path db) = Some sealed"
proof -
  have "kdb_path db \<noteq> tmp_path (kdb_path db)" using assms(1) by (auto simp: tmp_path_def dest: arg_cong [of _ _ p_ext])
  then show "out \<noteq> Ok () \<Longrightarrow> map_of fs' (kdb_path db) = map_of fs (kdb_path db)"
    "out = Ok () \<Longrightarrow> \<exists>sealed. seal_backup C X R seed (ser_keyset_store (kdb_store db)) r = (Ok sealed, r') \<and>
       map_of fs' (kdb_path db) = Some sealed"
    using assms(2) by (auto simp: KeysetDb_save_def Let_def split: prod.splits result.splits disk_fault.splits)
qed

lemma keysets_saved:
  assumes "libs_ok X" and "hkdf_ok C" and "fill_ok R" and "keyset_store_wf (kdb_store db)" and "p_ext (kdb_path db) \<noteq> ''tmp''"
    and "KeysetDb_save C X R fault db seed fs r = (out, fs', r')"
  shows "KeysetDb_open C X (kdb_path db) seed fs' = (if out = Ok () then Ok db else KeysetDb_open C X (kdb_path db) seed fs)"
proof (cases "out = Ok ()")
  case True
  then obtain sealed where s: "seal_backup C X R seed (ser_keyset_store (kdb_store db)) r = (Ok sealed, r')"
      "map_of fs' (kdb_path db) = Some sealed"
    using KeysetDb_save_effect(2) [OF assms(5,6)] by blast
  then show ?thesis
    using True backup_roundtrip [OF assms(1-3) s(1)] keyset_store_codec.try_from_slice_ser [OF assms(4)] by (simp add: KeysetDb_open_def)
next
  case False
  then show ?thesis using KeysetDb_save_effect(1) [OF assms(5,6)] by (simp add: KeysetDb_open_def)
qed

interpretation keyset_file: sealed_file "KeysetDb_open C X path seed" "\<lambda>fault db. KeysetDb_save C X R fault db seed"
    "\<lambda>db. libs_ok X \<and> hkdf_ok C \<and> fill_ok R \<and> kdb_path db = path \<and> p_ext path \<noteq> ''tmp'' \<and> keyset_store_wf (kdb_store db)"
    for C X R path seed
  by unfold_locales (metis keysets_saved)

interpretation wallet_file: sealed_file "WalletDb_open C X path seed" "\<lambda>fault db. WalletDb_save C X R fault db seed"
    "\<lambda>db. libs_ok X \<and> hkdf_ok C \<and> fill_ok R \<and> wdb_path db = path \<and> p_ext path \<noteq> ''tmp'' \<and> coin_store_wf (wdb_store db)"
    for C X R path seed
  by unfold_locales (metis wallet_saved)

section \<open>Sealed boxes open\<close>

lemma sealed_box_opens:
  assumes ok: "curve_ok C" and B: "x25519_ok C B" and X: "libs_ok X"
    and s: "seal C B X R plaintext (compress C (mulG C a)) r = (Ok sealed, r')"
  shows "open_box C B X sealed (scalar_to_bytes C a) = Ok plaintext"
proof -
  let ?base = "X25519_BASEPOINT B"
  have ladder: "to_montgomery B (mulG C a) = mont_mul B a ?base"
      "\<And>x y. mont_mul B x (mont_mul B y ?base) = mont_mul B (x * y) ?base"
      "\<And>P. MontgomeryPoint B (mont_to_bytes B P) = P" "\<And>P. length (mont_to_bytes B P) = 32"
      "\<And>salt ikm info n. length (hkdf_sha256 B salt ikm info n) = n"
    using B unfolding x25519_ok_def by blast+
  obtain esk where esk: "esk = from_bytes_mod_order B (clamp (fst (fill_bytes R 32 r)))" by simp
  let ?epk = "mont_to_bytes B (mont_mul B esk ?base)" and ?shared = "mont_to_bytes B (mont_mul B (esk * a) ?base)"
  let ?info = "?epk @ mont_to_bytes B (mont_mul B a ?base)"
  let ?key = "hkdf_sha256 B HKDF_SALT ?shared (KEY_INFO @ ?info) 32" and ?nonce = "hkdf_sha256 B HKDF_SALT ?shared (NONCE_INFO @ ?info) 12"
  obtain ct where ct: "aead_encrypt X ?key ?nonce plaintext = Some ct" "sealed = ?epk @ ct"
    using s ok by (auto simp: seal_def ed25519_pub_to_x25519_def ladder(1,2) derive_key_and_nonce_def Let_def case_prod_beta
        esk [symmetric] split: option.splits)
  have "aead_decrypt X ?key ?nonce ct = Some plaintext" "length ct = length plaintext + 16"
    using aead_laws [OF X _ _ ct(1)] by (simp_all add: ladder(5))
  then show ?thesis
    using ok by (simp add: open_box_def ct(2) EPHEMERAL_KEY_LEN_def ladder(2-4) ed25519_secret_to_x25519_def derive_key_and_nonce_def
        mult.commute [of a])
qed

section \<open>Properties\<close>

datatype keyset_op = Upsert bytes keyset_info | Remove bytes

fun run_keyset_op :: "keyset_op \<Rightarrow> keyset_store \<Rightarrow> keyset_store" where
  "run_keyset_op (Upsert name info) st = KeysetStore_upsert st name info"
| "run_keyset_op (Remove name) st = snd (KeysetStore_remove st name)"

fun keyset_spec :: "keyset_op \<Rightarrow> (bytes \<rightharpoonup> keyset_info) \<Rightarrow> (bytes \<rightharpoonup> keyset_info)" where
  "keyset_spec (Upsert name info) m = m(name \<mapsto> info)"
| "keyset_spec (Remove name) m = m(name := None)"

lemma run_keyset_op_ok: "btree_ok st \<Longrightarrow> btree_ok (run_keyset_op op st) \<and> map_of (run_keyset_op op st) = keyset_spec op (map_of st)"
  by (cases op) (auto simp: KeysetStore_upsert_def KeysetStore_remove_def btree_ok_insert map_of_btree_insert btree_ok_delete delete_conv')


definition sample_keyset :: keyset_info where
  "sample_keyset = \<lparr>ki_joint_pk_hex = [], ki_denom = 7, ki_validators = [], ki_ca_cert_path = None, ki_client_cert_path = None\<rparr>"


end
