(* ===== verification/Relay.thy ===== *)
theory Relay
  imports Validator
begin

text \<open>
  The message relay \<open>tardus-relay\<close>: its inbox with both backends (\<open>inbox.rs\<close>), its state
  (\<open>state.rs\<close>) and its HTTP handlers (\<open>api.rs\<close>).

  What the outside world decides during a call is the record \<open>relay_env\<close>: both clocks, the largest
  representable \<open>Instant\<close>, the random identifier and whether SQL statements succeed. The in-memory
  backend is a hash map behind a \<open>std::sync::Mutex\<close>; a panic while the lock is held poisons it, and
  every later access panics (in a build that aborts on panic the daemon is gone, with the same effect
  on clients). The SQLite backend is the table of its rows, queried as its SQL statements say; the
  times it stores are 64-bit signed integers.

  The locale \<open>inbox_contract\<close> is what wallets rely on: a deposited message stays listed until it expires
  or is removed by its identifier, whatever happens to other messages.
\<close>

section \<open>Messages and backends\<close>

datatype relay_error = RelayIo | BadRecipient | InboxFull nat | PayloadTooLarge nat nat | RelayNotFound

record message =
  msg_id :: string
  msg_payload_hex :: string
  msg_received_at_unix_ms :: u128
  msg_expires_at_unix_ms :: u128

record stored_message =
  sm_msg :: message
  sm_expires_at_inst :: nat

type_synonym i64 = "64 word"

record sql_row =
  row_id :: string
  row_recipient :: bytes
  row_payload_hex :: string
  row_received_at_unix_ms :: i64
  row_expires_at_unix_ms :: i64

datatype backend =
    Memory bool "(bytes, stored_message list) hash_map" \<comment> \<open>whether the mutex is poisoned\<close>
  | Sqlite "sql_row list"

record inbox_store =
  ib_backend :: backend
  ib_max_per_recipient :: nat
  ib_max_payload_bytes :: nat

record relay_env =
  rv_unix_ms :: u128
  rv_inst :: nat
  rv_inst_max :: nat
  rv_id :: string
  rv_sql_ok :: bool

definition InboxStore_in_memory :: "nat \<Rightarrow> nat \<Rightarrow> inbox_store" where
  "InboxStore_in_memory max_per_recipient max_payload_bytes =
     \<lparr>ib_backend = Memory False [], ib_max_per_recipient = max_per_recipient, ib_max_payload_bytes = max_payload_bytes\<rparr>"

definition InboxStore_sqlite :: "relay_env \<Rightarrow> sql_row list \<Rightarrow> nat \<Rightarrow> nat \<Rightarrow> (inbox_store, relay_error) result" where
  "InboxStore_sqlite E rows max_per_recipient max_payload_bytes =
     (if \<not> rv_sql_ok E then Err BadRecipient
      else Ok \<lparr>ib_backend = Sqlite rows, ib_max_per_recipient = max_per_recipient, ib_max_payload_bytes = max_payload_bytes\<rparr>)"

definition as_i64 :: "u128 \<Rightarrow> i64" where
  "as_i64 t = ucast t"

definition live_row :: "relay_env \<Rightarrow> bytes \<Rightarrow> sql_row \<Rightarrow> bool" where
  "live_row E recipient r \<longleftrightarrow> row_recipient r = recipient \<and> sint (row_expires_at_unix_ms r) > sint (as_i64 (rv_unix_ms E))"

text \<open>\<open>ttl\<close> is in milliseconds.\<close>

definition InboxStore_deposit ::
    "relay_env \<Rightarrow> inbox_store \<Rightarrow> bytes \<Rightarrow> string \<Rightarrow> nat \<Rightarrow> (message, relay_error) result \<times> inbox_store" where
  "InboxStore_deposit E inbox recipient payload_hex ttl =
     (let approx_bytes = length payload_hex div 2
      in if approx_bytes > ib_max_payload_bytes inbox
         then (Err (PayloadTooLarge approx_bytes (ib_max_payload_bytes inbox)), inbox)
         else
           (let now = rv_unix_ms E;
                msg = \<lparr>msg_id = rv_id E, msg_payload_hex = payload_hex, msg_received_at_unix_ms = now,
                  msg_expires_at_unix_ms = now + word_of_nat ttl\<rparr>
            in case ib_backend inbox of
                 Memory poisoned buckets \<Rightarrow>
                   (if poisoned then (Panic, inbox)
                    else
                      (let bucket = (case map_of buckets recipient of None \<Rightarrow> [] | Some b \<Rightarrow> b);
                           buckets1 = hm_insert buckets recipient bucket
                       in if length bucket \<ge> ib_max_per_recipient inbox
                          then (Err (InboxFull (ib_max_per_recipient inbox)), inbox\<lparr>ib_backend := Memory False buckets1\<rparr>)
                          else if rv_inst E + ttl > rv_inst_max E then (Panic, inbox\<lparr>ib_backend := Memory True buckets1\<rparr>)
                          else (Ok msg, inbox\<lparr>ib_backend := Memory False (hm_insert buckets recipient
                            (bucket @ [\<lparr>sm_msg = msg, sm_expires_at_inst = rv_inst E + ttl\<rparr>]))\<rparr>)))
               | Sqlite rows \<Rightarrow>
                   (if \<not> rv_sql_ok E then (Err BadRecipient, inbox)
                    else if length (filter (live_row E recipient) rows) \<ge> ib_max_per_recipient inbox
                    then (Err (InboxFull (ib_max_per_recipient inbox)), inbox)
                    else if rv_id E \<in> row_id ` set rows then (Err BadRecipient, inbox)
                    else (Ok msg, inbox\<lparr>ib_backend := Sqlite (rows @ [\<lparr>row_id = rv_id E, row_recipient = recipient,
                      row_payload_hex = payload_hex, row_received_at_unix_ms = as_i64 now,
                      row_expires_at_unix_ms = as_i64 (msg_expires_at_unix_ms msg)\<rparr>])\<rparr>))))"

definition row_message :: "sql_row \<Rightarrow> message" where
  "row_message r = \<lparr>msg_id = row_id r, msg_payload_hex = row_payload_hex r,
     msg_received_at_unix_ms = scast (row_received_at_unix_ms r), msg_expires_at_unix_ms = scast (row_expires_at_unix_ms r)\<rparr>"

definition InboxStore_list :: "relay_env \<Rightarrow> inbox_store \<Rightarrow> bytes \<Rightarrow> (message list, relay_error) result" where
  "InboxStore_list E inbox recipient =
     (case ib_backend inbox of
        Memory poisoned buckets \<Rightarrow>
          if poisoned then Panic
          else (case map_of buckets recipient of
                  None \<Rightarrow> Ok []
                | Some bucket \<Rightarrow> Ok (map sm_msg (filter (\<lambda>m. sm_expires_at_inst m > rv_inst E) bucket)))
      | Sqlite rows \<Rightarrow> Ok (if rv_sql_ok E then map row_message (filter (live_row E recipient) rows) else []))"

definition InboxStore_remove ::
    "relay_env \<Rightarrow> inbox_store \<Rightarrow> bytes \<Rightarrow> string \<Rightarrow> (bool, relay_error) result \<times> inbox_store" where
  "InboxStore_remove E inbox recipient i =
     (case ib_backend inbox of
        Memory poisoned buckets \<Rightarrow>
          if poisoned then (Panic, inbox)
          else (case map_of buckets recipient of
                  None \<Rightarrow> (Ok False, inbox)
                | Some bucket \<Rightarrow>
                    (let bucket' = filter (\<lambda>m. msg_id (sm_msg m) \<noteq> i) bucket
                     in (Ok (length bucket \<noteq> length bucket'), inbox\<lparr>ib_backend := Memory False (hm_insert buckets recipient bucket')\<rparr>)))
      | Sqlite rows \<Rightarrow>
          if \<not> rv_sql_ok E then (Ok False, inbox)
          else (let rows' = filter (\<lambda>r. \<not> (row_recipient r = recipient \<and> row_id r = i)) rows
                in (Ok (length rows - length rows' > 0), inbox\<lparr>ib_backend := Sqlite rows'\<rparr>)))"

definition prune_buckets :: "nat \<Rightarrow> (bytes, stored_message list) hash_map \<Rightarrow> (bytes, stored_message list) hash_map" where
  "prune_buckets now buckets =
     filter (\<lambda>(k, bucket). bucket \<noteq> []) (map (\<lambda>(k, bucket). (k, filter (\<lambda>m. sm_expires_at_inst m > now) bucket)) buckets)"

definition bucket_total :: "(bytes, stored_message list) hash_map \<Rightarrow> nat" where
  "bucket_total buckets = sum_list (map (\<lambda>(k, bucket). length bucket) buckets)"

definition InboxStore_prune :: "relay_env \<Rightarrow> inbox_store \<Rightarrow> (nat, relay_error) result \<times> inbox_store" where
  "InboxStore_prune E inbox =
     (case ib_backend inbox of
        Memory poisoned buckets \<Rightarrow>
          if poisoned then (Panic, inbox)
          else (let buckets' = prune_buckets (rv_inst E) buckets
                in (Ok (bucket_total buckets - bucket_total buckets'), inbox\<lparr>ib_backend := Memory False buckets'\<rparr>))
      | Sqlite rows \<Rightarrow>
          if \<not> rv_sql_ok E then (Ok 0, inbox)
          else (let rows' = filter (\<lambda>r. \<not> sint (row_expires_at_unix_ms r) \<le> sint (as_i64 (rv_unix_ms E))) rows
                in (Ok (length rows - length rows'), inbox\<lparr>ib_backend := Sqlite rows'\<rparr>)))"

definition InboxStore_total_messages :: "relay_env \<Rightarrow> inbox_store \<Rightarrow> (nat, relay_error) result" where
  "InboxStore_total_messages E inbox =
     (case ib_backend inbox of
        Memory poisoned buckets \<Rightarrow> if poisoned then Panic else Ok (bucket_total buckets)
      | Sqlite rows \<Rightarrow> Ok (if rv_sql_ok E then length rows else 0))"

definition InboxStore_is_persistent :: "inbox_store \<Rightarrow> bool" where
  "InboxStore_is_persistent inbox = (case ib_backend inbox of Sqlite _ \<Rightarrow> True | Memory _ _ \<Rightarrow> False)"

section \<open>Handlers\<close>

record relay_config =
  rc_bind_addr :: string
  rc_operator_name :: string
  rc_max_per_recipient :: nat
  rc_max_payload_bytes :: nat

record relay_state =
  rs_started_at :: nat
  rs_deposits_total :: u64
  rs_fetches_total :: u64

record relay_app =
  ra_config :: relay_config
  ra_state :: relay_state
  ra_inbox :: inbox_store

definition DEFAULT_TTL_SECS :: u64 where
  "DEFAULT_TTL_SECS = 7 * 24 * 3600"

definition parse_recipient :: "libs \<Rightarrow> string \<Rightarrow> (bytes, status_code) result" where
  "parse_recipient X hex_str =
     rbind (ok_or BAD_REQUEST (hex_decode X hex_str)) (\<lambda>bs. if length bs \<noteq> 32 then Err BAD_REQUEST else Ok bs)"

record relay_health_response =
  rh_uptime_seconds :: u64
  rh_deposits_total :: u64
  rh_fetches_total :: u64
  rh_messages_inflight :: nat

definition relay_health :: "relay_env \<Rightarrow> relay_app \<Rightarrow> (relay_health_response, relay_error) result" where
  "relay_health E app =
     rbind (InboxStore_total_messages E (ra_inbox app)) (\<lambda>inflight.
       Ok \<lparr>rh_uptime_seconds = word_of_nat ((rv_inst E - rs_started_at (ra_state app)) div 1000),
           rh_deposits_total = rs_deposits_total (ra_state app), rh_fetches_total = rs_fetches_total (ra_state app),
           rh_messages_inflight = inflight\<rparr>)"

definition deposit_status :: "relay_error \<Rightarrow> status_code" where
  "deposit_status e = (case e of PayloadTooLarge _ _ \<Rightarrow> BAD_REQUEST | InboxFull _ \<Rightarrow> SERVICE_UNAVAILABLE | _ \<Rightarrow> INTERNAL_SERVER_ERROR)"

definition deposit_ttl :: "u64 option \<Rightarrow> nat" where
  "deposit_ttl ttl_secs = unat (case ttl_secs of Some t \<Rightarrow> t | None \<Rightarrow> DEFAULT_TTL_SECS) * 1000"

definition relay_deposit ::
    "libs \<Rightarrow> relay_env \<Rightarrow> string \<Rightarrow> string \<Rightarrow> u64 option \<Rightarrow> relay_app \<Rightarrow> (message, status_code) result \<times> relay_app" where
  "relay_deposit X E recipient_hex payload_hex ttl_secs app =
     or_return (parse_recipient X recipient_hex) app (\<lambda>recipient.
     let (out, inbox) = InboxStore_deposit E (ra_inbox app) recipient payload_hex (deposit_ttl ttl_secs);
         app1 = app\<lparr>ra_inbox := inbox\<rparr>
     in or_return (map_err deposit_status out) app1 (\<lambda>msg.
          (Ok msg, app1\<lparr>ra_state := (ra_state app1)\<lparr>rs_deposits_total := saturating_add (rs_deposits_total (ra_state app1)) 1\<rparr>\<rparr>)))"

definition relay_list :: "libs \<Rightarrow> relay_env \<Rightarrow> string \<Rightarrow> relay_app \<Rightarrow> (message list, status_code) result \<times> relay_app" where
  "relay_list X E recipient_hex app =
     or_return (parse_recipient X recipient_hex) app (\<lambda>recipient.
     or_return (map_err (\<lambda>_. INTERNAL_SERVER_ERROR) (InboxStore_list E (ra_inbox app) recipient)) app (\<lambda>messages.
       (Ok messages, app\<lparr>ra_state := (ra_state app)\<lparr>rs_fetches_total := saturating_add (rs_fetches_total (ra_state app)) 1\<rparr>\<rparr>)))"

definition relay_remove :: "libs \<Rightarrow> relay_env \<Rightarrow> string \<Rightarrow> string \<Rightarrow> relay_app \<Rightarrow> (bool, status_code) result \<times> relay_app" where
  "relay_remove X E recipient_hex message_id app =
     or_return (parse_recipient X recipient_hex) app (\<lambda>recipient.
     let (out, inbox) = InboxStore_remove E (ra_inbox app) recipient message_id;
         app1 = app\<lparr>ra_inbox := inbox\<rparr>
     in or_return (map_err (\<lambda>_. INTERNAL_SERVER_ERROR) out) app1 (\<lambda>removed. (Ok removed, app1)))"

record relay_info_response =
  ri_operator :: string
  ri_bind_addr :: string
  ri_max_per_recipient :: nat
  ri_max_payload_bytes :: nat
  ri_default_ttl_secs :: u64

definition relay_info :: "relay_app \<Rightarrow> relay_info_response" where
  "relay_info app =
     \<lparr>ri_operator = rc_operator_name (ra_config app), ri_bind_addr = rc_bind_addr (ra_config app),
      ri_max_per_recipient = rc_max_per_recipient (ra_config app), ri_max_payload_bytes = rc_max_payload_bytes (ra_config app),
      ri_default_ttl_secs = DEFAULT_TTL_SECS\<rparr>"

text \<open>The routes, and a tick of the pruning task.\<close>

datatype relay_request =
    RelayHealth
  | RelayInfo
  | RelayDeposit string string "u64 option"
  | RelayList string
  | RelayRemove string string
  | RelayPruneTick

datatype relay_reply =
    HealthR "(relay_health_response, relay_error) result"
  | InfoR relay_info_response
  | DepositR "(message, status_code) result"
  | ListR "(message list, status_code) result"
  | RemoveR "(bool, status_code) result"
  | PruneR "(nat, relay_error) result"

definition relay_step :: "libs \<Rightarrow> relay_env \<Rightarrow> relay_request \<Rightarrow> relay_app \<Rightarrow> relay_reply \<times> relay_app" where
  "relay_step X E req app =
     (case req of
        RelayHealth \<Rightarrow> (HealthR (relay_health E app), app)
      | RelayInfo \<Rightarrow> (InfoR (relay_info app), app)
      | RelayDeposit r p ttl \<Rightarrow> apfst DepositR (relay_deposit X E r p ttl app)
      | RelayList r \<Rightarrow> apfst ListR (relay_list X E r app)
      | RelayRemove r i \<Rightarrow> apfst RemoveR (relay_remove X E r i app)
      | RelayPruneTick \<Rightarrow> (let (n, inbox) = InboxStore_prune E (ra_inbox app) in (PruneR n, app\<lparr>ra_inbox := inbox\<rparr>)))"

definition relay_run :: "libs \<Rightarrow> (relay_env \<times> relay_request) list \<Rightarrow> relay_app \<Rightarrow> relay_app" where
  "relay_run X reqs app = fold (\<lambda>(E, req) a. snd (relay_step X E req a)) reqs app"

text \<open>The daemon's arguments; \<open>db\<close> is what the database file holds when it is opened.\<close>

record relay_args =
  rarg_bind :: string
  rarg_operator :: string
  rarg_max_per_recipient :: nat
  rarg_max_payload_bytes :: nat
  rarg_storage_path :: "string option"

definition relay_boot :: "relay_env \<Rightarrow> (string \<Rightarrow> sql_row list) \<Rightarrow> relay_args \<Rightarrow> (relay_app, relay_error) result" where
  "relay_boot E db args =
     (let config = \<lparr>rc_bind_addr = rarg_bind args, rc_operator_name = rarg_operator args,
            rc_max_per_recipient = rarg_max_per_recipient args, rc_max_payload_bytes = rarg_max_payload_bytes args\<rparr>;
          state = \<lparr>rs_started_at = rv_inst E, rs_deposits_total = 0, rs_fetches_total = 0\<rparr>
      in rbind (case rarg_storage_path args of
                  Some path \<Rightarrow> InboxStore_sqlite E (db path) (rc_max_per_recipient config) (rc_max_payload_bytes config)
                | None \<Rightarrow> Ok (InboxStore_in_memory (rc_max_per_recipient config) (rc_max_payload_bytes config)))
           (\<lambda>inbox. Ok \<lparr>ra_config = config, ra_state = state, ra_inbox = inbox\<rparr>))"

section \<open>The contract of an inbox\<close>

datatype relay_op =
    OpDeposit relay_env bytes string nat
  | OpList relay_env bytes
  | OpRemove relay_env bytes string
  | OpPrune relay_env

text \<open>
  \<open>contents E st r\<close> is what \<open>r\<close> can see at the time of \<open>E\<close>; \<open>fits E ttl\<close> says that the expiry time is
  representable, \<open>alive E ttl E'\<close> that a message deposited at \<open>E\<close> has not expired at \<open>E'\<close>, \<open>later\<close> that the
  clocks have advanced.
\<close>

locale inbox_contract =
  fixes inv :: "'st \<Rightarrow> bool" and contents :: "relay_env \<Rightarrow> 'st \<Rightarrow> bytes \<Rightarrow> message list"
    and deposit :: "relay_env \<Rightarrow> 'st \<Rightarrow> bytes \<Rightarrow> string \<Rightarrow> nat \<Rightarrow> (message, relay_error) result \<times> 'st"
    and listing :: "relay_env \<Rightarrow> 'st \<Rightarrow> bytes \<Rightarrow> (message list, relay_error) result"
    and remove :: "relay_env \<Rightarrow> 'st \<Rightarrow> bytes \<Rightarrow> string \<Rightarrow> (bool, relay_error) result \<times> 'st"
    and prune :: "relay_env \<Rightarrow> 'st \<Rightarrow> (nat, relay_error) result \<times> 'st"
    and fits :: "relay_env \<Rightarrow> nat \<Rightarrow> bool" and alive :: "relay_env \<Rightarrow> nat \<Rightarrow> relay_env \<Rightarrow> bool"
    and later :: "relay_env \<Rightarrow> relay_env \<Rightarrow> bool" and env_ok :: "relay_env \<Rightarrow> bool"
  assumes listing_contents: "inv st \<Longrightarrow> env_ok E \<Longrightarrow> listing E st r = Ok (contents E st r)"
    and deposit_inv: "inv st \<Longrightarrow> fits E ttl \<Longrightarrow> inv (snd (deposit E st r p ttl))"
    and deposit_new: "inv st \<Longrightarrow> fits E ttl \<Longrightarrow> deposit E st r p ttl = (Ok m, st') \<Longrightarrow> alive E ttl E' \<Longrightarrow> m \<in> set (contents E' st' r)"
    and deposit_keeps: "inv st \<Longrightarrow> fits E ttl \<Longrightarrow>
          set (contents E' st r') \<subseteq> set (contents E' (snd (deposit E st r p ttl)) r')"
    and remove_inv: "inv st \<Longrightarrow> inv (snd (remove E st r i))"
    and remove_keeps: "inv st \<Longrightarrow> m \<in> set (contents E' st r') \<Longrightarrow> r' \<noteq> r \<or> msg_id m \<noteq> i \<Longrightarrow>
          m \<in> set (contents E' (snd (remove E st r i)) r')"
    and prune_inv: "inv st \<Longrightarrow> inv (snd (prune E st))"
    and prune_keeps: "inv st \<Longrightarrow> later E E' \<Longrightarrow> set (contents E' st r) \<subseteq> set (contents E' (snd (prune E st)) r)"
begin

fun apply_op :: "relay_op \<Rightarrow> 'st \<Rightarrow> 'st" where
  "apply_op (OpDeposit E r p ttl) st = snd (deposit E st r p ttl)"
| "apply_op (OpList E r) st = st"
| "apply_op (OpRemove E r i) st = snd (remove E st r i)"
| "apply_op (OpPrune E) st = snd (prune E st)"

fun keeps :: "bytes \<Rightarrow> string \<Rightarrow> relay_env \<Rightarrow> relay_op \<Rightarrow> bool" where
  "keeps r i E' (OpDeposit E _ _ ttl) = fits E ttl"
| "keeps r i E' (OpList _ _) = True"
| "keeps r i E' (OpRemove _ r2 i2) = (r \<noteq> r2 \<or> i \<noteq> i2)"
| "keeps r i E' (OpPrune E) = later E E'"

lemma apply_op_keeps:
  assumes "inv st" and "m \<in> set (contents E' st r)" and "keeps r (msg_id m) E' op"
  shows "inv (apply_op op st) \<and> m \<in> set (contents E' (apply_op op st) r)"
proof (cases op)
  case (OpDeposit E q p ttl)
  then show ?thesis using assms deposit_inv [of st E ttl q p] deposit_keeps [of st E ttl E' r q p] by auto
next
  case (OpList E q)
  then show ?thesis using assms by simp
next
  case (OpRemove E q i)
  then show ?thesis using assms remove_inv remove_keeps by simp
next
  case (OpPrune E)
  then show ?thesis using assms prune_inv prune_keeps [of st E E' r] by auto
qed

lemma delivered:
  assumes "inv st" and "fits E ttl" and "deposit E st r p ttl = (Ok m, st1)" and "alive E ttl E'" and "env_ok E'"
    and "\<forall>op \<in> set ops. keeps r (msg_id m) E' op"
  shows "\<exists>ms. listing E' (fold apply_op ops st1) r = Ok ms \<and> m \<in> set ms"
proof -
  have st1: "inv st1" using deposit_inv [OF assms(1,2), of r p] assms(3) by simp
  have new: "m \<in> set (contents E' st1 r)" using deposit_new [OF assms(1-4)] .
  have "inv (fold apply_op ops st1) \<and> m \<in> set (contents E' (fold apply_op ops st1) r)"
    using st1 new assms(6)
  proof (induction ops arbitrary: st1)
    case (Cons op ops)
    then show ?case using apply_op_keeps [of st1 m E' r op] by simp
  qed simp
  then show ?thesis using listing_contents [OF _ assms(5)] by blast
qed

end

section \<open>Both backends satisfy it\<close>

definition inbox_inv :: "inbox_store \<Rightarrow> bool" where
  "inbox_inv inbox \<longleftrightarrow>
     (case ib_backend inbox of
        Memory poisoned buckets \<Rightarrow> \<not> poisoned \<and> hm_ok buckets \<and>
          (\<forall>r bucket. map_of buckets r = Some bucket \<longrightarrow> length bucket \<le> ib_max_per_recipient inbox)
      | Sqlite rows \<Rightarrow> distinct (map row_id rows))"

definition inbox_contents :: "relay_env \<Rightarrow> inbox_store \<Rightarrow> bytes \<Rightarrow> message list" where
  "inbox_contents E inbox r =
     (case ib_backend inbox of
        Memory _ buckets \<Rightarrow>
          (case map_of buckets r of
             None \<Rightarrow> []
           | Some bucket \<Rightarrow> map sm_msg (filter (\<lambda>m. sm_expires_at_inst m > rv_inst E) bucket))
      | Sqlite rows \<Rightarrow> map row_message (filter (live_row E r) rows))"

definition ttl_fits :: "relay_env \<Rightarrow> nat \<Rightarrow> bool" where
  "ttl_fits E ttl \<longleftrightarrow> rv_inst E + ttl \<le> rv_inst_max E \<and> unat (rv_unix_ms E) + ttl < 2 ^ 63"

definition not_expired :: "relay_env \<Rightarrow> nat \<Rightarrow> relay_env \<Rightarrow> bool" where
  "not_expired E ttl E' \<longleftrightarrow> rv_inst E' < rv_inst E + ttl \<and> unat (rv_unix_ms E') < unat (rv_unix_ms E) + ttl"

definition clocks_advance :: "relay_env \<Rightarrow> relay_env \<Rightarrow> bool" where
  "clocks_advance E E' \<longleftrightarrow> rv_inst E \<le> rv_inst E' \<and> unat (rv_unix_ms E) \<le> unat (rv_unix_ms E') \<and> unat (rv_unix_ms E') < 2 ^ 63"

lemma sint_as_i64: "unat t < 2 ^ 63 \<Longrightarrow> sint (as_i64 t) = int (unat t)"
proof -
  assume t: "unat t < 2 ^ 63"
  then have "int (unat t) < 2 ^ 63" by (metis of_nat_less_iff of_nat_numeral of_nat_power)
  then have u: "uint t < 2 ^ 63" by simp
  have "uint (as_i64 t) = take_bit 64 (uint t)" by (simp add: as_i64_def unsigned_ucast_eq)
  also have "\<dots> = uint t" using u by (intro take_bit_int_eq_self) simp_all
  finally have "sint (as_i64 t) = signed_take_bit 63 (uint t)" by (simp add: sint_uint)
  also have "\<dots> = uint t" using u by (intro signed_take_bit_int_eq_self) (simp_all add: order_trans [of _ 0])
  finally show ?thesis by simp
qed

lemma scast_as_i64: "unat t < 2 ^ 63 \<Longrightarrow> scast (as_i64 t) = t"
proof -
  assume "unat t < 2 ^ 63"
  then have "scast (as_i64 t) = (word_of_int (int (unat t)) :: u128)" by (simp only: scast_eq sint_as_i64)
  then show ?thesis by simp
qed


lemma expiry_value:
  assumes "unat (t :: u128) + ttl < 2 ^ 63"
  shows "unat (t + word_of_nat ttl) = unat t + ttl"
proof -
  have "(2 :: nat) ^ 63 < 2 ^ LENGTH(128)" by simp
  then have "unat t + ttl < 2 ^ LENGTH(128)" using assms by linarith
  then show ?thesis by (simp add: unat_word_ariths unat_of_nat take_bit_nat_eq_self)
qed

lemmas inbox_defs = InboxStore_deposit_def InboxStore_remove_def InboxStore_prune_def Let_def

lemma inbox_listing: "inbox_inv inbox \<Longrightarrow> rv_sql_ok E \<Longrightarrow> InboxStore_list E inbox r = Ok (inbox_contents E inbox r)"
  by (auto simp: InboxStore_list_def inbox_contents_def inbox_inv_def split: backend.splits option.splits)

lemma inbox_deposit_inv: "inbox_inv inbox \<Longrightarrow> ttl_fits E ttl \<Longrightarrow> inbox_inv (snd (InboxStore_deposit E inbox r p ttl))"
  by (cases "ib_backend inbox") (auto simp: inbox_defs inbox_inv_def ttl_fits_def split: option.splits intro: le_antisym)

lemma inbox_deposit_keeps:
  "inbox_inv inbox \<Longrightarrow> ttl_fits E ttl \<Longrightarrow>
   set (inbox_contents E' inbox r') \<subseteq> set (inbox_contents E' (snd (InboxStore_deposit E inbox r p ttl)) r')"
  by (cases "ib_backend inbox") (auto simp: inbox_defs inbox_contents_def split: option.splits)

lemma inbox_remove_inv: "inbox_inv inbox \<Longrightarrow> inbox_inv (snd (InboxStore_remove E inbox r i))"
  by (cases "ib_backend inbox")
    (auto simp: inbox_defs inbox_inv_def distinct_map_filter intro: le_trans [OF length_filter_le] split: option.splits)

lemma inbox_remove_keeps:
  "m \<in> set (inbox_contents E' inbox r') \<Longrightarrow> r' \<noteq> r \<or> msg_id m \<noteq> i \<Longrightarrow>
   m \<in> set (inbox_contents E' (snd (InboxStore_remove E inbox r i)) r')"
proof (cases "ib_backend inbox")
  case (Memory poisoned buckets)
  assume "m \<in> set (inbox_contents E' inbox r')" and "r' \<noteq> r \<or> msg_id m \<noteq> i"
  then show ?thesis using Memory by (auto simp: inbox_defs inbox_contents_def split: option.splits)
next
  case (Sqlite rows)
  assume "m \<in> set (inbox_contents E' inbox r')" and "r' \<noteq> r \<or> msg_id m \<noteq> i"
  then obtain x where "x \<in> set rows" "live_row E' r' x" "m = row_message x" "row_recipient x \<noteq> r \<or> row_id x \<noteq> i"
    using Sqlite by (auto simp: inbox_contents_def live_row_def row_message_def)
  then show ?thesis using Sqlite by (auto simp: inbox_defs inbox_contents_def)
qed

lemma hm_ok_prune_buckets: "hm_ok buckets \<Longrightarrow> hm_ok (prune_buckets now buckets)"
  by (simp add: hm_ok_def prune_buckets_def distinct_map_filter o_def case_prod_beta)

lemma map_of_prune_buckets:
  "hm_ok buckets \<Longrightarrow> map_of (prune_buckets now buckets) r =
     (case map_of buckets r of
        None \<Rightarrow> None
      | Some b \<Rightarrow> let b' = filter (\<lambda>m. sm_expires_at_inst m > now) b in if b' = [] then None else Some b')"
  by (induction buckets) (auto simp: hm_ok_def prune_buckets_def Let_def map_of_eq_None_iff image_iff split: option.splits)

lemma inbox_prune_inv: "inbox_inv inbox \<Longrightarrow> inbox_inv (snd (InboxStore_prune E inbox))"
  by (cases "ib_backend inbox")
    (auto simp: inbox_defs inbox_inv_def hm_ok_prune_buckets map_of_prune_buckets distinct_map_filter
      intro: le_trans [OF length_filter_le] split: option.splits if_splits)

lemma inbox_prune_keeps:
  assumes "inbox_inv inbox" and "clocks_advance E E'"
  shows "set (inbox_contents E' inbox r) \<subseteq> set (inbox_contents E' (snd (InboxStore_prune E inbox)) r)"
proof (cases "ib_backend inbox")
  case (Memory poisoned buckets)
  then show ?thesis using assms
    by (auto simp: inbox_defs inbox_inv_def inbox_contents_def clocks_advance_def map_of_prune_buckets filter_empty_conv
        split: option.splits)
next
  case (Sqlite rows)
  have "sint (as_i64 (rv_unix_ms E)) \<le> sint (as_i64 (rv_unix_ms E'))"
    using assms(2) sint_as_i64 [of "rv_unix_ms E"] sint_as_i64 [of "rv_unix_ms E'"]
    by (simp only: clocks_advance_def) linarith
  then show ?thesis using Sqlite by (auto simp: inbox_defs inbox_contents_def live_row_def)
qed

lemma inbox_deposit_new:
  assumes "ttl_fits E ttl" and "InboxStore_deposit E inbox r p ttl = (Ok m, inbox')" and "not_expired E ttl E'"
  shows "m \<in> set (inbox_contents E' inbox' r)"
proof (cases "ib_backend inbox")
  case (Memory poisoned buckets)
  then show ?thesis using assms
    by (auto simp: inbox_defs inbox_contents_def not_expired_def split: option.splits if_splits)
next
  case (Sqlite rows)
  let ?t = "rv_unix_ms E" and ?t' = "rv_unix_ms E'"
  have fits: "unat ?t + ttl < 2 ^ 63" and now: "unat ?t' < unat ?t + ttl"
    using assms(1,3) by (simp_all add: ttl_fits_def not_expired_def)
  have exp: "unat (?t + word_of_nat ttl) = unat ?t + ttl" using expiry_value [OF fits] .
  then have casts: "scast (as_i64 ?t) = ?t" "scast (as_i64 (?t + word_of_nat ttl)) = ?t + word_of_nat ttl"
    using fits by (simp_all only: scast_as_i64)
  have "sint (as_i64 (?t + word_of_nat ttl)) = int (unat ?t + ttl)" "sint (as_i64 ?t') = int (unat ?t')"
    using sint_as_i64 [of "?t + word_of_nat ttl"] sint_as_i64 [of ?t'] exp fits now by simp_all
  then have "sint (as_i64 ?t') < sint (as_i64 (?t + word_of_nat ttl))" using now by linarith
  then show ?thesis using assms(2) Sqlite casts
    by (auto simp: inbox_defs inbox_contents_def live_row_def row_message_def split: if_splits)
qed

interpretation relay_inbox: inbox_contract inbox_inv inbox_contents InboxStore_deposit InboxStore_list InboxStore_remove
  InboxStore_prune ttl_fits not_expired clocks_advance rv_sql_ok
  by unfold_locales
    (auto intro: inbox_listing inbox_deposit_inv inbox_deposit_new inbox_remove_inv inbox_remove_keeps inbox_prune_inv
      dest: inbox_deposit_keeps [THEN subsetD] inbox_prune_keeps [THEN subsetD])


section \<open>Delivery\<close>

text \<open>The inbox operation behind a request; a request whose recipient does not parse has none.\<close>

definition request_op :: "libs \<Rightarrow> relay_env \<times> relay_request \<Rightarrow> relay_op option" where
  "request_op X q =
     (case q of (E, req) \<Rightarrow>
       (case req of
          RelayDeposit r p ttl \<Rightarrow> (case parse_recipient X r of Ok rr \<Rightarrow> Some (OpDeposit E rr p (deposit_ttl ttl)) | _ \<Rightarrow> None)
        | RelayRemove r i \<Rightarrow> (case parse_recipient X r of Ok rr \<Rightarrow> Some (OpRemove E rr i) | _ \<Rightarrow> None)
        | RelayPruneTick \<Rightarrow> Some (OpPrune E)
        | _ \<Rightarrow> None))"

lemma ra_inbox_or_return:
  "(\<And>x. ra_inbox (snd (f x)) = ra_inbox st) \<Longrightarrow> ra_inbox (snd (or_return r st f)) = ra_inbox st"
  by (cases r) auto

lemma handler_inbox:
  "ra_inbox (snd (relay_deposit X E r p ttl app)) =
     (case parse_recipient X r of Ok rr \<Rightarrow> snd (InboxStore_deposit E (ra_inbox app) rr p (deposit_ttl ttl)) | _ \<Rightarrow> ra_inbox app)"
  "ra_inbox (snd (relay_remove X E r i app)) =
     (case parse_recipient X r of Ok rr \<Rightarrow> snd (InboxStore_remove E (ra_inbox app) rr i) | _ \<Rightarrow> ra_inbox app)"
  "ra_inbox (snd (relay_list X E r app)) = ra_inbox app"
  by (cases "parse_recipient X r"; simp add: relay_deposit_def Let_def case_prod_beta ra_inbox_or_return)
    (cases "parse_recipient X r"; simp add: relay_remove_def relay_list_def Let_def case_prod_beta ra_inbox_or_return)+

lemma relay_step_inbox:
  "ra_inbox (snd (relay_step X E req app)) =
     (case request_op X (E, req) of None \<Rightarrow> ra_inbox app | Some op \<Rightarrow> relay_inbox.apply_op op (ra_inbox app))"
  by (auto simp: relay_step_def request_op_def handler_inbox case_prod_beta split: relay_request.split result.splits)

lemma relay_run_inbox:
  "ra_inbox (relay_run X reqs app) = fold relay_inbox.apply_op (List.map_filter (request_op X) reqs) (ra_inbox app)"
  by (induction reqs arbitrary: app)
    (auto simp: relay_run_def List.map_filter_def relay_step_inbox split: option.splits)

text \<open>
  \<open>request_fits\<close>: the expiry time of a deposit is representable. \<open>request_keeps\<close>: a request that does not
  remove the message \<open>i\<close> of \<open>r\<close>, and does not prune at a time later than \<open>E'\<close>.
\<close>

definition request_fits :: "relay_env \<times> relay_request \<Rightarrow> bool" where
  "request_fits q = (case q of (E, RelayDeposit _ _ ttl) \<Rightarrow> ttl_fits E (deposit_ttl ttl) | _ \<Rightarrow> True)"

definition request_keeps :: "libs \<Rightarrow> string \<Rightarrow> string \<Rightarrow> relay_env \<Rightarrow> relay_env \<times> relay_request \<Rightarrow> bool" where
  "request_keeps X r i E' q =
     (case q of
        (E, RelayDeposit _ _ ttl) \<Rightarrow> ttl_fits E (deposit_ttl ttl)
      | (E, RelayRemove r2 i2) \<Rightarrow> parse_recipient X r2 \<noteq> parse_recipient X r \<or> i2 \<noteq> i
      | (E, RelayPruneTick) \<Rightarrow> clocks_advance E E'
      | _ \<Rightarrow> True)"

lemma request_fits_inv: "inbox_inv st \<Longrightarrow> request_fits q \<Longrightarrow> request_op X q = Some op \<Longrightarrow> inbox_inv (relay_inbox.apply_op op st)"
  by (auto simp: request_fits_def request_op_def inbox_deposit_inv inbox_remove_inv inbox_prune_inv
      split: prod.splits relay_request.splits result.splits)

lemma relay_run_inv:
  "inbox_inv (ra_inbox app) \<Longrightarrow> \<forall>q \<in> set reqs. request_fits q \<Longrightarrow> inbox_inv (ra_inbox (relay_run X reqs app))"
proof (induction reqs arbitrary: app)
  case (Cons q reqs)
  have "inbox_inv (ra_inbox (snd (relay_step X (fst q) (snd q) app)))"
    using Cons.prems request_fits_inv [of "ra_inbox app" q X] by (auto simp: relay_step_inbox split: option.splits)
  then show ?case using Cons by (simp add: relay_run_def case_prod_beta)
qed (simp add: relay_run_def)

lemma relay_boot_inv:
  "relay_boot E db args = Ok app \<Longrightarrow> \<forall>path. distinct (map row_id (db path)) \<Longrightarrow> inbox_inv (ra_inbox app)"
  by (auto simp: relay_boot_def Let_def InboxStore_sqlite_def InboxStore_in_memory_def inbox_inv_def split: option.splits if_splits)

lemma request_keeps_op:
  "request_keeps X r i E' q \<Longrightarrow> parse_recipient X r = Ok rr \<Longrightarrow> request_op X q = Some op \<Longrightarrow> relay_inbox.keeps rr i E' op"
  by (auto simp: request_keeps_def request_op_def split: prod.splits relay_request.splits result.splits)

lemma message_kept:
  assumes inv: "inbox_inv (ra_inbox app)"
    and dep: "relay_deposit X E r p ttl app = (Ok m, app1)" and fits: "ttl_fits E (deposit_ttl ttl)"
    and "\<forall>q \<in> set between. request_keeps X r (msg_id m) E' q"
    and "not_expired E (deposit_ttl ttl) E'" and "rv_sql_ok E'"
  shows "\<exists>ms. fst (relay_list X E' r (relay_run X between app1)) = Ok ms \<and> m \<in> set ms"
proof -
  obtain rr where rr: "parse_recipient X r = Ok rr"
    and d: "InboxStore_deposit E (ra_inbox app) rr p (deposit_ttl ttl) = (Ok m, ra_inbox app1)"
    using dep by (cases "parse_recipient X r") (auto simp: relay_deposit_def Let_def split: prod.splits)
  have "\<forall>op \<in> set (List.map_filter (request_op X) between). relay_inbox.keeps rr (msg_id m) E' op"
    using assms(4) request_keeps_op [OF _ rr] by (auto simp: List.map_filter_def)
  from relay_inbox.delivered [OF inv fits d assms(5,6) this] obtain ms
    where "InboxStore_list E' (ra_inbox (relay_run X between app1)) rr = Ok ms" "m \<in> set ms"
    by (auto simp: relay_run_inbox)
  then show ?thesis by (simp add: relay_list_def rr)
qed

text \<open>
  C18. A message a relay accepted is delivered: from boot, after any earlier requests, once a deposit
  has answered with the message, every listing for that recipient before the message expires is
  answered and contains it, whatever requests (deposits, listings, removals of other messages,
  pruning ticks) come in between, with the in-memory and with the SQLite backend. Deposits with a
  lifetime whose expiry is not a representable time are excluded: they stop the in-memory relay.
\<close>

theorem relay_delivers:
  assumes "relay_boot E0 db args = Ok app0" and "\<forall>path. distinct (map row_id (db path))"
    and "\<forall>q \<in> set earlier. request_fits q"
    and "relay_deposit X E r p ttl (relay_run X earlier app0) = (Ok m, app1)" and "ttl_fits E (deposit_ttl ttl)"
    and "\<forall>q \<in> set between. request_keeps X r (msg_id m) E' q"
    and "not_expired E (deposit_ttl ttl) E'" and "rv_sql_ok E'"
  shows "\<exists>ms. fst (relay_list X E' r (relay_run X between app1)) = Ok ms \<and> m \<in> set ms"
  using message_kept [OF relay_run_inv [OF relay_boot_inv [OF assms(1,2)] assms(3)] assms(4-8)] .

definition sample_relay_env :: "nat \<Rightarrow> string \<Rightarrow> relay_env" where
  "sample_relay_env t i = \<lparr>rv_unix_ms = word_of_nat (1000 + t), rv_inst = t, rv_inst_max = 2 ^ 60, rv_id = i, rv_sql_ok = True\<rparr>"

definition sample_recipient :: "u8 \<Rightarrow> string" where
  "sample_recipient b = hex_encode sample_libs (replicate 32 b)"

definition sample_relay_args :: relay_args where
  "sample_relay_args = \<lparr>rarg_bind = ''127.0.0.1:9799'', rarg_operator = ''op'', rarg_max_per_recipient = 2,
     rarg_max_payload_bytes = 64, rarg_storage_path = Some ''relay.db''\<rparr>"

lemma parse_sample_recipient [simp]: "parse_recipient sample_libs (sample_recipient b) = Ok (replicate 32 b)"
  using libs_ok_sample by (simp add: parse_recipient_def sample_recipient_def libs_ok_def)

lemmas sample_relay_defs = sample_relay_env_def sample_relay_args_def relay_boot_def InboxStore_sqlite_def relay_run_def
  relay_step_def relay_deposit_def InboxStore_deposit_def InboxStore_remove_def InboxStore_prune_def relay_remove_def deposit_ttl_def live_row_def

theorem relay_delivers_witness:
  "\<exists>app0 app1 m ms. relay_boot (sample_relay_env 0 []) (\<lambda>_. []) sample_relay_args = Ok app0 \<and>
     relay_deposit sample_libs (sample_relay_env 5 ''b'') (sample_recipient 1) ''cafe'' (Some 10)
       (relay_run sample_libs [(sample_relay_env 1 ''a'', RelayDeposit (sample_recipient 2) ''00'' None)] app0) = (Ok m, app1) \<and>
     fst (relay_list sample_libs (sample_relay_env 9000 []) (sample_recipient 1)
       (relay_run sample_libs [(sample_relay_env 60 [], RelayPruneTick), (sample_relay_env 70 [], RelayRemove (sample_recipient 1) ''a'')] app1)) = Ok ms \<and>
     m \<in> set ms"
proof -
  obtain app0 where boot: "relay_boot (sample_relay_env 0 []) (\<lambda>_. []) sample_relay_args = Ok app0"
    by (simp add: sample_relay_defs)
  let ?app = "relay_run sample_libs [(sample_relay_env 1 ''a'', RelayDeposit (sample_recipient 2) ''00'' None)] app0"
  obtain m app1 where dep: "relay_deposit sample_libs (sample_relay_env 5 ''b'') (sample_recipient 1) ''cafe'' (Some 10) ?app = (Ok m, app1)"
    and i: "msg_id m = ''b''"
    using boot by (auto simp: sample_relay_defs)
  show ?thesis using boot dep
    relay_delivers [OF boot _ _ dep, of "[(sample_relay_env 60 [], RelayPruneTick), (sample_relay_env 70 [], RelayRemove (sample_recipient 1) ''a'')]"
      "sample_relay_env 9000 []"]
    by (simp add: i request_fits_def request_keeps_def ttl_fits_def not_expired_def clocks_advance_def deposit_ttl_def
        DEFAULT_TTL_SECS_def sample_relay_env_def)
qed

section \<open>A lifetime that stops the relay\<close>

text \<open>
  The in-memory backend adds the lifetime a depositor asks for to an \<open>Instant\<close> while it holds the
  lock. A sum that is not representable panics there, and no later request that touches the inbox is answered.
\<close>

lemma large_ttl_stops_relay:
  assumes "ib_backend inbox = Memory False buckets" and "length p div 2 \<le> ib_max_payload_bytes inbox"
    and "case map_of buckets r of None \<Rightarrow> 0 < ib_max_per_recipient inbox | Some b \<Rightarrow> length b < ib_max_per_recipient inbox"
    and "rv_inst E + ttl > rv_inst_max E"
  shows "fst (InboxStore_deposit E inbox r p ttl) = Panic \<and>
         InboxStore_list E' (snd (InboxStore_deposit E inbox r p ttl)) r' = Panic"
  using assms by (auto simp: InboxStore_deposit_def InboxStore_list_def split: option.splits)

end
