(* ===== verification/Wallet_Commands.thy ===== *)
theory Wallet_Commands
  imports Wallet_Refresh Wallet_Store Invoice Relay
begin

text \<open>
  The commands of the wallet program (\<open>bin/wallet.rs\<close>), one definition per subcommand.

  A command runs against a \<open>platform\<close>, the libraries and peers it calls, and changes a \<open>world\<close>: the disk,
  the random generator, the state behind the network and what was printed so far. Printed JSON is a value
  of \<open>printed\<close>, and every \<open>anyhow\<close> message is a constructor of \<open>command_error\<close>. Arguments are the records
  that \<open>clap\<close> fills; text is a list of characters, one per byte of its UTF-8 form. A relay is reached
  through \<open>relay_net\<close>: the program reads its answers as untyped JSON, whatever their status, so each
  field may be missing. The JSON of a payment is the parameter \<open>payload_json\<close>.
\<close>

section \<open>Platform and world\<close>

definition text_of :: "bytes \<Rightarrow> string" where
  "text_of bs = map (\<lambda>b. char_of (unat b)) bs"

definition trim_end_slashes :: "string \<Rightarrow> string" where
  "trim_end_slashes s = rev (dropWhile (\<lambda>c. c = CHR ''/'') (rev s))"

text \<open>An answer of a relay: none at all, a body that is not JSON, or a JSON value.\<close>

datatype 'a json_reply = SendFailed | NotJson | Value 'a

record deposited =
  dp_id :: "string option"
  dp_expires_at_unix_ms :: "u64 option"

record listed_message =
  lm_id :: "string option"
  lm_payload_hex :: "string option"

record 'w relay_net =
  rn_deposit :: "string \<Rightarrow> string \<Rightarrow> string \<Rightarrow> u64 \<Rightarrow> 'w \<Rightarrow> deposited json_reply \<times> 'w" \<comment> \<open>base URL, recipient, payload, lifetime\<close>
  rn_list :: "string \<Rightarrow> string \<Rightarrow> 'w \<Rightarrow> listed_message list option json_reply \<times> 'w" \<comment> \<open>base URL, recipient\<close>
  rn_remove :: "string \<Rightarrow> string \<Rightarrow> string \<Rightarrow> 'w \<Rightarrow> bool \<times> 'w" \<comment> \<open>base URL, recipient, identifier\<close>

record payload =
  pl_coin_secret :: string
  pl_coin_pubkey :: string
  pl_coin_signature :: string
  pl_denom :: u64
  pl_memo :: "bytes option"

record payload_fields =
  pf_coin_secret :: "string option"
  pf_coin_pubkey :: "string option"
  pf_coin_signature :: "string option"
  pf_denom :: "u64 option"

record payload_json =
  payload_to_vec :: "payload \<Rightarrow> bytes"
  payload_from_slice :: "bytes \<Rightarrow> payload_fields option" \<comment> \<open>\<open>None\<close> when it is not JSON\<close>

definition payload_ok :: "payload_json \<Rightarrow> bool" where
  "payload_ok J \<longleftrightarrow> (\<forall>p. payload_from_slice J (payload_to_vec J p) =
     Some \<lparr>pf_coin_secret = Some (pl_coin_secret p), pf_coin_pubkey = Some (pl_coin_pubkey p),
       pf_coin_signature = Some (pl_coin_signature p), pf_denom = Some (pl_denom p)\<rparr>)"

record ('s, 'p, 'q, 'r, 'w, 'm) platform =
  plat_crypto :: "('s, 'p) crypto"
  plat_x25519 :: "('s, 'p, 'q) x25519"
  plat_rng :: "('r, 's) rng"
  plat_libs :: libs
  plat_bip39 :: "'m bip39"
  plat_payload :: payload_json
  plat_net :: "'w network"
  plat_relay :: "'w relay_net"
  plat_client_builds :: bool \<comment> \<open>whether the HTTP client can be built\<close>
  plat_fault :: disk_fault \<comment> \<open>what happens to the command's save\<close>

datatype ('s, 'm) printed =
    PrintMnemonic u8 'm
  | PrintSeed string
  | PrintIdentity string
  | PrintStatus path nat "(u64 \<times> u64 \<times> u64 \<times> u64) list"
  | PrintAdded path
  | PrintCoins "(string \<times> u64 \<times> coin_status \<times> bytes option) list"
  | PrintReceived nat nat nat \<comment> \<open>added, deleted, skipped\<close>
  | PrintPaid string u64 string string u64 \<comment> \<open>recipient, denomination, relay, message, expiry\<close>
  | PrintUri bytes
  | PrintInvoice string u64 "bytes list" "bytes option"
  | PrintKeysetAdded bytes path
  | PrintKeysets "(bytes \<times> u64 \<times> bytes \<times> bytes list) list"
  | PrintKeysetRemoved bool bytes path
  | PrintCoin "'s coin"

record ('s, 'r, 'w, 'm) world =
  wo_disk :: disk
  wo_rng :: 'r
  wo_net :: 'w
  wo_out :: "('s, 'm) printed list"

definition say :: "('s, 'm) printed \<Rightarrow> ('s, 'r, 'w, 'm) world \<Rightarrow> ('s, 'r, 'w, 'm) world" where
  "say p wo = wo\<lparr>wo_out := wo_out wo @ [p]\<rparr>"

datatype command_error =
    BadWordCount u8
  | ArgHex
  | ArgLength nat nat \<comment> \<open>expected, got\<close>
  | KeysetNeedsPhrase
  | UnknownKeyset
  | NoJointPk
  | NoValidators
  | TooManyValidators
  | WalletFailed wallet_error
  | BadJointPk core_error
  | AddFailed client_error
  | MarkSpentFailed client_error
  | InvoiceFailed invoice_parse_error
  | DenomMismatch u64 u64 \<comment> \<open>keyset, invoice\<close>
  | SealFailed sealed_box_error
  | NoRelay
  | RelaySend
  | RelayJson
  | FileNeedsPhrase
  | FileNeedsDenom
  | LabelNeedsFile
  | LabelNeedsPhrase
  | NoActiveCoin
  | MissingCoinSecret
  | MissingCoinPubkey
  | MissingCoinSignature
  | BadCoinSecret core_error
  | CoinReconstruction refresh_error

type_synonym ('s, 'r, 'w, 'm) outcome = "(unit, command_error) result \<times> ('s, 'r, 'w, 'm) world"

section \<open>Arguments\<close>

record receive_args =
  rcv_relay :: string
  rcv_recipient_pubkey :: string
  rcv_wallet_file :: path
  rcv_wallet_phrase :: string
  rcv_wallet_passphrase :: string
  rcv_label_prefix :: string
  rcv_keep_on_relay :: bool

record pay_args =
  pay_invoice :: string
  pay_keyset :: string
  pay_keysets_file :: path
  pay_wallet_phrase :: string
  pay_wallet_passphrase :: string
  pay_relay :: "string option"
  pay_ttl_secs :: u64
  pay_wallet_file :: "path option"
  pay_label :: "string option"
  pay_encrypt :: bool

record issue_args =
  isa_validators :: "string list"
  isa_joint_pk :: "string option"
  isa_keyset :: "string option"
  isa_keysets_file :: path
  isa_session_id :: "string option"
  isa_wallet_file :: "path option"
  isa_wallet_phrase :: "string option"
  isa_wallet_passphrase :: string
  isa_denom :: "u64 option"
  isa_label :: "string option"

record refresh_args =
  rfa_validators :: "string list"
  rfa_joint_pk :: "string option"
  rfa_keyset :: "string option"
  rfa_keysets_file :: path
  rfa_coin_secret :: "string option"
  rfa_coin_pubkey :: "string option"
  rfa_coin_signature :: "string option"
  rfa_session_id :: "string option"
  rfa_wallet_file :: "path option"
  rfa_wallet_phrase :: "string option"
  rfa_wallet_passphrase :: string
  rfa_coin_label :: "string option"

text \<open>The arguments every command on a sealed file takes.\<close>

record file_args =
  fa_phrase :: string
  fa_passphrase :: string
  fa_file :: path

definition parse_hex32 :: "libs \<Rightarrow> string \<Rightarrow> (bytes, command_error) result" where
  "parse_hex32 X s =
     rbind (ok_or ArgHex (hex_decode X s)) (\<lambda>b. if length b \<noteq> 32 then Err (ArgLength 32 (length b)) else Ok b)"

definition parse_hex64 :: "libs \<Rightarrow> string \<Rightarrow> (bytes, command_error) result" where
  "parse_hex64 X s =
     rbind (ok_or ArgHex (hex_decode X s)) (\<lambda>b. if length b \<noteq> 64 then Err (ArgLength 64 (length b)) else Ok b)"

definition parse_session_id :: "libs \<Rightarrow> ('r, 's) rng \<Rightarrow> string option \<Rightarrow> 'r \<Rightarrow> (session_id, command_error) result \<times> 'r" where
  "parse_session_id X R opt r =
     (case opt of
        Some s \<Rightarrow>
          (rbind (ok_or ArgHex (hex_decode X s)) (\<lambda>b. if length b \<noteq> 16 then Err (ArgLength 16 (length b)) else Ok (SessionId b)), r)
      | None \<Rightarrow> (let (a, r1) = fill_bytes R 16 r in (Ok (SessionId a), r1)))"

text \<open>The master seed of a phrase, as every command derives it.\<close>

definition unlock :: "('s, 'p, 'q, 'r, 'w, 'm) platform \<Rightarrow> string \<Rightarrow> string \<Rightarrow> (bytes, command_error) result" where
  "unlock pf phrase passphrase =
     rbind (map_err WalletFailed (parse_mnemonic (plat_bip39 pf) phrase)) (\<lambda>m. Ok (derive_master_seed (plat_bip39 pf) m passphrase))"

definition lookup_keyset ::
    "('s, 'p, 'q, 'r, 'w, 'm) platform \<Rightarrow> path \<Rightarrow> bytes \<Rightarrow> string \<Rightarrow> disk \<Rightarrow> (keyset_info, command_error) result" where
  "lookup_keyset pf keysets_file seed name fs =
     rbind (map_err WalletFailed (KeysetDb_open (plat_crypto pf) (plat_libs pf) keysets_file seed fs)) (\<lambda>db.
       ok_or UnknownKeyset (KeysetStore_get (kdb_store db) (ascii name)))"

definition resolve_issue_inputs ::
    "('s, 'p, 'q, 'r, 'w, 'm) platform \<Rightarrow> issue_args \<Rightarrow> disk \<Rightarrow> (string list \<times> string \<times> u64 option, command_error) result" where
  "resolve_issue_inputs pf args fs =
     (case isa_keyset args of
        Some name \<Rightarrow>
          rbind (ok_or KeysetNeedsPhrase (isa_wallet_phrase args)) (\<lambda>phrase.
          rbind (unlock pf phrase (isa_wallet_passphrase args)) (\<lambda>seed.
          rbind (lookup_keyset pf (isa_keysets_file args) seed name fs) (\<lambda>info.
            Ok (map text_of (ki_validators info), text_of (ki_joint_pk_hex info), Some (ki_denom info)))))
      | None \<Rightarrow>
          rbind (ok_or NoJointPk (isa_joint_pk args)) (\<lambda>joint_pk.
            if isa_validators args = [] then Err NoValidators else Ok (isa_validators args, joint_pk, None)))"

definition resolve_refresh_inputs ::
    "('s, 'p, 'q, 'r, 'w, 'm) platform \<Rightarrow> refresh_args \<Rightarrow> disk \<Rightarrow> (string list \<times> string \<times> u64 option, command_error) result" where
  "resolve_refresh_inputs pf args fs =
     (case rfa_keyset args of
        Some name \<Rightarrow>
          rbind (ok_or KeysetNeedsPhrase (rfa_wallet_phrase args)) (\<lambda>phrase.
          rbind (unlock pf phrase (rfa_wallet_passphrase args)) (\<lambda>seed.
          rbind (lookup_keyset pf (rfa_keysets_file args) seed name fs) (\<lambda>info.
            Ok (map text_of (ki_validators info), text_of (ki_joint_pk_hex info), Some (ki_denom info)))))
      | None \<Rightarrow>
          rbind (ok_or NoJointPk (rfa_joint_pk args)) (\<lambda>joint_pk.
            if rfa_validators args = [] then Err NoValidators else Ok (rfa_validators args, joint_pk, None)))"

definition ValidatorEndpoint_plain :: "bool \<Rightarrow> u16 \<Rightarrow> string \<Rightarrow> (validator_endpoint, wallet_error) result" where
  "ValidatorEndpoint_plain client_builds my_index base_url =
     (if client_builds then Ok \<lparr>ep_my_index = my_index, ep_base_url = base_url\<rparr> else Err Http)"

text \<open>The endpoints of the URLs from number \<open>i\<close> on, stopping at the first error.\<close>

fun build_endpoints :: "bool \<Rightarrow> nat \<Rightarrow> string list \<Rightarrow> (validator_endpoint list, command_error) result" where
  "build_endpoints client_builds i [] = Ok []"
| "build_endpoints client_builds i (url # urls) =
     (if i + 1 \<ge> 2 ^ 16 then Err TooManyValidators
      else rbind (map_err WalletFailed (ValidatorEndpoint_plain client_builds (word_of_nat (i + 1)) url)) (\<lambda>ep.
           rbind (build_endpoints client_builds (i + 1) urls) (\<lambda>eps. Ok (ep # eps))))"

definition build_pool :: "bool \<Rightarrow> string list \<Rightarrow> (wallet_client_pool, command_error) result" where
  "build_pool client_builds urls =
     rbind (build_endpoints client_builds 0 urls) (\<lambda>endpoints. map_err WalletFailed (WalletClientPool_new endpoints))"

definition parse_joint_pk :: "('s, 'p, 'q, 'r, 'w, 'm) platform \<Rightarrow> string \<Rightarrow> (public_key, command_error) result" where
  "parse_joint_pk pf joint_pk_hex =
     rbind (parse_hex32 (plat_libs pf) joint_pk_hex) (\<lambda>joint_pk_bytes.
       map_err BadJointPk (PublicKey_from_bytes (plat_crypto pf) joint_pk_bytes))"

section \<open>The wallet file and the keysets file\<close>

definition open_wallet ::
    "('s, 'p, 'q, 'r, 'w, 'm) platform \<Rightarrow> path \<Rightarrow> bytes \<Rightarrow> ('s, 'r, 'w, 'm) world \<Rightarrow> (wallet_db, command_error) result" where
  "open_wallet pf file_path seed wo = map_err WalletFailed (WalletDb_open (plat_crypto pf) (plat_libs pf) file_path seed (wo_disk wo))"

definition save_wallet ::
    "('s, 'p, 'q, 'r, 'w, 'm) platform \<Rightarrow> wallet_db \<Rightarrow> bytes \<Rightarrow> ('s, 'r, 'w, 'm) world \<Rightarrow> ('s, 'r, 'w, 'm) outcome" where
  "save_wallet pf db seed wo =
     (let (out, fs, r) = WalletDb_save (plat_crypto pf) (plat_libs pf) (plat_rng pf) (plat_fault pf) db seed (wo_disk wo) (wo_rng wo)
      in (map_err WalletFailed out, wo\<lparr>wo_disk := fs, wo_rng := r\<rparr>))"

definition store_coin ::
    "('s, 'p, 'q, 'r, 'w, 'm) platform \<Rightarrow> wallet_db \<Rightarrow> bytes \<Rightarrow> stored_coin \<Rightarrow> ('s, 'r, 'w, 'm) world \<Rightarrow> ('s, 'r, 'w, 'm) outcome" where
  "store_coin pf db seed stored wo =
     (let (out, st) = CoinStore_add (plat_crypto pf) (wdb_store db) stored
      in or_return (map_err AddFailed out) wo (\<lambda>_. save_wallet pf (db\<lparr>wdb_store := st\<rparr>) seed wo))"

definition stored_of :: "('s, 'p) crypto \<Rightarrow> 's coin \<Rightarrow> u64 \<Rightarrow> coin_status \<Rightarrow> bytes option \<Rightarrow> stored_coin" where
  "stored_of C coin denom status label =
     \<lparr>sc_secret_bytes = SecretKey_to_bytes C (coin_secret coin), sc_pubkey_bytes = coin_pubkey_bytes coin,
      sc_signature_bytes = Signature_to_bytes (coin_signature coin), sc_denom = denom, sc_status = status, sc_label = label\<rparr>"

definition save_keysets ::
    "('s, 'p, 'q, 'r, 'w, 'm) platform \<Rightarrow> keyset_db \<Rightarrow> bytes \<Rightarrow> ('s, 'r, 'w, 'm) world \<Rightarrow> ('s, 'r, 'w, 'm) outcome" where
  "save_keysets pf db seed wo =
     (let (out, fs, r) = KeysetDb_save (plat_crypto pf) (plat_libs pf) (plat_rng pf) (plat_fault pf) db seed (wo_disk wo) (wo_rng wo)
      in (map_err WalletFailed out, wo\<lparr>wo_disk := fs, wo_rng := r\<rparr>))"

section \<open>Mnemonic commands\<close>

definition cmd_mnemonic_generate :: "('s, 'p, 'q, 'r, 'w, 'm) platform \<Rightarrow> u8 \<Rightarrow> ('s, 'r, 'w, 'm) world \<Rightarrow> ('s, 'r, 'w, 'm) outcome" where
  "cmd_mnemonic_generate pf words wo =
     or_return (if words = 12 then Ok Twelve else if words = 24 then Ok TwentyFour else Err (BadWordCount words)) wo (\<lambda>wc.
     let (out, r1) = generate_mnemonic (plat_bip39 pf) (plat_rng pf) wc (wo_rng wo);
         wo1 = wo\<lparr>wo_rng := r1\<rparr>
     in or_return (map_err WalletFailed out) wo1 (\<lambda>m. (Ok (), say (PrintMnemonic words m) wo1)))"

definition cmd_mnemonic_seed ::
    "('s, 'p, 'q, 'r, 'w, 'm) platform \<Rightarrow> string \<Rightarrow> string \<Rightarrow> ('s, 'r, 'w, 'm) world \<Rightarrow> ('s, 'r, 'w, 'm) outcome" where
  "cmd_mnemonic_seed pf phrase passphrase wo =
     or_return (unlock pf phrase passphrase) wo (\<lambda>seed. (Ok (), say (PrintSeed (hex_encode (plat_libs pf) seed)) wo))"

definition cmd_mnemonic_identity ::
    "('s, 'p, 'q, 'r, 'w, 'm) platform \<Rightarrow> string \<Rightarrow> string \<Rightarrow> ('s, 'r, 'w, 'm) world \<Rightarrow> ('s, 'r, 'w, 'm) outcome" where
  "cmd_mnemonic_identity pf phrase passphrase wo =
     or_return (unlock pf phrase passphrase) wo (\<lambda>seed.
     let (_, pk) = derive_receiving_keypair (plat_crypto pf) seed
     in (Ok (), say (PrintIdentity (hex_encode (plat_libs pf) pk)) wo))"

section \<open>Wallet commands\<close>

definition tally :: "stored_coin \<Rightarrow> (u64 \<times> u64 \<times> u64 \<times> u64) list \<Rightarrow> (u64 \<times> u64 \<times> u64 \<times> u64) list" where
  "tally c by_denom =
     (let (a, i, s) = (case map_of by_denom (sc_denom c) of None \<Rightarrow> (0, 0, 0) | Some entry \<Rightarrow> entry)
      in btree_insert (sc_denom c)
           (case sc_status c of Active \<Rightarrow> (a + 1, i, s) | InFlight \<Rightarrow> (a, i + 1, s) | Spent \<Rightarrow> (a, i, s + 1)) by_denom)"

definition cmd_wallet_status ::
    "('s, 'p, 'q, 'r, 'w, 'm) platform \<Rightarrow> file_args \<Rightarrow> ('s, 'r, 'w, 'm) world \<Rightarrow> ('s, 'r, 'w, 'm) outcome" where
  "cmd_wallet_status pf args wo =
     or_return (unlock pf (fa_phrase args) (fa_passphrase args)) wo (\<lambda>seed.
     or_return (open_wallet pf (fa_file args) seed wo) wo (\<lambda>w.
     let coins = cs_coins (wdb_store w)
     in (Ok (), say (PrintStatus (fa_file args) (length coins) (fold tally coins [])) wo)))"

definition cmd_wallet_add_coin ::
    "('s, 'p, 'q, 'r, 'w, 'm) platform \<Rightarrow> file_args \<Rightarrow> string \<Rightarrow> string \<Rightarrow> string \<Rightarrow> u64 \<Rightarrow> string option \<Rightarrow> ('s, 'r, 'w, 'm) world
     \<Rightarrow> ('s, 'r, 'w, 'm) outcome" where
  "cmd_wallet_add_coin pf args coin_secret_hex coin_pubkey_hex coin_signature_hex denom label wo =
     or_return (unlock pf (fa_phrase args) (fa_passphrase args)) wo (\<lambda>seed.
     or_return (open_wallet pf (fa_file args) seed wo) wo (\<lambda>w.
     or_return (parse_hex32 (plat_libs pf) coin_secret_hex) wo (\<lambda>secret_bytes.
     or_return (parse_hex32 (plat_libs pf) coin_pubkey_hex) wo (\<lambda>pubkey_bytes.
     or_return (parse_hex64 (plat_libs pf) coin_signature_hex) wo (\<lambda>sig_bytes.
     let stored = \<lparr>sc_secret_bytes = secret_bytes, sc_pubkey_bytes = pubkey_bytes, sc_signature_bytes = sig_bytes,
           sc_denom = denom, sc_status = Active, sc_label = map_option ascii label\<rparr>;
         (out, wo1) = store_coin pf w seed stored wo
     in or_return out wo1 (\<lambda>_. (Ok (), say (PrintAdded (fa_file args)) wo1)))))))"

definition cmd_wallet_list ::
    "('s, 'p, 'q, 'r, 'w, 'm) platform \<Rightarrow> file_args \<Rightarrow> ('s, 'r, 'w, 'm) world \<Rightarrow> ('s, 'r, 'w, 'm) outcome" where
  "cmd_wallet_list pf args wo =
     or_return (unlock pf (fa_phrase args) (fa_passphrase args)) wo (\<lambda>seed.
     or_return (open_wallet pf (fa_file args) seed wo) wo (\<lambda>w.
       (Ok (), say (PrintCoins (map (\<lambda>c. (hex_encode (plat_libs pf) (sc_pubkey_bytes c), sc_denom c, sc_status c, sc_label c))
         (cs_coins (wdb_store w)))) wo)))"

section \<open>Receiving\<close>

record 'w receive_state =
  rcs_wallet :: wallet_db
  rcs_net :: 'w
  rcs_added :: nat
  rcs_deleted :: nat
  rcs_skipped :: nat

text \<open>The coin a message carries; \<open>None\<close> when the loop skips the message.\<close>

definition decode_message ::
    "('s, 'p, 'q, 'r, 'w, 'm) platform \<Rightarrow> receive_args \<Rightarrow> bytes \<Rightarrow> listed_message \<Rightarrow> stored_coin option" where
  "decode_message pf args seed msg =
     (let X = plat_libs pf;
          id = (case lm_id msg of None \<Rightarrow> '''' | Some i \<Rightarrow> i);
          payload_hex = (case lm_payload_hex msg of None \<Rightarrow> '''' | Some p \<Rightarrow> p)
      in case hex_decode X payload_hex of
           None \<Rightarrow> None
         | Some payload_bytes \<Rightarrow>
             (let (recv_sk, _) = derive_receiving_keypair (plat_crypto pf) seed;
                  decoded = (case open_box (plat_crypto pf) (plat_x25519 pf) X payload_bytes recv_sk of Ok p \<Rightarrow> p | _ \<Rightarrow> payload_bytes)
              in case payload_from_slice (plat_payload pf) decoded of
                   None \<Rightarrow> None
                 | Some json \<Rightarrow>
                     (case (pf_coin_secret json, pf_coin_pubkey json, pf_coin_signature json, pf_denom json) of
                        (Some cs, Some cp, Some sig, Some denom) \<Rightarrow>
                          (case (parse_hex32 X cs, parse_hex32 X cp, parse_hex64 X sig) of
                             (Ok secret_bytes, Ok pubkey_bytes, Ok sig_bytes) \<Rightarrow>
                               Some \<lparr>sc_secret_bytes = secret_bytes, sc_pubkey_bytes = pubkey_bytes, sc_signature_bytes = sig_bytes,
                                 sc_denom = denom, sc_status = Active, sc_label = Some (ascii (rcv_label_prefix args @ ''-'' @ id))\<rparr>
                           | _ \<Rightarrow> None)
                      | _ \<Rightarrow> None)))"

definition receive_message ::
    "('s, 'p, 'q, 'r, 'w, 'm) platform \<Rightarrow> receive_args \<Rightarrow> bytes \<Rightarrow> string \<Rightarrow> listed_message \<Rightarrow> 'w receive_state \<Rightarrow> 'w receive_state" where
  "receive_message pf args seed relay msg st =
     (case decode_message pf args seed msg of
        None \<Rightarrow> st\<lparr>rcs_skipped := rcs_skipped st + 1\<rparr>
      | Some stored \<Rightarrow>
          (let (out, store) = CoinStore_add (plat_crypto pf) (wdb_store (rcs_wallet st)) stored
           in case out of
                Ok _ \<Rightarrow>
                  (let st1 = st\<lparr>rcs_wallet := (rcs_wallet st)\<lparr>wdb_store := store\<rparr>, rcs_added := rcs_added st + 1\<rparr>
                   in if rcv_keep_on_relay args then st1
                      else
                        (let id = (case lm_id msg of None \<Rightarrow> '''' | Some i \<Rightarrow> i);
                             (sent, net) = rn_remove (plat_relay pf) relay (trim (rcv_recipient_pubkey args)) id (rcs_net st1)
                         in st1\<lparr>rcs_net := net, rcs_deleted := rcs_deleted st1 + (if sent then 1 else 0)\<rparr>))
              | _ \<Rightarrow> st\<lparr>rcs_skipped := rcs_skipped st + 1\<rparr>))"

definition json_value :: "'a json_reply \<Rightarrow> ('a, command_error) result" where
  "json_value reply = (case reply of SendFailed \<Rightarrow> Err RelaySend | NotJson \<Rightarrow> Err RelayJson | Value v \<Rightarrow> Ok v)"

definition cmd_receive ::
    "('s, 'p, 'q, 'r, 'w, 'm) platform \<Rightarrow> receive_args \<Rightarrow> ('s, 'r, 'w, 'm) world \<Rightarrow> ('s, 'r, 'w, 'm) outcome" where
  "cmd_receive pf args wo =
     or_return (unlock pf (rcv_wallet_phrase args) (rcv_wallet_passphrase args)) wo (\<lambda>seed.
     or_return (open_wallet pf (rcv_wallet_file args) seed wo) wo (\<lambda>w.
     let relay = trim_end_slashes (rcv_relay args);
         (listed, net1) = rn_list (plat_relay pf) relay (trim (rcv_recipient_pubkey args)) (wo_net wo);
         wo1 = wo\<lparr>wo_net := net1\<rparr>
     in or_return (json_value listed) wo1 (\<lambda>listed.
        let messages = (case listed of None \<Rightarrow> [] | Some ms \<Rightarrow> ms)
        in if messages = [] then (Ok (), say (PrintReceived 0 0 0) wo1)
           else
             (let st = fold (receive_message pf args seed relay) messages
                    \<lparr>rcs_wallet = w, rcs_net = net1, rcs_added = 0, rcs_deleted = 0, rcs_skipped = 0\<rparr>;
                  wo2 = wo1\<lparr>wo_net := rcs_net st\<rparr>;
                  (out, wo3) = (if rcs_added st > 0 then save_wallet pf (rcs_wallet st) seed wo2 else (Ok (), wo2))
              in or_return out wo3 (\<lambda>_. (Ok (), say (PrintReceived (rcs_added st) (rcs_deleted st) (rcs_skipped st)) wo3))))))"

section \<open>Paying\<close>

definition coin_payload :: "('s, 'p) crypto \<Rightarrow> libs \<Rightarrow> 's coin \<Rightarrow> invoice \<Rightarrow> payload" where
  "coin_payload C X coin invoice =
     \<lparr>pl_coin_secret = hex_encode X (SecretKey_to_bytes C (coin_secret coin)), pl_coin_pubkey = hex_encode X (coin_pubkey_bytes coin),
      pl_coin_signature = hex_encode X (Signature_to_bytes (coin_signature coin)), pl_denom = inv_denom invoice,
      pl_memo = (case inv_memo invoice of None \<Rightarrow> None | Some m \<Rightarrow> if utf8_valid m then Some m else None)\<rparr>"

definition pack_payload ::
    "('s, 'p, 'q, 'r, 'w, 'm) platform \<Rightarrow> bool \<Rightarrow> bytes \<Rightarrow> bytes \<Rightarrow> 'r \<Rightarrow> (string, command_error) result \<times> 'r" where
  "pack_payload pf encrypt plaintext recipient r =
     (if encrypt then
        (let (out, r1) = seal (plat_crypto pf) (plat_x25519 pf) (plat_libs pf) (plat_rng pf) plaintext recipient r
         in (rbind (map_err SealFailed out) (\<lambda>sealed. Ok (hex_encode (plat_libs pf) sealed)), r1))
      else (Ok (hex_encode (plat_libs pf) plaintext), r))"

text \<open>Steps 1 and 2: the invoice, the seed, the keyset and its key.\<close>

definition resolve_payment ::
    "('s, 'p, 'q, 'r, 'w, 'm) platform \<Rightarrow> pay_args \<Rightarrow> disk \<Rightarrow> (invoice \<times> bytes \<times> keyset_info \<times> public_key, command_error) result" where
  "resolve_payment pf args fs =
     rbind (map_err InvoiceFailed (Invoice_parse (ascii (pay_invoice args)))) (\<lambda>invoice.
     rbind (unlock pf (pay_wallet_phrase args) (pay_wallet_passphrase args)) (\<lambda>seed.
     rbind (lookup_keyset pf (pay_keysets_file args) seed (pay_keyset args) fs) (\<lambda>info.
     if ki_denom info \<noteq> inv_denom invoice then Err (DenomMismatch (ki_denom info) (inv_denom invoice))
     else rbind (parse_joint_pk pf (text_of (ki_joint_pk_hex info))) (\<lambda>joint_pk. Ok (invoice, seed, info, joint_pk)))))"

text \<open>Step 3: a coin from the validators of the keyset.\<close>

definition pay_mint ::
    "('s::field, 'p::ab_group_add, 'q, 'r, 'w, 'm) platform \<Rightarrow> pay_args \<Rightarrow> ('s, 'r, 'w, 'm) world
     \<Rightarrow> (invoice \<times> bytes \<times> 's coin, command_error) result \<times> ('s, 'r, 'w, 'm) world" where
  "pay_mint pf args wo =
     or_return (resolve_payment pf args (wo_disk wo)) wo (\<lambda>(invoice, seed, info, joint_pk).
     or_return (build_pool (plat_client_builds pf) (map text_of (ki_validators info))) wo (\<lambda>pool.
     let (sid, r1) = parse_session_id (plat_libs pf) (plat_rng pf) None (wo_rng wo);
         wo1 = wo\<lparr>wo_rng := r1\<rparr>
     in or_return sid wo1 (\<lambda>session_id.
        let (minted, r2, net2) = issue_coin (plat_crypto pf) (plat_rng pf) (plat_libs pf) (plat_net pf) pool joint_pk session_id
              (wo_rng wo1, wo_net wo1);
            wo2 = wo1\<lparr>wo_rng := r2, wo_net := net2\<rparr>
        in or_return (map_err WalletFailed minted) wo2 (\<lambda>coin. (Ok (invoice, seed, coin), wo2)))))"

text \<open>Steps 4 and 5: the payload and its deposit; the result is the relay's URL and its answer.\<close>

definition pay_deliver ::
    "('s, 'p, 'q, 'r, 'w, 'm) platform \<Rightarrow> pay_args \<Rightarrow> invoice \<Rightarrow> 's coin \<Rightarrow> ('s, 'r, 'w, 'm) world
     \<Rightarrow> (string \<times> deposited, command_error) result \<times> ('s, 'r, 'w, 'm) world" where
  "pay_deliver pf args invoice coin wo =
     (let plaintext = payload_to_vec (plat_payload pf) (coin_payload (plat_crypto pf) (plat_libs pf) coin invoice);
          (packed, r1) = pack_payload pf (pay_encrypt args) plaintext (inv_recipient_pubkey invoice) (wo_rng wo);
          wo1 = wo\<lparr>wo_rng := r1\<rparr>
      in or_return packed wo1 (\<lambda>payload_hex.
         or_return (ok_or NoRelay (case pay_relay args of
             Some url \<Rightarrow> Some url
           | None \<Rightarrow> (case inv_relays invoice of [] \<Rightarrow> None | url # _ \<Rightarrow> Some (text_of url)))) wo1 (\<lambda>relay_url.
         let (reply, net2) = rn_deposit (plat_relay pf) (trim_end_slashes relay_url)
               (hex_encode (plat_libs pf) (inv_recipient_pubkey invoice)) payload_hex (pay_ttl_secs args) (wo_net wo1);
             wo2 = wo1\<lparr>wo_net := net2\<rparr>
         in or_return (json_value reply) wo2 (\<lambda>deposit. (Ok (relay_url, deposit), wo2)))))"

text \<open>Step 6: the coin as a spent one in the payer's own wallet file, when the payer named one.\<close>

definition pay_audit ::
    "('s, 'p, 'q, 'r, 'w, 'm) platform \<Rightarrow> pay_args \<Rightarrow> invoice \<Rightarrow> bytes \<Rightarrow> 's coin \<Rightarrow> ('s, 'r, 'w, 'm) world \<Rightarrow> ('s, 'r, 'w, 'm) outcome" where
  "pay_audit pf args invoice seed coin wo =
     (case pay_wallet_file args of
        None \<Rightarrow> (Ok (), wo)
      | Some file_path \<Rightarrow>
          or_return (open_wallet pf file_path seed wo) wo (\<lambda>w.
            store_coin pf w seed (stored_of (plat_crypto pf) coin (inv_denom invoice) Spent
              (Some (ascii (case pay_label args of
                 Some l \<Rightarrow> l
               | None \<Rightarrow> ''pay-to-'' @ take 12 (hex_encode (plat_libs pf) (inv_recipient_pubkey invoice)))))) wo))"

definition cmd_pay ::
    "('s::field, 'p::ab_group_add, 'q, 'r, 'w, 'm) platform \<Rightarrow> pay_args \<Rightarrow> ('s, 'r, 'w, 'm) world \<Rightarrow> ('s, 'r, 'w, 'm) outcome" where
  "cmd_pay pf args wo =
     (let (minted, wo1) = pay_mint pf args wo
      in or_return minted wo1 (\<lambda>(invoice, seed, coin).
         let (delivered, wo2) = pay_deliver pf args invoice coin wo1
         in or_return delivered wo2 (\<lambda>(relay_url, deposit).
            let (audit, wo3) = pay_audit pf args invoice seed coin wo2
            in or_return audit wo3 (\<lambda>_.
                 (Ok (), say (PrintPaid (hex_encode (plat_libs pf) (inv_recipient_pubkey invoice)) (inv_denom invoice) relay_url
                    (case dp_id deposit of None \<Rightarrow> '''' | Some i \<Rightarrow> i)
                    (case dp_expires_at_unix_ms deposit of None \<Rightarrow> 0 | Some t \<Rightarrow> t)) wo3)))))"

section \<open>Invoice and keyset commands\<close>

definition cmd_invoice_make ::
    "('s, 'p, 'q, 'r, 'w, 'm) platform \<Rightarrow> string \<Rightarrow> u64 \<Rightarrow> string list \<Rightarrow> string option \<Rightarrow> ('s, 'r, 'w, 'm) world \<Rightarrow> ('s, 'r, 'w, 'm) outcome" where
  "cmd_invoice_make pf pubkey denom relay memo wo =
     or_return (parse_hex32 (plat_libs pf) pubkey) wo (\<lambda>pk.
     let inv = \<lparr>inv_recipient_pubkey = pk, inv_denom = denom, inv_relays = map ascii relay, inv_memo = map_option ascii memo\<rparr>
     in (Ok (), say (PrintUri (Invoice_to_uri inv)) wo))"

definition cmd_invoice_parse :: "('s, 'p, 'q, 'r, 'w, 'm) platform \<Rightarrow> string \<Rightarrow> ('s, 'r, 'w, 'm) world \<Rightarrow> ('s, 'r, 'w, 'm) outcome" where
  "cmd_invoice_parse pf uri wo =
     or_return (map_err InvoiceFailed (Invoice_parse (ascii uri))) wo (\<lambda>inv.
       (Ok (), say (PrintInvoice (hex_encode (plat_libs pf) (inv_recipient_pubkey inv)) (inv_denom inv) (inv_relays inv) (inv_memo inv)) wo))"

definition open_keysets ::
    "('s, 'p, 'q, 'r, 'w, 'm) platform \<Rightarrow> path \<Rightarrow> bytes \<Rightarrow> ('s, 'r, 'w, 'm) world \<Rightarrow> (keyset_db, command_error) result" where
  "open_keysets pf file_path seed wo = map_err WalletFailed (KeysetDb_open (plat_crypto pf) (plat_libs pf) file_path seed (wo_disk wo))"

definition cmd_keyset_add ::
    "('s, 'p, 'q, 'r, 'w, 'm) platform \<Rightarrow> file_args \<Rightarrow> string \<Rightarrow> keyset_info \<Rightarrow> ('s, 'r, 'w, 'm) world \<Rightarrow> ('s, 'r, 'w, 'm) outcome" where
  "cmd_keyset_add pf args name keyset wo =
     or_return (unlock pf (fa_phrase args) (fa_passphrase args)) wo (\<lambda>seed.
     or_return (open_keysets pf (fa_file args) seed wo) wo (\<lambda>db.
     let (out, wo1) = save_keysets pf (db\<lparr>kdb_store := KeysetStore_upsert (kdb_store db) (ascii name) keyset\<rparr>) seed wo
     in or_return out wo1 (\<lambda>_. (Ok (), say (PrintKeysetAdded (ascii name) (fa_file args)) wo1))))"

definition cmd_keyset_list ::
    "('s, 'p, 'q, 'r, 'w, 'm) platform \<Rightarrow> file_args \<Rightarrow> ('s, 'r, 'w, 'm) world \<Rightarrow> ('s, 'r, 'w, 'm) outcome" where
  "cmd_keyset_list pf args wo =
     or_return (unlock pf (fa_phrase args) (fa_passphrase args)) wo (\<lambda>seed.
     or_return (open_keysets pf (fa_file args) seed wo) wo (\<lambda>db.
       (Ok (), say (PrintKeysets (map (\<lambda>(name, info). (name, ki_denom info, ki_joint_pk_hex info, ki_validators info)) (kdb_store db))) wo)))"

definition cmd_keyset_remove ::
    "('s, 'p, 'q, 'r, 'w, 'm) platform \<Rightarrow> file_args \<Rightarrow> string \<Rightarrow> ('s, 'r, 'w, 'm) world \<Rightarrow> ('s, 'r, 'w, 'm) outcome" where
  "cmd_keyset_remove pf args name wo =
     or_return (unlock pf (fa_phrase args) (fa_passphrase args)) wo (\<lambda>seed.
     or_return (open_keysets pf (fa_file args) seed wo) wo (\<lambda>db.
     let (old, store) = KeysetStore_remove (kdb_store db) (ascii name);
         (out, wo1) = save_keysets pf (db\<lparr>kdb_store := store\<rparr>) seed wo
     in or_return out wo1 (\<lambda>_. (Ok (), say (PrintKeysetRemoved (old \<noteq> None) (ascii name) (fa_file args)) wo1))))"

section \<open>Issuing and refreshing\<close>

definition cmd_issue ::
    "('s::field, 'p::ab_group_add, 'q, 'r, 'w, 'm) platform \<Rightarrow> issue_args \<Rightarrow> ('s, 'r, 'w, 'm) world \<Rightarrow> ('s, 'r, 'w, 'm) outcome" where
  "cmd_issue pf args wo =
     (let C = plat_crypto pf; X = plat_libs pf
      in or_return (resolve_issue_inputs pf args (wo_disk wo)) wo (\<lambda>(validators, joint_pk_hex, default_denom).
         or_return (parse_joint_pk pf joint_pk_hex) wo (\<lambda>joint_pk.
         let (sid, r1) = parse_session_id X (plat_rng pf) (isa_session_id args) (wo_rng wo);
             wo1 = wo\<lparr>wo_rng := r1\<rparr>
         in or_return sid wo1 (\<lambda>session_id.
            or_return (build_pool (plat_client_builds pf) validators) wo1 (\<lambda>pool.
            let (minted, r2, net2) = issue_coin C (plat_rng pf) X (plat_net pf) pool joint_pk session_id (wo_rng wo1, wo_net wo1);
                wo2 = wo1\<lparr>wo_rng := r2, wo_net := net2\<rparr>
            in or_return (map_err WalletFailed minted) wo2 (\<lambda>coin.
               let wo3 = say (PrintCoin coin) wo2
               in case isa_wallet_file args of
                    None \<Rightarrow> (Ok (), wo3)
                  | Some file_path \<Rightarrow>
                      or_return (ok_or FileNeedsPhrase (isa_wallet_phrase args)) wo3 (\<lambda>phrase.
                      or_return (ok_or FileNeedsDenom (case isa_denom args of Some d \<Rightarrow> Some d | None \<Rightarrow> default_denom)) wo3 (\<lambda>denom.
                      or_return (unlock pf phrase (isa_wallet_passphrase args)) wo3 (\<lambda>seed.
                      or_return (open_wallet pf file_path seed wo3) wo3 (\<lambda>w.
                        store_coin pf w seed (stored_of C coin denom Active (map_option ascii (isa_label args))) wo3))))))))))"

text \<open>The coin to surrender, from the wallet by its label or from the arguments; with it the label when it came from the wallet.\<close>

definition refresh_source ::
    "('s, 'p, 'q, 'r, 'w, 'm) platform \<Rightarrow> refresh_args \<Rightarrow> ('s, 'r, 'w, 'm) world
     \<Rightarrow> (bytes \<times> bytes \<times> bytes \<times> bytes option, command_error) result" where
  "refresh_source pf args wo =
     (case rfa_coin_label args of
        Some label \<Rightarrow>
          rbind (ok_or LabelNeedsFile (rfa_wallet_file args)) (\<lambda>file_path.
          rbind (ok_or LabelNeedsPhrase (rfa_wallet_phrase args)) (\<lambda>phrase.
          rbind (unlock pf phrase (rfa_wallet_passphrase args)) (\<lambda>seed.
          rbind (open_wallet pf file_path seed wo) (\<lambda>w.
          rbind (ok_or NoActiveCoin
            (List.find (\<lambda>c. sc_label c = Some (ascii label) \<and> sc_status c = Active) (cs_coins (wdb_store w)))) (\<lambda>found.
            Ok (sc_secret_bytes found, sc_pubkey_bytes found, sc_signature_bytes found, Some (ascii label)))))))
      | None \<Rightarrow>
          rbind (ok_or MissingCoinSecret (rfa_coin_secret args)) (\<lambda>cs.
          rbind (ok_or MissingCoinPubkey (rfa_coin_pubkey args)) (\<lambda>cp.
          rbind (ok_or MissingCoinSignature (rfa_coin_signature args)) (\<lambda>csig.
          rbind (parse_hex32 (plat_libs pf) cs) (\<lambda>secret_bytes.
          rbind (parse_hex32 (plat_libs pf) cp) (\<lambda>pubkey.
          rbind (parse_hex64 (plat_libs pf) csig) (\<lambda>sig_bytes.
            Ok (secret_bytes, pubkey, sig_bytes, None))))))))"

text \<open>Marking the old coin spent and adding the new one under its label.\<close>

definition replace_coin ::
    "('s, 'p, 'q, 'r, 'w, 'm) platform \<Rightarrow> refresh_args \<Rightarrow> path \<Rightarrow> bytes \<Rightarrow> 's coin \<Rightarrow> 's coin \<Rightarrow> ('s, 'r, 'w, 'm) world
     \<Rightarrow> ('s, 'r, 'w, 'm) outcome" where
  "replace_coin pf args file_path label melted new_coin wo =
     or_return (expect_some (rfa_wallet_phrase args)) wo (\<lambda>phrase.
     or_return (unlock pf phrase (rfa_wallet_passphrase args)) wo (\<lambda>seed.
     or_return (open_wallet pf file_path seed wo) wo (\<lambda>w.
     let C = plat_crypto pf;
         old_nullifier = StoredCoin_nullifier C (stored_of C melted 0 Active None);
         (marked, st) = CoinStore_mark_spent C (wdb_store w) old_nullifier
     in or_return (map_err MarkSpentFailed marked) wo (\<lambda>_.
        let denom = (case List.find (\<lambda>c. sc_label c = Some label) (cs_coins st) of None \<Rightarrow> 0 | Some c \<Rightarrow> sc_denom c)
        in store_coin pf (w\<lparr>wdb_store := st\<rparr>) seed (stored_of C new_coin denom Active (Some label)) wo))))"

definition cmd_refresh ::
    "('s::field, 'p::ab_group_add, 'q, 'r, 'w, 'm) platform \<Rightarrow> refresh_args \<Rightarrow> ('s, 'r, 'w, 'm) world \<Rightarrow> ('s, 'r, 'w, 'm) outcome" where
  "cmd_refresh pf args wo =
     (let C = plat_crypto pf; X = plat_libs pf
      in or_return (resolve_refresh_inputs pf args (wo_disk wo)) wo (\<lambda>(validators, joint_pk_hex, _).
         or_return (parse_joint_pk pf joint_pk_hex) wo (\<lambda>joint_pk.
         or_return (refresh_source pf args wo) wo (\<lambda>(secret_bytes, pubkey, sig_bytes, from_wallet_label).
         or_return (map_err BadCoinSecret (SecretKey_from_bytes C secret_bytes)) wo (\<lambda>coin_secret.
         or_return (map_err CoinReconstruction (Coin_new C coin_secret pubkey (Signature_from_bytes sig_bytes))) wo (\<lambda>melted.
         let (sid, r1) = parse_session_id X (plat_rng pf) (rfa_session_id args) (wo_rng wo);
             wo1 = wo\<lparr>wo_rng := r1\<rparr>
         in or_return sid wo1 (\<lambda>session_id.
            or_return (build_pool (plat_client_builds pf) validators) wo1 (\<lambda>pool.
            let (refreshed, r2, net2) = refresh_coin C (plat_rng pf) X (plat_net pf) pool melted joint_pk session_id (wo_rng wo1, wo_net wo1);
                wo2 = wo1\<lparr>wo_rng := r2, wo_net := net2\<rparr>
            in or_return (map_err WalletFailed refreshed) wo2 (\<lambda>new_coin.
               let wo3 = say (PrintCoin new_coin) wo2
               in case (rfa_wallet_file args, from_wallet_label) of
                    (Some file_path, Some label) \<Rightarrow> replace_coin pf args file_path label melted new_coin wo3
                  | _ \<Rightarrow> (Ok (), wo3))))))))))"

section \<open>The program\<close>

datatype command =
    MnemonicGenerate u8
  | MnemonicSeed string string
  | MnemonicIdentity string string
  | WalletStatus file_args
  | WalletAddCoin file_args string string string u64 "string option"
  | WalletList file_args
  | Receive receive_args
  | Pay pay_args
  | InvoiceMake string u64 "string list" "string option"
  | InvoiceParse string
  | KeysetAdd file_args string keyset_info
  | KeysetList file_args
  | KeysetRemove file_args string
  | Issue issue_args
  | RefreshCoin refresh_args

definition wallet_main ::
    "('s::field, 'p::ab_group_add, 'q, 'r, 'w, 'm) platform \<Rightarrow> command \<Rightarrow> ('s, 'r, 'w, 'm) world \<Rightarrow> ('s, 'r, 'w, 'm) outcome" where
  "wallet_main pf cmd wo =
     (case cmd of
        MnemonicGenerate words \<Rightarrow> cmd_mnemonic_generate pf words wo
      | MnemonicSeed phrase passphrase \<Rightarrow> cmd_mnemonic_seed pf phrase passphrase wo
      | MnemonicIdentity phrase passphrase \<Rightarrow> cmd_mnemonic_identity pf phrase passphrase wo
      | WalletStatus args \<Rightarrow> cmd_wallet_status pf args wo
      | WalletAddCoin args cs cp sig denom label \<Rightarrow> cmd_wallet_add_coin pf args cs cp sig denom label wo
      | WalletList args \<Rightarrow> cmd_wallet_list pf args wo
      | Receive args \<Rightarrow> cmd_receive pf args wo
      | Pay args \<Rightarrow> cmd_pay pf args wo
      | InvoiceMake pubkey denom relay memo \<Rightarrow> cmd_invoice_make pf pubkey denom relay memo wo
      | InvoiceParse uri \<Rightarrow> cmd_invoice_parse pf uri wo
      | KeysetAdd args name ks \<Rightarrow> cmd_keyset_add pf args name ks wo
      | KeysetList args \<Rightarrow> cmd_keyset_list pf args wo
      | KeysetRemove args name \<Rightarrow> cmd_keyset_remove pf args name wo
      | Issue args \<Rightarrow> cmd_issue pf args wo
      | RefreshCoin args \<Rightarrow> cmd_refresh pf args wo)"

section \<open>Text and arguments\<close>

lemma ascii_text_of [simp]: "ascii (text_of bs) = bs"
proof -
  have "(word_of_nat (of_char (char_of (unat b) :: char)) :: u8) = b" for b :: u8
    using unat_less [of b] by simp
  then show ?thesis by (simp add: ascii_def text_of_def comp_def)
qed

lemma json_value_Ok [simp]: "json_value reply = Ok v \<longleftrightarrow> reply = Value v"
  by (auto simp: json_value_def split: json_reply.splits)

lemma json_value_Value [simp]: "json_value (Value v) = Ok v"
  by (simp add: json_value_def)

lemma parse_hex32_Ok: "parse_hex32 X s = Ok b \<longleftrightarrow> hex_decode X s = Some b \<and> length b = 32"
  by (auto simp: parse_hex32_def split: if_splits)

lemma parse_hex64_Ok: "parse_hex64 X s = Ok b \<longleftrightarrow> hex_decode X s = Some b \<and> length b = 64"
  by (auto simp: parse_hex64_def split: if_splits)

lemma build_endpoints_Ok:
  "i + length urls < 2 ^ 16 \<Longrightarrow>
   build_endpoints True i urls = Ok (map (\<lambda>(k, url). \<lparr>ep_my_index = word_of_nat (k + 1), ep_base_url = url\<rparr>) (List.enumerate i urls))"
  by (induction urls arbitrary: i) (simp_all add: ValidatorEndpoint_plain_def)

section \<open>Status counts\<close>

lemma tally_counts:
  assumes "btree_ok m"
  shows "btree_ok (fold tally cs m) \<and>
    map_of (fold tally cs m) d =
      (if map_of m d = None \<and> (\<forall>c \<in> set cs. sc_denom c \<noteq> d) then None
       else let (a, i, s) = (case map_of m d of None \<Rightarrow> (0, 0, 0) | Some e \<Rightarrow> e);
                n = \<lambda>status. of_nat (length (filter (\<lambda>c. sc_denom c = d \<and> sc_status c = status) cs))
            in Some (a + n Active, i + n InFlight, s + n Spent))"
  using assms
proof (induction cs arbitrary: m)
  case (Cons c cs)
  let ?m = "tally c m"
  have ok: "btree_ok ?m" using Cons.prems by (simp add: tally_def btree_ok_insert case_prod_beta Let_def)
  have "map_of ?m d = (if sc_denom c = d then
      Some (case (case map_of m d of None \<Rightarrow> (0, 0, 0) | Some e \<Rightarrow> e) of (a, i, s) \<Rightarrow>
        (case sc_status c of Active \<Rightarrow> (a + 1, i, s) | InFlight \<Rightarrow> (a, i + 1, s) | Spent \<Rightarrow> (a, i, s + 1))) else map_of m d)"
    using Cons.prems by (auto simp: tally_def map_of_btree_insert case_prod_beta Let_def)
  then show ?case using Cons.IH [OF ok]
    by (auto simp: Let_def case_prod_beta split: coin_status.splits option.splits)
qed (auto split: option.splits)

section \<open>What receiving does\<close>

abbreviation carried ::
    "('s, 'p, 'q, 'r, 'w, 'm) platform \<Rightarrow> receive_args \<Rightarrow> bytes \<Rightarrow> listed_message list \<Rightarrow> stored_coin list" where
  "carried pf args seed msgs \<equiv> List.map_filter (decode_message pf args seed) msgs"

abbreviation by_nullifier :: "('s, 'p) crypto \<Rightarrow> stored_coin list \<Rightarrow> bytes \<rightharpoonup> stored_coin" where
  "by_nullifier C cs \<equiv> map_of (map (\<lambda>c. (StoredCoin_nullifier C c, c)) cs)"

lemma receive_loop:
  fixes pf :: "('s, 'p, 'q, 'r, 'w, 'm) platform" and st :: "'w receive_state"
  assumes "store_ok (plat_crypto pf) (wdb_store (rcs_wallet st))" and "fold (receive_message pf args seed relay) msgs st = st'"
  shows "store_ok (plat_crypto pf) (wdb_store (rcs_wallet st')) \<and> wdb_path (rcs_wallet st') = wdb_path (rcs_wallet st) \<and>
    holdings (plat_crypto pf) (wdb_store (rcs_wallet st')) =
      by_nullifier (plat_crypto pf) (carried pf args seed msgs) ++ holdings (plat_crypto pf) (wdb_store (rcs_wallet st)) \<and>
    set (cs_coins (wdb_store (rcs_wallet st'))) \<subseteq> set (cs_coins (wdb_store (rcs_wallet st))) \<union> set (carried pf args seed msgs) \<and>
    rcs_added st \<le> rcs_added st' \<and> rcs_added st' \<le> rcs_added st + length msgs \<and>
    length (cs_coins (wdb_store (rcs_wallet st'))) + rcs_added st = length (cs_coins (wdb_store (rcs_wallet st))) + rcs_added st' \<and>
    (rcs_added st' = rcs_added st \<longrightarrow> rcs_wallet st' = rcs_wallet st)"
  using assms
proof (induction msgs arbitrary: st)
  case (Cons msg msgs)
  let ?C = "plat_crypto pf" and ?st1 = "receive_message pf args seed relay msg st"
  have run: "fold (receive_message pf args seed relay) msgs ?st1 = st'" using Cons.prems(2) by simp
  show ?case
  proof (cases "decode_message pf args seed msg")
    case None
    then have "rcs_wallet ?st1 = rcs_wallet st" "rcs_added ?st1 = rcs_added st" by (simp_all add: receive_message_def)
    then show ?thesis using Cons.IH [OF _ run] Cons.prems(1) None by (auto simp: map_filter_simps)
  next
    case (Some c)
    obtain out store where add: "CoinStore_add ?C (wdb_store (rcs_wallet st)) c = (out, store)" by force
    show ?thesis
    proof (cases "holdings ?C (wdb_store (rcs_wallet st)) (StoredCoin_nullifier ?C c)")
      case None
      with add_spec [OF Cons.prems(1) add] have added: "out = Ok ()" "store_ok ?C store"
        "holdings ?C store = (holdings ?C (wdb_store (rcs_wallet st)))(StoredCoin_nullifier ?C c \<mapsto> c)" by simp_all
      then have st1: "rcs_wallet ?st1 = (rcs_wallet st)\<lparr>wdb_store := store\<rparr>" "rcs_added ?st1 = rcs_added st + 1"
        using Some add by (simp_all add: receive_message_def Let_def case_prod_beta)
      have coins: "cs_coins store = cs_coins (wdb_store (rcs_wallet st)) @ [c]"
        using add added(1) by (auto simp: CoinStore_add_def Let_def split: if_splits)
      have "by_nullifier ?C (carried pf args seed msgs) ++ (holdings ?C (wdb_store (rcs_wallet st)))(StoredCoin_nullifier ?C c \<mapsto> c) =
          by_nullifier ?C (carried pf args seed (msg # msgs)) ++ holdings ?C (wdb_store (rcs_wallet st))"
        using None Some by (auto simp: map_filter_simps map_add_def fun_eq_iff split: option.splits)
      moreover have "store_ok ?C (wdb_store (rcs_wallet ?st1))" using st1 added(2) by simp
      ultimately show ?thesis using Cons.IH [OF _ run] st1 coins Some unfolding added(3) [symmetric] by (auto simp: map_filter_simps fun_upd_def)
    next
      case (Some c')
      with add_spec [OF Cons.prems(1) add] have "out = Err DuplicateCoin" by simp
      then have st1: "rcs_wallet ?st1 = rcs_wallet st" "rcs_added ?st1 = rcs_added st"
        using \<open>decode_message pf args seed msg = Some c\<close> add by (simp_all add: receive_message_def Let_def)
      have "by_nullifier ?C (carried pf args seed msgs) ++ holdings ?C (wdb_store (rcs_wallet st)) =
          by_nullifier ?C (carried pf args seed (msg # msgs)) ++ holdings ?C (wdb_store (rcs_wallet st))"
        using Some \<open>decode_message pf args seed msg = Some c\<close> by (auto simp: map_filter_simps map_add_def fun_eq_iff split: option.splits)
      then show ?thesis using Cons.IH [OF _ run] Cons.prems(1) st1 \<open>decode_message pf args seed msg = Some c\<close>
        by (auto simp: map_filter_simps fun_upd_def)
    qed
  qed
qed (auto simp: map_filter_simps)


lemma decode_message_wf:
  assumes "decode_message pf args seed msg = Some c"
    and "utf8_valid (ascii (rcv_label_prefix args @ ''-'' @ (case lm_id msg of None \<Rightarrow> '''' | Some i \<Rightarrow> i)))"
    and "length (rcv_label_prefix args) + 1 + length (case lm_id msg of None \<Rightarrow> '''' | Some i \<Rightarrow> i) < 2 ^ 32"
  shows "stored_coin_wf c"
  using assms
  by (auto simp: decode_message_def Let_def case_prod_beta stored_coin_wf_def parse_hex32_Ok parse_hex64_Ok ascii_def
      split: option.splits result.splits)

text \<open>
  \<open>labels_fit\<close>: the labels made from the identifiers of the messages are strings of a size that can be
  stored, which the relays' identifiers are.
\<close>

definition labels_fit :: "receive_args \<Rightarrow> listed_message list \<Rightarrow> bool" where
  "labels_fit args msgs \<longleftrightarrow> list_all (\<lambda>msg. let id = (case lm_id msg of None \<Rightarrow> '''' | Some i \<Rightarrow> i) in
     utf8_valid (ascii (rcv_label_prefix args @ ''-'' @ id)) \<and> length (rcv_label_prefix args) + 1 + length id < 2 ^ 32) msgs"

lemma carried_wf: "labels_fit args msgs \<Longrightarrow> c \<in> set (carried pf args seed msgs) \<Longrightarrow> stored_coin_wf c"
  by (induction msgs) (auto simp: map_filter_simps labels_fit_def Let_def intro: decode_message_wf split: option.splits)

lemma receive_outcome:
  fixes pf :: "('s, 'p, 'q, 'r, 'w, 'm) platform"
  defines "C \<equiv> plat_crypto pf"
  assumes ok: "libs_ok (plat_libs pf)" "hkdf_ok C" "fill_ok (plat_rng pf)" and "p_ext (rcv_wallet_file args) \<noteq> ''tmp''"
    and seed: "unlock pf (rcv_wallet_phrase args) (rcv_wallet_passphrase args) = Ok seed"
    and db: "open_wallet pf (rcv_wallet_file args) seed wo = Ok db" "store_ok C (wdb_store db)" "coin_store_wf (wdb_store db)"
    and msgs: "rn_list (plat_relay pf) (trim_end_slashes (rcv_relay args)) (trim (rcv_recipient_pubkey args)) (wo_net wo) = (Value (Some msgs), net1)"
      "labels_fit args msgs" "length (cs_coins (wdb_store db)) + length msgs < 2 ^ 32"
    and run: "cmd_receive pf args wo = (out, wo')"
  shows "wo_net wo' = rcs_net (fold (receive_message pf args seed (trim_end_slashes (rcv_relay args))) msgs
      \<lparr>rcs_wallet = db, rcs_net = net1, rcs_added = 0, rcs_deleted = 0, rcs_skipped = 0\<rparr>) \<and>
    (\<exists>db'. open_wallet pf (rcv_wallet_file args) seed wo' = Ok db' \<and> store_ok C (wdb_store db') \<and>
      holdings C (wdb_store db') =
        (if out = Ok () then by_nullifier C (carried pf args seed msgs) ++ holdings C (wdb_store db) else holdings C (wdb_store db)))"
proof (cases "msgs = []")
  case True
  then show ?thesis using run seed db msgs by (auto simp: cmd_receive_def map_filter_simps say_def open_wallet_def C_def Let_def)
next
  case False
  let ?st = "fold (receive_message pf args seed (trim_end_slashes (rcv_relay args))) msgs
      \<lparr>rcs_wallet = db, rcs_net = net1, rcs_added = 0, rcs_deleted = 0, rcs_skipped = 0\<rparr>"
  have path: "wdb_path db = rcv_wallet_file args"
    using db(1) by (auto simp: open_wallet_def WalletDb_open_def split: option.splits)
  note loop = receive_loop [of pf "\<lparr>rcs_wallet = db, rcs_net = net1, rcs_added = 0, rcs_deleted = 0, rcs_skipped = 0\<rparr>", OF _ refl,
      of args seed "trim_end_slashes (rcv_relay args)" msgs, simplified, OF db(2) [unfolded C_def], folded C_def]
  have wf: "coin_store_wf (wdb_store (rcs_wallet ?st))"
    using loop db(3) carried_wf [OF msgs(2), of _ pf seed] msgs(3) by (auto simp: coin_store_wf_def list_all_iff)
  show ?thesis
  proof (cases "rcs_added ?st > 0")
    case True
    obtain saved fs r where save: "WalletDb_save C (plat_libs pf) (plat_rng pf) (plat_fault pf) (rcs_wallet ?st) seed (wo_disk wo) (wo_rng wo) = (saved, fs, r)"
      by (metis prod_cases3)
    have "WalletDb_open C (plat_libs pf) (rcv_wallet_file args) seed fs =
        (if saved = Ok () then Ok (rcs_wallet ?st) else WalletDb_open C (plat_libs pf) (rcv_wallet_file args) seed (wo_disk wo))"
      using wallet_saved [OF ok wf _ save] loop path assms(5) by simp
    moreover have "wo_net wo' = rcs_net ?st" "wo_disk wo' = fs" "out = Ok () \<longleftrightarrow> saved = Ok ()"
      using run seed db(1) msgs(1) save True False
      by (cases saved; auto simp: cmd_receive_def Let_def save_wallet_def say_def C_def [symmetric])+
    ultimately show ?thesis using loop db by (auto simp: open_wallet_def C_def [symmetric])
  next
    case no: False
    then have "rcs_wallet ?st = db" using loop by simp
    moreover have "wo_net wo' = rcs_net ?st" "wo_disk wo' = wo_disk wo" "out = Ok ()"
      using run seed db(1) msgs(1) False no by (auto simp: cmd_receive_def Let_def say_def)
    ultimately show ?thesis using loop db by (auto simp: open_wallet_def)
  qed
qed

end
