(* ===== verification/Payment.thy ===== *)
theory Payment
  imports Wallet_Commands
begin

text \<open>
  Payments from end to end: the wallet program (\<open>bin/wallet.rs\<close>) of a payer, a committee of validator
  daemons, a relay and the wallet program of the recipient.

  The network of this theory is a pair of the validators' world and one relay daemon per base URL.
  What a wallet reads of a relay's answer follows the handlers of the relay: their errors are JSON
  objects too, without the fields that the wallet looks for.
\<close>

section \<open>What a wallet gets from its peers\<close>

text \<open>
  Whatever the validators answer, a coin that issuance returns belongs to its secret and has the size
  of a coin. Its signature is not checked by issuance; a refresh does check it.
\<close>

definition coin_shape :: "('s, 'p) crypto \<Rightarrow> 's coin \<Rightarrow> bool" where
  "coin_shape C coin \<longleftrightarrow> coin_ok C coin \<and> length (sig_r (coin_signature coin)) = 32 \<and> length (sig_s (coin_signature coin)) = 32"

lemma or_return_eq_Ok: "or_return res st f = (Ok y, st') \<longleftrightarrow> (\<exists>x. res = Ok x \<and> f x = (Ok y, st'))"
  by (cases res) auto

lemma issue_coin_shape:
  fixes C :: "('s::field, 'p::ab_group_add) crypto"
  assumes "curve_ok C" and "issue_coin C R X N pool pk sid rw = (Ok coin, rw')"
  shows "coin_shape C coin"
proof -
  obtain sk ust resp sig commit r1 ch r2 where
    "blind_request C R commit pk (pk_to_bytes (PublicKey_from_secret C sk)) r1 = Ok ((ch, ust), r2)"
    "unblind C ust resp = Ok sig" "Coin_new C sk (pk_to_bytes (PublicKey_from_secret C sk)) sig = Ok coin"
    using assms(2) by (auto simp: issue_coin_def Let_def case_prod_beta or_return_eq_Ok)
  then show ?thesis using assms(1)
    by (auto simp: coin_shape_def Coin_new_Ok coin_ok_def blind_request_def unblind_def Let_def case_prod_beta)
qed

lemma user_refresh_candidates_r_prime:
  "user_refresh_candidates C R agg P b gs r = Ok (cands, r') \<Longrightarrow> curve_ok C \<Longrightarrow> \<forall>cd \<in> set cands. length (cd_r_prime cd) = 32"
  by (induction gs arbitrary: r cands r') (auto simp: Let_def case_prod_beta blind_one_candidate_def)

lemma refresh_coin_verified:
  fixes C :: "('s::field, 'p::ab_group_add) crypto"
  assumes ok: "curve_ok C" and run: "refresh_coin C R X N pool melted pk sid rw = (Ok coin, rw')"
  shows "coin_shape C coin \<and> Coin_verify C coin pk = Ok True"
proof -
  obtain mr1 r u2 ust r1 ch resp where r2: "user_refresh_round2 C R sid mr1 pk melted r = Ok ((u2, ust), r1)"
    and r6: "user_refresh_round6 C ust ch resp pk = Ok coin"
    using run by (auto simp: refresh_coin_def Let_def case_prod_beta or_return_eq_Ok)
  have primes: "\<forall>p \<in> set (urs_r_primes ust). length p = 32"
    using r2 ok by (auto simp: user_refresh_round2_def Let_def split: if_splits dest!: user_refresh_candidates_r_prime)
  then show ?thesis using r6 ok
    by (auto simp: user_refresh_round6_def Let_def index_at_eq_Ok Coin_new_Ok coin_shape_def coin_ok_def Coin_verify_def split: if_splits)
qed

section \<open>Validators and relays on one network\<close>

definition on_fleet :: "'f network \<Rightarrow> ('f \<times> 'v) network" where
  "on_fleet N =
     \<lparr>net_sign_round1 = (\<lambda>ep h (f, v). let (reply, f') = net_sign_round1 N ep h f in (reply, (f', v))),
      net_sign_round3 = (\<lambda>ep rq (f, v). let (reply, f') = net_sign_round3 N ep rq f in (reply, (f', v))),
      net_refresh_round1 = (\<lambda>ep h kappa (f, v). let (reply, f') = net_refresh_round1 N ep h kappa f in (reply, (f', v))),
      net_refresh_round5 = (\<lambda>ep rq (f, v). let (reply, f') = net_refresh_round5 N ep rq f in (reply, (f', v)))\<rparr>"

type_synonym relays = "string \<Rightarrow> relay_app"

definition as_u64 :: "u128 \<Rightarrow> u64 option" where
  "as_u64 n = (if unat n < 2 ^ 64 then Some (ucast n) else None)"

definition relay_daemons :: "libs \<Rightarrow> (string \<Rightarrow> relay_env) \<Rightarrow> (string \<Rightarrow> string \<Rightarrow> relay_env) \<Rightarrow> ('f \<times> relays) relay_net" where
  "relay_daemons X E Edel =
     \<lparr>rn_deposit = (\<lambda>url recipient payload ttl (f, v).
        let (out, app) = relay_deposit X (E url) recipient payload (Some ttl) (v url)
        in (case out of
              Ok m \<Rightarrow> Value \<lparr>dp_id = Some (msg_id m), dp_expires_at_unix_ms = as_u64 (msg_expires_at_unix_ms m)\<rparr>
            | Err _ \<Rightarrow> Value \<lparr>dp_id = None, dp_expires_at_unix_ms = None\<rparr>
            | Panic \<Rightarrow> SendFailed, (f, v(url := app)))),
      rn_list = (\<lambda>url recipient (f, v).
        let (out, app) = relay_list X (E url) recipient (v url)
        in (case out of
              Ok ms \<Rightarrow> Value (Some (map (\<lambda>m. \<lparr>lm_id = Some (msg_id m), lm_payload_hex = Some (msg_payload_hex m)\<rparr>) ms))
            | Err _ \<Rightarrow> Value None
            | Panic \<Rightarrow> SendFailed, (f, v(url := app)))),
      rn_remove = (\<lambda>url recipient i (f, v).
        let (out, app) = relay_remove X (Edel url i) recipient i (v url)
        in (out \<noteq> Panic, (f, v(url := app))))\<rparr>"

lemma try_join_all_on_fleet:
  assumes "\<And>ep f v. call' ep (f, v) = (let (out, f') = call ep f in (out, (f', v)))"
  shows "try_join_all call' eps (f, v) = (let (out, f') = try_join_all call eps f in (out, (f', v)))"
proof (induction eps arbitrary: f)
  case (Cons ep eps)
  obtain out f1 where c: "call ep f = (out, f1)" by force
  obtain outs f2 where rest: "try_join_all call eps f1 = (outs, f2)" by force
  show ?case using Cons [of f1] by (cases out; cases outs) (simp_all add: assms c rest)
qed simp

lemma calls_on_fleet:
  "issue_round1_call X (on_fleet N) sid h ep (f, v) = (let (out, f') = issue_round1_call X N sid h ep f in (out, (f', v)))"
  "issue_round3_call X (on_fleet N) sid rq ep (f, v) = (let (out, f') = issue_round3_call X N sid rq ep f in (out, (f', v)))"
  by (simp_all add: issue_round1_call_def issue_round3_call_def on_fleet_def case_prod_beta apfst_def map_prod_def)

definition beside :: "'v \<Rightarrow> 'a \<times> 'r \<times> 'f \<Rightarrow> 'a \<times> 'r \<times> 'f \<times> 'v" where
  "beside v = (\<lambda>(out, r, f). (out, r, f, v))"

lemma or_return_beside:
  "(\<And>x. g' x = beside v (g x)) \<Longrightarrow> or_return res (r, f, v) g' = beside v (or_return res (r, f) g)"
  by (cases res) (simp_all add: beside_def)

lemma issue_coin_on_fleet:
  "issue_coin C R X (on_fleet N) pool pk sid (r, (f, v)) = beside v (issue_coin C R X N pool pk sid (r, f))"
  unfolding issue_coin_def Let_def prod.case try_join_all_on_fleet [OF calls_on_fleet(1)] try_join_all_on_fleet [OF calls_on_fleet(2)]
    case_prod_beta fst_conv snd_conv
  by (intro or_return_beside) (simp add: beside_def)

section \<open>From the payer's coin to the recipient's\<close>

definition platform_ok :: "('s::field, 'p::ab_group_add, 'q, 'r, 'w, 'm) platform \<Rightarrow> bool" where
  "platform_ok pf \<longleftrightarrow> curve_ok (plat_crypto pf) \<and> libs_ok (plat_libs pf) \<and> hkdf_ok (plat_crypto pf) \<and>
     x25519_ok (plat_crypto pf) (plat_x25519 pf) \<and> payload_ok (plat_payload pf) \<and> fill_ok (plat_rng pf)"

text \<open>Two wallets that run the same program over the same libraries.\<close>

definition same_program ::
    "('s, 'p, 'q, 'r, 'w, 'm) platform \<Rightarrow> ('s, 'p, 'q, 'r, 'w, 'm) platform \<Rightarrow> bool" where
  "same_program pf pf' \<longleftrightarrow> plat_crypto pf' = plat_crypto pf \<and> plat_x25519 pf' = plat_x25519 pf \<and>
     plat_libs pf' = plat_libs pf \<and> plat_payload pf' = plat_payload pf"

lemma sealed_payload_decodes:
  fixes pf :: "('s::field, 'p::ab_group_add, 'q, 'r, 'w, 'm) platform"
  defines "C \<equiv> plat_crypto pf" and "X \<equiv> plat_libs pf"
  assumes ok: "platform_ok pf" and shape: "coin_shape C coin"
    and sealed: "seal C (plat_x25519 pf) X R (payload_to_vec (plat_payload pf) (coin_payload C X coin ivc))
      (snd (derive_receiving_keypair C seed)) r = (Ok sealed, r')"
  shows "decode_message pf args seed \<lparr>lm_id = Some i, lm_payload_hex = Some (hex_encode X sealed)\<rparr> =
    Some (stored_of C coin (inv_denom ivc) Active (Some (ascii (rcv_label_prefix args @ ''-'' @ i))))"
proof -
  have laws: "curve_ok C" "libs_ok X" "x25519_ok C (plat_x25519 pf)" "payload_ok (plat_payload pf)"
    using ok by (simp_all add: platform_ok_def C_def X_def)
  have hex: "hex_decode X (hex_encode X bs) = Some bs" for bs using laws(2) by (simp add: libs_ok_def)
  obtain a where keys: "derive_receiving_keypair C seed = (scalar_to_bytes C a, compress C (mulG C a))"
    by (simp add: derive_receiving_keypair_def Let_def)
  have "open_box C (plat_x25519 pf) X sealed (scalar_to_bytes C a) = Ok (payload_to_vec (plat_payload pf) (coin_payload C X coin ivc))"
    using sealed_box_opens [OF laws(1,3,2)] sealed keys by simp
  moreover have "length (SecretKey_to_bytes C (coin_secret coin)) = 32" "length (coin_pubkey_bytes coin) = 32"
      "length (Signature_to_bytes (coin_signature coin)) = 64"
    using shape laws(1) by (simp_all add: coin_shape_def coin_ok_def SecretKey_to_bytes_def Signature_to_bytes_def)
  ultimately show ?thesis
    using laws(4) keys hex unfolding decode_message_def payload_ok_def C_def [symmetric] X_def [symmetric]
    by (simp add: parse_hex32_def parse_hex64_def coin_payload_def stored_of_def)
qed

lemma relay_deposit_message: "relay_deposit X E r p ttl app = (Ok m, app') \<Longrightarrow> msg_payload_hex m = p"
  by (auto simp: relay_deposit_def InboxStore_deposit_def or_return_eq_Ok Let_def split: prod.splits backend.splits if_splits)

lemma pay_deliver_accepted:
  assumes "plat_relay pf = relay_daemons (plat_libs pf) E Edel" and "pay_encrypt args"
    and run: "pay_deliver pf args ivc coin wo = (Ok (url, dep), wo')" and "dp_id dep = Some i"
  shows "\<exists>sealed r m. seal (plat_crypto pf) (plat_x25519 pf) (plat_libs pf) (plat_rng pf)
      (payload_to_vec (plat_payload pf) (coin_payload (plat_crypto pf) (plat_libs pf) coin ivc)) (inv_recipient_pubkey ivc) (wo_rng wo) =
      (Ok sealed, r) \<and>
    relay_deposit (plat_libs pf) (E (trim_end_slashes url)) (hex_encode (plat_libs pf) (inv_recipient_pubkey ivc))
      (hex_encode (plat_libs pf) sealed) (Some (pay_ttl_secs args)) (snd (wo_net wo) (trim_end_slashes url)) =
      (Ok m, snd (wo_net wo') (trim_end_slashes url)) \<and> msg_id m = i"
proof -
  obtain f v where net: "wo_net wo = (f, v)" by force
  obtain packed r where seal: "seal (plat_crypto pf) (plat_x25519 pf) (plat_libs pf) (plat_rng pf)
      (payload_to_vec (plat_payload pf) (coin_payload (plat_crypto pf) (plat_libs pf) coin ivc)) (inv_recipient_pubkey ivc) (wo_rng wo) = (packed, r)"
    by force
  then obtain sealed where packed: "packed = Ok sealed"
    using run assms(2) by (cases packed) (simp_all add: pay_deliver_def pack_payload_def Let_def)
  obtain out app where dep: "relay_deposit (plat_libs pf) (E (trim_end_slashes url)) (hex_encode (plat_libs pf) (inv_recipient_pubkey ivc))
      (hex_encode (plat_libs pf) sealed) (Some (pay_ttl_secs args)) (v (trim_end_slashes url)) = (out, app)" by force
  show ?thesis
    using run assms(1,2,4) seal packed net dep
    by (auto simp: pay_deliver_def pack_payload_def relay_daemons_def Let_def or_return_eq_Ok case_prod_beta split: result.splits)
qed

lemma pay_audit_net: "wo_net (snd (pay_audit pf args ivc seed coin wo)) = wo_net wo"
  by (auto simp: pay_audit_def store_coin_def save_wallet_def Let_def case_prod_beta
      intro!: or_return_frame [where P = "\<lambda>w. wo_net w = wo_net wo"] split: option.splits)

lemma cmd_pay_Ok:
  assumes "cmd_pay pf args wo = (Ok (), wo')"
  obtains ivc seed coin wo0 url dep wo1 where "pay_mint pf args wo = (Ok (ivc, seed, coin), wo0)"
    "pay_deliver pf args ivc coin wo0 = (Ok (url, dep), wo1)" "wo_net wo' = wo_net wo1"
    "last (wo_out wo') = PrintPaid (hex_encode (plat_libs pf) (inv_recipient_pubkey ivc)) (inv_denom ivc) url
      (case dp_id dep of None \<Rightarrow> '''' | Some i \<Rightarrow> i) (case dp_expires_at_unix_ms dep of None \<Rightarrow> 0 | Some t \<Rightarrow> t)"
proof -
  obtain minted wo0 where mint: "pay_mint pf args wo = (minted, wo0)" by force
  then obtain ivc seed coin where minted: "minted = Ok (ivc, seed, coin)" using assms by (auto simp: cmd_pay_def or_return_eq_Ok)
  obtain delivered wo1 where deliver: "pay_deliver pf args ivc coin wo0 = (delivered, wo1)" by force
  then obtain url dep where delivered: "delivered = Ok (url, dep)" using assms mint minted by (auto simp: cmd_pay_def or_return_eq_Ok)
  obtain audited wo2 where audit: "pay_audit pf args ivc seed coin wo1 = (audited, wo2)" by force
  note * = mint [unfolded minted] deliver [unfolded delivered] audit
  have "wo' = say (PrintPaid (hex_encode (plat_libs pf) (inv_recipient_pubkey ivc)) (inv_denom ivc) url
      (case dp_id dep of None \<Rightarrow> '''' | Some i \<Rightarrow> i) (case dp_expires_at_unix_ms dep of None \<Rightarrow> 0 | Some t \<Rightarrow> t)) wo2"
    using assms * by (auto simp: cmd_pay_def or_return_eq_Ok)
  moreover have "wo_net wo2 = wo_net wo1" using pay_audit_net [of pf args ivc seed coin wo1] audit by simp
  ultimately show ?thesis by (intro that [OF *(1,2)]) (simp_all add: say_def)
qed

text \<open>
  The recipient polls the relay of the payment, later: \<open>between\<close> are the relay's other requests in the
  meantime, \<open>msgs\<close> what it lists. \<open>fresh_listing\<close> says that the coins listed are different and new to the
  wallet.
\<close>

definition fresh_listing ::
    "('s, 'p, 'q, 'r, 'w, 'm) platform \<Rightarrow> receive_args \<Rightarrow> bytes \<Rightarrow> coin_store \<Rightarrow> listed_message list \<Rightarrow> bool" where
  "fresh_listing pf args seed st msgs \<longleftrightarrow>
     distinct (map (StoredCoin_nullifier (plat_crypto pf)) (carried pf args seed msgs)) \<and>
     list_all (\<lambda>c. holdings (plat_crypto pf) st (StoredCoin_nullifier (plat_crypto pf) c) = None) (carried pf args seed msgs)"

lemma by_nullifier_distinct:
  "distinct (map (StoredCoin_nullifier C) cs) \<Longrightarrow> c \<in> set cs \<Longrightarrow> by_nullifier C cs (StoredCoin_nullifier C c) = Some c"
  by (rule map_of_is_SomeI) (auto simp: comp_def)

lemma relay_lists:
  assumes "plat_relay pf = relay_daemons X E Edel" and "relay_list X (E url) r (snd (wo_net wo) url) = (Ok ms, app)"
  shows "\<exists>net. rn_list (plat_relay pf) url r (wo_net wo) =
    (Value (Some (map (\<lambda>m. \<lparr>lm_id = Some (msg_id m), lm_payload_hex = Some (msg_payload_hex m)\<rparr>) ms)), net)"
  using assms by (cases "wo_net wo") (auto simp: relay_daemons_def)

lemma payment_transport:
  fixes pf pf' :: "('s::field, 'p::ab_group_add, 'q, 'r, 'f \<times> relays, 'm) platform"
  assumes ok: "platform_ok pf" "platform_ok pf'" "same_program pf pf'"
    and relays: "plat_relay pf = relay_daemons (plat_libs pf) E Edel" "plat_relay pf' = relay_daemons (plat_libs pf) E' Edel'"
    and mint: "pay_mint pf a wo = (Ok (ivc, seed, coin), wo0)" and shape: "coin_shape (plat_crypto pf) coin"
    and relay: "u = trim_end_slashes url" "inbox_inv (ra_inbox (snd (wo_net wo0) u))" "ttl_fits (E u) (deposit_ttl (Some (pay_ttl_secs a)))"
    and pay: "pay_encrypt a" "cmd_pay pf a wo = (Ok (), wo1)" "last (wo_out wo1) = PrintPaid rhex d url i ex" "i \<noteq> ''''"
    and later: "snd (wo_net wo2) u = relay_run (plat_libs pf) between (snd (wo_net wo1) u)"
      "\<forall>q \<in> set between. request_keeps (plat_libs pf) rhex i (E' u) q"
      "not_expired (E u) (deposit_ttl (Some (pay_ttl_secs a))) (E' u)" "rv_sql_ok (E' u)"
    and recipient: "unlock pf' (rcv_wallet_phrase b) (rcv_wallet_passphrase b) = Ok seed'"
      "inv_recipient_pubkey ivc = snd (derive_receiving_keypair (plat_crypto pf) seed')"
      "trim (rcv_recipient_pubkey b) = rhex" "trim_end_slashes (rcv_relay b) = u" "p_ext (rcv_wallet_file b) \<noteq> ''tmp''"
    and wallet: "open_wallet pf' (rcv_wallet_file b) seed' wo2 = Ok db" "store_ok (plat_crypto pf) (wdb_store db)" "coin_store_wf (wdb_store db)"
    and listed: "fst (rn_list (plat_relay pf') u rhex (wo_net wo2)) = Value (Some msgs)" "labels_fit b msgs"
      "length (cs_coins (wdb_store db)) + length msgs < 2 ^ 32" "fresh_listing pf' b seed' (wdb_store db) msgs"
    and receive: "cmd_receive pf' b wo2 = (Ok (), wo3)"
  shows "\<exists>db'. open_wallet pf' (rcv_wallet_file b) seed' wo3 = Ok db' \<and>
    holdings (plat_crypto pf) (wdb_store db') (nullifier (plat_crypto pf) coin) =
      Some (stored_of (plat_crypto pf) coin (inv_denom ivc) Active (Some (ascii (rcv_label_prefix b @ ''-'' @ i))))"
proof -
  let ?C = "plat_crypto pf" and ?X = "plat_libs pf"
  have same: "plat_crypto pf' = ?C" "plat_x25519 pf' = plat_x25519 pf" "plat_libs pf' = ?X" "plat_payload pf' = plat_payload pf"
    using ok(3) by (simp_all add: same_program_def)
  let ?stored = "stored_of ?C coin (inv_denom ivc) Active (Some (ascii (rcv_label_prefix b @ ''-'' @ i)))"
  obtain ivc' seed2 coin' wo0' url' dep wo_d where run: "pay_mint pf a wo = (Ok (ivc', seed2, coin'), wo0')"
      "pay_deliver pf a ivc' coin' wo0' = (Ok (url', dep), wo_d)" "wo_net wo1 = wo_net wo_d"
      "last (wo_out wo1) = PrintPaid (hex_encode ?X (inv_recipient_pubkey ivc')) (inv_denom ivc') url'
        (case dp_id dep of None \<Rightarrow> '''' | Some i \<Rightarrow> i) (case dp_expires_at_unix_ms dep of None \<Rightarrow> 0 | Some t \<Rightarrow> t)"
    by (rule cmd_pay_Ok [OF pay(2)])
  then have deliver: "pay_deliver pf a ivc coin wo0 = (Ok (url, dep), wo_d)" "wo_net wo1 = wo_net wo_d" "dp_id dep = Some i"
    and rhex: "rhex = hex_encode ?X (inv_recipient_pubkey ivc)"
    using mint pay(3,4) by (auto split: option.splits)
  obtain sealed r m where sealed: "seal ?C (plat_x25519 pf) ?X (plat_rng pf)
      (payload_to_vec (plat_payload pf) (coin_payload ?C ?X coin ivc)) (inv_recipient_pubkey ivc) (wo_rng wo0) = (Ok sealed, r)"
    and m: "relay_deposit ?X (E u) rhex (hex_encode ?X sealed) (Some (pay_ttl_secs a)) (snd (wo_net wo0) u) = (Ok m, snd (wo_net wo1) u)"
      "msg_id m = i"
    using pay_deliver_accepted [OF relays(1) pay(1) deliver(1,3)] relay(1) rhex deliver(2) by auto
  obtain ms app where ms: "relay_list ?X (E' u) rhex (snd (wo_net wo2) u) = (Ok ms, app)" "m \<in> set ms"
    using message_kept [OF relay(2) m(1) relay(3) _ later(3,4)] later(1,2) m(2) by (metis prod.collapse)
  then have msgs: "\<lparr>lm_id = Some i, lm_payload_hex = Some (hex_encode ?X sealed)\<rparr> \<in> set msgs"
    using relay_lists [OF relays(2) ms(1)] listed(1) relay_deposit_message [OF m(1)] m(2) by (auto intro!: rev_image_eqI [of m])
  have "decode_message pf' b seed' \<lparr>lm_id = Some i, lm_payload_hex = Some (hex_encode ?X sealed)\<rparr> = Some ?stored"
    using sealed_payload_decodes [of pf' coin "plat_rng pf" ivc seed' "wo_rng wo0" sealed r b i] ok(2) shape sealed recipient(2) same by simp
  with msgs have carried: "?stored \<in> set (carried pf' b seed' msgs)" by (force simp: List.map_filter_def)
  obtain net1 where l: "rn_list (plat_relay pf') (trim_end_slashes (rcv_relay b)) (trim (rcv_recipient_pubkey b)) (wo_net wo2) = (Value (Some msgs), net1)"
    using listed(1) recipient(3,4) by (metis prod.collapse)
  have "libs_ok (plat_libs pf')" "hkdf_ok (plat_crypto pf')" "fill_ok (plat_rng pf')" using ok(2) by (simp_all add: platform_ok_def)
  from receive_outcome [OF this recipient(5,1) wallet(1) _ wallet(3) l listed(2,3) receive] wallet(2) same
  obtain db' where db': "open_wallet pf' (rcv_wallet_file b) seed' wo3 = Ok db'"
    "holdings ?C (wdb_store db') = by_nullifier ?C (carried pf' b seed' msgs) ++ holdings ?C (wdb_store db)" by auto
  have "StoredCoin_nullifier ?C ?stored = nullifier ?C coin"
    by (simp add: StoredCoin_nullifier_def stored_of_def nullifier_def nullifier_of_def NULLIFIER_DOMAIN_def)
  then have "by_nullifier ?C (carried pf' b seed' msgs) (nullifier ?C coin) = Some ?stored" "holdings ?C (wdb_store db) (nullifier ?C coin) = None"
    using by_nullifier_distinct [OF _ carried, of ?C] listed(4) carried same by (auto simp: fresh_listing_def list_all_iff)
  then show ?thesis using db' by (auto simp: map_add_def)
qed

section \<open>Minting with an honest committee\<close>

lemma build_endpoints_eq:
  "build_endpoints builds i urls = Ok eps \<Longrightarrow> map ep_base_url eps = urls \<and> map (unat \<circ> ep_my_index) eps = [Suc i..<Suc (i + length urls)]"
proof (induction urls arbitrary: i eps)
  case (Cons url urls)
  obtain rest where "build_endpoints builds (Suc i) urls = Ok rest" "i + 1 < 2 ^ 16"
      "eps = \<lparr>ep_my_index = word_of_nat (i + 1), ep_base_url = url\<rparr> # rest"
    using Cons.prems by (auto simp: ValidatorEndpoint_plain_def split: if_splits)
  moreover from this(2) have "unat (word_of_nat (i + 1) :: u16) = i + 1" by (intro unat_word_of_nat) simp
  ultimately show ?case using Cons.IH [of "Suc i" rest] by (simp add: upt_conv_Cons del: upt_Suc)
qed simp

lemma build_pool_indices:
  assumes "build_pool builds urls = Ok pool"
  shows "distinct (pool_signing_set pool)" and "0 \<notin> set (pool_signing_set pool)" and "map ep_base_url (wcp_endpoints pool) = urls"
proof -
  have eps: "build_endpoints builds 0 urls = Ok (wcp_endpoints pool)"
    using assms by (auto simp: build_pool_def WalletClientPool_new_def split: if_splits)
  note eq = build_endpoints_eq [OF eps]
  then have unats: "map unat (pool_signing_set pool) = [1..<Suc (length urls)]" by (simp add: pool_signing_set_def)
  then show "distinct (pool_signing_set pool)" by (metis distinct_map distinct_upt)
  show "map ep_base_url (wcp_endpoints pool) = urls" using eq by simp
  have "0 \<notin> set (map unat (pool_signing_set pool))" unfolding unats by (simp del: upt_Suc)
  then show "0 \<notin> set (pool_signing_set pool)" by force
qed

text \<open>
  A committee that can sign in session \<open>sid\<close>: daemons at different URLs, at least as many as the threshold,
  that hold shares of the secret behind \<open>pk\<close> and keep them and the session while they serve others.
\<close>

definition committee_ready ::
    "('s::field, 'p::ab_group_add) crypto \<Rightarrow> libs \<Rightarrow> 's list \<Rightarrow> wallet_client_pool \<Rightarrow> session_id \<Rightarrow> (string \<Rightarrow> request_env)
     \<Rightarrow> (string \<Rightarrow> (request_env \<times> api_request) list) \<Rightarrow> public_key \<Rightarrow> ('s, 'p, 'r) fleet \<Rightarrow> bool" where
  "committee_ready C X F pool sid Es busy pk w \<longleftrightarrow>
     length F \<le> length (wcp_endpoints pool) \<and> distinct (map ep_base_url (wcp_endpoints pool)) \<and>
     pk = PublicKey (compress C (mulG C (horner_eval_scalar F 0))) \<and>
     (\<forall>ep \<in> set (wcp_endpoints pool). tables_ok (w (ep_base_url ep)) \<and> holds_share C F ep (w (ep_base_url ep)) \<and>
        map_of (app_sign_sessions (w (ep_base_url ep))) sid = None) \<and>
     (\<forall>url. \<forall>x \<in> set (busy url). leaves_session X sid (re_instant (Es url)) x \<and> keeps_share x)"

lemma pay_mint_committee:
  fixes pf :: "('s::field, 'p::ab_group_add, 'q, 'r, ('s, 'p, 'r) fleet \<times> relays, 'm) platform"
  defines "C \<equiv> plat_crypto pf" and "X \<equiv> plat_libs pf" and "R \<equiv> plat_rng pf"
  assumes ok: "platform_ok pf" and big: "large_field TYPE('s)" and net: "plat_net pf = on_fleet (committee C R X J Es busy)"
    and res: "resolve_payment pf args (wo_disk wo) = Ok (ivc, seed, ks, pk)"
    and pool: "build_pool (plat_client_builds pf) (map text_of (ki_validators ks)) = Ok pool"
    and ready: "committee_ready C X F pool (SessionId (fst (fill_bytes R 16 (wo_rng wo)))) Es busy pk (fst (wo_net wo))"
  shows "\<exists>coin wo0. pay_mint pf args wo = (Ok (ivc, seed, coin), wo0) \<and> snd (wo_net wo0) = snd (wo_net wo) \<and>
    coin_shape C coin \<and> Coin_verify C coin pk = Ok True"
proof -
  obtain w v where wv: "wo_net wo = (w, v)" by force
  obtain sid r1 where sid: "fill_bytes R 16 (wo_rng wo) = (sid, r1)" by force
  have laws: "curve_ok C" "libs_ok X" "fill_ok R" using ok by (simp_all add: platform_ok_def C_def X_def R_def)
  then have len: "length sid = 16" using sid unfolding fill_ok_def by (metis fst_conv)
  have "\<exists>coin rw'. issue_coin C R X (committee C R X J Es busy) pool pk (SessionId sid) (r1, w) = (Ok coin, rw') \<and>
      coin_ok C coin \<and> Coin_verify C coin pk = Ok True"
    using ready len sid wv
    by (intro committee_issues_coin [OF laws(1) big laws(2) _ build_pool_indices(1,2) [OF pool]]) (auto simp: committee_ready_def)
  then obtain coin r2 w2 where coin: "issue_coin C R X (committee C R X J Es busy) pool pk (SessionId sid) (r1, w) = (Ok coin, r2, w2)"
      "Coin_verify C coin pk = Ok True" by auto
  then show ?thesis
    using res pool net sid wv issue_coin_shape [OF laws(1) coin(1)]
    by (simp add: pay_mint_def parse_session_id_def issue_coin_on_fleet beside_def C_def R_def X_def)
qed

section \<open>A payment for the witness\<close>

definition sample_x25519 :: "(gf, gf, gf) x25519" where
  "sample_x25519 = \<lparr>to_montgomery = (\<lambda>p. p), mont_mul = (*), X25519_BASEPOINT = 1, mont_to_bytes = gf_bytes,
     MontgomeryPoint = (\<lambda>bs. case gf_of_bytes bs of None \<Rightarrow> 0 | Some x \<Rightarrow> x), from_bytes_mod_order = (\<lambda>_. 7),
     hkdf_sha256 = (\<lambda>_ _ _ n. replicate n 0)\<rparr>"

text \<open>A self-delimiting format for the fields of a payload.\<close>

fun quote :: "bytes \<Rightarrow> bytes" where
  "quote [] = [0]"
| "quote (b # bs) = 1 # b # quote bs"

fun unquote :: "bytes reader" where
  "unquote (t # rest) =
     (if t = 0 then Some ([], rest)
      else case rest of [] \<Rightarrow> None | b # rest' \<Rightarrow> map_option (\<lambda>(bs, tl). (b # bs, tl)) (unquote rest'))"
| "unquote [] = None"

lemma unquote_quote: "unquote (quote bs @ rest) = Some (bs, rest)"
  by (induction bs) simp_all

lemma length_quote: "length (quote bs) = 2 * length bs + 1"
  by (induction bs) simp_all

definition sample_payload :: payload_json where
  "sample_payload =
     \<lparr>payload_to_vec = (\<lambda>p. quote (ascii (pl_coin_secret p)) @ quote (ascii (pl_coin_pubkey p)) @ quote (ascii (pl_coin_signature p)) @
        to_le_bytes 8 (pl_denom p)),
      payload_from_slice = (\<lambda>bs. map_option fst (rd_bind unquote (\<lambda>cs. rd_bind unquote (\<lambda>cp. rd_bind unquote (\<lambda>sig. rd_bind (rd_word 8) (\<lambda>d.
        rd_return \<lparr>pf_coin_secret = Some (text_of cs), pf_coin_pubkey = Some (text_of cp), pf_coin_signature = Some (text_of sig),
          pf_denom = Some d\<rparr>)))) bs))\<rparr>"

lemma text_of_ascii [simp]: "text_of (ascii s) = s"
proof -
  have "char_of (unat (word_of_nat (of_char c) :: u8)) = c" for c :: char
    by (simp add: unat_of_nat)
  then show ?thesis by (simp add: text_of_def ascii_def comp_def)
qed

lemma payload_ok_sample: "payload_ok sample_payload"
proof -
  have "rd_word 8 (to_le_bytes 8 d) = Some (d, [])" for d :: u64 using rd_word_append [of 8 d "[]"] by simp
  then show ?thesis by (simp add: payload_ok_def sample_payload_def rd_bind_def unquote_quote)
qed

definition sample_seed :: "u8 \<Rightarrow> bytes" where
  "sample_seed b = b # replicate 31 0"

lemma length_sample_seed [simp]: "length (sample_seed b) = 32"
  by (simp add: sample_seed_def)

definition sample_bip39 :: "unit bip39" where
  "sample_bip39 = \<lparr>from_entropy_in = (\<lambda>_. Some ()), parse_in = (\<lambda>_. Some ()),
     to_seed = (\<lambda>_ passphrase. sample_seed (if passphrase = '''' then 3 else 1) @ replicate 32 0)\<rparr>"

definition sample_platform ::
    "relay_env \<Rightarrow> (gf, gf, gf, gf list, (gf, gf, gf list) fleet \<times> relays, unit) platform" where
  "sample_platform E =
     \<lparr>plat_crypto = gf_curve, plat_x25519 = sample_x25519, plat_rng = tape_rng, plat_libs = sample_libs, plat_bip39 = sample_bip39,
      plat_payload = sample_payload,
      plat_net = on_fleet (committee gf_curve tape_rng sample_libs sample_json (\<lambda>_. sample_env) (\<lambda>_. [(sample_env, GetHealth)])),
      plat_relay = relay_daemons sample_libs (\<lambda>_. E) (\<lambda>_ _. E), plat_client_builds = True, plat_fault = NoFault\<rparr>"

lemma sample_platform_fields [simp]:
  "plat_crypto (sample_platform E) = gf_curve" "plat_rng (sample_platform E) = tape_rng" "plat_libs (sample_platform E) = sample_libs"
  "plat_client_builds (sample_platform E) = True" "plat_payload (sample_platform E) = sample_payload"
  "plat_x25519 (sample_platform E) = sample_x25519" "plat_bip39 (sample_platform E) = sample_bip39"
  "plat_relay (sample_platform E) = relay_daemons sample_libs (\<lambda>_. E) (\<lambda>_ _. E)"
  "plat_net (sample_platform E) =
     on_fleet (committee gf_curve tape_rng sample_libs sample_json (\<lambda>_. sample_env) (\<lambda>_. [(sample_env, GetHealth)]))"
  "plat_fault (sample_platform E) = NoFault"
  by (simp_all add: sample_platform_def)

lemma platform_ok_sample: "platform_ok (sample_platform E)"
proof -
  have "x25519_ok gf_curve sample_x25519"
    by (simp add: x25519_ok_def sample_x25519_def gf_of_bytes_bytes)
  moreover have "fill_ok (tape_rng :: (gf list, gf) rng)" by (simp add: fill_ok_def tape_rng_def)
  ultimately show ?thesis
    by (simp add: platform_ok_def sample_platform_def curve_ok_gf libs_ok_sample hkdf_ok_gf payload_ok_sample)
qed

definition sample_payee :: bytes where
  "sample_payee = snd (derive_receiving_keypair gf_curve (sample_seed 1))"

definition sample_invoice :: invoice where
  "sample_invoice = \<lparr>inv_recipient_pubkey = sample_payee, inv_denom = 5, inv_relays = [ascii ''relay''], inv_memo = None\<rparr>"

definition sample_file :: "string \<Rightarrow> path" where
  "sample_file name = \<lparr>p_dir = [], p_stem = name, p_ext = ''bin''\<rparr>"

definition sample_keysets :: keyset_store where
  "sample_keysets = [(ascii ''k'', \<lparr>ki_joint_pk_hex = gf_bytes 1, ki_denom = 5, ki_validators = [ascii ''v1'', ascii ''v2''],
     ki_ca_cert_path = None, ki_client_cert_path = None\<rparr>)]"

definition sample_pay_args :: pay_args where
  "sample_pay_args = \<lparr>pay_invoice = text_of (Invoice_to_uri sample_invoice), pay_keyset = ''k'', pay_keysets_file = sample_file ''keysets'',
     pay_wallet_phrase = [], pay_wallet_passphrase = [], pay_relay = None, pay_ttl_secs = 10, pay_wallet_file = None, pay_label = None,
     pay_encrypt = True\<rparr>"

definition sample_receive_args :: receive_args where
  "sample_receive_args = \<lparr>rcv_relay = ''relay/'', rcv_recipient_pubkey = hex_encode sample_libs sample_payee,
     rcv_wallet_file = sample_file ''wallet'', rcv_wallet_phrase = [], rcv_wallet_passphrase = ''r'', rcv_label_prefix = ''in'',
     rcv_keep_on_relay = False\<rparr>"

definition sample_mint :: "(gf, gf, gf list) fleet" where
  "sample_mint url =
     (let i = (if url = ''v2'' then 2 else 1) :: u16
      in sample_app\<lparr>app_state := (app_state sample_app)\<lparr>vst_share := Some (sample_share\<lparr>sr_my_index := i,
           sr_my_share_bytes := scalar_to_bytes gf_curve (horner_eval_scalar [1, 3] (scalar_from i))\<rparr>)\<rparr>\<rparr>)"

definition sample_relay :: relay_app where
  "sample_relay = \<lparr>ra_config = \<lparr>rc_bind_addr = [], rc_operator_name = [], rc_max_per_recipient = 10, rc_max_payload_bytes = 1000\<rparr>,
     ra_state = \<lparr>rs_started_at = 0, rs_deposits_total = 0, rs_fetches_total = 0\<rparr>, ra_inbox = InboxStore_in_memory 10 1000\<rparr>"

definition sample_world :: "(gf, gf list, (gf, gf, gf list) fleet \<times> relays, unit) world" where
  "sample_world = \<lparr>wo_disk = [(sample_file ''keysets'', replicate 12 0 @ ser_keyset_store sample_keysets @ replicate 16 0)],
     wo_rng = [6, 7, 8], wo_net = (sample_mint, \<lambda>_. sample_relay), wo_out = []\<rparr>"

definition sample_later :: "(gf, gf list, (gf, gf, gf list) fleet \<times> relays, unit) world \<Rightarrow> (gf, gf list, (gf, gf, gf list) fleet \<times> relays, unit) world" where
  "sample_later wo = \<lparr>wo_disk = [], wo_rng = [], wo_net = (fst (wo_net wo), \<lambda>url.
     relay_run sample_libs [(sample_relay_env 60 [], RelayPruneTick)] (snd (wo_net wo) url)), wo_out = []\<rparr>"

lemma length_payee: "length sample_payee = 32"
  by (simp add: sample_payee_def derive_receiving_keypair_def Let_def)

lemma sample_payee_eq: "sample_payee = 1 # replicate 31 0"
proof -
  have "from_le_bytes (take 64 (sample_seed 1 @ replicate 64 0)) = (1 :: 512 word)" by code_simp
  then have "sample_payee = gf_bytes 1"
    by (simp add: sample_payee_def derive_receiving_keypair_def gf_curve_def Let_def)
  also have "\<dots> = 1 # replicate 31 0" unfolding gf_bytes_1 by code_simp
  finally show ?thesis .
qed

lemma utf8_sample_key: "utf8_valid (gf_bytes 1)"
  unfolding gf_bytes_1 by code_simp

lemma resolve_sample:
  "resolve_payment (sample_platform E) sample_pay_args (wo_disk sample_world) =
     Ok (sample_invoice, sample_seed 3, snd (hd sample_keysets), PublicKey (gf_bytes 1))"
proof -
  have parsed: "Invoice_parse (Invoice_to_uri sample_invoice) = Ok sample_invoice"
    using uri_roundtrip [of sample_invoice] length_payee
    by (simp add: sample_invoice_def relays_ok_def memo_fits_def is_ascii_def ascii_def)
  have "try_from_slice de_keyset_store (ser_keyset_store sample_keysets) = Some sample_keysets"
    by (rule keyset_store_codec.try_from_slice_ser)
      (simp add: keyset_store_wf_def sample_keysets_def btree_ok_def string_wf_def keyset_info_wf_def label_wf_def ascii_def utf8_sample_key)
  then have "lookup_keyset (sample_platform E) (sample_file ''keysets'') (sample_seed 3) ''k'' (wo_disk sample_world) = Ok (snd (hd sample_keysets))"
    by (simp add: lookup_keyset_def KeysetDb_open_def open_backup_def BACKUP_NONCE_LEN_def TAG_LEN_def sample_libs_def sample_platform_def
        sample_world_def KeysetStore_get_def sample_keysets_def)
  moreover have "unlock (sample_platform E) [] [] = Ok (sample_seed 3)"
    by (simp add: unlock_def parse_mnemonic_def sample_bip39_def derive_master_seed_def sample_platform_def)
  moreover have "parse_joint_pk (sample_platform E) (text_of (gf_bytes 1)) = Ok (PublicKey (gf_bytes 1))"
    by (simp add: parse_joint_pk_def parse_hex32_def sample_platform_def sample_libs_def PublicKey_from_bytes_def gf_curve_def
        gf_of_bytes_bytes)
  ultimately show ?thesis
    by (simp add: resolve_payment_def sample_pay_args_def parsed) (simp add: sample_keysets_def sample_invoice_def)
qed

definition sample_pay_pool :: wallet_client_pool where
  "sample_pay_pool = \<lparr>wcp_endpoints = [\<lparr>ep_my_index = 1, ep_base_url = ''v1''\<rparr>, \<lparr>ep_my_index = 2, ep_base_url = ''v2''\<rparr>]\<rparr>"

lemma pool_sample: "build_pool True (map text_of (ki_validators (snd (hd sample_keysets)))) = Ok sample_pay_pool"
  by (simp add: build_pool_def WalletClientPool_new_def ValidatorEndpoint_plain_def sample_keysets_def sample_pay_pool_def)

lemma committee_sample:
  "committee_ready gf_curve sample_libs [1, 3] sample_pay_pool (SessionId (replicate 16 0)) (\<lambda>_. sample_env) (\<lambda>_. [(sample_env, GetHealth)])
     (PublicKey (gf_bytes 1)) sample_mint"
  by (auto simp: committee_ready_def sample_pay_pool_def sample_mint_def sample_app_def tables_ok_def holds_share_def loaded_share_def Let_def
      leaves_session_def keeps_share_def)

lemma relay_sample:
  assumes "length p \<le> 1000"
  shows "\<exists>m app1 app2. relay_deposit sample_libs (sample_relay_env 5 ''m1'') (hex_encode sample_libs sample_payee) p (Some 10) sample_relay = (Ok m, app1) \<and>
    msg_id m = ''m1'' \<and>
    relay_list sample_libs (sample_relay_env 9000 []) (hex_encode sample_libs sample_payee)
      (relay_run sample_libs [(sample_relay_env 60 [], RelayPruneTick)] app1) = (Ok [m], app2)"
proof -
  have "hex_decode sample_libs (hex_encode sample_libs sample_payee) = Some sample_payee"
    using libs_ok_sample unfolding libs_ok_def by blast
  then have parsed: "parse_recipient sample_libs (hex_encode sample_libs sample_payee) = Ok sample_payee"
    by (simp add: parse_recipient_def length_payee)
  let ?E = "sample_relay_env 5 ''m1''"
  let ?m = "\<lparr>msg_id = ''m1'', msg_payload_hex = p, msg_received_at_unix_ms = rv_unix_ms ?E, msg_expires_at_unix_ms = rv_unix_ms ?E + 10000\<rparr>"
  let ?inbox = "(InboxStore_in_memory 10 1000)\<lparr>ib_backend := Memory False [(sample_payee, [\<lparr>sm_msg = ?m, sm_expires_at_inst = 10005\<rparr>])]\<rparr>"
  have env: "rv_inst (sample_relay_env t j) = t" "rv_inst_max (sample_relay_env t j) = 2 ^ 60" "rv_id (sample_relay_env t j) = j" for t j
    by (simp_all add: sample_relay_env_def)
  have "\<not> length p div 2 > 1000" using assms by simp
  then have dep: "InboxStore_deposit ?E (InboxStore_in_memory 10 1000) sample_payee p 10000 = (Ok ?m, ?inbox)"
    by (simp add: InboxStore_deposit_def InboxStore_in_memory_def env hm_insert_def Let_def)
  have prune: "snd (InboxStore_prune (sample_relay_env 60 []) ?inbox) = ?inbox"
    by (simp add: InboxStore_prune_def InboxStore_in_memory_def env prune_buckets_def)
  have list: "InboxStore_list (sample_relay_env 9000 []) ?inbox sample_payee = Ok [?m]"
    by (simp add: InboxStore_list_def InboxStore_in_memory_def env)
  show ?thesis
    by (simp add: relay_deposit_def relay_list_def parsed deposit_ttl_def sample_relay_def dep relay_run_def relay_step_def case_prod_beta prune list)
qed

lemma sample_payload_length:
  assumes "coin_shape gf_curve coin"
  shows "length (payload_to_vec sample_payload (coin_payload gf_curve sample_libs coin ivc)) = 267"
proof -
  have "length (SecretKey_to_bytes gf_curve (coin_secret coin)) = 32" "length (coin_pubkey_bytes coin) = 32"
      "length (Signature_to_bytes (coin_signature coin)) = 64"
    using assms curve_ok_gf by (simp_all add: coin_shape_def coin_ok_def SecretKey_to_bytes_def Signature_to_bytes_def)
  then show ?thesis
    by (simp add: sample_payload_def coin_payload_def length_quote sample_libs_def ascii_def)
qed

lemma sample_seal:
  assumes "coin_shape gf_curve coin"
  shows "\<exists>sealed. seal gf_curve sample_x25519 sample_libs tape_rng
      (payload_to_vec sample_payload (coin_payload gf_curve sample_libs coin ivc)) sample_payee r = (Ok sealed, r) \<and> length sealed \<le> 1000"
proof -
  have "decompress gf_curve sample_payee \<noteq> None"
    by (simp add: sample_payee_def derive_receiving_keypair_def Let_def gf_of_bytes_bytes gf_curve_def)
  moreover have "length (gf_bytes x) = 32" for x using curve_ok_laws(11) [OF curve_ok_gf] by (simp add: gf_curve_def)
  ultimately show ?thesis
    using sample_payload_length [OF assms, of ivc]
    by (auto simp: seal_def ed25519_pub_to_x25519_def tape_rng_def derive_key_and_nonce_def sample_x25519_def sample_libs_def)
qed

lemma sample_save_Ok: "\<exists>fs r'. WalletDb_save gf_curve sample_libs tape_rng NoFault db seed fs0 r = (Ok (), fs, r')"
  by (simp add: WalletDb_save_def seal_backup_def sample_libs_def tape_rng_def Let_def)

lemma sample_receive_Ok:
  assumes "open_wallet (sample_platform E) file seed wo = Ok db" and "file = rcv_wallet_file args"
    and "unlock (sample_platform E) (rcv_wallet_phrase args) (rcv_wallet_passphrase args) = Ok seed"
    and "fst (rn_list (plat_relay (sample_platform E)) (trim_end_slashes (rcv_relay args)) (trim (rcv_recipient_pubkey args)) (wo_net wo)) = Value ms"
  shows "fst (cmd_receive (sample_platform E) args wo) = Ok ()"
proof -
  have "fst (save_wallet (sample_platform E) db' seed wo') = Ok ()" for db' wo'
    using sample_save_Ok [of db' seed "wo_disk wo'" "wo_rng wo'"] by (auto simp: save_wallet_def sample_platform_def)
  then show ?thesis using assms by (auto simp: cmd_receive_def Let_def case_prod_beta)
qed

lemma sample_receive_args_simps:
  "unlock (sample_platform E) (rcv_wallet_phrase sample_receive_args) (rcv_wallet_passphrase sample_receive_args) = Ok (sample_seed 1)"
  "trim_end_slashes (rcv_relay sample_receive_args) = ''relay''" "trim_end_slashes ''relay'' = ''relay''"
  "rcv_wallet_file sample_receive_args = sample_file ''wallet''" "rcv_label_prefix sample_receive_args = ''in''"
  "trim (rcv_recipient_pubkey sample_receive_args) = hex_encode sample_libs sample_payee"
proof -
  show "trim (rcv_recipient_pubkey sample_receive_args) = hex_encode sample_libs sample_payee"
    unfolding sample_receive_args_def receive_args.select_convs sample_payee_eq by code_simp
qed (simp_all add: sample_receive_args_def unlock_def parse_mnemonic_def sample_bip39_def derive_master_seed_def trim_end_slashes_def)

lemma sample_payment:
  obtains coin sealed m wo1 ms ex where "cmd_pay (sample_platform (sample_relay_env 5 ''m1'')) sample_pay_args sample_world = (Ok (), wo1)"
    "last (wo_out wo1) = PrintPaid (hex_encode sample_libs sample_payee) 5 ''relay'' ''m1'' ex"
    "fst (rn_list (plat_relay (sample_platform (sample_relay_env 9000 []))) ''relay'' (hex_encode sample_libs sample_payee) (wo_net (sample_later wo1))) =
       Value (Some [m])" "lm_id m = Some ''m1''"
proof -
  let ?pf = "sample_platform (sample_relay_env 5 ''m1'')" and ?r = "hex_encode sample_libs sample_payee"
  have sid: "fst (fill_bytes (tape_rng :: (gf list, gf) rng) 16 (wo_rng sample_world)) = replicate 16 0" by (simp add: tape_rng_def)
  obtain coin wo0 where mint: "pay_mint ?pf sample_pay_args sample_world = (Ok (sample_invoice, sample_seed 3, coin), wo0)"
      "snd (wo_net wo0) = snd (wo_net sample_world)" "coin_shape gf_curve coin"
    using pay_mint_committee [OF platform_ok_sample large_field_gf _ resolve_sample [of "sample_relay_env 5 ''m1''"], where J = sample_json and Es = "\<lambda>_. sample_env"
        and busy = "\<lambda>_. [(sample_env, GetHealth)]" and pool = sample_pay_pool and F = "[1, 3]"] committee_sample pool_sample sid
    by (auto simp: sample_world_def)
  obtain sealed where sealed: "seal gf_curve sample_x25519 sample_libs tape_rng
      (payload_to_vec sample_payload (coin_payload gf_curve sample_libs coin sample_invoice)) sample_payee (wo_rng wo0) = (Ok sealed, wo_rng wo0)"
      "length sealed \<le> 1000" using sample_seal [OF mint(3)] by blast
  have "length (hex_encode sample_libs sealed) \<le> 1000" using sealed(2) by (simp add: sample_libs_def)
  then obtain m app1 app2 where relay: "relay_deposit sample_libs (sample_relay_env 5 ''m1'') ?r (hex_encode sample_libs sealed) (Some 10) sample_relay = (Ok m, app1)"
      "msg_id m = ''m1''" "relay_list sample_libs (sample_relay_env 9000 []) ?r (relay_run sample_libs [(sample_relay_env 60 [], RelayPruneTick)] app1) = (Ok [m], app2)"
    using relay_sample by blast
  obtain f where net: "wo_net wo0 = (f, \<lambda>_. sample_relay)" using mint(2) by (cases "wo_net wo0") (simp add: sample_world_def)
  have trims: "trim_end_slashes ''relay'' = ''relay''" by (simp add: trim_end_slashes_def)
  define wo1 where "wo1 = snd (cmd_pay ?pf sample_pay_args sample_world)"
  have pay: "cmd_pay ?pf sample_pay_args sample_world = (Ok (), wo1)" "wo_net wo1 = (f, (\<lambda>_. sample_relay)(''relay'' := app1))"
      "last (wo_out wo1) = PrintPaid ?r 5 ''relay'' ''m1'' (case as_u64 (msg_expires_at_unix_ms m) of None \<Rightarrow> 0 | Some t \<Rightarrow> t)"
    using mint(1) sealed(1) relay(1,2) net trims
    by (simp_all add: wo1_def cmd_pay_def pay_deliver_def pack_payload_def pay_audit_def say_def sample_pay_args_def sample_invoice_def)
       (simp_all add: relay_daemons_def)
  show ?thesis
    by (rule that [where m = "\<lparr>lm_id = Some ''m1'', lm_payload_hex = Some (msg_payload_hex m)\<rparr>", OF pay(1,3)]) (use relay(3) pay(2) in \<open>simp_all add: relay_daemons_def sample_later_def relay(2)\<close>)
qed

section \<open>Properties\<close>

text \<open>
  C5. Payments arrive: a payer's program that runs over an honest committee and reports the payment of an
  invoice with a message identifier has moved money. Whatever other requests the relay serves in the
  meantime, short of removing the message or an expiry, the recipient's program, run with the phrase
  whose identity the invoice names, ends with a wallet file that holds an active coin of the invoice's
  denomination, and the coin verifies under the committee's key. An empty message identifier is
  excluded: the program reports a payment as made also when the relay refused the deposit.
\<close>

theorem payment_reaches_wallet:
  fixes pf pf' :: "('s::field, 'p::ab_group_add, 'q, 'r, ('s, 'p, 'r) fleet \<times> relays, 'm) platform"
  assumes "platform_ok pf" and "platform_ok pf'" and "same_program pf pf'" and "large_field TYPE('s)"
    and "plat_net pf = on_fleet (committee (plat_crypto pf) (plat_rng pf) (plat_libs pf) J Es busy)"
    and "plat_relay pf = relay_daemons (plat_libs pf) E Edel" and "plat_relay pf' = relay_daemons (plat_libs pf) E' Edel'"
    and "resolve_payment pf a (wo_disk wo) = Ok (ivc, seed, ks, pk)"
    and "build_pool (plat_client_builds pf) (map text_of (ki_validators ks)) = Ok pool"
    and "committee_ready (plat_crypto pf) (plat_libs pf) F pool (SessionId (fst (fill_bytes (plat_rng pf) 16 (wo_rng wo)))) Es busy pk (fst (wo_net wo))"
    and "u = trim_end_slashes url" and "inbox_inv (ra_inbox (snd (wo_net wo) u))" and "ttl_fits (E u) (deposit_ttl (Some (pay_ttl_secs a)))"
    and "pay_encrypt a" and "cmd_pay pf a wo = (Ok (), wo1)" and "last (wo_out wo1) = PrintPaid rhex d url i ex" and "i \<noteq> ''''"
    and "snd (wo_net wo2) u = relay_run (plat_libs pf) between (snd (wo_net wo1) u)"
    and "\<forall>q \<in> set between. request_keeps (plat_libs pf) rhex i (E' u) q"
    and "not_expired (E u) (deposit_ttl (Some (pay_ttl_secs a))) (E' u)" and "rv_sql_ok (E' u)"
    and "unlock pf' (rcv_wallet_phrase b) (rcv_wallet_passphrase b) = Ok seed'"
    and "inv_recipient_pubkey ivc = snd (derive_receiving_keypair (plat_crypto pf) seed')"
    and "trim (rcv_recipient_pubkey b) = rhex" and "trim_end_slashes (rcv_relay b) = u" and "p_ext (rcv_wallet_file b) \<noteq> ''tmp''"
    and "open_wallet pf' (rcv_wallet_file b) seed' wo2 = Ok db" and "store_ok (plat_crypto pf) (wdb_store db)" and "coin_store_wf (wdb_store db)"
    and "fst (rn_list (plat_relay pf') u rhex (wo_net wo2)) = Value (Some msgs)" and "labels_fit b msgs"
    and "length (cs_coins (wdb_store db)) + length msgs < 2 ^ 32" and "fresh_listing pf' b seed' (wdb_store db) msgs"
    and "cmd_receive pf' b wo2 = (Ok (), wo3)"
  shows "\<exists>coin db'. coin_ok (plat_crypto pf) coin \<and> Coin_verify (plat_crypto pf) coin pk = Ok True \<and>
    open_wallet pf' (rcv_wallet_file b) seed' wo3 = Ok db' \<and>
    holdings (plat_crypto pf) (wdb_store db') (nullifier (plat_crypto pf) coin) =
      Some (stored_of (plat_crypto pf) coin (inv_denom ivc) Active (Some (ascii (rcv_label_prefix b @ ''-'' @ i))))"
proof -
  obtain coin wo0 where mint: "pay_mint pf a wo = (Ok (ivc, seed, coin), wo0)" "snd (wo_net wo0) = snd (wo_net wo)"
    and coin: "coin_shape (plat_crypto pf) coin" "Coin_verify (plat_crypto pf) coin pk = Ok True"
    using pay_mint_committee [OF assms(1,4,5,8-10)] by blast
  have "inbox_inv (ra_inbox (snd (wo_net wo0) u))" using mint(2) assms(12) by simp
  from payment_transport [OF assms(1-3,6,7) mint(1) coin(1) assms(11) this assms(13-34)] coin
  show ?thesis by (auto simp: coin_shape_def)
qed

theorem payment_reaches_wallet_witness:
  "\<exists>wo1 rhex ex wo3 coin db'. cmd_pay (sample_platform (sample_relay_env 5 ''m1'')) sample_pay_args sample_world = (Ok (), wo1) \<and>
     last (wo_out wo1) = PrintPaid rhex 5 ''relay'' ''m1'' ex \<and>
     cmd_receive (sample_platform (sample_relay_env 9000 [])) sample_receive_args (sample_later wo1) = (Ok (), wo3) \<and>
     coin_ok gf_curve coin \<and> Coin_verify gf_curve coin (PublicKey (gf_bytes 1)) = Ok True \<and>
     open_wallet (sample_platform (sample_relay_env 9000 [])) (sample_file ''wallet'') (sample_seed 1) wo3 = Ok db' \<and>
     holdings gf_curve (wdb_store db') (nullifier gf_curve coin) = Some (stored_of gf_curve coin 5 Active (Some (ascii ''in-m1'')))"
proof -
  let ?pf = "sample_platform (sample_relay_env 5 ''m1'')" and ?pf' = "sample_platform (sample_relay_env 9000 [])"
  let ?r = "hex_encode sample_libs sample_payee" and ?db = "\<lparr>wdb_path = sample_file ''wallet'', wdb_store = CoinStore_new\<rparr>"
  obtain m wo1 ex where pay: "cmd_pay ?pf sample_pay_args sample_world = (Ok (), wo1)" "last (wo_out wo1) = PrintPaid ?r 5 ''relay'' ''m1'' ex"
    and listed: "fst (rn_list (plat_relay ?pf') ''relay'' ?r (wo_net (sample_later wo1))) = Value (Some [m])" "lm_id m = Some ''m1''"
    by (rule sample_payment)
  note args = sample_receive_args_simps and trimmed = sample_receive_args_simps(6)
  have opened: "open_wallet ?pf' (sample_file ''wallet'') (sample_seed 1) (sample_later wo1) = Ok ?db"
    by (simp add: open_wallet_def WalletDb_open_def sample_later_def)
  have store: "store_ok gf_curve (wdb_store ?db)" "coin_store_wf (wdb_store ?db)" "holdings gf_curve (wdb_store ?db) n = None" for n
    by (simp_all add: store_ok_def coin_store_wf_def CoinStore_new_def holdings_def)
  have fits: "labels_fit sample_receive_args [m]" "fresh_listing ?pf' sample_receive_args (sample_seed 1) (wdb_store ?db) [m]"
    using store(3) by (simp_all add: labels_fit_def listed(2) args(5) ascii_def fresh_listing_def map_filter_simps list_all_iff split: option.splits)
  obtain wo3 where receive: "cmd_receive ?pf' sample_receive_args (sample_later wo1) = (Ok (), wo3)"
    using sample_receive_Ok [OF opened _ args(1)] listed(1) args(2,4) trimmed by (metis prod.collapse)
  have "\<exists>coin db'. coin_ok (plat_crypto ?pf) coin \<and> Coin_verify (plat_crypto ?pf) coin (PublicKey (gf_bytes 1)) = Ok True \<and>
      open_wallet ?pf' (rcv_wallet_file sample_receive_args) (sample_seed 1) wo3 = Ok db' \<and>
      holdings (plat_crypto ?pf) (wdb_store db') (nullifier (plat_crypto ?pf) coin) =
        Some (stored_of (plat_crypto ?pf) coin (inv_denom sample_invoice) Active (Some (ascii (rcv_label_prefix sample_receive_args @ ''-'' @ ''m1''))))"
  proof (rule payment_reaches_wallet [OF platform_ok_sample platform_ok_sample _ large_field_gf _ _ _ resolve_sample _ _ _ _ _ _ pay(1,2)
      _ _ _ _ _ args(1) _ trimmed args(2) _ _ _ _ _ fits(1) _ _ receive])
    show "committee_ready (plat_crypto ?pf) (plat_libs ?pf) [1, 3] sample_pay_pool
        (SessionId (fst (fill_bytes (plat_rng ?pf) 16 (wo_rng sample_world)))) (\<lambda>_. sample_env) (\<lambda>_. [(sample_env, GetHealth)])
        (PublicKey (gf_bytes 1)) (fst (wo_net sample_world))"
      using committee_sample by (simp add: tape_rng_def sample_world_def)
    show "build_pool (plat_client_builds ?pf) (map text_of (ki_validators (snd (hd sample_keysets)))) = Ok sample_pay_pool" using pool_sample by simp
    show "snd (wo_net (sample_later wo1)) ''relay'' = relay_run (plat_libs ?pf) [(sample_relay_env 60 [], RelayPruneTick)] (snd (wo_net wo1) ''relay'')"
      by (simp add: sample_later_def)
    show "inbox_inv (ra_inbox (snd (wo_net sample_world) ''relay''))"
      by (simp add: sample_world_def sample_relay_def InboxStore_in_memory_def inbox_inv_def)
    show "plat_relay ?pf = relay_daemons (plat_libs ?pf) (\<lambda>_. sample_relay_env 5 ''m1'') (\<lambda>_ _. sample_relay_env 5 ''m1'')" by simp
    show "plat_relay ?pf' = relay_daemons (plat_libs ?pf) (\<lambda>_. sample_relay_env 9000 []) (\<lambda>_ _. sample_relay_env 9000 [])" by simp
    show "open_wallet ?pf' (rcv_wallet_file sample_receive_args) (sample_seed 1) (sample_later wo1) = Ok ?db" using opened args(4) by simp
  qed (use listed fits store in \<open>simp_all add: same_program_def args sample_pay_args_def ttl_fits_def not_expired_def request_keeps_def
      clocks_advance_def deposit_ttl_def sample_relay_env_def sample_file_def sample_invoice_def sample_payee_def CoinStore_new_def\<close>)
  then show ?thesis using pay receive args(4,5) by (auto simp: sample_invoice_def)
qed

end
