(* ===== verification/Wallet_Runs.thy ===== *)
theory Wallet_Runs
  imports Payment
begin

text \<open>
  What the receiving and refreshing commands of the wallet program (\<open>bin/wallet.rs\<close>) do to the wallet
  file, on success and on failure.
\<close>

section \<open>Replacing a refreshed coin\<close>

lemma set_status_keeps:
  assumes "set_status C n s cs = Some cs'"
  shows "map (\<lambda>c. (sc_label c, sc_denom c)) cs' = map (\<lambda>c. (sc_label c, sc_denom c)) cs"
    and "list_all stored_coin_wf cs \<Longrightarrow> list_all stored_coin_wf cs'"
  using assms by (induction cs arbitrary: cs') (auto simp: stored_coin_wf_def split: if_splits)

text \<open>The denomination that the code looks up by the label, when all coins with the label agree on it.\<close>

lemma find_label_denom:
  assumes same: "map (\<lambda>c. (sc_label c, sc_denom c)) cs' = map (\<lambda>c. (sc_label c, sc_denom c)) cs"
    and "c \<in> set cs" and "sc_label c = Some l" and "\<forall>c \<in> set cs. sc_label c = Some l \<longrightarrow> sc_denom c = d"
  shows "(case List.find (\<lambda>c. sc_label c = Some l) cs' of None \<Rightarrow> 0 | Some c \<Rightarrow> sc_denom c) = d"
proof -
  have eq: "(\<lambda>c. (sc_label c, sc_denom c)) ` set cs' = (\<lambda>c. (sc_label c, sc_denom c)) ` set cs"
    using arg_cong [OF same, of set] by simp
  have "(Some l, sc_denom c) \<in> (\<lambda>c. (sc_label c, sc_denom c)) ` set cs'"
    unfolding eq using assms(2,3) by (intro image_eqI [of _ _ c]) simp_all
  then obtain c' where c': "c' \<in> set cs'" "sc_label c' = Some l" by auto
  have all: "sc_denom x = d" if "x \<in> set cs'" "sc_label x = Some l" for x
  proof -
    have "(Some l, sc_denom x) \<in> (\<lambda>c. (sc_label c, sc_denom c)) ` set cs"
      unfolding eq [symmetric] using that by (intro image_eqI [of _ _ x]) simp_all
    then show ?thesis using assms(4) by auto
  qed
  show ?thesis
  proof (cases "List.find (\<lambda>c. sc_label c = Some l) cs'")
    case None
    then show ?thesis using c' by (auto simp: find_None_iff)
  next
    case (Some x)
    then have "x \<in> set cs'" "sc_label x = Some l" by (auto simp: find_Some_iff)
    then show ?thesis using Some all by simp
  qed
qed

text \<open>Marking a coin spent and adding its replacement, in the store.\<close>

lemma nullifier_stored_of: "StoredCoin_nullifier C (stored_of C k d s l) = nullifier C k"
  by (simp add: StoredCoin_nullifier_def stored_of_def nullifier_def nullifier_of_def NULLIFIER_DOMAIN_def)

lemma mark_and_add:
  assumes st: "store_ok C st" "coin_store_wf st" "length (cs_coins st) + 1 < 2 ^ 32" and c: "c \<in> set (cs_coins st)"
    and new: "stored_coin_wf new"
    and mark: "CoinStore_mark_spent C st (StoredCoin_nullifier C c) = (marked, st1)" and add: "CoinStore_add C st1 new = (Ok (), st2)"
  shows "marked = Ok ()" and "map (\<lambda>c. (sc_label c, sc_denom c)) (cs_coins st1) = map (\<lambda>c. (sc_label c, sc_denom c)) (cs_coins st)"
    and "store_ok C st2" and "coin_store_wf st2" and "holdings C st (StoredCoin_nullifier C new) = None"
    and "holdings C st2 = (holdings C st)(StoredCoin_nullifier C c \<mapsto> c\<lparr>sc_status := Spent\<rparr>, StoredCoin_nullifier C new \<mapsto> new)"
proof -
  have held: "holdings C st (StoredCoin_nullifier C c) = Some c"
    using st(1) c unfolding holdings_def store_ok_def by (auto intro!: map_of_is_SomeI rev_image_eqI simp: comp_def)
  have st1: "marked = Ok ()" "store_ok C st1" "holdings C st1 = (holdings C st)(StoredCoin_nullifier C c \<mapsto> c\<lparr>sc_status := Spent\<rparr>)"
    using mark_spec [OF st(1) disjI1 [OF conjI [OF mark refl]]] held by simp_all
  then obtain cs where cs: "set_status C (StoredCoin_nullifier C c) Spent (cs_coins st) = Some cs" "cs_coins st1 = cs"
    using mark by (auto simp: CoinStore_mark_spent_def split: option.splits)
  have fresh: "holdings C st1 (StoredCoin_nullifier C new) = None" "store_ok C st2"
      "holdings C st2 = (holdings C st1)(StoredCoin_nullifier C new \<mapsto> new)"
    using add_spec [OF st1(2) add] by (auto split: if_splits)
  have "cs_coins st2 = cs @ [new]" using add cs(2) by (auto simp: CoinStore_add_def Let_def split: if_splits)
  moreover have "length cs = length (cs_coins st)" using arg_cong [OF set_status_keeps(1) [OF cs(1)], of length] by simp
  ultimately show "coin_store_wf st2"
    using st(2,3) new set_status_keeps(2) [OF cs(1)] by (simp add: coin_store_wf_def)
  show "marked = Ok ()" "store_ok C st2" using st1(1) fresh(2) by simp_all
  show "map (\<lambda>c. (sc_label c, sc_denom c)) (cs_coins st1) = map (\<lambda>c. (sc_label c, sc_denom c)) (cs_coins st)"
    using set_status_keeps(1) [OF cs(1)] cs(2) by simp
  show "holdings C st (StoredCoin_nullifier C new) = None" using fresh(1) st1(3) by (auto split: if_splits)
  show "holdings C st2 = (holdings C st)(StoredCoin_nullifier C c \<mapsto> c\<lparr>sc_status := Spent\<rparr>, StoredCoin_nullifier C new \<mapsto> new)"
    using fresh(3) st1(3) by simp
qed

lemma saved_wallet_opens:
  assumes ok: "libs_ok (plat_libs pf)" "hkdf_ok (plat_crypto pf)" "fill_ok (plat_rng pf)" and "coin_store_wf (wdb_store db)"
    and "p_ext (wdb_path db) \<noteq> ''tmp''" and save: "save_wallet pf db seed wo = (Ok (), wo')"
  shows "open_wallet pf (wdb_path db) seed wo' = Ok db"
proof -
  obtain saved fs r where s: "WalletDb_save (plat_crypto pf) (plat_libs pf) (plat_rng pf) (plat_fault pf) db seed (wo_disk wo) (wo_rng wo) = (saved, fs, r)"
    by (metis prod_cases3)
  then have "saved = Ok ()" "wo_disk wo' = fs" using save by (auto simp: save_wallet_def)
  then show ?thesis using wallet_saved [OF ok assms(4,5) s] by (simp add: open_wallet_def)
qed

lemma replace_coin_effect:
  fixes pf :: "('s, 'p, 'q, 'r, 'w, 'm) platform"
  defines "C \<equiv> plat_crypto pf"
  assumes ok: "libs_ok (plat_libs pf)" "hkdf_ok C" "fill_ok (plat_rng pf)" and path: "p_ext file \<noteq> ''tmp''"
    and seed: "rfa_wallet_phrase args = Some phrase" "unlock pf phrase (rfa_wallet_passphrase args) = Ok seed"
    and db: "open_wallet pf file seed wo = Ok db" "store_ok C (wdb_store db)" "coin_store_wf (wdb_store db)"
    and room: "length (cs_coins (wdb_store db)) + 1 < 2 ^ 32" and new: "stored_coin_wf (stored_of C new_coin d Active (Some l))"
    and label: "c \<in> set (cs_coins (wdb_store db))" "sc_label c = Some l"
      "\<forall>c \<in> set (cs_coins (wdb_store db)). sc_label c = Some l \<longrightarrow> sc_denom c = d"
    and melted: "StoredCoin_nullifier C c = nullifier C melted"
    and run: "replace_coin pf args file l melted new_coin wo = (Ok (), wo')"
  shows "\<exists>db'. open_wallet pf file seed wo' = Ok db' \<and> store_ok C (wdb_store db') \<and>
    nullifier C new_coin \<notin> dom (holdings C (wdb_store db)) \<and>
    holdings C (wdb_store db') = (holdings C (wdb_store db))(nullifier C melted \<mapsto> c\<lparr>sc_status := Spent\<rparr>,
      nullifier C new_coin \<mapsto> stored_of C new_coin d Active (Some l))"
proof -
  let ?new = "stored_of C new_coin d Active (Some l)"
  obtain marked st where mark: "CoinStore_mark_spent C (wdb_store db) (nullifier C melted) = (marked, st)" by force
  have held: "holdings C (wdb_store db) (nullifier C melted) = Some c"
    using db(2) label(1) melted unfolding holdings_def store_ok_def by (auto intro!: map_of_is_SomeI rev_image_eqI simp: comp_def)
  then have marked: "marked = Ok ()" using mark_spec [OF db(2) disjI1 [OF conjI [OF mark refl]]] by simp
  then obtain cs where cs: "set_status C (nullifier C melted) Spent (cs_coins (wdb_store db)) = Some cs" "cs_coins st = cs"
    using mark by (auto simp: CoinStore_mark_spent_def split: option.splits)
  have "replace_coin pf args file l melted new_coin wo = store_coin pf (db\<lparr>wdb_store := st\<rparr>) seed ?new wo"
    using seed db(1) mark marked find_label_denom [OF set_status_keeps(1) [OF cs(1)] label] cs(2)
    by (simp add: replace_coin_def C_def [symmetric] nullifier_stored_of Let_def)
  then have store: "store_coin pf (db\<lparr>wdb_store := st\<rparr>) seed ?new wo = (Ok (), wo')" using run by simp
  then obtain st' where add: "CoinStore_add C st ?new = (Ok (), st')" and save: "save_wallet pf (db\<lparr>wdb_store := st'\<rparr>) seed wo = (Ok (), wo')"
    by (cases "CoinStore_add C st ?new"; cases "fst (CoinStore_add C st ?new)") (simp_all add: store_coin_def C_def [symmetric])
  note eff = mark_and_add [OF db(2,3) room label(1) new mark [folded melted] add]
  have "wdb_path db = file" using db(1) by (auto simp: open_wallet_def WalletDb_open_def split: option.splits)
  then have "open_wallet pf file seed wo' = Ok (db\<lparr>wdb_store := st'\<rparr>)"
    using saved_wallet_opens [OF ok [unfolded C_def] _ _ save] path eff(4) by simp
  then show ?thesis using eff(3,5,6) melted by (auto simp: nullifier_stored_of dom_def)
qed

section \<open>Refreshing a coin of the wallet\<close>

lemma refresh_from_wallet:
  fixes pf :: "('s::field, 'p::ab_group_add, 'q, 'r, 'w, 'm) platform"
  defines "C \<equiv> plat_crypto pf"
  assumes curve: "curve_ok C" and args: "rfa_coin_label args = Some label" "rfa_wallet_file args = Some file" "rfa_wallet_phrase args = Some phrase"
    and seed: "unlock pf phrase (rfa_wallet_passphrase args) = Ok seed" and db: "open_wallet pf file seed wo = Ok db"
    and inputs: "resolve_refresh_inputs pf args (wo_disk wo) = Ok (validators, joint_pk_hex, dd)"
    and run: "cmd_refresh pf args wo = (Ok (), wo')"
  obtains c melted new_coin pk wo1 where "parse_joint_pk pf joint_pk_hex = Ok pk"
    "List.find (\<lambda>c. sc_label c = Some (ascii label) \<and> sc_status c = Active) (cs_coins (wdb_store db)) = Some c"
    "StoredCoin_nullifier C c = nullifier C melted" "coin_shape C new_coin" "Coin_verify C new_coin pk = Ok True"
    "open_wallet pf file seed wo1 = Ok db" "wo_out wo1 = wo_out wo @ [PrintCoin new_coin]"
    "replace_coin pf args file (ascii label) melted new_coin wo1 = (Ok (), wo')"
proof -
  obtain joint_pk where pk: "resolve_refresh_inputs pf args (wo_disk wo) = Ok (validators, joint_pk_hex, dd)"
      "parse_joint_pk pf joint_pk_hex = Ok joint_pk"
    using run inputs by (auto simp: cmd_refresh_def Let_def or_return_eq_Ok)
  obtain c where c: "List.find (\<lambda>c. sc_label c = Some (ascii label) \<and> sc_status c = Active) (cs_coins (wdb_store db)) = Some c"
      "refresh_source pf args wo = Ok (sc_secret_bytes c, sc_pubkey_bytes c, sc_signature_bytes c, Some (ascii label))"
    using run pk args seed db by (auto simp: cmd_refresh_def Let_def or_return_eq_Ok refresh_source_def)
  obtain sk melted where melted: "SecretKey_from_bytes C (sc_secret_bytes c) = Ok sk"
      "Coin_new C sk (sc_pubkey_bytes c) (Signature_from_bytes (sc_signature_bytes c)) = Ok melted"
    using run pk c(2) by (auto simp: cmd_refresh_def Let_def or_return_eq_Ok C_def)
  obtain sid r1 where sid: "parse_session_id (plat_libs pf) (plat_rng pf) (rfa_session_id args) (wo_rng wo) = (sid, r1)" by force
  then obtain session where session: "sid = Ok session"
    using run pk c(2) melted by (auto simp: cmd_refresh_def Let_def or_return_eq_Ok C_def)
  obtain pool where pool: "build_pool (plat_client_builds pf) validators = Ok pool"
    using run pk c(2) melted sid session by (auto simp: cmd_refresh_def Let_def or_return_eq_Ok C_def)
  obtain out r2 net2 where rc: "refresh_coin C (plat_rng pf) (plat_libs pf) (plat_net pf) pool melted joint_pk session (r1, wo_net wo) = (out, r2, net2)"
    by (metis prod_cases3)
  then obtain new_coin where new_coin: "out = Ok new_coin"
    using run pk c(2) melted sid session pool by (cases out) (auto simp: cmd_refresh_def Let_def or_return_eq_Ok C_def)
  let ?wo = "say (PrintCoin new_coin) (wo\<lparr>wo_rng := r2, wo_net := net2\<rparr>)"
  have "replace_coin pf args file (ascii label) melted new_coin ?wo = (Ok (), wo')"
    using run pk c(2) melted sid session pool rc new_coin args(2) by (simp add: cmd_refresh_def C_def)
  moreover have "StoredCoin_nullifier C c = nullifier C melted"
    using melted(2) by (auto simp: Coin_new_Ok StoredCoin_nullifier_def nullifier_def nullifier_of_def NULLIFIER_DOMAIN_def)
  ultimately show ?thesis
    using c(1) refresh_coin_verified [OF curve rc [unfolded new_coin]] db
    by (intro that [OF pk(2), of c melted new_coin ?wo]) (simp_all add: say_def open_wallet_def)
qed

section \<open>A refresh for the witness\<close>

lemma user_refresh_candidates_seeds:
  "user_refresh_candidates C R agg P b gs r = Ok (cands, r') \<Longrightarrow> \<forall>cd \<in> set cands. \<exists>r0. cd_seed cd = fst (fill_bytes R 32 r0)"
  by (induction gs arbitrary: r cands r') (auto simp: Let_def case_prod_beta, blast)

lemma refresh_coin_secret:
  assumes "curve_ok C" and "refresh_coin C R X N pool melted pk sid rw = (Ok coin, rw')"
  shows "\<exists>r0. coin_secret coin = SecretKey (derive_coin_secret C (fst (fill_bytes R 32 r0)))"
proof -
  obtain mr1 r u2 ust r1 ch resp where r2: "user_refresh_round2 C R sid mr1 pk melted r = Ok ((u2, ust), r1)"
    and r6: "user_refresh_round6 C ust ch resp pk = Ok coin"
    using assms(2) by (auto simp: refresh_coin_def Let_def case_prod_beta or_return_eq_Ok)
  have "\<forall>seed \<in> set (urs_seeds ust). \<exists>r0. seed = fst (fill_bytes R 32 r0)"
    using r2 by (auto simp: user_refresh_round2_def Let_def split: if_splits dest!: user_refresh_candidates_seeds)
  then show ?thesis using r6 assms(1)
    by (auto simp: user_refresh_round6_def Let_def index_at_eq_Ok Coin_new_Ok SecretKey_from_bytes_def split: if_splits) (metis nth_mem)
qed

definition no_relay :: "'w relay_net" where
  "no_relay = \<lparr>rn_deposit = (\<lambda>_ _ _ _ w. (SendFailed, w)), rn_list = (\<lambda>_ _ w. (SendFailed, w)), rn_remove = (\<lambda>_ _ _ w. (False, w))\<rparr>"

definition refresh_platform :: "(gf, gf, gf, gf list, (gf, gf, gf list) fleet, unit) platform" where
  "refresh_platform =
     \<lparr>plat_crypto = gf_curve, plat_x25519 = sample_x25519, plat_rng = tape_rng, plat_libs = sample_libs, plat_bip39 = sample_bip39,
      plat_payload = sample_payload,
      plat_net = committee gf_curve tape_rng sample_libs sample_json (\<lambda>_. sample_env) (\<lambda>_. [(sample_env, GetHealth)]),
      plat_relay = no_relay, plat_client_builds = True, plat_fault = NoFault\<rparr>"

definition refresh_melted :: "gf coin" where
  "refresh_melted = \<lparr>coin_secret = SecretKey 4, coin_pubkey_bytes = gf_bytes 4,
     coin_signature = fst (schnorr_sign gf_curve tape_rng (SecretKey 1) (PublicKey (gf_bytes 1)) (gf_bytes 4) [6])\<rparr>"

definition refresh_db :: wallet_db where
  "refresh_db = \<lparr>wdb_path = sample_file ''w'', wdb_store = \<lparr>cs_version = 1, cs_coins = [stored_of gf_curve refresh_melted 5 Active (Some (ascii ''c''))]\<rparr>\<rparr>"

definition refresh_sample_args :: refresh_args where
  "refresh_sample_args = \<lparr>rfa_validators = [''v1'', ''v2''], rfa_joint_pk = Some (hex_encode sample_libs (gf_bytes 1)), rfa_keyset = None,
     rfa_keysets_file = sample_file ''keysets'', rfa_coin_secret = None, rfa_coin_pubkey = None, rfa_coin_signature = None,
     rfa_session_id = None, rfa_wallet_file = Some (sample_file ''w''), rfa_wallet_phrase = Some [], rfa_wallet_passphrase = [],
     rfa_coin_label = Some ''c''\<rparr>"

definition refresh_world :: "(gf, gf list, (gf, gf, gf list) fleet, unit) world" where
  "refresh_world = \<lparr>wo_disk = [(sample_file ''w'', replicate 12 0 @ ser_coin_store (wdb_store refresh_db) @ replicate 16 0)],
     wo_rng = [6, 7, 8], wo_net = sample_mint, wo_out = []\<rparr>"

lemma refresh_platform_ok: "platform_ok refresh_platform"
  using platform_ok_sample by (simp add: platform_ok_def refresh_platform_def)

lemma refresh_melted_ok:
  "coin_shape gf_curve refresh_melted" "Coin_verify gf_curve refresh_melted (PublicKey (gf_bytes 1)) = Ok True"
proof -
  show "coin_shape gf_curve refresh_melted"
    using curve_ok_gf by (simp add: coin_shape_def coin_ok_def refresh_melted_def schnorr_sign_def Let_def case_prod_beta)
  have "schnorr_verify gf_curve (PublicKey (gf_bytes 1)) (gf_bytes 4) (coin_signature refresh_melted) = Ok True"
    using schnorr_sign_complete [OF curve_ok_gf, of "PublicKey (gf_bytes 1)" "SecretKey 1" "gf_bytes 4" tape_rng "[6]"]
    by (simp add: refresh_melted_def)
  then show "Coin_verify gf_curve refresh_melted (PublicKey (gf_bytes 1)) = Ok True" by (simp add: Coin_verify_def refresh_melted_def)
qed

lemma refresh_db_wf: "coin_store_wf (wdb_store refresh_db)"
  using refresh_melted_ok(1) curve_ok_gf
  by (simp add: coin_store_wf_def refresh_db_def stored_coin_wf_def stored_of_def coin_shape_def coin_ok_def SecretKey_to_bytes_def
      Signature_to_bytes_def ascii_def)

lemma refresh_opened_db:
  assumes "wo_disk wo = wo_disk refresh_world"
  shows "open_wallet refresh_platform (sample_file ''w'') (sample_seed 3) wo = Ok refresh_db"
proof -
  have "try_from_slice de_coin_store (ser_coin_store (wdb_store refresh_db)) = Some (wdb_store refresh_db)"
    by (rule coin_store_codec.try_from_slice_ser [OF refresh_db_wf])
  then show ?thesis
    using assms by (simp add: open_wallet_def WalletDb_open_def refresh_world_def refresh_platform_def open_backup_def BACKUP_NONCE_LEN_def
        TAG_LEN_def sample_libs_def) (simp add: refresh_db_def)
qed

lemma sample_refresh_inputs:
  "unlock refresh_platform [] (rfa_wallet_passphrase refresh_sample_args) = Ok (sample_seed 3)"
  "resolve_refresh_inputs refresh_platform refresh_sample_args (wo_disk refresh_world) = Ok ([''v1'', ''v2''], hex_encode sample_libs (gf_bytes 1), None)"
  "parse_joint_pk refresh_platform (hex_encode sample_libs (gf_bytes 1)) = Ok (PublicKey (gf_bytes 1))"
proof -
  have "hex_decode sample_libs (hex_encode sample_libs (gf_bytes 1)) = Some (gf_bytes 1)"
    using libs_ok_sample unfolding libs_ok_def by blast
  then show "parse_joint_pk refresh_platform (hex_encode sample_libs (gf_bytes 1)) = Ok (PublicKey (gf_bytes 1))"
    by (simp add: parse_joint_pk_def parse_hex32_def refresh_platform_def PublicKey_from_bytes_def gf_curve_def gf_of_bytes_bytes)
qed (simp_all add: unlock_def parse_mnemonic_def sample_bip39_def derive_master_seed_def refresh_platform_def refresh_sample_args_def
    resolve_refresh_inputs_def)

lemma gf_nullifier_of_inj: "nullifier_of gf_curve (gf_bytes a) = nullifier_of gf_curve (gf_bytes b) \<Longrightarrow> gf_bytes a = gf_bytes b"
proof -
  have "Sha256 gf_curve (d @ gf_bytes x) = rev (gf_bytes x)" for d x by (simp add: gf_curve_def)
  then show "nullifier_of gf_curve (gf_bytes a) = nullifier_of gf_curve (gf_bytes b) \<Longrightarrow> gf_bytes a = gf_bytes b"
    by (simp add: nullifier_of_def)
qed

lemma sample_refresh_minted:
  obtains coin r2 w2 where "refresh_coin gf_curve tape_rng sample_libs
      (committee gf_curve tape_rng sample_libs sample_json (\<lambda>_. sample_env) (\<lambda>_. [(sample_env, GetHealth)]))
      sample_pay_pool refresh_melted (PublicKey (gf_bytes 1)) (SessionId (replicate 16 0)) (wo_rng refresh_world, sample_mint) = (Ok coin, r2, w2)"
    "nullifier gf_curve coin \<noteq> nullifier gf_curve refresh_melted"
proof -
  have ready: "tables_ok (sample_mint (ep_base_url ep)) \<and> holds_share gf_curve [1, 3] ep (sample_mint (ep_base_url ep)) \<and>
      map_of (app_refresh_sessions (sample_mint (ep_base_url ep))) (SessionId (replicate 16 0)) = None"
    "app_config (sample_mint (ep_base_url ep)) = sample_config" if "ep \<in> set (wcp_endpoints sample_pay_pool)" for ep
    using that by (auto simp: sample_pay_pool_def sample_mint_def sample_app_def tables_ok_def holds_share_def loaded_share_def Let_def)
  have melt: "meltable gf_curve (PublicKey (gf_bytes 1)) (\<lambda>_. sample_env) sample_mint sample_pay_pool refresh_melted"
    using refresh_melted_ok ready(2) by (simp add: meltable_def coin_shape_def nullifier_guard_def sample_config_def)
  have "\<exists>coin rw'. refresh_coin gf_curve tape_rng sample_libs
      (committee gf_curve tape_rng sample_libs sample_json (\<lambda>_. sample_env) (\<lambda>_. [(sample_env, GetHealth)]))
      sample_pay_pool refresh_melted (PublicKey (gf_bytes 1)) (SessionId (replicate 16 0)) (wo_rng refresh_world, sample_mint) = (Ok coin, rw') \<and>
      coin_ok gf_curve coin \<and> Coin_verify gf_curve coin (PublicKey (gf_bytes 1)) = Ok True"
  proof (rule committee_refreshes_coin [OF curve_ok_gf hash_ok_gf large_field_gf libs_ok_sample _ _ _ _ _ _ melt, where F = "[1, 3]"])
    show "\<forall>ep \<in> set (wcp_endpoints sample_pay_pool). tables_ok (sample_mint (ep_base_url ep)) \<and> holds_share gf_curve [1, 3] ep (sample_mint (ep_base_url ep)) \<and>
        map_of (app_refresh_sessions (sample_mint (ep_base_url ep))) (SessionId (replicate 16 0)) = None" using ready(1) by blast
  qed (simp_all add: pool_signing_set_def sample_pay_pool_def leaves_refresh_session_def keeps_share_def)
  then obtain coin r2 w2 where coin: "refresh_coin gf_curve tape_rng sample_libs
      (committee gf_curve tape_rng sample_libs sample_json (\<lambda>_. sample_env) (\<lambda>_. [(sample_env, GetHealth)]))
      sample_pay_pool refresh_melted (PublicKey (gf_bytes 1)) (SessionId (replicate 16 0)) (wo_rng refresh_world, sample_mint) = (Ok coin, r2, w2)"
      "coin_ok gf_curve coin" by auto
  have "derive_coin_secret gf_curve (replicate 32 0) = 0"
  proof -
    have "from_le_bytes (take 64 (replicate 32 0 @ replicate 64 0)) = (0 :: 512 word)" by code_simp
    then show ?thesis by (simp add: derive_coin_secret_def gf_curve_def)
  qed
  then have "coin_secret coin = SecretKey 0" using refresh_coin_secret [OF curve_ok_gf coin(1)] by (auto simp: tape_rng_def)
  then have "coin_pubkey_bytes coin = gf_bytes 0" using coin(2) by (simp add: coin_ok_def gf_curve_def)
  moreover have "gf_bytes 0 \<noteq> gf_bytes 4"
  proof
    assume "gf_bytes 0 = gf_bytes 4"
    then have "(0 :: gf) = 4" by (metis gf_of_bytes_bytes option.inject)
    then show False using gf_of_nat_neq [of 0 4] by simp
  qed
  moreover have "coin_pubkey_bytes refresh_melted = gf_bytes 4" by (simp add: refresh_melted_def)
  ultimately have "nullifier gf_curve coin \<noteq> nullifier gf_curve refresh_melted" using gf_nullifier_of_inj by (metis nullifier_def)
  with coin(1) show ?thesis by (rule that)
qed

lemma sample_stored_coin:
  defines "stored \<equiv> stored_of gf_curve refresh_melted 5 Active (Some (ascii ''c''))"
  shows "SecretKey_from_bytes gf_curve (sc_secret_bytes stored) = Ok (SecretKey 4)"
    and "Coin_new gf_curve (SecretKey 4) (sc_pubkey_bytes stored) (Signature_from_bytes (sc_signature_bytes stored)) = Ok refresh_melted"
proof -
  show "SecretKey_from_bytes gf_curve (sc_secret_bytes stored) = Ok (SecretKey 4)"
    using curve_ok_gf by (simp add: stored_def SecretKey_from_bytes_def stored_of_def SecretKey_to_bytes_def refresh_melted_def)
  have "Signature_from_bytes (Signature_to_bytes (coin_signature refresh_melted)) = coin_signature refresh_melted"
    using refresh_melted_ok(1) by (simp add: Signature_from_bytes_def Signature_to_bytes_def coin_shape_def)
  then show "Coin_new gf_curve (SecretKey 4) (sc_pubkey_bytes stored) (Signature_from_bytes (sc_signature_bytes stored)) = Ok refresh_melted"
    by (simp add: stored_def Coin_new_Ok stored_of_def) (simp add: refresh_melted_def gf_curve_def)
qed

lemma sample_refresh_run:
  obtains wo' where "cmd_refresh refresh_platform refresh_sample_args refresh_world = (Ok (), wo')"
proof -
  obtain coin r2 w2 where coin: "refresh_coin gf_curve tape_rng sample_libs
      (committee gf_curve tape_rng sample_libs sample_json (\<lambda>_. sample_env) (\<lambda>_. [(sample_env, GetHealth)]))
      sample_pay_pool refresh_melted (PublicKey (gf_bytes 1)) (SessionId (replicate 16 0)) (wo_rng refresh_world, sample_mint) = (Ok coin, r2, w2)"
      "nullifier gf_curve coin \<noteq> nullifier gf_curve refresh_melted" by (rule sample_refresh_minted)
  let ?stored = "stored_of gf_curve refresh_melted 5 Active (Some (ascii ''c''))"
  have opened: "open_wallet refresh_platform (sample_file ''w'') (sample_seed 3) wo = Ok refresh_db" if "wo_disk wo = wo_disk refresh_world" for wo
    using refresh_opened_db [OF that] .
  have source: "refresh_source refresh_platform refresh_sample_args refresh_world =
      Ok (sc_secret_bytes ?stored, sc_pubkey_bytes ?stored, sc_signature_bytes ?stored, Some (ascii ''c''))"
    using opened [OF refl] sample_refresh_inputs(1)
    by (simp add: refresh_source_def refresh_sample_args_def) (simp add: refresh_db_def stored_of_def)
  note melted = sample_stored_coin
  note nul = nullifier_stored_of [of gf_curve]
  have spent: "?stored\<lparr>sc_status := Spent\<rparr> = stored_of gf_curve refresh_melted 5 Spent (Some (ascii ''c''))" by (simp add: stored_of_def)
  have "fst (replace_coin refresh_platform refresh_sample_args (sample_file ''w'') (ascii ''c'') refresh_melted coin wo) = Ok ()"
    if "wo_disk wo = wo_disk refresh_world" for wo
  proof -
    let ?st = "\<lparr>cs_version = 1, cs_coins = [stored_of gf_curve refresh_melted 5 Spent (Some (ascii ''c''))]\<rparr>"
    have mark: "CoinStore_mark_spent gf_curve (wdb_store refresh_db) (nullifier gf_curve refresh_melted) = (Ok (), ?st)"
      by (simp add: CoinStore_mark_spent_def refresh_db_def nul spent)
    have add: "fst (CoinStore_add gf_curve ?st (stored_of gf_curve coin d Active l)) = Ok ()" for d l
      using coin(2) by (simp add: CoinStore_add_def nul)
    have "fst (save_wallet refresh_platform db seed wo) = Ok ()" for db seed
      using sample_save_Ok [of db seed "wo_disk wo" "wo_rng wo"] by (auto simp: save_wallet_def refresh_platform_def)
    moreover have "rfa_wallet_phrase refresh_sample_args = Some []" by (simp add: refresh_sample_args_def)
    ultimately show ?thesis
      using opened [OF that] sample_refresh_inputs(1) mark add
      by (simp add: replace_coin_def store_coin_def refresh_platform_def [THEN arg_cong, of plat_crypto] nul case_prod_beta)
  qed
  then obtain wo' where "replace_coin refresh_platform refresh_sample_args (sample_file ''w'') (ascii ''c'') refresh_melted coin
      (say (PrintCoin coin) (refresh_world\<lparr>wo_rng := r2, wo_net := w2\<rparr>)) = (Ok (), wo')"
    by (metis prod.collapse say_def world.select_convs(1) world.surjective world.update_convs)
  note replaced = this
  have pool: "build_pool True [''v1'', ''v2''] = Ok sample_pay_pool"
    by (simp add: build_pool_def WalletClientPool_new_def ValidatorEndpoint_plain_def sample_pay_pool_def)
  have sid: "parse_session_id X tape_rng None r = (Ok (SessionId (replicate 16 0)), r)" for X and r :: "gf list"
    by (simp add: parse_session_id_def tape_rng_def)
  have plat: "plat_crypto refresh_platform = gf_curve" "plat_rng refresh_platform = tape_rng" "plat_libs refresh_platform = sample_libs"
      "plat_net refresh_platform = committee gf_curve tape_rng sample_libs sample_json (\<lambda>_. sample_env) (\<lambda>_. [(sample_env, GetHealth)])"
      "plat_client_builds refresh_platform" by (simp_all add: refresh_platform_def)
  have args: "rfa_session_id refresh_sample_args = None" "rfa_wallet_file refresh_sample_args = Some (sample_file ''w'')"
    by (simp_all add: refresh_sample_args_def)
  have wo: "wo_net refresh_world = sample_mint" by (simp add: refresh_world_def)
  have "cmd_refresh refresh_platform refresh_sample_args refresh_world = (Ok (), wo')"
    unfolding cmd_refresh_def Let_def sample_refresh_inputs(2) or_return.simps prod.case sample_refresh_inputs(3) source plat melted map_err.simps args sid
    using coin(1) pool replaced plat(5) by (simp add: wo)
  then show ?thesis by (rule that)
qed

section \<open>Properties\<close>



text \<open>
  C19. A refresh of a coin of the wallet replaces it: when the command succeeds, the coin it found under the
  label is marked spent in the wallet file, a new active coin of the same denomination is added under
  the label, nothing else changes, and the new coin verifies under the joint key of the keyset or the
  arguments, whatever the validators answered. Coins with the label must agree on the denomination, because the code takes
  it from the first of them.
\<close>

theorem refresh_replaces_coin:
  fixes pf :: "('s::field, 'p::ab_group_add, 'q, 'r, 'w, 'm) platform"
  assumes "platform_ok pf" and "rfa_coin_label args = Some label" and "rfa_wallet_file args = Some file" and "rfa_wallet_phrase args = Some phrase"
    and "unlock pf phrase (rfa_wallet_passphrase args) = Ok seed" and "p_ext file \<noteq> ''tmp''"
    and "open_wallet pf file seed wo = Ok db" and "store_ok (plat_crypto pf) (wdb_store db)" and "coin_store_wf (wdb_store db)"
    and "length (cs_coins (wdb_store db)) + 1 < 2 ^ 32"
    and "\<forall>c \<in> set (cs_coins (wdb_store db)). sc_label c = Some (ascii label) \<longrightarrow> sc_denom c = d"
    and "resolve_refresh_inputs pf args (wo_disk wo) = Ok (validators, joint_pk_hex, dd)"
    and "cmd_refresh pf args wo = (Ok (), wo')"
  shows "\<exists>c new_coin pk db'. sc_label c = Some (ascii label) \<and> sc_status c = Active \<and>
    holdings (plat_crypto pf) (wdb_store db) (StoredCoin_nullifier (plat_crypto pf) c) = Some c \<and>
    coin_ok (plat_crypto pf) new_coin \<and> parse_joint_pk pf joint_pk_hex = Ok pk \<and> Coin_verify (plat_crypto pf) new_coin pk = Ok True \<and>
    open_wallet pf file seed wo' = Ok db' \<and> nullifier (plat_crypto pf) new_coin \<notin> dom (holdings (plat_crypto pf) (wdb_store db)) \<and>
    holdings (plat_crypto pf) (wdb_store db') = (holdings (plat_crypto pf) (wdb_store db))
      (StoredCoin_nullifier (plat_crypto pf) c \<mapsto> c\<lparr>sc_status := Spent\<rparr>,
       nullifier (plat_crypto pf) new_coin \<mapsto> stored_of (plat_crypto pf) new_coin d Active (Some (ascii label)))"
proof -
  let ?C = "plat_crypto pf"
  have laws: "curve_ok ?C" "libs_ok (plat_libs pf)" "hkdf_ok ?C" "fill_ok (plat_rng pf)" using assms(1) by (simp_all add: platform_ok_def)
  obtain c melted new_coin pk wo1 where pk: "parse_joint_pk pf joint_pk_hex = Ok pk" and found: "List.find (\<lambda>c. sc_label c = Some (ascii label) \<and> sc_status c = Active) (cs_coins (wdb_store db)) = Some c"
    and nul: "StoredCoin_nullifier ?C c = nullifier ?C melted" and new_coin: "coin_shape ?C new_coin" "Coin_verify ?C new_coin pk = Ok True"
    and db1: "open_wallet pf file seed wo1 = Ok db" and replace: "replace_coin pf args file (ascii label) melted new_coin wo1 = (Ok (), wo')"
    by (rule refresh_from_wallet [OF laws(1) assms(2-5,7,12,13)])
  then have c: "c \<in> set (cs_coins (wdb_store db))" "sc_label c = Some (ascii label)" "sc_status c = Active" by (auto simp: find_Some_iff)
  then have "stored_coin_wf c" using assms(9) by (auto simp: coin_store_wf_def list_all_iff)
  then have "stored_coin_wf (stored_of ?C new_coin d Active (Some (ascii label)))"
    using new_coin(1) c(2) laws(1)
    by (simp add: stored_coin_wf_def stored_of_def coin_shape_def coin_ok_def SecretKey_to_bytes_def Signature_to_bytes_def)
  from replace_coin_effect [OF laws(2-4) assms(6,4,5) db1 assms(8-10) this c(1,2) assms(11) nul replace]
  obtain db' where db': "open_wallet pf file seed wo' = Ok db'" "nullifier ?C new_coin \<notin> dom (holdings ?C (wdb_store db))"
      "holdings ?C (wdb_store db') = (holdings ?C (wdb_store db))(nullifier ?C melted \<mapsto> c\<lparr>sc_status := Spent\<rparr>,
        nullifier ?C new_coin \<mapsto> stored_of ?C new_coin d Active (Some (ascii label)))"
    by blast
  have "holdings ?C (wdb_store db) (StoredCoin_nullifier ?C c) = Some c"
    using assms(8) c(1) unfolding holdings_def store_ok_def by (auto intro!: map_of_is_SomeI rev_image_eqI simp: comp_def)
  then show ?thesis using c db' new_coin nul pk by (intro exI [of _ c] exI [of _ new_coin] exI [of _ pk] exI [of _ db']) (simp add: coin_shape_def)
qed

theorem refresh_replaces_coin_witness:
  "\<exists>wo' c new_coin db'. cmd_refresh refresh_platform refresh_sample_args refresh_world = (Ok (), wo') \<and>
     holdings gf_curve (wdb_store refresh_db) (StoredCoin_nullifier gf_curve c) = Some c \<and>
     Coin_verify gf_curve new_coin (PublicKey (gf_bytes 1)) = Ok True \<and>
     open_wallet refresh_platform (sample_file ''w'') (sample_seed 3) wo' = Ok db' \<and>
     holdings gf_curve (wdb_store db') = (holdings gf_curve (wdb_store refresh_db))
       (StoredCoin_nullifier gf_curve c \<mapsto> c\<lparr>sc_status := Spent\<rparr>,
        nullifier gf_curve new_coin \<mapsto> stored_of gf_curve new_coin 5 Active (Some (ascii ''c'')))"
proof -
  obtain wo' where run: "cmd_refresh refresh_platform refresh_sample_args refresh_world = (Ok (), wo')" by (rule sample_refresh_run)
  have fields: "plat_crypto refresh_platform = gf_curve" by (simp add: refresh_platform_def)
  have args: "rfa_coin_label refresh_sample_args = Some ''c''" "rfa_wallet_file refresh_sample_args = Some (sample_file ''w'')"
      "rfa_wallet_phrase refresh_sample_args = Some []" "p_ext (sample_file ''w'') \<noteq> ''tmp''"
    by (simp_all add: refresh_sample_args_def sample_file_def)
  have db: "store_ok gf_curve (wdb_store refresh_db)" "length (cs_coins (wdb_store refresh_db)) + 1 < 2 ^ 32"
      "\<forall>c \<in> set (cs_coins (wdb_store refresh_db)). sc_label c = Some (ascii ''c'') \<longrightarrow> sc_denom c = 5"
    by (simp_all add: store_ok_def refresh_db_def stored_of_def)
  from refresh_replaces_coin [OF refresh_platform_ok args(1-3) sample_refresh_inputs(1) args(4) refresh_opened_db [OF refl], unfolded fields,
      OF db(1) refresh_db_wf db(2,3) sample_refresh_inputs(2) run] run sample_refresh_inputs(3)
  show ?thesis by auto
qed

end
