(* ===== verification/Gui_Runtime.thy ===== *)
theory Gui_Runtime
  imports Wallet_Runs
begin

text \<open>
  The background runtime of the desktop wallet (\<open>tardus-wallet-gui/src/runtime.rs\<close>): commands that the
  user interface sends, and the events it gets back.

  A command runs against the \<open>platform\<close> and the \<open>world\<close> of the wallet program and returns an event or an
  error; \<open>dispatch\<close> turns errors into events whose text has long hexadecimal runs removed. The texts of
  errors are made by a parameter \<open>show\<close>, and durations are left out of events. The runtime starts every
  command in a task of its own, so commands interleave wherever one waits for the network. A command
  that waits between reading and writing a file is therefore divided: \<open>refresh_load\<close> up to the first
  wait, \<open>refresh_store\<close> after the last.

  The results: no long hexadecimal run reaches the user interface in an error text, apart from a name
  the user typed; the summaries shown count the coins; a refresh writes back the store it loaded, so
  that it undoes what other commands wrote in between; paying never touches the disk.
\<close>

section \<open>Events and errors\<close>

record denom_bucket =
  bk_denom :: u64
  bk_active :: nat
  bk_in_flight :: nat
  bk_spent :: nat

record active_coin_summary =
  acs_label :: bytes
  acs_denom :: u64
  acs_pubkey_prefix_hex :: string

record keyset_summary =
  kss_name :: bytes
  kss_denom :: u64
  kss_joint_pk_hex :: bytes
  kss_validators :: "bytes list"

datatype ui_event =
    Pong string
  | WalletOpened string bytes "denom_bucket list" nat "active_coin_summary list" \<comment> \<open>identity, master seed, summary\<close>
  | UiError string string \<comment> \<open>operation, message\<close>
  | KeysetListed "keyset_summary list"
  | KeysetAdded string
  | KeysetRemoved string
  | ReceiveResult nat nat nat \<comment> \<open>received, deleted, skipped\<close>
  | CoinRefreshed "bytes option" bytes u64 string string "denom_bucket list" nat "active_coin_summary list"
      \<comment> \<open>old and new label, denomination, old and new key prefix, summary\<close>
  | WithdrawOnDevnetResult string u64 string string string string
      \<comment> \<open>label, denomination, recipient, transaction, link, strategy for the payer\<close>
  | PaymentSent string u64 string string bool \<comment> \<open>recipient prefix, denomination, relay, message, encrypted\<close>

datatype gui_error =
    Shared command_error
  | EmptyKeysetName
  | BadJointPkText
  | NoValidatorUrl
  | KeysetsFileMissing
  | HttpClient

section \<open>Redaction\<close>

definition is_ascii_hexdigit :: "char \<Rightarrow> bool" where
  "is_ascii_hexdigit c \<longleftrightarrow> (let n = of_char c :: nat in (48 \<le> n \<and> n \<le> 57) \<or> (65 \<le> n \<and> n \<le> 70) \<or> (97 \<le> n \<and> n \<le> 102))"

function redact :: "string \<Rightarrow> string" where
  "redact s =
     (case s of
        [] \<Rightarrow> []
      | c # rest \<Rightarrow>
          if length (takeWhile is_ascii_hexdigit s) \<ge> 32 then ''<redacted>'' @ redact (dropWhile is_ascii_hexdigit s)
          else c # redact rest)"
  by pat_completeness auto
termination
proof (relation "measure length")
  fix s c and rest :: string
  assume s: "s = c # rest" and "32 \<le> length (takeWhile is_ascii_hexdigit s)"
  then have "is_ascii_hexdigit c" by (cases "is_ascii_hexdigit c") simp_all
  then have "length (dropWhile is_ascii_hexdigit s) \<le> length rest" using s by (simp add: length_dropWhile_le)
  then show "(dropWhile is_ascii_hexdigit s, s) \<in> measure length" using s by simp
qed simp_all

declare redact.simps [simp del]

section \<open>Opening a wallet\<close>

definition coin_row :: "libs \<Rightarrow> stored_coin \<Rightarrow> active_coin_summary" where
  "coin_row X c =
     (let pubkey_hex = hex_encode X (sc_pubkey_bytes c)
      in \<lparr>acs_label = (case sc_label c of Some l \<Rightarrow> l | None \<Rightarrow> ascii (''unlabeled-'' @ take 8 pubkey_hex)),
          acs_denom = sc_denom c, acs_pubkey_prefix_hex = take 16 pubkey_hex\<rparr>)"

definition count_coin :: "stored_coin \<Rightarrow> (u64 \<times> denom_bucket) list \<Rightarrow> (u64 \<times> denom_bucket) list" where
  "count_coin c buckets =
     (let entry = (case map_of buckets (sc_denom c) of
            Some b \<Rightarrow> b
          | None \<Rightarrow> \<lparr>bk_denom = sc_denom c, bk_active = 0, bk_in_flight = 0, bk_spent = 0\<rparr>)
      in btree_insert (sc_denom c)
           (case sc_status c of
              Active \<Rightarrow> entry\<lparr>bk_active := bk_active entry + 1\<rparr>
            | InFlight \<Rightarrow> entry\<lparr>bk_in_flight := bk_in_flight entry + 1\<rparr>
            | Spent \<Rightarrow> entry\<lparr>bk_spent := bk_spent entry + 1\<rparr>) buckets)"

definition summarize_store :: "libs \<Rightarrow> coin_store \<Rightarrow> denom_bucket list \<times> nat \<times> active_coin_summary list" where
  "summarize_store X store =
     (let coins = cs_coins store
      in (map snd (fold count_coin coins []), length coins,
          map (coin_row X) (filter (\<lambda>c. sc_status c = Active) coins)))"

definition gui_open_wallet ::
    "('s, 'p, 'q, 'r, 'w, 'm) platform \<Rightarrow> string \<Rightarrow> string \<Rightarrow> path option \<Rightarrow> ('s, 'r, 'w, 'm) world \<Rightarrow> (ui_event, gui_error) result" where
  "gui_open_wallet pf phrase passphrase wallet_file wo =
     rbind (map_err Shared (unlock pf phrase passphrase)) (\<lambda>master_seed.
     let (_, recv_pk) = derive_receiving_keypair (plat_crypto pf) master_seed;
         recv_pubkey_hex = hex_encode (plat_libs pf) recv_pk
     in rbind (case wallet_file of
                 Some file_path \<Rightarrow> rbind (map_err Shared (open_wallet pf file_path master_seed wo)) (\<lambda>db. Ok (summarize_store (plat_libs pf) (wdb_store db)))
               | None \<Rightarrow> Ok ([], 0, [])) (\<lambda>(coin_summary, coin_total, active_coins).
          Ok (WalletOpened recv_pubkey_hex master_seed coin_summary coin_total active_coins)))"

section \<open>Keysets\<close>

definition list_keysets ::
    "('s, 'p, 'q, 'r, 'w, 'm) platform \<Rightarrow> bytes \<Rightarrow> path \<Rightarrow> ('s, 'r, 'w, 'm) world \<Rightarrow> (keyset_summary list, gui_error) result" where
  "list_keysets pf master_seed keysets_file wo =
     (if map_of (wo_disk wo) keysets_file = None then Ok []
      else rbind (map_err Shared (open_keysets pf keysets_file master_seed wo)) (\<lambda>db.
        Ok (map (\<lambda>(name, info). \<lparr>kss_name = name, kss_denom = ki_denom info, kss_joint_pk_hex = ki_joint_pk_hex info,
              kss_validators = ki_validators info\<rparr>) (kdb_store db))))"

definition add_keyset ::
    "('s, 'p, 'q, 'r, 'w, 'm) platform \<Rightarrow> bytes \<Rightarrow> path \<Rightarrow> string \<Rightarrow> string \<Rightarrow> u64 \<Rightarrow> string list \<Rightarrow> string option \<Rightarrow> string option
     \<Rightarrow> ('s, 'r, 'w, 'm) world \<Rightarrow> (unit, gui_error) result \<times> ('s, 'r, 'w, 'm) world" where
  "add_keyset pf master_seed keysets_file name joint_pk_hex denom validators ca_cert_path client_cert_path wo =
     (if trim name = [] then (Err EmptyKeysetName, wo)
      else if length joint_pk_hex \<noteq> 64 \<or> hex_decode (plat_libs pf) joint_pk_hex = None then (Err BadJointPkText, wo)
      else if validators = [] then (Err NoValidatorUrl, wo)
      else or_return (map_err Shared (open_keysets pf keysets_file master_seed wo)) wo (\<lambda>db.
        let info = \<lparr>ki_joint_pk_hex = ascii joint_pk_hex, ki_denom = denom, ki_validators = map ascii validators,
              ki_ca_cert_path = map_option ascii ca_cert_path, ki_client_cert_path = map_option ascii client_cert_path\<rparr>;
            (out, wo1) = save_keysets pf (db\<lparr>kdb_store := KeysetStore_upsert (kdb_store db) (ascii name) info\<rparr>) master_seed wo
        in (map_err Shared out, wo1)))"

definition remove_keyset ::
    "('s, 'p, 'q, 'r, 'w, 'm) platform \<Rightarrow> bytes \<Rightarrow> path \<Rightarrow> string \<Rightarrow> ('s, 'r, 'w, 'm) world
     \<Rightarrow> (bool, gui_error) result \<times> ('s, 'r, 'w, 'm) world" where
  "remove_keyset pf master_seed keysets_file name wo =
     or_return (map_err Shared (open_keysets pf keysets_file master_seed wo)) wo (\<lambda>db.
     let (old, store) = KeysetStore_remove (kdb_store db) (ascii name)
     in if old = None then (Ok False, wo)
        else (let (out, wo1) = save_keysets pf (db\<lparr>kdb_store := store\<rparr>) master_seed wo
              in or_return (map_err Shared out) wo1 (\<lambda>_. (Ok True, wo1))))"

text \<open>The keyset of a name, from a file that has to exist.\<close>

definition named_keyset ::
    "('s, 'p, 'q, 'r, 'w, 'm) platform \<Rightarrow> bytes \<Rightarrow> path \<Rightarrow> string \<Rightarrow> disk \<Rightarrow> (keyset_info, gui_error) result" where
  "named_keyset pf master_seed keysets_file name fs =
     (if map_of fs keysets_file = None then Err KeysetsFileMissing
      else map_err Shared (lookup_keyset pf keysets_file master_seed name fs))"

text \<open>The pool of a keyset; the number of a validator is cast to 16 bits.\<close>

fun gui_endpoints :: "bool \<Rightarrow> nat \<Rightarrow> string list \<Rightarrow> (validator_endpoint list, gui_error) result" where
  "gui_endpoints client_builds i [] = Ok []"
| "gui_endpoints client_builds i (url # urls) =
     rbind (map_err (Shared \<circ> WalletFailed) (ValidatorEndpoint_plain client_builds (word_of_nat (i + 1)) url)) (\<lambda>ep.
     rbind (gui_endpoints client_builds (i + 1) urls) (\<lambda>eps. Ok (ep # eps)))"

definition gui_pool :: "bool \<Rightarrow> string list \<Rightarrow> (wallet_client_pool, gui_error) result" where
  "gui_pool client_builds urls =
     rbind (gui_endpoints client_builds 0 urls) (\<lambda>endpoints. map_err (Shared \<circ> WalletFailed) (WalletClientPool_new endpoints))"

section \<open>Refreshing\<close>

text \<open>What a refresh has read before its first wait: the wallet, the coin, the pool, the joint key and the old coin.\<close>

record 's refresh_context =
  rfc_wallet :: wallet_db
  rfc_found :: stored_coin
  rfc_pool :: wallet_client_pool
  rfc_joint_pk :: public_key
  rfc_old_coin :: "'s coin"

definition refresh_load ::
    "('s::field, 'p::ab_group_add, 'q, 'r, 'w, 'm) platform \<Rightarrow> bytes \<Rightarrow> path \<Rightarrow> path \<Rightarrow> string \<Rightarrow> string \<Rightarrow> ('s, 'r, 'w, 'm) world
     \<Rightarrow> ('s refresh_context, gui_error) result" where
  "refresh_load pf master_seed wallet_file keysets_file keyset_name coin_label wo =
     (let C = plat_crypto pf
      in rbind (map_err Shared (open_wallet pf wallet_file master_seed wo)) (\<lambda>wallet.
         rbind (ok_or (Shared NoActiveCoin)
           (List.find (\<lambda>c. sc_label c = Some (ascii coin_label) \<and> sc_status c = Active) (cs_coins (wdb_store wallet)))) (\<lambda>found.
         rbind (named_keyset pf master_seed keysets_file keyset_name (wo_disk wo)) (\<lambda>info.
         if ki_denom info \<noteq> sc_denom found then Err (Shared (DenomMismatch (ki_denom info) (sc_denom found)))
         else
           rbind (gui_pool (plat_client_builds pf) (map text_of (ki_validators info))) (\<lambda>pool.
           rbind (map_err Shared (parse_joint_pk pf (text_of (ki_joint_pk_hex info)))) (\<lambda>joint_pk.
           rbind (map_err (Shared \<circ> BadCoinSecret) (SecretKey_from_bytes C (sc_secret_bytes found))) (\<lambda>secret.
           rbind (map_err (Shared \<circ> CoinReconstruction)
             (Coin_new C secret (sc_pubkey_bytes found) (Signature_from_bytes (sc_signature_bytes found)))) (\<lambda>old_coin.
             Ok \<lparr>rfc_wallet = wallet, rfc_found = found, rfc_pool = pool, rfc_joint_pk = joint_pk, rfc_old_coin = old_coin\<rparr>))))))))"

text \<open>The conversation with the validators.\<close>

definition refresh_network ::
    "('s::field, 'p::ab_group_add, 'q, 'r, 'w, 'm) platform \<Rightarrow> 's refresh_context \<Rightarrow> ('s, 'r, 'w, 'm) world
     \<Rightarrow> ('s coin, gui_error) result \<times> ('s, 'r, 'w, 'm) world" where
  "refresh_network pf ctx wo =
     (let (session_bytes, r1) = fill_bytes (plat_rng pf) 16 (wo_rng wo);
          (refreshed, r2, net2) = refresh_coin (plat_crypto pf) (plat_rng pf) (plat_libs pf) (plat_net pf) (rfc_pool ctx) (rfc_old_coin ctx)
            (rfc_joint_pk ctx) (SessionId session_bytes) (r1, wo_net wo)
      in (map_err (Shared \<circ> WalletFailed) refreshed, wo\<lparr>wo_rng := r2, wo_net := net2\<rparr>))"

text \<open>The update of the store that was loaded, and its save.\<close>

definition refresh_store ::
    "('s, 'p, 'q, 'r, 'w, 'm) platform \<Rightarrow> bytes \<Rightarrow> string \<Rightarrow> 's refresh_context \<Rightarrow> 's coin \<Rightarrow> ('s, 'r, 'w, 'm) world
     \<Rightarrow> (ui_event, gui_error) result \<times> ('s, 'r, 'w, 'm) world" where
  "refresh_store pf master_seed coin_label ctx new_coin wo =
     (let C = plat_crypto pf; X = plat_libs pf; found = rfc_found ctx; wallet = rfc_wallet ctx;
          old_nullifier = StoredCoin_nullifier C (found\<lparr>sc_status := Spent\<rparr>);
          (marked, st1) = CoinStore_mark_spent C (wdb_store wallet) old_nullifier
      in or_return (map_err (Shared \<circ> MarkSpentFailed) marked) wo (\<lambda>_.
         let new_label = ascii (''refreshed-'' @ coin_label);
             (added, st2) = CoinStore_add C st1 (stored_of C new_coin (sc_denom found) Active (Some new_label))
         in or_return (map_err (Shared \<circ> AddFailed) added) wo (\<lambda>_.
            let (saved, wo1) = save_wallet pf (wallet\<lparr>wdb_store := st2\<rparr>) master_seed wo
            in or_return (map_err Shared saved) wo1 (\<lambda>_.
               let (coin_summary, coin_total, active_coins) = summarize_store X st2
               in (Ok (CoinRefreshed (sc_label found) new_label (sc_denom found) (take 16 (hex_encode X (sc_pubkey_bytes found)))
                     (take 16 (hex_encode X (coin_pubkey_bytes new_coin))) coin_summary coin_total active_coins), wo1)))))"

definition gui_refresh ::
    "('s::field, 'p::ab_group_add, 'q, 'r, 'w, 'm) platform \<Rightarrow> bytes \<Rightarrow> path \<Rightarrow> path \<Rightarrow> string \<Rightarrow> string \<Rightarrow> ('s, 'r, 'w, 'm) world
     \<Rightarrow> (ui_event, gui_error) result \<times> ('s, 'r, 'w, 'm) world" where
  "gui_refresh pf master_seed wallet_file keysets_file keyset_name coin_label wo =
     or_return (refresh_load pf master_seed wallet_file keysets_file keyset_name coin_label wo) wo (\<lambda>ctx.
     let (refreshed, wo1) = refresh_network pf ctx wo
     in or_return refreshed wo1 (\<lambda>new_coin. refresh_store pf master_seed coin_label ctx new_coin wo1))"

section \<open>Receiving and paying\<close>

text \<open>
  The loop over the messages does what the loop of the wallet program does (\<open>receive_message\<close>); the arguments it
  reads are those of the command.
\<close>

definition receive_options :: "path \<Rightarrow> string \<Rightarrow> string \<Rightarrow> bool \<Rightarrow> string \<Rightarrow> receive_args" where
  "receive_options wallet_file recipient_pk_hex relay_url keep_on_relay label_prefix =
     \<lparr>rcv_relay = relay_url, rcv_recipient_pubkey = recipient_pk_hex, rcv_wallet_file = wallet_file, rcv_wallet_phrase = [],
      rcv_wallet_passphrase = [], rcv_label_prefix = label_prefix, rcv_keep_on_relay = keep_on_relay\<rparr>"

definition gui_receive ::
    "('s, 'p, 'q, 'r, 'w, 'm) platform \<Rightarrow> bytes \<Rightarrow> path \<Rightarrow> string \<Rightarrow> string \<Rightarrow> bool \<Rightarrow> string \<Rightarrow> ('s, 'r, 'w, 'm) world
     \<Rightarrow> (ui_event, gui_error) result \<times> ('s, 'r, 'w, 'm) world" where
  "gui_receive pf master_seed wallet_file recipient_pk_hex relay_url keep_on_relay label_prefix wo =
     or_return (map_err Shared (open_wallet pf wallet_file master_seed wo)) wo (\<lambda>wallet.
     let relay_base = trim_end_slashes relay_url;
         opts = receive_options wallet_file recipient_pk_hex relay_url keep_on_relay label_prefix
     in if \<not> plat_client_builds pf then (Err HttpClient, wo)
        else
          (let (listed, net1) = rn_list (plat_relay pf) relay_base (trim recipient_pk_hex) (wo_net wo);
               wo1 = wo\<lparr>wo_net := net1\<rparr>
           in or_return (map_err Shared (json_value listed)) wo1 (\<lambda>listed.
              let messages = (case listed of None \<Rightarrow> [] | Some ms \<Rightarrow> ms)
              in if messages = [] then (Ok (ReceiveResult 0 0 0), wo1)
                 else
                   (let st = fold (receive_message pf opts master_seed relay_base) messages
                          \<lparr>rcs_wallet = wallet, rcs_net = net1, rcs_added = 0, rcs_deleted = 0, rcs_skipped = 0\<rparr>;
                        wo2 = wo1\<lparr>wo_net := rcs_net st\<rparr>;
                        (out, wo3) = (if rcs_added st > 0 then save_wallet pf (rcs_wallet st) master_seed wo2 else (Ok (), wo2))
                    in or_return (map_err Shared out) wo3 (\<lambda>_. (Ok (ReceiveResult (rcs_added st) (rcs_deleted st) (rcs_skipped st)), wo3))))))"

definition gui_pay ::
    "('s::field, 'p::ab_group_add, 'q, 'r, 'w, 'm) platform \<Rightarrow> bytes \<Rightarrow> path \<Rightarrow> string \<Rightarrow> string \<Rightarrow> bool \<Rightarrow> ('s, 'r, 'w, 'm) world
     \<Rightarrow> (ui_event, gui_error) result \<times> ('s, 'r, 'w, 'm) world" where
  "gui_pay pf master_seed keysets_file invoice_uri keyset_name encrypt wo =
     (let C = plat_crypto pf; X = plat_libs pf
      in or_return (map_err (Shared \<circ> InvoiceFailed) (Invoice_parse (ascii invoice_uri))) wo (\<lambda>invoice.
         or_return (named_keyset pf master_seed keysets_file keyset_name (wo_disk wo)) wo (\<lambda>info.
         if ki_denom info \<noteq> inv_denom invoice then (Err (Shared (DenomMismatch (ki_denom info) (inv_denom invoice))), wo)
         else
           or_return (gui_pool (plat_client_builds pf) (map text_of (ki_validators info))) wo (\<lambda>pool.
           or_return (map_err Shared (parse_joint_pk pf (text_of (ki_joint_pk_hex info)))) wo (\<lambda>joint_pk.
           let (session_bytes, r1) = fill_bytes (plat_rng pf) 16 (wo_rng wo);
               (minted, r2, net2) = issue_coin C (plat_rng pf) X (plat_net pf) pool joint_pk (SessionId session_bytes) (r1, wo_net wo);
               wo2 = wo\<lparr>wo_rng := r2, wo_net := net2\<rparr>
           in or_return (map_err (Shared \<circ> WalletFailed) minted) wo2 (\<lambda>coin.
              let plaintext = payload_to_vec (plat_payload pf) (coin_payload C X coin invoice);
                  (packed, r3) = pack_payload pf encrypt plaintext (inv_recipient_pubkey invoice) (wo_rng wo2);
                  wo3 = wo2\<lparr>wo_rng := r3\<rparr>
              in or_return (map_err Shared packed) wo3 (\<lambda>payload_hex.
                 or_return (ok_or (Shared NoRelay) (case inv_relays invoice of [] \<Rightarrow> None | url # _ \<Rightarrow> Some (text_of url))) wo3 (\<lambda>relay_url.
                 let recipient_hex = hex_encode X (inv_recipient_pubkey invoice)
                 in if \<not> plat_client_builds pf then (Err HttpClient, wo3)
                    else
                      (let (reply, net4) = rn_deposit (plat_relay pf) (trim_end_slashes relay_url) recipient_hex payload_hex 604800 (wo_net wo3);
                           wo4 = wo3\<lparr>wo_net := net4\<rparr>
                       in or_return (map_err Shared (json_value reply)) wo4 (\<lambda>deposit.
                            (Ok (PaymentSent (take 16 recipient_hex) (inv_denom invoice) relay_url
                               (case dp_id deposit of None \<Rightarrow> '''' | Some i \<Rightarrow> i) encrypt), wo4)))))))))))"

section \<open>Dispatch\<close>

datatype ui_command =
    Ping string
  | OpenWallet string string "path option" "path option"
  | KeysetList bytes path
  | KeysetAdd bytes path string string u64 "string list" "string option" "string option"
  | KeysetRemove bytes path string
  | Refresh bytes path path string string
  | Receive bytes path string string bool string
  | Pay bytes path string string bool
  | Shutdown

text \<open>The event of a finished command: the value's event, or the redacted error. A panic ends the task without an event.\<close>

definition report :: "('e \<Rightarrow> string) \<Rightarrow> string \<Rightarrow> ('a \<Rightarrow> ui_event list) \<Rightarrow> ('a, 'e) result \<Rightarrow> ui_event list" where
  "report show op f r = (case r of Ok x \<Rightarrow> f x | Err e \<Rightarrow> [UiError op (redact (show e))] | Panic \<Rightarrow> [])"

definition dispatch ::
    "(gui_error \<Rightarrow> string) \<Rightarrow> (string \<Rightarrow> string) \<Rightarrow> ('s::field, 'p::ab_group_add, 'q, 'r, 'w, 'm) platform \<Rightarrow> ui_command \<Rightarrow> ('s, 'r, 'w, 'm) world
     \<Rightarrow> ui_event list \<times> ('s, 'r, 'w, 'm) world" where
  "dispatch show quoted pf cmd wo =
     (case cmd of
        Ping nonce \<Rightarrow> ([Pong nonce], wo)
      | OpenWallet phrase passphrase wallet_file keysets_file \<Rightarrow>
          (report show ''open_wallet'' (\<lambda>ev. [ev]) (gui_open_wallet pf phrase passphrase wallet_file wo), wo)
      | KeysetList master_seed keysets_file \<Rightarrow>
          (report show ''keyset_list'' (\<lambda>list. [KeysetListed list]) (list_keysets pf master_seed keysets_file wo), wo)
      | KeysetAdd master_seed keysets_file name joint_pk_hex denom validators ca_cert_path client_cert_path \<Rightarrow>
          (let (out, wo1) = add_keyset pf master_seed keysets_file name joint_pk_hex denom validators ca_cert_path client_cert_path wo
           in (report show ''keyset_add'' (\<lambda>_. KeysetAdded name #
                 report show ''keyset_list_after_add'' (\<lambda>list. [KeysetListed list]) (list_keysets pf master_seed keysets_file wo1)) out, wo1))
      | KeysetRemove master_seed keysets_file name \<Rightarrow>
          (let (out, wo1) = remove_keyset pf master_seed keysets_file name wo
           in (report show ''keyset_remove'' (\<lambda>removed.
                 if removed then KeysetRemoved name #
                   (case list_keysets pf master_seed keysets_file wo1 of Ok list \<Rightarrow> [KeysetListed list] | _ \<Rightarrow> [])
                 else [UiError ''keyset_remove'' (''no keyset named '' @ quoted name)]) out, wo1))
      | Refresh master_seed wallet_file keysets_file keyset_name coin_label \<Rightarrow>
          (let (out, wo1) = gui_refresh pf master_seed wallet_file keysets_file keyset_name coin_label wo
           in (report show ''refresh'' (\<lambda>ev. [ev]) out, wo1))
      | Receive master_seed wallet_file recipient_pk_hex relay_url keep_on_relay label_prefix \<Rightarrow>
          (let (out, wo1) = gui_receive pf master_seed wallet_file recipient_pk_hex relay_url keep_on_relay label_prefix wo
           in (report show ''receive'' (\<lambda>ev. [ev]) out, wo1))
      | Pay master_seed keysets_file invoice_uri keyset_name encrypt \<Rightarrow>
          (let (out, wo1) = gui_pay pf master_seed keysets_file invoice_uri keyset_name encrypt wo
           in (report show ''pay'' (\<lambda>ev. [ev]) out, wo1))
      | Shutdown \<Rightarrow> ([], wo))"

section \<open>Redaction removes long runs\<close>

text \<open>No run of 32 or more hexadecimal digits.\<close>

fun hex_free :: "string \<Rightarrow> bool" where
  "hex_free [] \<longleftrightarrow> True"
| "hex_free (c # s) \<longleftrightarrow> length (takeWhile is_ascii_hexdigit (c # s)) < 32 \<and> hex_free s"

lemma redacted_text_free: "hex_free b \<Longrightarrow> hex_free (''<redacted>'' @ b)"
  by (simp add: is_ascii_hexdigit_def)

lemma redact_Cons:
  "s = c # rest \<Longrightarrow> redact s = (if 32 \<le> length (takeWhile is_ascii_hexdigit s) then ''<redacted>'' @ redact (dropWhile is_ascii_hexdigit s) else c # redact rest)"
  unfolding redact.simps [of s] by (simp only: list.case)

lemma redact_prefix: "length (takeWhile is_ascii_hexdigit (redact s)) \<le> length (takeWhile is_ascii_hexdigit s)"
proof (induction s rule: redact.induct)
  case (1 s)
  show ?case
  proof (cases s)
    case (Cons c rest)
    show ?thesis
    proof (cases "32 \<le> length (takeWhile is_ascii_hexdigit s)")
      case True
      then have "redact s = ''<redacted>'' @ redact (dropWhile is_ascii_hexdigit s)" using redact_Cons [OF Cons] by (simp only: if_True)
      then show ?thesis by (simp add: is_ascii_hexdigit_def)
    next
      case False
      then have "redact s = c # redact rest" using redact_Cons [OF Cons] by (simp only: if_False)
      then show ?thesis using "1.IH"(2) [OF Cons False] Cons by simp
    qed
  qed (simp add: redact.simps)
qed

lemma redact_hex_free: "hex_free (redact s)"
proof (induction s rule: redact.induct)
  case (1 s)
  show ?case
  proof (cases s)
    case (Cons c rest)
    show ?thesis
    proof (cases "32 \<le> length (takeWhile is_ascii_hexdigit s)")
      case True
      then have "redact s = ''<redacted>'' @ redact (dropWhile is_ascii_hexdigit s)" using redact_Cons [OF Cons] by (simp only: if_True)
      then show ?thesis using redacted_text_free "1.IH"(1) [OF Cons True] by metis
    next
      case False
      then have "redact s = c # redact rest" using redact_Cons [OF Cons] by (simp only: if_False)
      moreover have "length (takeWhile is_ascii_hexdigit (c # redact rest)) < 32"
        using redact_prefix [of s] False calculation by simp
      ultimately show ?thesis using "1.IH"(2) [OF Cons False] by simp
    qed
  qed (simp add: redact.simps)
qed

lemma hex_free_iff: "hex_free s \<longleftrightarrow> (\<forall>k. length (takeWhile is_ascii_hexdigit (drop k s)) < 32)"
proof (induction s)
  case (Cons c s)
  have "(\<forall>k. length (takeWhile is_ascii_hexdigit (drop k (c # s))) < 32) \<longleftrightarrow>
      length (takeWhile is_ascii_hexdigit (c # s)) < 32 \<and> (\<forall>k. length (takeWhile is_ascii_hexdigit (drop k s)) < 32)"
    by (metis drop0 drop_Suc_Cons not0_implies_Suc)
  then show ?case using Cons.IH by simp
qed simp

text \<open>A text without long runs is left as it is.\<close>

lemma redact_id: "hex_free s \<Longrightarrow> redact s = s"
  by (induction s) (simp_all add: redact.simps)

lemma report_redacts: "UiError op msg \<in> set (report show op' f r) \<Longrightarrow> (\<And>x. r = Ok x \<Longrightarrow> UiError op msg \<notin> set (f x)) \<Longrightarrow> hex_free msg"
  by (auto simp: report_def redact_hex_free split: result.splits)

lemma gui_events [simp]:
  "gui_open_wallet pf a b fo wo \<noteq> Ok (UiError op msg)"
  "fst (gui_refresh pf seed f kf ks l wo) \<noteq> Ok (UiError op msg)"
  "fst (gui_receive pf seed f k u keep l wo) \<noteq> Ok (UiError op msg)"
  "fst (gui_pay pf seed kf u ks enc wo) \<noteq> Ok (UiError op msg)"
proof -
  have "gui_refresh pf seed f kf ks l wo \<noteq> (Ok (UiError op msg), w)" "gui_receive pf seed f k u keep l wo \<noteq> (Ok (UiError op msg), w)"
    "gui_pay pf seed kf u ks enc wo \<noteq> (Ok (UiError op msg), w)" for w
    by (auto simp: gui_refresh_def refresh_store_def gui_receive_def gui_pay_def Let_def case_prod_beta split: if_splits)
  then show "fst (gui_refresh pf seed f kf ks l wo) \<noteq> Ok (UiError op msg)" "fst (gui_receive pf seed f k u keep l wo) \<noteq> Ok (UiError op msg)"
    "fst (gui_pay pf seed kf u ks enc wo) \<noteq> Ok (UiError op msg)" by (metis prod.collapse)+
qed (auto simp: gui_open_wallet_def Let_def case_prod_beta)

section \<open>Summaries\<close>

definition bucket :: "u64 \<Rightarrow> stored_coin list \<Rightarrow> denom_bucket" where
  "bucket d cs = (let n = \<lambda>status. length (filter (\<lambda>c. sc_denom c = d \<and> sc_status c = status) cs)
     in \<lparr>bk_denom = d, bk_active = n Active, bk_in_flight = n InFlight, bk_spent = n Spent\<rparr>)"

lemma count_coins:
  assumes "btree_ok m" and "\<And>d. map_of m d = (if \<exists>c \<in> set before. sc_denom c = d then Some (bucket d before) else None)"
  shows "btree_ok (fold count_coin cs m) \<and>
    map_of (fold count_coin cs m) d = (if \<exists>c \<in> set (before @ cs). sc_denom c = d then Some (bucket d (before @ cs)) else None)"
  using assms
proof (induction cs arbitrary: m before)
  case (Cons c cs)
  let ?m = "count_coin c m"
  have "btree_ok ?m" using Cons.prems(1) by (simp add: count_coin_def btree_ok_insert Let_def)
  moreover have "map_of ?m d = (if \<exists>c \<in> set (before @ [c]). sc_denom c = d then Some (bucket d (before @ [c])) else None)" for d
    using Cons.prems
    by (cases "sc_denom c = d"; cases "sc_status c") (auto simp: count_coin_def map_of_btree_insert bucket_def Let_def split: option.splits if_splits)
  ultimately show ?case using Cons.IH [of ?m "before @ [c]"] by simp
qed simp

text \<open>The summary has one bucket for each denomination in ascending order, with the numbers of its coins.\<close>

lemma summary_exact:
  assumes "summarize_store X st = (buckets, n, rows)"
  shows "set buckets = (\<lambda>d. bucket d (cs_coins st)) ` sc_denom ` set (cs_coins st)" and "sorted_wrt (<) (map bk_denom buckets)"
    and "n = length (cs_coins st)" and "rows = map (coin_row X) (filter (\<lambda>c. sc_status c = Active) (cs_coins st))"
proof -
  let ?m = "fold count_coin (cs_coins st) []"
  have m: "btree_ok ?m" "map_of ?m d = (if \<exists>c \<in> set (cs_coins st). sc_denom c = d then Some (bucket d (cs_coins st)) else None)" for d
    using count_coins [of "[]" "[]" "cs_coins st"] by (auto simp: btree_ok_def)
  have b: "buckets = map snd ?m" "n = length (cs_coins st)" "rows = map (coin_row X) (filter (\<lambda>c. sc_status c = Active) (cs_coins st))"
    using assms by (auto simp: summarize_store_def Let_def)
  have dist: "distinct (map fst ?m)" using m(1) by (simp add: btree_ok_def strict_sorted_iff)
  have entry: "(d, e) \<in> set ?m \<longleftrightarrow> (\<exists>c \<in> set (cs_coins st). sc_denom c = d) \<and> e = bucket d (cs_coins st)" for d e
    using map_of_eq_Some_iff [OF dist, of d e] m(2) [of d] by (auto split: if_splits)
  then show "set buckets = (\<lambda>d. bucket d (cs_coins st)) ` sc_denom ` set (cs_coins st)" unfolding b(1) by force
  have "map bk_denom buckets = map fst ?m" unfolding b(1) using entry by (auto simp: bucket_def Let_def)
  then show "sorted_wrt (<) (map bk_denom buckets)" using m(1) by (simp add: btree_ok_def)
qed (use assms in \<open>auto simp: summarize_store_def Let_def\<close>)

section \<open>What commands leave on the disk\<close>

text \<open>Paying does not write: a coin that was minted and could not be delivered is stored nowhere.\<close>

lemma gui_pay_keeps_disk: "wo_disk (snd (gui_pay pf seed kf uri ks enc wo)) = wo_disk wo"
  by (auto simp: gui_pay_def Let_def case_prod_beta intro!: or_return_frame [where P = "\<lambda>w. wo_disk w = wo_disk wo"])

text \<open>A refresh finds coins by their stored label only, so the label shown for a coin without one names no coin.\<close>

lemma unlabelled_coin_not_refreshable:
  assumes "open_wallet pf f seed wo = Ok db" and "\<forall>c \<in> set (cs_coins (wdb_store db)). sc_label c \<noteq> Some (ascii l)"
  shows "refresh_load pf seed f kf ks l wo = Err (Shared NoActiveCoin)"
proof -
  have "List.find (\<lambda>c. sc_label c = Some (ascii l) \<and> sc_status c = Active) (cs_coins (wdb_store db)) = None"
    using assms(2) by (auto simp: find_None_iff)
  then show ?thesis using assms(1) by (simp add: refresh_load_def)
qed

text \<open>Receiving in the desktop wallet and with the wallet program is the same, when the program derives the same seed.\<close>

lemma gui_receive_as_program:
  assumes "unlock pf (rcv_wallet_phrase a) (rcv_wallet_passphrase a) = Ok seed" and "plat_client_builds pf"
    and "cmd_receive pf a wo = (out, wo')"
    and "gui_receive pf seed (rcv_wallet_file a) (rcv_recipient_pubkey a) (rcv_relay a) (rcv_keep_on_relay a) (rcv_label_prefix a) wo = (out', wo'')"
  shows "wo_disk wo'' = wo_disk wo' \<and> wo_rng wo'' = wo_rng wo' \<and> wo_net wo'' = wo_net wo' \<and>
    (out = Ok () \<longleftrightarrow> (\<exists>n d s. out' = Ok (ReceiveResult n d s)))"
proof -
  let ?o = "receive_options (rcv_wallet_file a) (rcv_recipient_pubkey a) (rcv_relay a) (rcv_keep_on_relay a) (rcv_label_prefix a)"
  have opts: "rcv_label_prefix ?o = rcv_label_prefix a" "rcv_keep_on_relay ?o = rcv_keep_on_relay a" "rcv_recipient_pubkey ?o = rcv_recipient_pubkey a"
    by (simp_all add: receive_options_def)
  have decode: "decode_message pf ?o seed = decode_message pf a seed" by (rule ext) (simp only: decode_message_def opts)
  have loop: "receive_message pf ?o seed u = receive_message pf a seed u" for u
    by (intro ext) (simp only: receive_message_def opts decode)
  show ?thesis
  proof (cases "open_wallet pf (rcv_wallet_file a) seed wo")
    case (Ok w)
    obtain listed net1 where l: "rn_list (plat_relay pf) (trim_end_slashes (rcv_relay a)) (trim (rcv_recipient_pubkey a)) (wo_net wo) = (listed, net1)" by force
    show ?thesis
    proof (cases "json_value listed")
      case v: (Ok ms)
      define mss where "mss = (case ms of None \<Rightarrow> [] | Some m \<Rightarrow> m)"
      define st where "st = fold (receive_message pf a seed (trim_end_slashes (rcv_relay a))) mss
        \<lparr>rcs_wallet = w, rcs_net = net1, rcs_added = 0, rcs_deleted = 0, rcs_skipped = 0\<rparr>"
      obtain s w3 where s: "(if rcs_added st > 0 then save_wallet pf (rcs_wallet st) seed (wo\<lparr>wo_net := rcs_net st\<rparr>)
          else (Ok (), wo\<lparr>wo_net := rcs_net st\<rparr>)) = (s, w3)" by force
      have "cmd_receive pf a wo = (if mss = [] then (Ok (), say (PrintReceived 0 0 0) (wo\<lparr>wo_net := net1\<rparr>))
          else or_return s w3 (\<lambda>_. (Ok (), say (PrintReceived (rcs_added st) (rcs_deleted st) (rcs_skipped st)) w3)))"
        using assms(1) Ok l v s by (simp add: cmd_receive_def Let_def mss_def [symmetric] st_def [symmetric])
      moreover have "gui_receive pf seed (rcv_wallet_file a) (rcv_recipient_pubkey a) (rcv_relay a) (rcv_keep_on_relay a) (rcv_label_prefix a) wo =
          (if mss = [] then (Ok (ReceiveResult 0 0 0), wo\<lparr>wo_net := net1\<rparr>)
           else or_return (map_err Shared s) w3 (\<lambda>_. (Ok (ReceiveResult (rcs_added st) (rcs_deleted st) (rcs_skipped st)), w3)))"
        using assms(2) Ok l v s by (simp add: gui_receive_def Let_def loop mss_def [symmetric] st_def [symmetric])
      ultimately show ?thesis using assms(3,4) by (cases "mss = []"; cases s) (auto simp: say_def)
    qed (use assms Ok l in \<open>auto simp: cmd_receive_def gui_receive_def Let_def\<close>)
  qed (use assms in \<open>auto simp: cmd_receive_def gui_receive_def\<close>)
qed

section \<open>Samples for the witnesses\<close>

definition gui_world :: "(gf, gf list, (gf, gf, gf list) fleet, unit) world" where
  "gui_world = refresh_world\<lparr>wo_disk := wo_disk refresh_world @ [(sample_file ''keysets'', replicate 12 0 @ ser_keyset_store sample_keysets @ replicate 16 0)]\<rparr>"

definition gui_new_coin :: "gf coin" where
  "gui_new_coin = refresh_melted\<lparr>coin_secret := SecretKey 5, coin_pubkey_bytes := gf_bytes 5\<rparr>"

lemma gui_sample_opened: "open_wallet refresh_platform (sample_file ''w'') (sample_seed 3) gui_world = Ok refresh_db"
  using refresh_opened_db [OF refl]
  by (simp add: open_wallet_def WalletDb_open_def gui_world_def refresh_world_def)

lemma gui_sample_keyset:
  "named_keyset refresh_platform (sample_seed 3) (sample_file ''keysets'') ''k'' (wo_disk gui_world) = Ok (snd (hd sample_keysets))"
proof -
  have "lookup_keyset (sample_platform E) (sample_file ''keysets'') (sample_seed 3) ''k'' (wo_disk sample_world) = Ok (snd (hd sample_keysets))" for E
    using resolve_sample [of E] by (auto simp: resolve_payment_def sample_pay_args_def unlock_def parse_mnemonic_def sample_bip39_def derive_master_seed_def split: if_splits)
  then have "lookup_keyset refresh_platform (sample_file ''keysets'') (sample_seed 3) ''k'' (wo_disk gui_world) = Ok (snd (hd sample_keysets))"
    by (simp add: lookup_keyset_def KeysetDb_open_def gui_world_def refresh_world_def sample_world_def sample_file_def refresh_platform_def)
  then show ?thesis by (simp add: named_keyset_def gui_world_def refresh_world_def sample_file_def)
qed

section \<open>Properties\<close>



text \<open>
  C30. A refresh writes back what it loaded: the wallet file that a successful refresh leaves holds
  exactly the coins that were in the file when the refresh began, with the old coin spent and the new
  one added. What other commands wrote to the file while the refresh waited for the validators does not
  matter: a coin received in between is gone.
\<close>

theorem refresh_writes_loaded_store:
  fixes pf :: "('s::field, 'p::ab_group_add, 'q, 'r, 'w, 'm) platform"
  assumes "platform_ok pf" and "open_wallet pf file seed wo0 = Ok db" and "p_ext file \<noteq> ''tmp''"
    and "store_ok (plat_crypto pf) (wdb_store db)" and "coin_store_wf (wdb_store db)" and "length (cs_coins (wdb_store db)) + 1 < 2 ^ 32"
    and "refresh_load pf seed file kf ks label wo0 = Ok ctx" and "coin_shape (plat_crypto pf) new_coin"
    and "utf8_valid (ascii (''refreshed-'' @ label))" and "length (''refreshed-'' @ label) < 2 ^ 32"
    and "refresh_store pf seed label ctx new_coin wo = (Ok ev, wo')"
  shows "\<exists>c db'. c \<in> set (cs_coins (wdb_store db)) \<and> sc_label c = Some (ascii label) \<and> sc_status c = Active \<and>
    open_wallet pf file seed wo' = Ok db' \<and>
    holdings (plat_crypto pf) (wdb_store db') = (holdings (plat_crypto pf) (wdb_store db))
      (StoredCoin_nullifier (plat_crypto pf) c \<mapsto> c\<lparr>sc_status := Spent\<rparr>,
       nullifier (plat_crypto pf) new_coin \<mapsto> stored_of (plat_crypto pf) new_coin (sc_denom c) Active (Some (ascii (''refreshed-'' @ label))))"
proof -
  let ?C = "plat_crypto pf"
  have laws: "curve_ok ?C" "libs_ok (plat_libs pf)" "hkdf_ok ?C" "fill_ok (plat_rng pf)" using assms(1) by (simp_all add: platform_ok_def)
  obtain c where c: "List.find (\<lambda>c. sc_label c = Some (ascii label) \<and> sc_status c = Active) (cs_coins (wdb_store db)) = Some c"
    and ctx: "rfc_wallet ctx = db" "rfc_found ctx = c"
    using assms(2,7) by (auto simp: refresh_load_def Let_def split: if_splits)
  then have coin: "c \<in> set (cs_coins (wdb_store db))" "sc_label c = Some (ascii label)" "sc_status c = Active" by (auto simp: find_Some_iff)
  let ?new = "stored_of ?C new_coin (sc_denom c) Active (Some (ascii (''refreshed-'' @ label)))"
  obtain marked st1 where mark: "CoinStore_mark_spent ?C (wdb_store db) (StoredCoin_nullifier ?C c) = (marked, st1)" by force
  obtain added st2 where add: "CoinStore_add ?C st1 ?new = (added, st2)" by force
  obtain saved wo1 where save: "save_wallet pf (db\<lparr>wdb_store := st2\<rparr>) seed wo = (saved, wo1)" by force
  have outs: "added = Ok ()" "saved = Ok ()" "wo' = wo1"
    using assms(11) mark add save ctx
    by (cases marked; cases added; cases saved; auto simp: refresh_store_def Let_def case_prod_beta)+
  have new: "stored_coin_wf ?new"
    using assms(8-10) laws(1) by (simp add: stored_coin_wf_def stored_of_def coin_shape_def coin_ok_def SecretKey_to_bytes_def Signature_to_bytes_def ascii_def)
  note eff = mark_and_add [OF assms(4-6) coin(1) new mark add [unfolded outs(1)]]
  have "wdb_path db = file" using assms(2) by (auto simp: open_wallet_def WalletDb_open_def split: option.splits)
  then have "open_wallet pf file seed wo' = Ok (db\<lparr>wdb_store := st2\<rparr>)"
    using saved_wallet_opens [OF laws(2-4) _ _ save [unfolded outs(2)]] outs(3) assms(3) eff(4) by simp
  then show ?thesis using coin eff(6) by (auto simp: nullifier_stored_of)
qed

theorem refresh_writes_loaded_store_witness:
  "\<exists>ctx ev wo' db'. refresh_load refresh_platform (sample_seed 3) (sample_file ''w'') (sample_file ''keysets'') ''k'' ''c'' gui_world = Ok ctx \<and>
     refresh_store refresh_platform (sample_seed 3) ''c'' ctx gui_new_coin (gui_world\<lparr>wo_disk := []\<rparr>) = (Ok ev, wo') \<and>
     open_wallet refresh_platform (sample_file ''w'') (sample_seed 3) wo' = Ok db' \<and>
     nullifier gf_curve refresh_melted \<in> dom (holdings gf_curve (wdb_store db'))"
proof -
  let ?stored = "stored_of gf_curve refresh_melted 5 Active (Some (ascii ''c''))"
  have plat: "plat_crypto refresh_platform = gf_curve" "plat_libs refresh_platform = sample_libs" "plat_rng refresh_platform = tape_rng"
      "plat_client_builds refresh_platform" "plat_fault refresh_platform = NoFault" by (simp_all add: refresh_platform_def)
  have coins: "cs_coins (wdb_store refresh_db) = [?stored]" by (simp add: refresh_db_def)
  have sc: "sc_label ?stored = Some (ascii ''c'')" "sc_status ?stored = Active" "sc_denom ?stored = 5" by (simp_all add: stored_of_def)
  have ks: "ki_denom (snd (hd sample_keysets)) = 5" by (simp add: sample_keysets_def)
  have pool: "gui_pool True (map text_of (ki_validators (snd (hd sample_keysets)))) = Ok sample_pay_pool"
    by (simp add: gui_pool_def sample_keysets_def WalletClientPool_new_def ValidatorEndpoint_plain_def sample_pay_pool_def)
  have pk: "parse_joint_pk refresh_platform (text_of (ki_joint_pk_hex (snd (hd sample_keysets)))) = Ok (PublicKey (gf_bytes 1))"
    by (simp add: parse_joint_pk_def parse_hex32_def plat sample_keysets_def sample_libs_def PublicKey_from_bytes_def gf_of_bytes_bytes)
  let ?ctx = "\<lparr>rfc_wallet = refresh_db, rfc_found = ?stored, rfc_pool = sample_pay_pool, rfc_joint_pk = PublicKey (gf_bytes 1), rfc_old_coin = refresh_melted\<rparr>"
  have load: "refresh_load refresh_platform (sample_seed 3) (sample_file ''w'') (sample_file ''keysets'') ''k'' ''c'' gui_world = Ok ?ctx"
    using sample_stored_coin by (simp add: refresh_load_def gui_sample_opened gui_sample_keyset coins sc ks plat(1,4) pool pk Let_def)
  have new: "coin_shape gf_curve gui_new_coin" using refresh_melted_ok(1) curve_ok_gf
    by (simp add: gui_new_coin_def coin_shape_def coin_ok_def)
  have fresh: "nullifier gf_curve gui_new_coin \<noteq> nullifier gf_curve refresh_melted"
  proof
    assume "nullifier gf_curve gui_new_coin = nullifier gf_curve refresh_melted"
    then have "gf_bytes 5 = gf_bytes 4" using gf_nullifier_of_inj [of 5 4] by (simp add: nullifier_def gui_new_coin_def refresh_melted_def)
    then have "(5 :: gf) = 4" by (metis gf_of_bytes_bytes option.inject)
    then show False using gf_of_nat_neq [of 5 4] by simp
  qed
  have "fst (save_wallet refresh_platform db seed wo) = Ok ()" for db seed wo
    using sample_save_Ok [of db seed "wo_disk wo" "wo_rng wo"] by (auto simp: save_wallet_def plat)
  then obtain ev wo' where store: "refresh_store refresh_platform (sample_seed 3) ''c'' ?ctx gui_new_coin (gui_world\<lparr>wo_disk := []\<rparr>) = (Ok ev, wo')"
    using fresh
    by (simp add: refresh_store_def plat(1) CoinStore_mark_spent_def CoinStore_add_def coins nullifier_stored_of Let_def case_prod_beta)
  have db: "store_ok (plat_crypto refresh_platform) (wdb_store refresh_db)" "length (cs_coins (wdb_store refresh_db)) + 1 < 2 ^ 32"
    by (simp_all add: store_ok_def coins)
  have ext: "p_ext (sample_file ''w'') \<noteq> ''tmp''" by (simp add: sample_file_def)
  have label: "utf8_valid (ascii (''refreshed-'' @ ''c''))" by code_simp
  have short: "length (''refreshed-'' @ ''c'') < 2 ^ 32" by simp
  from refresh_writes_loaded_store [OF refresh_platform_ok gui_sample_opened ext db(1) refresh_db_wf db(2) load _ label short store] new
  obtain c db' where "c \<in> set (cs_coins (wdb_store refresh_db))" "open_wallet refresh_platform (sample_file ''w'') (sample_seed 3) wo' = Ok db'"
      "StoredCoin_nullifier gf_curve c \<in> dom (holdings gf_curve (wdb_store db'))" by (auto simp: plat(1))
  with load store show ?thesis by (auto simp: coins nullifier_stored_of)
qed

end
