(* ===== verification/Gui_Withdraw.thy ===== *)
theory Gui_Withdraw
  imports Devnet Gui_Runtime
begin

text \<open>
  The withdrawal of the wallet's window (\<open>withdraw_on_devnet\<close> in \<open>tardus-wallet-gui/src/runtime.rs\<close>): the coin
  is read from the wallet file by its label, and the steps on chain are those of the operator's tool.
  The command reads the files of the platform and changes the cluster only; the event repeats, beside
  what is modelled, the time taken and the fresh payer's address.

  The lemmas show what this means for the wallet: the withdrawn coin stays in the wallet file as an
  active coin, and withdrawing it again is refused by the check against the chain.
\<close>

section \<open>The command\<close>

datatype gui_withdraw_error =
    WalletSide gui_error
  | ChainSide devnet_error

definition payer_strategy :: "bool \<Rightarrow> bool \<Rightarrow> string" where
  "payer_strategy use_ephemeral_payer use_onchain_pool =
     (if use_ephemeral_payer then if use_onchain_pool then ''ephemeral-from-pool'' else ''ephemeral-from-sponsor''
      else ''sponsor-direct'')"

definition withdraw_on_devnet ::
    "('s, 'p, 'q, 'r, 'w, 'm) platform \<Rightarrow> ('k, 'c) solana \<Rightarrow> bytes \<Rightarrow> path \<Rightarrow> string \<Rightarrow> string \<Rightarrow> string \<Rightarrow> string \<Rightarrow> bool \<Rightarrow> bool
     \<Rightarrow> ('s, 'r, 'w, 'm) world \<Rightarrow> 'c \<Rightarrow> (ui_event, gui_withdraw_error) result \<times> 'c" where
  "withdraw_on_devnet pf S master_seed wallet_file coin_label recipient_b58 program_id_b58 solana_keypair_path use_ephemeral_payer use_onchain_pool wo c =
     or_return (map_err (WalletSide \<circ> Shared) (open_wallet pf wallet_file master_seed wo)) c (\<lambda>wallet.
     or_return (ok_or (WalletSide (Shared NoActiveCoin))
       (List.find (\<lambda>k. sc_label k = Some (ascii coin_label) \<and> sc_status k = Active) (cs_coins (wdb_store wallet)))) c (\<lambda>found.
     or_return (map_err ChainSide (parse_pubkey S program_id_b58)) c (\<lambda>program_id.
     or_return (map_err ChainSide (parse_pubkey S recipient_b58)) c (\<lambda>recipient.
     or_return (map_err ChainSide (default_keypair S solana_keypair_path)) c (\<lambda>sponsor.
     case withdraw_coin (plat_crypto pf) S program_id (sc_pubkey_bytes found) (Signature_from_bytes (sc_signature_bytes found)) (sc_denom found)
         recipient sponsor use_ephemeral_payer use_onchain_pool c of (out, c1) \<Rightarrow>
     or_return (map_err ChainSide out) c1 (\<lambda>(sig, nullifier).
       (Ok (WithdrawOnDevnetResult coin_label (sc_denom found) recipient_b58 sig
          (''https://explorer.solana.com/tx/'' @ sig @ ''?cluster=devnet'') (payer_strategy use_ephemeral_payer use_onchain_pool)), c1)))))))"

text \<open>The arm of \<open>dispatch\<close> for this command.\<close>

definition dispatch_withdraw ::
    "(gui_withdraw_error \<Rightarrow> string) \<Rightarrow> ('s, 'p, 'q, 'r, 'w, 'm) platform \<Rightarrow> ('k, 'c) solana \<Rightarrow> bytes \<Rightarrow> path \<Rightarrow> string \<Rightarrow> string \<Rightarrow> string
     \<Rightarrow> string \<Rightarrow> bool \<Rightarrow> bool \<Rightarrow> ('s, 'r, 'w, 'm) world \<Rightarrow> 'c \<Rightarrow> ui_event list \<times> 'c" where
  "dispatch_withdraw show pf S master_seed wallet_file coin_label recipient_b58 program_id_b58 solana_keypair_path use_ephemeral_payer use_onchain_pool wo c =
     (case withdraw_on_devnet pf S master_seed wallet_file coin_label recipient_b58 program_id_b58 solana_keypair_path use_ephemeral_payer
         use_onchain_pool wo c of (out, c1) \<Rightarrow> (report show ''withdraw_on_devnet'' (\<lambda>ev. [ev]) out, c1))"

section \<open>The window and the tool\<close>

text \<open>
  Withdrawing a stored coin in the window does to the cluster what the tool does with the coin's key and
  signature in hexadecimal, and it succeeds when the tool does.
\<close>

lemma gui_withdraw_as_tool:
  assumes wallet: "open_wallet pf wallet_file seed wo = Ok db"
      "List.find (\<lambda>k. sc_label k = Some (ascii label) \<and> sc_status k = Active) (cs_coins (wdb_store db)) = Some found"
    and hex: "hex_decode X ph = Some (sc_pubkey_bytes found)" "hex_decode X sh = Some (sc_signature_bytes found)"
    and len: "length (sc_pubkey_bytes found) = 32" "length (sc_signature_bytes found) = 64"
    and tool: "devnet_withdraw (plat_crypto pf) X S path ph sh (sc_denom found) rs ps eph pool c = (out, c')"
  shows "\<exists>out'. withdraw_on_devnet pf S seed wallet_file label rs ps path eph pool wo c = (out', c') \<and>
    ((\<exists>ev. out' = Ok ev) \<longleftrightarrow> (\<exists>r. out = Ok r)) \<and> (\<forall>e. out = Err e \<longrightarrow> out' = Err (ChainSide e))"
proof -
  have args: "cli_parse_hex32 X ph = Ok (sc_pubkey_bytes found)" "cli_parse_hex64 X sh = Ok (sc_signature_bytes found)"
    using hex len by (simp_all add: cli_parse_hex32_def cli_parse_hex64_def)
  show ?thesis
    using tool wallet args
    by (cases "parse_pubkey S ps"; cases "parse_pubkey S rs"; cases "default_keypair S path"; cases out)
      (auto simp: withdraw_on_devnet_def devnet_withdraw_def)
qed

text \<open>
  No command of the window writes a withdrawal to the wallet file, so the coin is found again. What
  protects it is the chain: once its nullifier is recorded, withdrawing it again is refused.
\<close>

lemma gui_withdraw_again:
  assumes wallet: "open_wallet pf wallet_file seed wo = Ok db"
      "List.find (\<lambda>k. sc_label k = Some (ascii label) \<and> sc_status k = Active) (cs_coins (wdb_store db)) = Some found"
    and args: "pubkey_from_str S ps = Some program_id" "pubkey_from_str S rs = Some r" "read_keypair_file S path = Some k"
    and cl: "cluster_ok (plat_crypto pf) S rt program_id obs"
    and sp: "spendable (plat_crypto pf) rt program_id (obs c) (sc_pubkey_bytes found) (Signature_from_bytes (sc_signature_bytes found)) (sc_denom found)"
    and "StoredCoin_nullifier (plat_crypto pf) found \<in> spent_in (nullifier_data rt program_id (obs c))"
  shows "\<exists>c'. withdraw_on_devnet pf S seed wallet_file label rs ps path False pool wo c = (Err (ChainSide AlreadySpent), c') \<and> obs c' = obs c"
proof -
  have "StoredCoin_nullifier (plat_crypto pf) found = compute_nullifier (plat_crypto pf) (sc_pubkey_bytes found)"
    by (simp add: StoredCoin_nullifier_def compute_nullifier_def NULLIFIER_DOMAIN_def)
  then show ?thesis
    using withdraw_coin_spent [OF cl sp, of r k pool] assms(8) wallet args
    by (auto simp: withdraw_on_devnet_def parse_pubkey_def default_keypair_def)
qed

end
