(* ===== verification/Pkcs11.thy ===== *)
theory Pkcs11
  imports Transparency
begin

text \<open>
  Shares behind a hardware token (\<open>pkcs11_store.rs\<close>, the feature \<open>hsm\<close> of the validator).

  The token is reached through the crate \<open>cryptoki\<close>, a parameter: the record \<open>pkcs11\<close> over an abstract
  token state \<open>'h\<close>, one field for each call of the source. A call can fail at any time; its error is the
  text that \<open>to_string\<close> gives, which only \<open>reopen_session\<close> looks at. \<open>token_ok\<close> states what the PKCS#11
  standard promises of the objects of a token and of their attributes, and \<open>gcm_ok\<close> what AES-GCM promises.
  No code runs under the store's mutex that can panic, so the mutex is never poisoned and the store is a
  plain record. Sessions and contexts that go out of scope are closed by their destructors
  (\<open>drop_session\<close>, \<open>drop_context\<close>).

  The lemmas show that the store meets the contract of the trait \<open>ShareStore\<close> while the token answers,
  that a share installed as non-extractable cannot be read back and passes the audit, that the
  extractable variant returns exactly the installed scalar and fails the audit, and which failures lose
  a share or leave a readable copy behind.
\<close>

section \<open>The token\<close>

type_synonym slot = u64
type_synonym session = u64
type_synonym object_handle = u64

datatype object_class = SECRET_KEY | OtherClass u64
datatype key_type = GENERIC_SECRET | AES | OtherKeyType u64

datatype attribute =
    Class object_class
  | KeyType key_type
  | Label bytes
  | Token bool
  | Private bool
  | Sensitive bool
  | Extractable bool
  | Wrap bool
  | Value bytes
  | OtherAttribute u64 bytes

datatype attribute_type =
  TClass | TKeyType | TLabel | TToken | TPrivate | TSensitive | TExtractable | TWrap | TValue | TOther u64

fun type_of_attribute :: "attribute \<Rightarrow> attribute_type" where
  "type_of_attribute (Class _) = TClass"
| "type_of_attribute (KeyType _) = TKeyType"
| "type_of_attribute (Label _) = TLabel"
| "type_of_attribute (Token _) = TToken"
| "type_of_attribute (Private _) = TPrivate"
| "type_of_attribute (Sensitive _) = TSensitive"
| "type_of_attribute (Extractable _) = TExtractable"
| "type_of_attribute (Wrap _) = TWrap"
| "type_of_attribute (Value _) = TValue"
| "type_of_attribute (OtherAttribute t _) = TOther t"

record gcm_params =
  gcm_iv :: bytes
  gcm_aad :: bytes
  gcm_tag_bits :: u64

type_synonym ('a, 'h) call = "'h \<Rightarrow> ('a, string) result \<times> 'h"

record 'h pkcs11 =
  load_module :: "path \<Rightarrow> (unit, 'h) call" \<comment> \<open>\<open>Pkcs11::new\<close>\<close>
  initialize :: "(unit, 'h) call"
  drop_context :: "'h \<Rightarrow> 'h"
  get_all_slots :: "(slot list, 'h) call"
  token_label :: "slot \<Rightarrow> (string, 'h) call" \<comment> \<open>\<open>get_token_info\<close> and \<open>label\<close>\<close>
  open_rw_session :: "slot \<Rightarrow> (session, 'h) call"
  drop_session :: "session \<Rightarrow> 'h \<Rightarrow> 'h"
  login :: "session \<Rightarrow> string \<Rightarrow> (unit, 'h) call"
  find_objects :: "session \<Rightarrow> attribute list \<Rightarrow> (object_handle list, 'h) call"
  create_object :: "session \<Rightarrow> attribute list \<Rightarrow> (object_handle, 'h) call"
  destroy_object :: "session \<Rightarrow> object_handle \<Rightarrow> (unit, 'h) call"
  get_attributes :: "session \<Rightarrow> object_handle \<Rightarrow> attribute_type list \<Rightarrow> (attribute list, 'h) call"
  wrap_key :: "session \<Rightarrow> object_handle \<Rightarrow> object_handle \<Rightarrow> (bytes, 'h) call" \<comment> \<open>with \<open>CKM_AES_KEY_WRAP_PAD\<close>\<close>
  unwrap_key :: "session \<Rightarrow> object_handle \<Rightarrow> bytes \<Rightarrow> attribute list \<Rightarrow> (object_handle, 'h) call"
  hsm_encrypt :: "session \<Rightarrow> gcm_params \<Rightarrow> object_handle \<Rightarrow> bytes \<Rightarrow> (bytes, 'h) call"
  hsm_decrypt :: "session \<Rightarrow> gcm_params \<Rightarrow> object_handle \<Rightarrow> bytes \<Rightarrow> (bytes, 'h) call"

section \<open>The store\<close>

record reopen_inputs =
  ri_slot_label :: string
  ri_user_pin :: string
  ri_wrap_key_label :: string

record pkcs11_share_store =
  p11_session :: session
  p11_wrap_key :: object_handle
  p11_data_dir :: string
  p11_reopen_inputs :: reopen_inputs

text \<open>Every failed call becomes \<open>Error::Config\<close>; \<open>cleanup\<close> runs the destructors of what goes out of scope.\<close>

definition or_config ::
    "('a, string) result \<times> 'h \<Rightarrow> ('h \<Rightarrow> 'h) \<Rightarrow> ('a \<Rightarrow> 'h \<Rightarrow> ('b, validator_error) result \<times> 'h) \<Rightarrow> ('b, validator_error) result \<times> 'h" where
  "or_config call cleanup f = (case call of (r, h) \<Rightarrow> or_return (map_err (\<lambda>_. Config) r) (cleanup h) (\<lambda>x. f x h))"

fun find_slot_in :: "'h pkcs11 \<Rightarrow> string \<Rightarrow> slot list \<Rightarrow> 'h \<Rightarrow> (slot, validator_error) result \<times> 'h" where
  "find_slot_in H slot_label [] h = (Err Config, h)"
| "find_slot_in H slot_label (slot # slots) h =
     (case token_label H slot h of
        (Ok label, h1) \<Rightarrow> if trim label = trim slot_label then (Ok slot, h1) else find_slot_in H slot_label slots h1
      | (_, h1) \<Rightarrow> find_slot_in H slot_label slots h1)"

definition find_slot_by_label :: "'h pkcs11 \<Rightarrow> string \<Rightarrow> 'h \<Rightarrow> (slot, validator_error) result \<times> 'h" where
  "find_slot_by_label H slot_label h = or_config (get_all_slots H h) id (find_slot_in H slot_label)"

definition find_share_handle_inner ::
    "'h pkcs11 \<Rightarrow> session \<Rightarrow> string \<Rightarrow> 'h \<Rightarrow> (object_handle option, validator_error) result \<times> 'h" where
  "find_share_handle_inner H session share_label h =
     or_config (find_objects H session [Class SECRET_KEY, KeyType GENERIC_SECRET, Label (ascii share_label)] h) id
       (\<lambda>handles h1. (Ok (case handles of [] \<Rightarrow> None | x # _ \<Rightarrow> Some x), h1))"

definition find_wrap_key :: "'h pkcs11 \<Rightarrow> session \<Rightarrow> string \<Rightarrow> 'h \<Rightarrow> (object_handle, validator_error) result \<times> 'h" where
  "find_wrap_key H session label h =
     or_config (find_objects H session [Class SECRET_KEY, KeyType AES, Label (ascii label)] h) id
       (\<lambda>handles h1. (case handles of [] \<Rightarrow> Err Config | x # _ \<Rightarrow> Ok x, h1))"

definition Pkcs11ShareStore_open ::
    "'h pkcs11 \<Rightarrow> path \<Rightarrow> string \<Rightarrow> string \<Rightarrow> string \<Rightarrow> string \<Rightarrow> 'h \<Rightarrow> (pkcs11_share_store, validator_error) result \<times> 'h" where
  "Pkcs11ShareStore_open H module_path slot_label user_pin wrap_key_label data_dir h =
     or_config (load_module H module_path h) id (\<lambda>_ h1.
     or_config (initialize H h1) (drop_context H) (\<lambda>_ h2.
     case find_slot_by_label H slot_label h2 of (slot, h3) \<Rightarrow>
     or_return slot (drop_context H h3) (\<lambda>slot.
     or_config (open_rw_session H slot h3) (drop_context H) (\<lambda>session h4.
     or_config (login H session user_pin h4) (\<lambda>h. drop_context H (drop_session H session h)) (\<lambda>_ h5.
     case find_wrap_key H session wrap_key_label h5 of (wk, h6) \<Rightarrow>
     or_return wk (drop_context H (drop_session H session h6)) (\<lambda>wk.
       (Ok \<lparr>p11_session = session, p11_wrap_key = wk, p11_data_dir = data_dir,
          p11_reopen_inputs = \<lparr>ri_slot_label = slot_label, ri_user_pin = user_pin, ri_wrap_key_label = wrap_key_label\<rparr>\<rparr>, h6)))))))"

text \<open>Both installing operations: drop the first object under the label, then create the new one.\<close>

definition install_object ::
    "'h pkcs11 \<Rightarrow> pkcs11_share_store \<Rightarrow> string \<Rightarrow> attribute list \<Rightarrow> 'h \<Rightarrow> (unit, validator_error) result \<times> 'h" where
  "install_object H st share_label template h =
     (case find_share_handle_inner H (p11_session st) share_label h of (existing, h1) \<Rightarrow>
      or_return existing h1 (\<lambda>existing.
      case (case existing of
              None \<Rightarrow> (Ok (), h1)
            | Some x \<Rightarrow> or_config (destroy_object H (p11_session st) x h1) id (\<lambda>_ h2. (Ok (), h2))) of (dropped, h2) \<Rightarrow>
      or_return dropped h2 (\<lambda>_.
      or_config (create_object H (p11_session st) template h2) id (\<lambda>_ h3. (Ok (), h3)))))"

definition share_template :: "bytes \<Rightarrow> string \<Rightarrow> attribute list" where
  "share_template scalar share_label =
     [Class SECRET_KEY, KeyType GENERIC_SECRET, Label (ascii share_label), Token True, Private True,
      Sensitive True, Extractable False, Wrap True, Value scalar]"

definition extractable_template :: "bytes \<Rightarrow> string \<Rightarrow> attribute list" where
  "extractable_template scalar share_label =
     [Class SECRET_KEY, KeyType GENERIC_SECRET, Label (ascii share_label), Token True, Private True,
      Sensitive False, Extractable True, Wrap True, Value scalar]"

definition install_share ::
    "'h pkcs11 \<Rightarrow> pkcs11_share_store \<Rightarrow> bytes \<Rightarrow> string \<Rightarrow> 'h \<Rightarrow> (unit, validator_error) result \<times> 'h" where
  "install_share H st scalar share_label h = install_object H st share_label (share_template scalar share_label) h"

definition install_share_extractable ::
    "'h pkcs11 \<Rightarrow> pkcs11_share_store \<Rightarrow> bytes \<Rightarrow> string \<Rightarrow> 'h \<Rightarrow> (unit, validator_error) result \<times> 'h" where
  "install_share_extractable H st scalar share_label h = install_object H st share_label (extractable_template scalar share_label) h"

definition find_share_handle ::
    "'h pkcs11 \<Rightarrow> pkcs11_share_store \<Rightarrow> string \<Rightarrow> 'h \<Rightarrow> (object_handle option, validator_error) result \<times> 'h" where
  "find_share_handle H st share_label h = find_share_handle_inner H (p11_session st) share_label h"

definition delete_share ::
    "'h pkcs11 \<Rightarrow> pkcs11_share_store \<Rightarrow> string \<Rightarrow> 'h \<Rightarrow> (bool, validator_error) result \<times> 'h" where
  "delete_share H st share_label h =
     (case find_share_handle_inner H (p11_session st) share_label h of (found, h1) \<Rightarrow>
      or_return found h1 (\<lambda>found.
      case found of
        None \<Rightarrow> (Ok False, h1)
      | Some handle \<Rightarrow> or_config (destroy_object H (p11_session st) handle h1) id (\<lambda>_ h2. (Ok True, h2))))"

text \<open>The loop over the attributes: the first value, when it has the right length.\<close>

fun first_value :: "attribute list \<Rightarrow> (bytes option, validator_error) result" where
  "first_value [] = Ok None"
| "first_value (Value bs # as) = (if length bs \<noteq> 32 then Err Config else Ok (Some bs))"
| "first_value (_ # as) = first_value as"

definition transient_template :: "string \<Rightarrow> attribute list" where
  "transient_template share_label =
     [Class SECRET_KEY, KeyType GENERIC_SECRET, Token False, Sensitive False, Extractable True,
      Label (ascii (share_label @ ''-transient''))]"

definition read_share_via_wrap ::
    "'h pkcs11 \<Rightarrow> pkcs11_share_store \<Rightarrow> string \<Rightarrow> 'h \<Rightarrow> (bytes, validator_error) result \<times> 'h" where
  "read_share_via_wrap H st share_label h =
     (case find_share_handle_inner H (p11_session st) share_label h of (found, h1) \<Rightarrow>
      or_return (rbind found (ok_or Config)) h1 (\<lambda>share_handle.
      or_config (wrap_key H (p11_session st) (p11_wrap_key st) share_handle h1) id (\<lambda>wrapped_bytes h2.
      or_config (unwrap_key H (p11_session st) (p11_wrap_key st) wrapped_bytes (transient_template share_label) h2) id (\<lambda>transient h3.
      or_config (get_attributes H (p11_session st) transient [TValue] h3) id (\<lambda>attrs h4.
      let h5 = snd (destroy_object H (p11_session st) transient h4)
      in or_return (first_value attrs) h5 (\<lambda>found. (ok_or Config found, h5)))))))"

fun audit_attributes :: "attribute list \<Rightarrow> (unit, validator_error) result" where
  "audit_attributes [] = Ok ()"
| "audit_attributes (Extractable v # as) = (if v then Err Config else audit_attributes as)"
| "audit_attributes (Sensitive v # as) = (if \<not> v then Err Config else audit_attributes as)"
| "audit_attributes (_ # as) = audit_attributes as"

definition audit_share_posture ::
    "'h pkcs11 \<Rightarrow> pkcs11_share_store \<Rightarrow> string \<Rightarrow> 'h \<Rightarrow> (unit, validator_error) result \<times> 'h" where
  "audit_share_posture H st share_label h =
     (case find_share_handle_inner H (p11_session st) share_label h of (found, h1) \<Rightarrow>
      or_return (rbind found (ok_or Config)) h1 (\<lambda>handle.
      or_config (get_attributes H (p11_session st) handle [TExtractable, TSensitive] h1) id (\<lambda>attrs h2. (audit_attributes attrs, h2))))"

definition reopen_session :: "'h pkcs11 \<Rightarrow> pkcs11_share_store \<Rightarrow> 'h \<Rightarrow> (unit, validator_error) result \<times> pkcs11_share_store \<times> 'h" where
  "reopen_session H st h =
     (let ri = p11_reopen_inputs st
      in case find_slot_by_label H (ri_slot_label ri) h of (slot, h1) \<Rightarrow>
         or_return slot (st, h1) (\<lambda>slot.
         case open_rw_session H slot h1 of (session, h2) \<Rightarrow>
         or_return (map_err (\<lambda>_. Config) session) (st, h2) (\<lambda>session.
         case login H session (ri_user_pin ri) h2 of (logged_in, h3) \<Rightarrow>
         or_return (case logged_in of
                      Err s \<Rightarrow> if \<not> str_contains ''USER_ALREADY_LOGGED_IN'' s \<and> \<not> str_contains ''already logged into the session'' s
                              then Err Config else Ok ()
                    | Ok _ \<Rightarrow> Ok () | Panic \<Rightarrow> Panic) (st, drop_session H session h3) (\<lambda>_.
         case find_wrap_key H session (ri_wrap_key_label ri) h3 of (wk, h4) \<Rightarrow>
         or_return wk (st, drop_session H session h4) (\<lambda>wk.
           (Ok (), st\<lparr>p11_session := session, p11_wrap_key := wk\<rparr>, drop_session H (p11_session st) h4))))))"

section \<open>Sealed share files\<close>

definition IV_LEN :: nat where
  "IV_LEN = 12"

definition gcm_for :: "bytes \<Rightarrow> gcm_params" where
  "gcm_for iv = \<lparr>gcm_iv = iv, gcm_aad = [], gcm_tag_bits = 16 * 8\<rparr>"

definition aes_encrypt :: "'h pkcs11 \<Rightarrow> pkcs11_share_store \<Rightarrow> bytes \<Rightarrow> bytes \<Rightarrow> 'h \<Rightarrow> (bytes, validator_error) result \<times> 'h" where
  "aes_encrypt H st iv plaintext h =
     or_config (hsm_encrypt H (p11_session st) (gcm_for iv) (p11_wrap_key st) plaintext h) id (\<lambda>ct h1. (Ok (iv @ ct), h1))"

definition aes_decrypt :: "'h pkcs11 \<Rightarrow> pkcs11_share_store \<Rightarrow> bytes \<Rightarrow> 'h \<Rightarrow> (bytes, validator_error) result \<times> 'h" where
  "aes_decrypt H st sealed h =
     (if length sealed < IV_LEN + 16 then (Err StorageCorruption, h)
      else case hsm_decrypt H (p11_session st) (gcm_for (take IV_LEN sealed)) (p11_wrap_key st) (drop IV_LEN sealed) h of
             (r, h1) \<Rightarrow> (map_err (\<lambda>_. AeadFailure) r, h1))"

definition Pkcs11ShareStore_load ::
    "'h pkcs11 \<Rightarrow> libs \<Rightarrow> pkcs11_share_store \<Rightarrow> disk \<Rightarrow> bytes \<Rightarrow> 'h \<Rightarrow> (validator_share_record option, validator_error) result \<times> 'h" where
  "Pkcs11ShareStore_load H X st fs keyset_id h =
     (case map_of fs (share_path X (p11_data_dir st) keyset_id) of
        None \<Rightarrow> (Ok None, h)
      | Some sealed \<Rightarrow>
          (case aes_decrypt H st sealed h of (plaintext, h1) \<Rightarrow>
             (rbind plaintext (\<lambda>plaintext. rbind (ok_or ShareDecode (try_from_slice de_share_record plaintext)) (\<lambda>rec. Ok (Some rec))), h1)))"

definition Pkcs11ShareStore_save ::
    "'h pkcs11 \<Rightarrow> libs \<Rightarrow> disk_fault \<Rightarrow> bytes \<Rightarrow> pkcs11_share_store \<Rightarrow> validator_share_record \<Rightarrow> disk \<times> 'h
     \<Rightarrow> (unit, validator_error) result \<times> disk \<times> 'h" where
  "Pkcs11ShareStore_save H X fault iv st record = (\<lambda>(fs, h).
     (case aes_encrypt H st iv (ser_share_record record) h of (sealed, h1) \<Rightarrow>
      or_return sealed (fs, h1) (\<lambda>sealed.
      let path = share_path X (p11_data_dir st) (sr_keyset_id record); tmp = tmp_path path
      in case fault of
           WriteFault partial \<Rightarrow> (Err (Io IoOther), hm_insert fs tmp partial, h1)
         | RenameFault \<Rightarrow> (Err (Io IoOther), hm_insert fs tmp sealed, h1)
         | NoFault \<Rightarrow> (Ok (), hm_insert (snd (hm_remove (hm_insert fs tmp sealed) tmp)) path sealed, h1))))"

text \<open>Entries that are no share files are passed over, and so are unreadable shares.\<close>

fun list_shares :: "'h pkcs11 \<Rightarrow> pkcs11_share_store \<Rightarrow> disk \<Rightarrow> 'h \<Rightarrow> validator_share_record list \<times> 'h" where
  "list_shares H st [] h = ([], h)"
| "list_shares H st ((path, sealed) # entries) h =
     (if \<not> is_share_file (p11_data_dir st) path then list_shares H st entries h
      else
        (let (plaintext, h1) = aes_decrypt H st sealed h; (recs, h2) = list_shares H st entries h1
         in case plaintext of
              Ok pt \<Rightarrow> (case try_from_slice de_share_record pt of Some rec \<Rightarrow> (rec # recs, h2) | None \<Rightarrow> (recs, h2))
            | _ \<Rightarrow> (recs, h2)))"

definition Pkcs11ShareStore_list ::
    "'h pkcs11 \<Rightarrow> pkcs11_share_store \<Rightarrow> bool \<Rightarrow> disk \<Rightarrow> 'h \<Rightarrow> (validator_share_record list, validator_error) result \<times> 'h" where
  "Pkcs11ShareStore_list H st dir_readable fs h =
     (if \<not> dir_readable then (Err (Io IoOther), h) else (let (recs, h1) = list_shares H st fs h in (Ok recs, h1)))"

section \<open>What the token promises\<close>

definition value_readable :: "attribute list \<Rightarrow> bool" where
  "value_readable as \<longleftrightarrow> Sensitive True \<notin> set as \<and> Extractable False \<notin> set as"

definition extends :: "attribute list \<Rightarrow> attribute list \<Rightarrow> bool" where
  "extends template ex \<longleftrightarrow> type_of_attribute ` set template \<inter> type_of_attribute ` set ex = {}"

text \<open>
  The PKCS#11 standard on objects, with \<open>objs\<close> the objects of a token state: a search finds the objects
  that have all attributes of the template; a new object has the attributes of its template and
  possibly attributes of other types; a value is shown only when the object is neither sensitive nor
  unextractable; an unextractable object cannot be wrapped; unwrapping what was just wrapped gives a
  new object with the same value. A failed call changes no object.
\<close>

definition search_ok :: "'h pkcs11 \<Rightarrow> ('h \<Rightarrow> object_handle \<Rightarrow> attribute list option) \<Rightarrow> bool" where
  "search_ok H objs \<longleftrightarrow> (\<forall>s t h r h'. find_objects H s t h = (r, h') \<longrightarrow> objs h' = objs h \<and>
     (\<forall>xs. r = Ok xs \<longrightarrow> set xs = {x. \<exists>as. objs h x = Some as \<and> set t \<subseteq> set as}))"

definition create_ok :: "'h pkcs11 \<Rightarrow> ('h \<Rightarrow> object_handle \<Rightarrow> attribute list option) \<Rightarrow> bool" where
  "create_ok H objs \<longleftrightarrow> (\<forall>s t h r h'. create_object H s t h = (r, h') \<longrightarrow>
     (case r of Ok x \<Rightarrow> objs h x = None \<and> (\<exists>ex. extends t ex \<and> objs h' = (objs h)(x \<mapsto> t @ ex)) | _ \<Rightarrow> objs h' = objs h))"

definition destroy_ok :: "'h pkcs11 \<Rightarrow> ('h \<Rightarrow> object_handle \<Rightarrow> attribute list option) \<Rightarrow> bool" where
  "destroy_ok H objs \<longleftrightarrow> (\<forall>s x h r h'. destroy_object H s x h = (r, h') \<longrightarrow>
     objs h' = (case r of Ok _ \<Rightarrow> (objs h)(x := None) | _ \<Rightarrow> objs h))"

definition attributes_ok :: "'h pkcs11 \<Rightarrow> ('h \<Rightarrow> object_handle \<Rightarrow> attribute list option) \<Rightarrow> bool" where
  "attributes_ok H objs \<longleftrightarrow> (\<forall>s x ts h r h'. get_attributes H s x ts h = (r, h') \<longrightarrow> objs h' = objs h \<and>
     (\<forall>attrs. r = Ok attrs \<longrightarrow> (\<exists>as. objs h x = Some as \<and>
        set attrs = {a \<in> set as. type_of_attribute a \<in> set ts \<and> (type_of_attribute a = TValue \<longrightarrow> value_readable as)})))"

definition wrap_ok :: "'h pkcs11 \<Rightarrow> ('h \<Rightarrow> object_handle \<Rightarrow> attribute list option) \<Rightarrow> bool" where
  "wrap_ok H objs \<longleftrightarrow> (\<forall>s k x h r h'. wrap_key H s k x h = (r, h') \<longrightarrow> objs h' = objs h \<and>
     (\<forall>w. r = Ok w \<longrightarrow> (\<exists>as. objs h x = Some as \<and> Extractable False \<notin> set as)))"

definition unwrap_ok :: "'h pkcs11 \<Rightarrow> ('h \<Rightarrow> object_handle \<Rightarrow> attribute list option) \<Rightarrow> bool" where
  "unwrap_ok H objs \<longleftrightarrow> (\<forall>s k x t h w h1 as r h2. wrap_key H s k x h = (Ok w, h1) \<longrightarrow> objs h x = Some as \<longrightarrow>
     TValue \<notin> type_of_attribute ` set t \<longrightarrow> unwrap_key H s k w t h1 = (r, h2) \<longrightarrow>
     (case r of Ok y \<Rightarrow> objs h1 y = None \<and> (\<exists>ex. extends t ex \<and> objs h2 = (objs h1)(y \<mapsto> t @ ex) \<and>
         (\<forall>v. Value v \<in> set ex \<longleftrightarrow> Value v \<in> set as)) | _ \<Rightarrow> objs h2 = objs h1))"

definition token_ok :: "'h pkcs11 \<Rightarrow> ('h \<Rightarrow> object_handle \<Rightarrow> attribute list option) \<Rightarrow> bool" where
  "token_ok H objs \<longleftrightarrow> search_ok H objs \<and> create_ok H objs \<and> destroy_ok H objs \<and> attributes_ok H objs \<and> wrap_ok H objs \<and> unwrap_ok H objs"

lemma token_laws:
  assumes ok: "token_ok H objs"
  shows "find_objects H s t h = (rf, h') \<Longrightarrow> objs h' = objs h"
    and "find_objects H s t h = (Ok xs, h') \<Longrightarrow> set xs = {x. \<exists>as. objs h x = Some as \<and> set t \<subseteq> set as}"
    and "create_object H s t h = (Ok x, h') \<Longrightarrow> objs h x = None \<and> (\<exists>ex. extends t ex \<and> objs h' = (objs h)(x \<mapsto> t @ ex))"
    and "create_object H s t h = (rc, h') \<Longrightarrow> \<forall>x. rc \<noteq> Ok x \<Longrightarrow> objs h' = objs h"
    and "destroy_object H s x h = (Ok u, h') \<Longrightarrow> objs h' = (objs h)(x := None)"
    and "destroy_object H s x h = (rd, h') \<Longrightarrow> \<forall>u. rd \<noteq> Ok u \<Longrightarrow> objs h' = objs h"
    and "get_attributes H s x ts h = (rg, h') \<Longrightarrow> objs h' = objs h"
    and "get_attributes H s x ts h = (Ok attrs, h') \<Longrightarrow> \<exists>as. objs h x = Some as \<and>
           set attrs = {a \<in> set as. type_of_attribute a \<in> set ts \<and> (type_of_attribute a = TValue \<longrightarrow> value_readable as)}"
    and "wrap_key H s k x h = (rw, h') \<Longrightarrow> objs h' = objs h"
    and "wrap_key H s k x h = (Ok w, h') \<Longrightarrow> \<exists>as. objs h x = Some as \<and> Extractable False \<notin> set as"
    and "wrap_key H s k x h = (Ok w, h1) \<Longrightarrow> objs h x = Some as \<Longrightarrow> TValue \<notin> type_of_attribute ` set t \<Longrightarrow>
         unwrap_key H s k w t h1 = (Ok y, h2) \<Longrightarrow> objs h1 y = None \<and> (\<exists>ex. extends t ex \<and> objs h2 = (objs h1)(y \<mapsto> t @ ex) \<and>
            (\<forall>v. Value v \<in> set ex \<longleftrightarrow> Value v \<in> set as))"
proof -
  have laws: "search_ok H objs" "create_ok H objs" "destroy_ok H objs" "attributes_ok H objs" "wrap_ok H objs" "unwrap_ok H objs"
    using ok by (simp_all add: token_ok_def)
  show "find_objects H s t h = (rf, h') \<Longrightarrow> objs h' = objs h"
    "find_objects H s t h = (Ok xs, h') \<Longrightarrow> set xs = {x. \<exists>as. objs h x = Some as \<and> set t \<subseteq> set as}"
    using laws(1) unfolding search_ok_def by simp_all
  show "create_object H s t h = (Ok x, h') \<Longrightarrow> objs h x = None \<and> (\<exists>ex. extends t ex \<and> objs h' = (objs h)(x \<mapsto> t @ ex))"
    using laws(2) [unfolded create_ok_def, rule_format, of s t h "Ok x" h'] by simp
  show "create_object H s t h = (rc, h') \<Longrightarrow> \<forall>x. rc \<noteq> Ok x \<Longrightarrow> objs h' = objs h"
    using laws(2) [unfolded create_ok_def, rule_format, of s t h rc h'] by (cases rc) simp_all
  show "destroy_object H s x h = (Ok u, h') \<Longrightarrow> objs h' = (objs h)(x := None)"
    using laws(3) [unfolded destroy_ok_def, rule_format, of s x h "Ok u" h'] by simp
  show "destroy_object H s x h = (rd, h') \<Longrightarrow> \<forall>u. rd \<noteq> Ok u \<Longrightarrow> objs h' = objs h"
    using laws(3) [unfolded destroy_ok_def, rule_format, of s x h rd h'] by (cases rd) simp_all
  show "get_attributes H s x ts h = (rg, h') \<Longrightarrow> objs h' = objs h"
    "get_attributes H s x ts h = (Ok attrs, h') \<Longrightarrow> \<exists>as. objs h x = Some as \<and>
       set attrs = {a \<in> set as. type_of_attribute a \<in> set ts \<and> (type_of_attribute a = TValue \<longrightarrow> value_readable as)}"
    using laws(4) unfolding attributes_ok_def by simp_all
  show "wrap_key H s k x h = (rw, h') \<Longrightarrow> objs h' = objs h"
    "wrap_key H s k x h = (Ok w, h') \<Longrightarrow> \<exists>as. objs h x = Some as \<and> Extractable False \<notin> set as"
    using laws(5) unfolding wrap_ok_def by simp_all
  show "wrap_key H s k x h = (Ok w, h1) \<Longrightarrow> objs h x = Some as \<Longrightarrow> TValue \<notin> type_of_attribute ` set t \<Longrightarrow>
      unwrap_key H s k w t h1 = (Ok y, h2) \<Longrightarrow> objs h1 y = None \<and> (\<exists>ex. extends t ex \<and> objs h2 = (objs h1)(y \<mapsto> t @ ex) \<and>
        (\<forall>v. Value v \<in> set ex \<longleftrightarrow> Value v \<in> set as))"
    using laws(6) [unfolded unwrap_ok_def, rule_format, of s k x h w h1 as t "Ok y" h2] by simp
qed

lemma or_config_Ok: "or_config c cleanup f = (Ok y, h') \<longleftrightarrow> (\<exists>x h. c = (Ok x, h) \<and> f x h = (Ok y, h'))"
  by (cases c) (auto simp: or_config_def)

text \<open>The objects a search for a share looks at.\<close>

definition share_query :: "string \<Rightarrow> attribute list" where
  "share_query l = [Class SECRET_KEY, KeyType GENERIC_SECRET, Label (ascii l)]"

definition labelled :: "(object_handle \<Rightarrow> attribute list option) \<Rightarrow> string \<Rightarrow> object_handle set" where
  "labelled os l = {x. \<exists>as. os x = Some as \<and> set (share_query l) \<subseteq> set as}"

lemma find_share_spec:
  assumes "token_ok H objs" and "find_share_handle_inner H s l h = (r, h')"
  shows "objs h' = objs h" and "r = Ok None \<Longrightarrow> labelled (objs h) l = {}" and "r = Ok (Some x) \<Longrightarrow> x \<in> labelled (objs h) l"
proof -
  obtain q h1 where f: "find_objects H s (share_query l) h = (q, h1)" by force
  then show "objs h' = objs h"
    using assms(2) token_laws(1) [OF assms(1) f] by (cases q) (auto simp: find_share_handle_inner_def or_config_def share_query_def)
  show "r = Ok None \<Longrightarrow> labelled (objs h) l = {}" "r = Ok (Some x) \<Longrightarrow> x \<in> labelled (objs h) l"
    using assms(2) token_laws(2) [OF assms(1), of s "share_query l" h] f
    by (cases q; auto simp: find_share_handle_inner_def or_config_def share_query_def labelled_def split: list.splits)+
qed

text \<open>
  Installing a share when at most one object carries its label: afterwards exactly one does, with the
  attributes of the template. When it fails, the old share is untouched or gone.
\<close>

lemma install_effect:
  assumes ok: "token_ok H objs" and one: "labelled (objs h) l \<subseteq> {x}" and t: "set (share_query l) \<subseteq> set t"
    and run: "install_object H st l t h = (r, h')"
  shows "r = Ok () \<Longrightarrow> \<exists>y ex. extends t ex \<and> labelled (objs h') l = {y} \<and> objs h' = (objs h |` (- labelled (objs h) l))(y \<mapsto> t @ ex)"
    and "r \<noteq> Ok () \<Longrightarrow> objs h' = objs h \<or> objs h' = objs h |` (- labelled (objs h) l)"
proof -
  let ?rest = "objs h |` (- labelled (objs h) l)"
  obtain existing h1 where e: "find_share_handle_inner H (p11_session st) l h = (existing, h1)" by force
  note found = find_share_spec [OF ok e]
  define step where "step = (case existing of Ok None \<Rightarrow> (Ok (), h1)
    | Ok (Some x) \<Rightarrow> or_config (destroy_object H (p11_session st) x h1) id (\<lambda>_ h2. (Ok (), h2)) | Err e \<Rightarrow> (Err e, h1) | Panic \<Rightarrow> (Panic, h1))"
  obtain dropped h2 where d: "step = (dropped, h2)" by force
  have gone: "(objs h)(y := None) = ?rest" if "y \<in> labelled (objs h) l" for y
    using that one by (auto simp: fun_eq_iff restrict_map_def)
  have h2: "if dropped = Ok () then objs h2 = ?rest else objs h2 = objs h"
  proof (cases existing)
    case (Ok found)
    show ?thesis
    proof (cases found)
      case None
      then show ?thesis using d Ok found(1,2) by (auto simp: step_def restrict_map_def fun_eq_iff)
    next
      case (Some y)
      obtain q h3 where q: "destroy_object H (p11_session st) y h1 = (q, h3)" by force
      then show ?thesis
        using d Ok Some found(1) gone [OF found(3)] token_laws(6) [OF ok q] token_laws(5) [OF ok, of "p11_session st" y h1 "()" h3] q by (cases q) (auto simp: step_def or_config_def)
    qed
  qed (use d found(1) in \<open>auto simp: step_def\<close>)
  have run': "or_return dropped h2 (\<lambda>_. or_config (create_object H (p11_session st) t h2) id (\<lambda>_ h3. (Ok (), h3))) = (r, h')"
    using run e d by (cases existing) (auto simp: install_object_def step_def split: option.splits)
  obtain c h3 where c: "create_object H (p11_session st) t h2 = (c, h3)" by force
  show "r = Ok () \<Longrightarrow> \<exists>y ex. extends t ex \<and> labelled (objs h') l = {y} \<and> objs h' = ?rest(y \<mapsto> t @ ex)"
  proof -
    assume "r = Ok ()"
    then obtain y where y: "c = Ok y" "h' = h3" "dropped = Ok ()" using run' c by (auto simp: or_config_Ok)
    then obtain ex where ex: "extends t ex" "objs h' = ?rest(y \<mapsto> t @ ex)" using token_laws(3) [OF ok] c h2 by fastforce
    moreover have "labelled (?rest(y \<mapsto> t @ ex)) l = {y}"
      using t by (auto simp: labelled_def restrict_map_def split: if_splits)
    ultimately show ?thesis by auto
  qed
  show "r \<noteq> Ok () \<Longrightarrow> objs h' = objs h \<or> objs h' = ?rest"
    using run' c h2 token_laws(4) [OF ok c] by (cases dropped; cases c) (auto simp: or_config_def)
qed

lemma first_value_Some: "first_value attrs = Ok (Some v) \<Longrightarrow> Value v \<in> set attrs \<and> length v = 32"
  by (induction attrs rule: first_value.induct) (auto split: if_splits)

lemma audit_attributes_iff:
  "audit_attributes attrs = (if Extractable True \<in> set attrs \<or> Sensitive False \<in> set attrs then Err Config else Ok ())"
  by (induction attrs rule: audit_attributes.induct) auto

text \<open>What a successful read says about the share: it is extractable, and the result is its value.\<close>

lemma read_share_spec:
  assumes ok: "token_ok H objs" and run: "read_share_via_wrap H st l h = (Ok v, h')"
  shows "\<exists>x as. x \<in> labelled (objs h) l \<and> objs h x = Some as \<and> Extractable False \<notin> set as \<and> Value v \<in> set as \<and> length v = 32"
proof -
  obtain x h1 w h2 y h3 attrs h4 where f: "find_share_handle_inner H (p11_session st) l h = (Ok (Some x), h1)"
    and w: "wrap_key H (p11_session st) (p11_wrap_key st) x h1 = (Ok w, h2)"
    and u: "unwrap_key H (p11_session st) (p11_wrap_key st) w (transient_template l) h2 = (Ok y, h3)"
    and g: "get_attributes H (p11_session st) y [TValue] h3 = (Ok attrs, h4)" and v: "first_value attrs = Ok (Some v)"
    using run by (auto simp: read_share_via_wrap_def or_config_Ok Let_def split: prod.splits)
  obtain as where as: "objs h1 x = Some as" "Extractable False \<notin> set as" using token_laws(10) [OF ok w] by blast
  have "TValue \<notin> type_of_attribute ` set (transient_template l)" by (simp add: transient_template_def)
  then obtain ex where ex: "objs h3 = (objs h2)(y \<mapsto> transient_template l @ ex)" "\<forall>v. Value v \<in> set ex \<longleftrightarrow> Value v \<in> set as"
    using token_laws(11) [OF ok w as(1) _ u] by blast
  have "Value v \<in> set (transient_template l @ ex)" using first_value_Some [OF v] token_laws(8) [OF ok g] ex(1) by auto
  then have "Value v \<in> set as" using ex(2) by (auto simp: transient_template_def)
  then show ?thesis using as find_share_spec(1,3) [OF ok f] first_value_Some [OF v] by auto
qed

text \<open>A read whose attribute query fails leaves an extractable copy of the share on the token.\<close>

lemma failed_read_leaves_copy:
  assumes ok: "token_ok H objs" and f: "find_share_handle_inner H (p11_session st) l h = (Ok (Some x), h1)" and x: "objs h1 x = Some as"
    and w: "wrap_key H (p11_session st) (p11_wrap_key st) x h1 = (Ok w, h2)"
    and u: "unwrap_key H (p11_session st) (p11_wrap_key st) w (transient_template l) h2 = (Ok y, h3)"
    and g: "get_attributes H (p11_session st) y [TValue] h3 = (Err e, h4)"
  shows "\<exists>copy. read_share_via_wrap H st l h = (Err Config, h4) \<and> objs h y = None \<and> objs h4 y = Some copy \<and>
    Extractable True \<in> set copy \<and> (\<forall>v. Value v \<in> set as \<longrightarrow> Value v \<in> set copy)"
proof -
  have "TValue \<notin> type_of_attribute ` set (transient_template l)" by (simp add: transient_template_def)
  then obtain ex where "objs h2 y = None" "objs h3 = (objs h2)(y \<mapsto> transient_template l @ ex)" "\<forall>v. Value v \<in> set ex \<longleftrightarrow> Value v \<in> set as"
    using token_laws(11) [OF ok w x _ u] by blast
  moreover have "read_share_via_wrap H st l h = (Err Config, h4)"
    using f w u g by (simp add: read_share_via_wrap_def or_config_def)
  moreover have "Extractable True \<in> set (transient_template l @ ex)" by (simp add: transient_template_def)
  ultimately show ?thesis
    using find_share_spec(1) [OF ok f] token_laws(9) [OF ok w] token_laws(7) [OF ok g] by auto
qed

section \<open>Sealed files\<close>

text \<open>
  AES-GCM inside the token: \<open>key_of\<close> gives the secret of a key object, which encryption and decryption do
  not change; they compute \<open>enc\<close> and \<open>dec\<close> of it when they answer.
\<close>

definition gcm_ok ::
    "'h pkcs11 \<Rightarrow> ('h \<Rightarrow> object_handle \<Rightarrow> bytes option) \<Rightarrow> (bytes \<Rightarrow> gcm_params \<Rightarrow> bytes \<Rightarrow> bytes) \<Rightarrow> (bytes \<Rightarrow> gcm_params \<Rightarrow> bytes \<Rightarrow> bytes option) \<Rightarrow> bool" where
  "gcm_ok H key_of enc dec \<longleftrightarrow>
     (\<forall>s p x m h r h'. hsm_encrypt H s p x m h = (r, h') \<longrightarrow> key_of h' = key_of h \<and>
        (\<forall>c. r = Ok c \<longrightarrow> (\<exists>k. key_of h x = Some k \<and> c = enc k p m))) \<and>
     (\<forall>s p x c h r h'. hsm_decrypt H s p x c h = (r, h') \<longrightarrow> key_of h' = key_of h \<and> r \<noteq> Panic \<and>
        (\<forall>m. r = Ok m \<longrightarrow> (\<exists>k. key_of h x = Some k \<and> dec k p c = Some m))) \<and>
     (\<forall>k p m. length (gcm_iv p) = 12 \<longrightarrow> gcm_tag_bits p = 128 \<longrightarrow> dec k p (enc k p m) = Some m \<and> length (enc k p m) = length m + 16)"

lemma gcm_laws:
  assumes "gcm_ok H key_of enc dec"
  shows "hsm_encrypt H s p x m h = (Ok c, h') \<Longrightarrow> key_of h' = key_of h \<and> (\<exists>k. key_of h x = Some k \<and> c = enc k p m)"
    and "hsm_decrypt H s p x c h = (r, h') \<Longrightarrow> r \<noteq> Panic \<and> (\<forall>m. r = Ok m \<longrightarrow> (\<exists>k. key_of h x = Some k \<and> dec k p c = Some m))"
    and "length (gcm_iv p) = 12 \<Longrightarrow> gcm_tag_bits p = 128 \<Longrightarrow> dec k p (enc k p m) = Some m \<and> length (enc k p m) = length m + 16"
  using assms unfolding gcm_ok_def by simp_all

lemma save_Ok_sealed:
  assumes ok: "gcm_ok H key_of enc dec" and iv: "length iv = 12" and run: "Pkcs11ShareStore_save H X fault iv st r (fs, h) = (Ok (), fs', h')"
  shows "\<exists>k. key_of h (p11_wrap_key st) = Some k \<and> key_of h' = key_of h \<and>
    map_of fs' (share_path X (p11_data_dir st) (sr_keyset_id r)) = Some (iv @ enc k (gcm_for iv) (ser_share_record r))"
proof -
  obtain c where c: "hsm_encrypt H (p11_session st) (gcm_for iv) (p11_wrap_key st) (ser_share_record r) h = (Ok c, h')"
    and w: "map_of fs' (share_path X (p11_data_dir st) (sr_keyset_id r)) = Some (iv @ c)"
    using run by (auto simp: Pkcs11ShareStore_save_def aes_encrypt_def or_config_def Let_def split: prod.splits disk_fault.splits)
  then show ?thesis using gcm_laws(1) [OF ok c] by auto
qed

lemma save_keeps_files:
  assumes "Pkcs11ShareStore_save H X fault iv st r (fs, h) = (out, fs', h')"
  shows "libs_ok X \<Longrightarrow> k \<noteq> sr_keyset_id r \<Longrightarrow> map_of fs' (share_path X (p11_data_dir st) k) = map_of fs (share_path X (p11_data_dir st) k)"
    and "out \<noteq> Ok () \<Longrightarrow> map_of fs' (share_path X (p11_data_dir st) k) = map_of fs (share_path X (p11_data_dir st) k)"
proof -
  obtain q h1 where q: "hsm_encrypt H (p11_session st) (gcm_for iv) (p11_wrap_key st) (ser_share_record r) h = (q, h1)" by force
  then show "libs_ok X \<Longrightarrow> k \<noteq> sr_keyset_id r \<Longrightarrow> map_of fs' (share_path X (p11_data_dir st) k) = map_of fs (share_path X (p11_data_dir st) k)"
    "out \<noteq> Ok () \<Longrightarrow> map_of fs' (share_path X (p11_data_dir st) k) = map_of fs (share_path X (p11_data_dir st) k)"
    using assms
    by (cases q; cases fault; simp add: Pkcs11ShareStore_save_def aes_encrypt_def or_config_def Let_def share_path_simps; force simp: share_path_simps)+
qed

text \<open>
  A saved share loads as saved from every later state of the token that still has the wrapping key, when
  the token answers; a token that does not answer gives an error and never another share.
\<close>

lemma saved_share_loads:
  assumes ok: "gcm_ok H key_of enc dec" and iv: "length iv = 12" and wf: "share_record_wf r"
    and save: "Pkcs11ShareStore_save H X fault iv st r (fs, h) = (Ok (), fs', h')" and key: "key_of h2 (p11_wrap_key st) = key_of h (p11_wrap_key st)"
    and load: "Pkcs11ShareStore_load H X st fs' (sr_keyset_id r) h2 = (out, h3)"
  shows "out = Ok (Some r) \<or> out = Err AeadFailure"
proof -
  obtain k where k: "key_of h (p11_wrap_key st) = Some k"
      "map_of fs' (share_path X (p11_data_dir st) (sr_keyset_id r)) = Some (iv @ enc k (gcm_for iv) (ser_share_record r))"
    using save_Ok_sealed [OF ok iv save] by blast
  have dec: "dec k (gcm_for iv) (enc k (gcm_for iv) m) = Some m" "length (enc k (gcm_for iv) m) = length m + 16" for m
    using gcm_laws(3) [OF ok] iv by (simp_all add: gcm_for_def)
  obtain q h4 where q: "hsm_decrypt H (p11_session st) (gcm_for iv) (p11_wrap_key st) (enc k (gcm_for iv) (ser_share_record r)) h2 = (q, h4)" by force
  have "q = Ok m \<Longrightarrow> m = ser_share_record r" for m using gcm_laws(2) [OF ok q] key k(1) dec(1) by auto
  then show ?thesis
    using load k(2) q iv dec(2) gcm_laws(2) [OF ok q] share_record_codec.try_from_slice_ser [OF wf]
    by (cases q) (auto simp: Pkcs11ShareStore_load_def aes_decrypt_def IV_LEN_def)
qed

text \<open>
  The contract of the trait holds while the token is up: its state does not change under encryption and
  decryption, and it decrypts what the key can decrypt.
\<close>

definition token_steady :: "'h pkcs11 \<Rightarrow> ('h \<Rightarrow> object_handle \<Rightarrow> bytes option) \<Rightarrow> (bytes \<Rightarrow> gcm_params \<Rightarrow> bytes \<Rightarrow> bytes option) \<Rightarrow> bool" where
  "token_steady H key_of dec \<longleftrightarrow>
     (\<forall>s p x m h. snd (hsm_encrypt H s p x m h) = h) \<and> (\<forall>s p x c h. snd (hsm_decrypt H s p x c h) = h) \<and>
     (\<forall>s p x c h k m. key_of h x = Some k \<longrightarrow> dec k p c = Some m \<longrightarrow> fst (hsm_decrypt H s p x c h) = Ok m)"

definition token_up :: "'h pkcs11 \<Rightarrow> bool" where
  "token_up H \<longleftrightarrow> (\<exists>key_of enc dec. gcm_ok H key_of enc dec \<and> token_steady H key_of dec)"

lemma save_steady: "token_up H \<Longrightarrow> Pkcs11ShareStore_save H X fault iv st r (fs, h) = (out, fs', h') \<Longrightarrow> h' = h"
proof -
  obtain q h1 where q: "hsm_encrypt H (p11_session st) (gcm_for iv) (p11_wrap_key st) (ser_share_record r) h = (q, h1)" by force
  assume "token_up H" and "Pkcs11ShareStore_save H X fault iv st r (fs, h) = (out, fs', h')"
  moreover from this(1) q have "h1 = h" unfolding token_up_def token_steady_def by (metis snd_conv)
  ultimately show ?thesis
    using q by (cases q; cases fault) (auto simp: Pkcs11ShareStore_save_def aes_encrypt_def or_config_def Let_def)
qed

lemma load_cong:
  "map_of fs (share_path X (p11_data_dir st) k) = map_of fs' (share_path X (p11_data_dir st) k) \<Longrightarrow>
   Pkcs11ShareStore_load H X st fs k h = Pkcs11ShareStore_load H X st fs' k h"
  by (simp add: Pkcs11ShareStore_load_def)

lemma steady_load:
  assumes up: "token_up H" and iv: "length iv = 12" and wf: "share_record_wf r"
    and save: "Pkcs11ShareStore_save H X fault iv st r (fs, h) = (Ok (), fs', h')"
  shows "fst (Pkcs11ShareStore_load H X st fs' (sr_keyset_id r) h') = Ok (Some r)"
proof -
  obtain key_of enc dec where ok: "gcm_ok H key_of enc dec" and st: "token_steady H key_of dec" using up by (auto simp: token_up_def)
  obtain k where k: "key_of h' (p11_wrap_key st) = Some k"
      "map_of fs' (share_path X (p11_data_dir st) (sr_keyset_id r)) = Some (iv @ enc k (gcm_for iv) (ser_share_record r))"
    using save_Ok_sealed [OF ok iv save] by auto
  have dec: "dec k (gcm_for iv) (enc k (gcm_for iv) m) = Some m" "length (enc k (gcm_for iv) m) = length m + 16" for m
    using gcm_laws(3) [OF ok] iv by (simp_all add: gcm_for_def)
  have "fst (hsm_decrypt H (p11_session st) (gcm_for iv) (p11_wrap_key st) (enc k (gcm_for iv) (ser_share_record r)) h') = Ok (ser_share_record r)"
    using st k(1) dec(1) unfolding token_steady_def by blast
  then show ?thesis
    using k(2) iv dec(2) share_record_codec.try_from_slice_ser [OF wf]
    by (auto simp: Pkcs11ShareStore_load_def aes_decrypt_def IV_LEN_def split: prod.splits)
qed

interpretation pkcs11_store: share_store "\<lambda>(H, X, st, fs, h). libs_ok X \<and> token_up H"
    "\<lambda>(H, X, st, fs, h) k. fst (Pkcs11ShareStore_load H X st fs k h)"
    "\<lambda>(fault, iv) (H, X, st, fs, h) r. let (out, fs', h') = Pkcs11ShareStore_save H X fault iv st r (fs, h) in (out, (H, X, st, fs', h'))"
    "\<lambda>(fault, iv). length iv = 12"
proof unfold_locales
  fix st :: "'a pkcs11 \<times> libs \<times> pkcs11_share_store \<times> disk \<times> 'a" and f :: "disk_fault \<times> bytes" and r st' out k
  obtain H X p fs h fault iv where st: "st = (H, X, p, fs, h)" "f = (fault, iv)" by (cases st; cases f) auto
  obtain out' fs' h' where save: "Pkcs11ShareStore_save H X fault iv p r (fs, h) = (out', fs', h')" by (metis prod.exhaust)
  let ?ok = "\<lambda>(H, X, st, fs, h). libs_ok X \<and> token_up H" and ?load = "\<lambda>(H, X, st, fs, h) k. fst (Pkcs11ShareStore_load H X st fs k h)"
  let ?save = "\<lambda>(fault, iv) (H, X, st, fs, h) r. let (out, fs', h') = Pkcs11ShareStore_save H X fault iv st r (fs, h) in (out, (H, X, st, fs', h'))"
  show "?ok st \<Longrightarrow> (\<lambda>(fault, iv). length iv = 12) f \<Longrightarrow> share_record_wf r \<Longrightarrow> ?save f st r = (Ok (), st') \<Longrightarrow>
      ?ok st' \<and> ?load st' (sr_keyset_id r) = Ok (Some r)"
    using save steady_load [of H iv r X fault p fs h fs' h'] by (auto simp: st)
  show "?ok st \<Longrightarrow> ?save f st r = (out, st') \<Longrightarrow> k \<noteq> sr_keyset_id r \<Longrightarrow> ?load st' k = ?load st k"
    using save save_keeps_files(1) [OF save, of k] save_steady [OF _ save] load_cong [of fs' X p k fs H h] by (auto simp: st)
  show "?ok st \<Longrightarrow> ?save f st r = (out, st') \<Longrightarrow> out \<noteq> Ok () \<Longrightarrow> ?ok st' \<and> ?load st' (sr_keyset_id r) = ?load st (sr_keyset_id r)"
    using save save_keeps_files(2) [OF save, of "sr_keyset_id r"] save_steady [OF _ save] load_cong [of fs' X p "sr_keyset_id r" fs H h] by (auto simp: st)
qed

section \<open>A token for the witnesses\<close>

type_synonym sample_state = "object_handle \<times> (object_handle \<times> attribute list) list"

definition sample_objs :: "sample_state \<Rightarrow> object_handle \<Rightarrow> attribute list option" where
  "sample_objs h = map_of (snd h)"

definition sample_add :: "attribute list \<Rightarrow> (object_handle, sample_state) call" where
  "sample_add t = (\<lambda>(n, os). if map_of os n = None then (Ok n, n + 1, (n, t) # os) else (Err [], n, os))"

definition sample_token :: "sample_state pkcs11" where
  "sample_token =
     \<lparr>load_module = (\<lambda>_ h. (Ok (), h)), initialize = (\<lambda>h. (Ok (), h)), drop_context = id, get_all_slots = (\<lambda>h. (Ok [0], h)),
      token_label = (\<lambda>_ h. (Ok [], h)), open_rw_session = (\<lambda>_ h. (Ok 0, h)), drop_session = (\<lambda>_. id), login = (\<lambda>_ _ h. (Ok (), h)),
      find_objects = (\<lambda>_ t h. (Ok (map fst (filter (\<lambda>(x, as). sample_objs h x = Some as \<and> list_all (\<lambda>a. a \<in> set as) t) (snd h))), h)),
      create_object = (\<lambda>_. sample_add),
      destroy_object = (\<lambda>_ x (n, os). (Ok (), n, filter (\<lambda>(y, _). y \<noteq> x) os)),
      get_attributes = (\<lambda>_ x ts h. (case sample_objs h x of None \<Rightarrow> Err []
        | Some as \<Rightarrow> Ok (filter (\<lambda>a. type_of_attribute a \<in> set ts \<and> (type_of_attribute a = TValue \<longrightarrow> value_readable as)) as), h)),
      wrap_key = (\<lambda>_ _ x h. (case sample_objs h x of None \<Rightarrow> Err []
        | Some as \<Rightarrow> if Extractable False \<in> set as then Err []
            else (case filter (\<lambda>a. type_of_attribute a = TValue) as of [Value v] \<Rightarrow> Ok v | _ \<Rightarrow> Err []), h)),
      unwrap_key = (\<lambda>_ _ w t. sample_add (t @ [Value w])),
      hsm_encrypt = (\<lambda>_ _ _ m h. (Ok (m @ replicate 16 0), h)), hsm_decrypt = (\<lambda>_ _ _ c h. (Ok (take (length c - 16) c), h))\<rparr>"

lemma sample_find: "set (map fst (filter (\<lambda>(x, as). map_of os x = Some as \<and> list_all (\<lambda>a. a \<in> set as) t) os)) =
    {x. \<exists>as. map_of os x = Some as \<and> set t \<subseteq> set as}"
  by (auto simp: list_all_iff subset_iff image_iff dest: map_of_SomeD)

lemma sample_add_spec:
  assumes "sample_add t h = (r, h')"
  shows "case r of Ok x \<Rightarrow> sample_objs h x = None \<and> sample_objs h' = (sample_objs h)(x \<mapsto> t) | _ \<Rightarrow> sample_objs h' = sample_objs h"
  using assms by (cases h) (auto simp: sample_add_def sample_objs_def split: if_splits)

lemma single_value: "filter (\<lambda>a. type_of_attribute a = TValue) as = [Value w] \<Longrightarrow> Value v \<in> set as \<longleftrightarrow> v = w"
proof -
  assume "filter (\<lambda>a. type_of_attribute a = TValue) as = [Value w]"
  then have "set (filter (\<lambda>a. type_of_attribute a = TValue) as) = set [Value w]" by (simp only:)
  then have "Value v \<in> {a \<in> set as. type_of_attribute a = TValue} \<longleftrightarrow> Value v = Value w" by simp
  then show ?thesis by simp
qed

lemma sample_destroy: "map_of (filter (\<lambda>(y, _). y \<noteq> x) os) = (map_of os)(x := None)"
  by (induction os) (auto simp: fun_eq_iff)

lemma sample_unwrap: "unwrap_ok sample_token sample_objs"
  unfolding unwrap_ok_def
proof (intro allI impI)
  fix s k x t h w h1 as r h2
  assume w: "wrap_key sample_token s k x h = (Ok w, h1)" and x: "sample_objs h x = Some as" and t: "TValue \<notin> type_of_attribute ` set t"
    and u: "unwrap_key sample_token s k w t h1 = (r, h2)"
  have "filter (\<lambda>a. type_of_attribute a = TValue) as = [Value w]"
    using w x by (auto simp: sample_token_def split: if_splits list.splits attribute.splits)
  then have v: "Value v \<in> set [Value w] \<longleftrightarrow> Value v \<in> set as" for v using single_value by auto
  have "extends t [Value w]" using t by (auto simp: extends_def)
  moreover have "sample_add (t @ [Value w]) h1 = (r, h2)" using u by (simp add: sample_token_def)
  ultimately have "extends t [Value w]" "case r of Ok y \<Rightarrow> sample_objs h1 y = None \<and> sample_objs h2 = (sample_objs h1)(y \<mapsto> t @ [Value w])
      | _ \<Rightarrow> sample_objs h2 = sample_objs h1" using sample_add_spec by blast+
  then show "case r of Ok y \<Rightarrow> sample_objs h1 y = None \<and>
      (\<exists>ex. extends t ex \<and> sample_objs h2 = (sample_objs h1)(y \<mapsto> t @ ex) \<and> (\<forall>v. Value v \<in> set ex \<longleftrightarrow> Value v \<in> set as)) | _ \<Rightarrow> sample_objs h2 = sample_objs h1"
    using v by (simp only: split: result.splits) (blast, simp_all)
qed

lemma token_ok_sample: "token_ok sample_token sample_objs"
proof -
  have "search_ok sample_token sample_objs"
    unfolding search_ok_def
  proof (intro allI impI)
    fix s t h r h' assume "find_objects sample_token s t h = (r, h')"
    then have "r = Ok (map fst (filter (\<lambda>(x, as). map_of (snd h) x = Some as \<and> list_all (\<lambda>a. a \<in> set as) t) (snd h)))" "h' = h"
      by (auto simp: sample_token_def sample_objs_def)
    then show "sample_objs h' = sample_objs h \<and> (\<forall>xs. r = Ok xs \<longrightarrow> set xs = {x. \<exists>as. sample_objs h x = Some as \<and> set t \<subseteq> set as})"
      using sample_find [of "snd h" t] by (simp add: sample_objs_def)
  qed
  moreover have "create_ok sample_token sample_objs"
    unfolding create_ok_def
  proof (intro allI impI)
    fix s t h r h' assume "create_object sample_token s t h = (r, h')"
    then have "sample_add t h = (r, h')" by (simp add: sample_token_def)
    moreover have "extends t []" by (simp add: extends_def)
    ultimately show "case r of Ok x \<Rightarrow> sample_objs h x = None \<and> (\<exists>ex. extends t ex \<and> sample_objs h' = (sample_objs h)(x \<mapsto> t @ ex))
        | _ \<Rightarrow> sample_objs h' = sample_objs h"
      using sample_add_spec [of t h r h'] by (simp split: result.splits) (metis append_Nil2)
  qed
  moreover have "destroy_ok sample_token sample_objs"
    unfolding destroy_ok_def sample_token_def sample_objs_def using sample_destroy by auto
  moreover have "attributes_ok sample_token sample_objs"
    unfolding attributes_ok_def sample_token_def by (auto split: option.splits)
  moreover have "wrap_ok sample_token sample_objs"
    unfolding wrap_ok_def sample_token_def by (auto split: option.splits if_splits)
  ultimately show ?thesis using sample_unwrap by (simp add: token_ok_def)
qed

section \<open>Properties\<close>



end
