(* ===== verification/Spec2Isabelle.thy ===== *)
theory Spec2Isabelle
  imports Gui_Withdraw Pkcs11
begin

text \<open>
  Verification of the TARDUS e-cash protocol: threshold blind Schnorr signatures by a committee of
  validators, a Solana program that holds collateral and remembers spent coins, wallets, and relays
  that carry payments. All paths are below \<open>src/crates\<close>.

  \<^bold>\<open>How the program is put together.\<close> A committee of validators (\<open>tardus-validator\<close>) generates a joint
  key (\<open>tardus-mint\<close>, on the primitives of \<open>tardus-core\<close>) and registers it on chain
  (\<open>tardus-program\<close>). A wallet (\<open>tardus-wallet\<close>, on \<open>tardus-client\<close> and \<open>tardus-refresh\<close>) asks the
  validators over HTTP for a blind signature on a fresh coin key; the result is a coin. A coin is paid by
  sealing it for the key of an invoice and leaving it in the inbox of a relay (\<open>tardus-relay\<close>), where the
  recipient's wallet collects it. A coin is spent by showing it to the program, which records its
  nullifier; the validators look at that record before they sign the replacement of a refreshed coin.

  \<^bold>\<open>Theories and sources.\<close>
  \<^item> \<open>Tardus_Prelude\<close>: results with panics, the standard library's integer operations, Borsh readers, hash
    maps as association lists, the locale \<open>codec\<close>. \<open>Curve\<close>: the external primitives as the records
    \<open>crypto\<close> and \<open>rng\<close>, with their contract \<open>curve_ok\<close>; \<open>Curve_Instance\<close>: an instance of the contract, used
    by witnesses only. \<open>Interpolation\<close>: Lagrange interpolation.
  \<^item> \<open>Core\<close> (\<open>tardus-core\<close>): keys, Schnorr signatures, the four rounds of blind signing.
  \<^item> \<open>Vss\<close>, \<open>Sign\<close>, \<open>Dkg\<close>, \<open>Rotation\<close> (\<open>tardus-mint\<close>: \<open>vss.rs\<close>, \<open>transcript.rs\<close>, \<open>sign.rs\<close>, \<open>dkg.rs\<close>,
    \<open>rotation.rs\<close>): secret sharing, threshold signing, key generation, share rotation.
  \<^item> \<open>Coin\<close>, \<open>Refresh\<close> (\<open>tardus-refresh\<close>): coins, nullifiers, the six rounds of refresh.
  \<^item> \<open>Program_State\<close>, \<open>Program_Instruction\<close>, \<open>Processor\<close>, \<open>Precompile\<close>, \<open>Sbf\<close> (\<open>tardus-program\<close>):
    accounts and their formats, the instruction format, the processors, the check of the preceding
    signature precompile, the handlers over a ledger of accounts.
  \<^item> \<open>Sessions\<close>, \<open>Storage\<close>, \<open>Transparency\<close>, \<open>Validator\<close>, \<open>Validator_Runs\<close> (\<open>tardus-validator\<close>): tables of
    open sessions, share records at rest, the transparency log, the HTTP handlers over the record
    \<open>app_state\<close>, boot and the routes as one step function.
  \<^item> \<open>Pkcs11\<close> (\<open>tardus-validator/src/pkcs11_store.rs\<close>): the share store on a hardware token.
  \<^item> \<open>Relay\<close> (\<open>tardus-relay\<close>): the inbox with both backends, handlers, routes, start-up.
  \<^item> \<open>Client\<close>, \<open>Invoice\<close> (\<open>tardus-client\<close> and \<open>wallet_db.rs\<close>): coin store, issuance, backups, the wallet
    file, invoice URIs.
  \<^item> \<open>Wallet\<close>, \<open>Wallet_Refresh\<close>, \<open>Wallet_Store\<close>, \<open>Wallet_Commands\<close> (\<open>tardus-wallet\<close>): issuance and refresh
    over a pool of validators, keysets, mnemonics, sealed boxes, and every subcommand of
    \<open>bin/wallet.rs\<close> over the record \<open>world\<close> (disk, generator, network, output).
  \<^item> \<open>Gui_Runtime\<close>, \<open>Gui_Withdraw\<close> (\<open>tardus-wallet-gui/src/runtime.rs\<close>): the commands behind the wallet's window
    and the events they send back.
  \<^item> \<open>Devnet\<close> (\<open>tardus-cli/src/commands/devnet.rs\<close>): the transactions that the operator's tool builds from the
    state of the chain, and its queries.
  \<^item> \<open>System\<close>, \<open>Payment\<close>, \<open>Wallet_Runs\<close>: compositions. The life of a coin from key generation to the
    chain; the validator's guard against the program's account; a payment from the payer's program over
    validators and relay into the recipient's wallet file; what receiving and refreshing do to the file.

  \<^bold>\<open>How code becomes definitions.\<close> A struct is a record, an enum a datatype, a function one definition with
  the same name (a method carries its type's name in front). \<open>Result\<close> is the datatype \<open>result\<close> with a third
  constructor for a panic. Functions with \<open>&mut\<close> arguments return the changed value, also when they fail.
  Integers keep their width: \<open>u16\<close>, \<open>u64\<close> and so on are words, and plain arithmetic wraps as in a release
  build. A \<open>HashMap\<close> is an association list without repeated keys, a \<open>BTreeMap\<close> or \<open>BTreeSet\<close> an ascending
  list. The disk maps paths to contents, and an argument says how a write ends.

  \<^bold>\<open>Parameters.\<close> Code outside the repository is an argument of the definitions that use it:
  \<open>crypto\<close> (curve25519-dalek, SHA-2, HKDF), \<open>rng\<close>, \<open>libs\<close> (hexadecimal, ChaCha20-Poly1305), \<open>json\<close> and
  \<open>payload_json\<close> (serde_json), \<open>bip39\<close>, \<open>x25519\<close>, \<open>runtime\<close> (the Solana runtime), \<open>network\<close> and \<open>relay_net\<close>
  (the HTTP client), \<open>pkcs11\<close> (a token), \<open>solana\<close> (the Solana client and the cluster behind it), and \<open>request_env\<close> and \<open>relay_env\<close> (clocks, random identifiers and I/O outcomes during
  one request). \<open>platform\<close> collects what the wallet program uses. The predicates \<open>curve_ok\<close>, \<open>hash_ok\<close>,
  \<open>hkdf_ok\<close>, \<open>fill_ok\<close>, \<open>libs_ok\<close>, \<open>x25519_ok\<close>, \<open>runtime_ok\<close>,
  \<open>token_ok\<close>, \<open>cluster_ok\<close> state what their documentation promises; every theorem that assumes
  them has a witness at a concrete instance. No cryptographic hardness is assumed: binding and
  tamper evidence are stated as reductions (to a discrete logarithm, to a hash collision), blindness as a
  count of blinding factors.

  \<^bold>\<open>What the theorems show.\<close>
  \<^item> Protocol: honest key generation, rotation, threshold signing, issuance and refresh succeed and give
    valid coins under one joint key; an accepted reveal was honest in all opened candidates; a signer's
    view fits every signature; a reused nonce gives the share away.
  \<^item> Chain: no coin is spent twice, collateral is conserved, accounts stay readable, each handler moves
    what it should, and the on-chain refresh refines the processor.
  \<^item> Daemons: nonces are used once over any run of requests, sessions asked for in time are answered,
    shares and logs survive crashes, the relay keeps messages until they expire.
  \<^item> Wallet: the coin list refines a map, formats and invoices read back, files survive failed
    saves, issuance and refresh end in valid coins, payments arrive; error texts of the window carry no long
    hexadecimal runs.
  \<^item> Operators: a share installed on a token is neither readable nor extractable, and the withdrawals that the
    tool builds are those the program accepts.
  \<^item> Flaws the code has: a rotation dealer can shift the joint key, a withdrawal refused for lack of
    collateral has already marked its coin, a failed save in \<open>receive\<close> loses coins, a refresh in the window overwrites
    what other commands saved while it waited, and a failed read from a token leaves a readable copy there.

  \<^bold>\<open>Interfaces.\<close> \<open>codec\<close> (encoder and decoder), \<open>account_slot\<close> (a value stored in an account),
  \<open>session_table\<close> and \<open>ceremony_table\<close> (validator tables), \<open>share_store\<close> (the trait \<open>ShareStore\<close>, on files and on tokens),
  \<open>inbox_contract\<close> (what wallets rely on in a relay), \<open>sealed_file\<close> (wallet and keyset files) and
  \<open>daemon_calls\<close> (one round of requests to all validators) are locales, each interpreted on the model.

  \<^bold>\<open>Bounds and termination.\<close> There is no fuel in the model. The search for the Pedersen generator ends because its
  32-bit counter overflows into a panic; loops over messages and candidates are recursions over their
  lists. Borsh vectors and strings are shorter than \<open>2 ^ 32\<close> in the well-formedness predicates, because their
  length field has 32 bits.

  \<^bold>\<open>Simplifications.\<close> A request is one atomic step of a daemon; handlers that release a lock between two
  accesses are not interleaved inside. The calls of a round, which \<open>try_join_all\<close> runs concurrently, are
  made in the order of the pool and stop at the first error. A panic of a handler leaves the state as it
  is at that point, except that it poisons the relay's mutex. \<open>trim\<close> removes ASCII white space only. Failures of
  directory creation and the like at boot abort the start. HTTP error answers are their status codes, and
  error texts are constructors.

  \<^bold>\<open>Not modelled.\<close> TLS set-up, metrics and tracing; of \<open>tardus-cli\<close> the argument parser, the printing commands
  and the scripted demonstrations, which spawn daemons and call what is modelled; of \<open>tardus-wallet-gui\<close> the
  drawing, the desktop configuration and the thread with its channels (commands run one at a time, and a refresh
  is divided where it waits); the wallet's examples; wiping of memory; the TypeScript packages \<open>ts-sdk\<close> and \<open>web\<close>.
\<close>

end
